(* ===== verification/Prelude.thy ===== *)
theory Prelude
  imports "HOL-Library.Word"
begin

text \<open>
  Shared vocabulary of the development: machine integers and byte strings, Rust's
  \<open>Result\<close> as a sum (\<open>Inl\<close> is \<open>Err\<close>), little-endian encodings, the checked integer
  conversions of the standard library, the error type of \<^verbatim>\<open>Server/src/shared/error.rs\<close>,
  and the generic lemmas the components share.
\<close>

unbundle bit_operations_syntax

named_theorems wire_simps "reading back what a writer wrote"
named_theorems result_simps "case analysis of results"

type_synonym byte = "8 word"
type_synonym bytes = "8 word list"
type_synonym u16 = "16 word"
type_synonym u32 = "32 word"

section \<open>Results\<close>

fun and_then :: "'e + 'a \<Rightarrow> ('a \<Rightarrow> 'e + 'b) \<Rightarrow> 'e + 'b" where
  "and_then (Inl e) f = Inl e"
| "and_then (Inr x) f = f x"

fun ok :: "'e + 'a \<Rightarrow> 'a option" where
  "ok (Inl e) = None"
| "ok (Inr x) = Some x"

fun ok_or :: "'e \<Rightarrow> 'a option \<Rightarrow> 'e + 'a" where
  "ok_or e None = Inl e"
| "ok_or e (Some x) = Inr x"

fun map_err :: "('e \<Rightarrow> 'f) \<Rightarrow> 'e + 'a \<Rightarrow> 'f + 'a" where
  "map_err g (Inl e) = Inl (g e)"
| "map_err g (Inr x) = Inr x"

fun is_ok :: "'e + 'a \<Rightarrow> bool" where
  "is_ok (Inl e) = False"
| "is_ok (Inr x) = True"

fun unwrap_or :: "'a \<Rightarrow> 'a option \<Rightarrow> 'a" where
  "unwrap_or d None = d"
| "unwrap_or d (Some x) = x"

text \<open>\<open>collect\<close> of results into the result of a list.\<close>

fun collect_results :: "('e + 'a) list \<Rightarrow> 'e + 'a list" where
  "collect_results [] = Inr []"
| "collect_results (Inl e # xs) = Inl e"
| "collect_results (Inr x # xs) = and_then (collect_results xs) (\<lambda>ys. Inr (x # ys))"

text \<open>Sequencing of operations that update a state whether or not they succeed.\<close>

fun st_then :: "('e + 'a) \<times> 's \<Rightarrow> ('a \<Rightarrow> 's \<Rightarrow> ('e + 'b) \<times> 's) \<Rightarrow> ('e + 'b) \<times> 's" where
  "st_then (Inl e, s) f = (Inl e, s)"
| "st_then (Inr x, s) f = f x s"

section \<open>Errors of the wire layer\<close>

text \<open>The kinds of \<open>std::io::Error\<close> the sources distinguish; any other kind is \<open>OtherKind\<close>.\<close>

datatype io_kind =
    NotFound | PermissionDenied | AlreadyExists | ReadOnlyFilesystem
  | StorageFull | QuotaExceeded | FileTooLarge | InvalidInput | InvalidData
  | Unsupported | UnexpectedEofKind | OtherKind

text \<open>
  \<open>FrameError\<close>. The reason of a \<open>Validation\<close> error is kept as the text of its format
  string and the numbers formatted into it. An \<open>io::Error\<close> is its kind.
\<close>

datatype frame_error =
    Validation string "nat list"
  | FrameTooLarge nat
  | UnexpectedEof
  | MalformedFrameMarker byte
  | InvalidCrc u16 u16
  | Io io_kind

definition frame_error_from_io :: "io_kind \<Rightarrow> frame_error" where
  "frame_error_from_io k = (if k = UnexpectedEofKind then UnexpectedEof else Io k)"

section \<open>Integers and bytes\<close>

definition u16_to_le :: "u16 \<Rightarrow> bytes" where
  "u16_to_le w = [ucast w, ucast (drop_bit 8 w)]"

definition u16_of_le :: "byte \<Rightarrow> byte \<Rightarrow> u16" where
  "u16_of_le a b = ucast a OR push_bit 8 (ucast b)"

definition u32_to_le :: "u32 \<Rightarrow> bytes" where
  "u32_to_le w = [ucast w, ucast (drop_bit 8 w), ucast (drop_bit 16 w), ucast (drop_bit 24 w)]"

definition u32_of_le :: "byte \<Rightarrow> byte \<Rightarrow> byte \<Rightarrow> byte \<Rightarrow> u32" where
  "u32_of_le a b c d =
     ucast a OR push_bit 8 (ucast b) OR push_bit 16 (ucast c) OR push_bit 24 (ucast d)"

definition u8_try_from :: "nat \<Rightarrow> byte option" where
  "u8_try_from n = (if n < 256 then Some (of_nat n) else None)"

definition u16_try_from :: "nat \<Rightarrow> u16 option" where
  "u16_try_from n = (if n < 65536 then Some (of_nat n) else None)"

definition u32_try_from :: "nat \<Rightarrow> u32 option" where
  "u32_try_from n = (if n < 4294967296 then Some (of_nat n) else None)"

text \<open>Byte string literals, \<^verbatim>\<open>b"..."\<close> in the sources.\<close>

definition bstr :: "string \<Rightarrow> bytes" where
  "bstr s = map (\<lambda>c. of_nat (of_char c)) s"

section \<open>Lemmas\<close>

lemma and_then_Inr [result_simps]:
  "and_then r f = Inr y \<longleftrightarrow> (\<exists>x. r = Inr x \<and> f x = Inr y)"
  by (cases r) auto

lemma and_then_Inl [result_simps]:
  "and_then r f = Inl e \<longleftrightarrow> r = Inl e \<or> (\<exists>x. r = Inr x \<and> f x = Inl e)"
  by (cases r) auto

lemma and_then_assoc: "and_then (and_then r f) g = and_then r (\<lambda>x. and_then (f x) g)"
  by (cases r) auto

lemma case_list_Inr [result_simps]:
  "(case xs of [] \<Rightarrow> Inl e | x # ys \<Rightarrow> f x ys) = Inr y \<longleftrightarrow> (\<exists>x ys. xs = x # ys \<and> f x ys = Inr y)"
  by (cases xs) auto

lemma case_option_Inr [result_simps]:
  "(case o' of None \<Rightarrow> Inl e | Some x \<Rightarrow> f x) = Inr y \<longleftrightarrow> (\<exists>x. o' = Some x \<and> f x = Inr y)"
  by (cases o') auto

lemma st_then_Inr [result_simps]:
  "st_then p f = (Inr y, s') \<longleftrightarrow> (\<exists>x s. p = (Inr x, s) \<and> f x s = (Inr y, s'))"
  by (cases p, cases "fst p") auto

lemma and_then_cong [fundef_cong]:
  "r = r' \<Longrightarrow> (\<And>x. r' = Inr x \<Longrightarrow> f x = f' x) \<Longrightarrow> and_then r f = and_then r' f'"
  by (cases r') auto

lemma ok_or_Inr [result_simps]: "ok_or e r = Inr x \<longleftrightarrow> r = Some x"
  by (cases r) auto

lemma ok_or_Inl [result_simps]: "ok_or e r = Inl f \<longleftrightarrow> r = None \<and> e = f"
  by (cases r) auto

lemma map_err_Inr [result_simps]: "map_err f r = Inr x \<longleftrightarrow> r = Inr x"
  by (cases r) auto

lemma ok_Some [result_simps]: "ok r = Some x \<longleftrightarrow> r = Inr x"
  by (cases r) auto

lemma ok_None [result_simps]: "ok r = None \<longleftrightarrow> (\<exists>e. r = Inl e)"
  by (cases r) auto

lemma is_ok_iff: "is_ok r \<longleftrightarrow> (\<exists>x. r = Inr x)"
  by (cases r) auto

lemma u16_le_roundtrip [simp]:
  "u16_of_le (ucast w) (ucast (drop_bit 8 w)) = (w :: u16)"
  unfolding u16_of_le_def by (rule bit_word_eqI) (auto simp: bit_simps)

lemma u16_to_le_of_le [simp]: "u16_to_le (u16_of_le a b) = [a, b]"
proof -
  have "ucast (u16_of_le a b) = a"
    unfolding u16_of_le_def by (rule bit_word_eqI) (auto simp: bit_simps)
  moreover have "ucast (drop_bit 8 (u16_of_le a b)) = b"
    unfolding u16_of_le_def by (rule bit_word_eqI) (auto simp: bit_simps dest: bit_imp_le_length)
  ultimately show ?thesis by (simp add: u16_to_le_def)
qed

lemma u32_le_roundtrip [simp]:
  "u32_of_le (ucast w) (ucast (drop_bit 8 w)) (ucast (drop_bit 16 w)) (ucast (drop_bit 24 w))
     = (w :: u32)"
proof (rule bit_word_eqI)
  fix n assume "n < LENGTH(32)"
  then have "n < 8 \<or> 8 \<le> n \<and> n < 16 \<or> 16 \<le> n \<and> n < 24 \<or> 24 \<le> n \<and> n < 32" by auto
  then show "bit (u32_of_le (ucast w) (ucast (drop_bit 8 w)) (ucast (drop_bit 16 w))
                    (ucast (drop_bit 24 w))) n = bit w n"
    by (elim disjE) (auto simp add: u32_of_le_def bit_simps)
qed

lemma u32_to_le_of_le [simp]: "u32_to_le (u32_of_le a b c d) = [a, b, c, d]"
proof -
  have "ucast (u32_of_le a b c d) = a"
    unfolding u32_of_le_def by (rule bit_word_eqI) (auto simp: bit_simps)
  moreover have "ucast (drop_bit 8 (u32_of_le a b c d)) = b"
    unfolding u32_of_le_def by (rule bit_word_eqI) (auto simp: bit_simps dest: bit_imp_le_length)
  moreover have "ucast (drop_bit 16 (u32_of_le a b c d)) = c"
    unfolding u32_of_le_def by (rule bit_word_eqI) (auto simp: bit_simps dest: bit_imp_le_length)
  moreover have "ucast (drop_bit 24 (u32_of_le a b c d)) = d"
    unfolding u32_of_le_def by (rule bit_word_eqI) (auto simp: bit_simps dest: bit_imp_le_length)
  ultimately show ?thesis by (simp add: u32_to_le_def)
qed

lemma length_u16_to_le [simp]: "length (u16_to_le w) = 2"
  by (simp add: u16_to_le_def)

lemma length_u32_to_le [simp]: "length (u32_to_le w) = 4"
  by (simp add: u32_to_le_def)

lemma u16_try_from_Some [simp]: "u16_try_from n = Some w \<longleftrightarrow> n < 65536 \<and> w = of_nat n"
  by (auto simp: u16_try_from_def)

lemma u16_try_from_None [simp]: "u16_try_from n = None \<longleftrightarrow> 65536 \<le> n"
  by (auto simp: u16_try_from_def)

lemma u8_try_from_Some [simp]: "u8_try_from n = Some w \<longleftrightarrow> n < 256 \<and> w = of_nat n"
  by (auto simp: u8_try_from_def)

lemma u8_try_from_None [simp]: "u8_try_from n = None \<longleftrightarrow> 256 \<le> n"
  by (auto simp: u8_try_from_def)

lemma unat_of_nat_u16 [simp]: "n < 65536 \<Longrightarrow> unat (of_nat n :: u16) = n"
  by (simp add: unat_of_nat take_bit_nat_eq_self)

lemma unat_of_nat_u8 [simp]: "n < 256 \<Longrightarrow> unat (of_nat n :: byte) = n"
  by (simp add: unat_of_nat take_bit_nat_eq_self)

lemma unat_u16_less [simp]: "unat (w :: u16) < 65536"
  using unsigned_less[of w] by simp

lemma unat_u8_less [simp]: "unat (w :: byte) < 256"
  using unsigned_less[of w] by simp

lemma length_bstr [simp]: "length (bstr s) = length s"
  by (simp add: bstr_def)

end
