(* ===== verification/Wire_IO.thy ===== *)
theory Wire_IO
  imports Prelude
begin

text \<open>
  \<^verbatim>\<open>Server/src/shared/io.rs\<close>: the reading and writing helpers every wire format is built
  from. An \<open>io::Cursor<&[u8]>\<close> is represented by its unread bytes: the position only moves
  forward and never past the end, so the unread bytes are all a reader can observe. A reader
  returns the value and the cursor it leaves, or the error; every caller gives the cursor up on
  an error. A \<open>Vec<u8>\<close> sink never fails, so a plain writer is a function on byte strings.
\<close>

type_synonym cursor = bytes
type_synonym 'a reader = "cursor \<Rightarrow> frame_error + ('a \<times> cursor)"

section \<open>Readers\<close>

definition read_array :: "nat \<Rightarrow> bytes reader" where
  "read_array n c = (if n \<le> length c then Inr (take n c, drop n c)
                     else Inl (frame_error_from_io UnexpectedEofKind))"

definition read_u8 :: "byte reader" where
  "read_u8 c = (case c of [] \<Rightarrow> Inl (frame_error_from_io UnexpectedEofKind)
                        | b # rest \<Rightarrow> Inr (b, rest))"

definition read_u16 :: "u16 reader" where
  "read_u16 c = (case c of a # b # rest \<Rightarrow> Inr (u16_of_le a b, rest)
                         | _ \<Rightarrow> Inl (frame_error_from_io UnexpectedEofKind))"

definition read_u32 :: "u32 reader" where
  "read_u32 c = (case c of a # b # d # e # rest \<Rightarrow> Inr (u32_of_le a b d e, rest)
                         | _ \<Rightarrow> Inl (frame_error_from_io UnexpectedEofKind))"

text \<open>
  \<open>read_slice\<close>. The branch for an overflowing end offset cannot be taken: a slice is at most
  \<open>isize::MAX\<close> bytes long and the lengths read from the wire are 16-bit.
\<close>

definition read_slice :: "nat \<Rightarrow> bytes reader" where
  "read_slice n c = (if n \<le> length c then Inr (take n c, drop n c)
                     else Inl (frame_error_from_io UnexpectedEofKind))"

definition read_remainder :: "cursor \<Rightarrow> bytes \<times> cursor" where
  "read_remainder c = (c, [])"

definition read_small_slice :: "bytes reader" where
  "read_small_slice c = and_then (read_u8 c) (\<lambda>(length, c). read_slice (unat length) c)"

section \<open>Writers\<close>

definition write_u8 :: "byte \<Rightarrow> bytes \<Rightarrow> bytes" where
  "write_u8 v dst = dst @ [v]"

definition write_u16 :: "u16 \<Rightarrow> bytes \<Rightarrow> bytes" where
  "write_u16 v dst = dst @ u16_to_le v"

definition write_all :: "bytes \<Rightarrow> bytes \<Rightarrow> bytes" where
  "write_all v dst = dst @ v"

definition write_u8_slice :: "bytes \<Rightarrow> bytes \<Rightarrow> frame_error + bytes" where
  "write_u8_slice v dst =
     (case u8_try_from (length v) of
        None \<Rightarrow> Inl (Validation ''a slice of {} bytes overruns its u8 length prefix'' [length v])
      | Some l \<Rightarrow> Inr (write_all v (write_u8 l dst)))"

definition with_u16_len :: "bytes \<Rightarrow> (bytes \<Rightarrow> frame_error + bytes) \<Rightarrow> frame_error + bytes" where
  "with_u16_len dst f =
     (let at = length dst in
      and_then (f (dst @ [0, 0])) (\<lambda>dst.
        let body_length = length dst - (at + 2) in
        case u16_try_from body_length of
          None \<Rightarrow> Inl (Validation ''a block of {body_length} bytes overruns its u16 length prefix''
                       [body_length])
        | Some len \<Rightarrow>
            if at + 2 \<le> length dst
            then Inr (take at dst @ u16_to_le len @ drop (at + 2) dst)
            else Inl (Validation ''the block body consumed its own length prefix'' [])))"

section \<open>Lemmas\<close>

lemma read_u8_Cons [simp]: "read_u8 (b # c) = Inr (b, c)"
  by (simp add: read_u8_def)

lemma read_u8_Nil [simp]: "read_u8 [] = Inl UnexpectedEof"
  by (simp add: read_u8_def frame_error_from_io_def)

lemma read_u16_Cons [simp]: "read_u16 (a # b # c) = Inr (u16_of_le a b, c)"
  by (simp add: read_u16_def)

lemma read_u16_short [simp]: "length c < 2 \<Longrightarrow> read_u16 c = Inl UnexpectedEof"
  by (auto simp: read_u16_def frame_error_from_io_def split: list.splits)

lemma read_u8_Inr: "read_u8 c = Inr (b, c') \<longleftrightarrow> c = b # c'"
  by (cases c) auto

lemma read_u16_Inr: "read_u16 c = Inr (w, c') \<longleftrightarrow> c = u16_to_le w @ c'"
proof
  assume "read_u16 c = Inr (w, c')"
  then obtain a b where "c = a # b # c'" "w = u16_of_le a b"
    by (auto simp: read_u16_def split: list.splits)
  then show "c = u16_to_le w @ c'" by simp
qed (simp add: u16_to_le_def)

lemma read_u16_write [wire_simps]: "read_u16 (u16_to_le w @ c) = Inr (w, c)"
  by (simp add: u16_to_le_def)

lemma read_u16_all [wire_simps]: "read_u16 (u16_to_le w) = Inr (w, [])"
  by (simp add: u16_to_le_def)

lemma read_u32_write [wire_simps]: "read_u32 (u32_to_le w @ c) = Inr (w, c)"
  by (simp add: u32_to_le_def read_u32_def)

lemma read_u32_Inr: "read_u32 c = Inr (w, c') \<longleftrightarrow> c = u32_to_le w @ c'"
proof
  assume "read_u32 c = Inr (w, c')"
  then obtain a b d e where "c = a # b # d # e # c'" "w = u32_of_le a b d e"
    by (auto simp: read_u32_def split: list.splits)
  then show "c = u32_to_le w @ c'" by simp
qed (simp add: wire_simps)

lemma read_slice_write [wire_simps]: "n = length v \<Longrightarrow> read_slice n (v @ c) = Inr (v, c)"
  by (simp add: read_slice_def)

lemma read_slice_all [wire_simps]: "n = length v \<Longrightarrow> read_slice n v = Inr (v, [])"
  by (simp add: read_slice_def)

lemma read_slice_Inr:
  "read_slice n c = Inr (v, c') \<longleftrightarrow> c = v @ c' \<and> length v = n"
  by (auto simp: read_slice_def)

lemma read_slice_short: "length c < n \<Longrightarrow> read_slice n c = Inl UnexpectedEof"
  by (simp add: read_slice_def frame_error_from_io_def)

lemma read_array_Inr:
  "read_array n c = Inr (v, c') \<longleftrightarrow> c = v @ c' \<and> length v = n"
  by (auto simp: read_array_def)

lemma read_array_write [wire_simps]: "n = length v \<Longrightarrow> read_array n (v @ c) = Inr (v, c)"
  by (simp add: read_array_def)

lemma read_small_slice_write [wire_simps]:
  "length v < 256 \<Longrightarrow> read_small_slice (of_nat (length v) # v @ c) = Inr (v, c)"
  by (simp add: read_small_slice_def read_slice_write)

lemma read_small_slice_Inr:
  "read_small_slice c = Inr (v, c') \<longleftrightarrow> length v < 256 \<and> c = of_nat (length v) # v @ c'"
proof
  assume "read_small_slice c = Inr (v, c')"
  then obtain l where "c = l # v @ c'" "length v = unat l"
    by (auto simp: read_small_slice_def result_simps read_u8_Inr read_slice_Inr)
  then show "length v < 256 \<and> c = of_nat (length v) # v @ c'" by simp
qed (simp add: read_small_slice_write)

lemma write_u8_slice_Inr:
  "write_u8_slice v dst = Inr d \<longleftrightarrow> length v < 256 \<and> d = dst @ of_nat (length v) # v"
  by (auto simp: write_u8_slice_def write_all_def write_u8_def split: option.splits)

lemma write_u8_slice_Inl:
  "write_u8_slice v dst = Inl e \<longleftrightarrow>
     256 \<le> length v \<and> e = Validation ''a slice of {} bytes overruns its u8 length prefix'' [length v]"
  by (auto simp: write_u8_slice_def split: option.splits)

text \<open>
  The length prefix agrees with the block it describes whenever the block writer only appends,
  which every block writer in the sources does.
\<close>

lemma with_u16_len_appending:
  assumes "f (dst @ [0, 0]) = Inr (dst @ [0, 0] @ body)"
  shows "with_u16_len dst f =
    (if length body < 65536 then Inr (dst @ u16_to_le (of_nat (length body)) @ body)
     else Inl (Validation ''a block of {body_length} bytes overruns its u16 length prefix''
                [length body]))"
  using assms by (simp add: with_u16_len_def Let_def u16_try_from_def)

end
