(* ===== verification/Tlv_Records.thy ===== *)
theory Tlv_Records
  imports Wire_IO
begin

text \<open>
  \<^verbatim>\<open>Server/src/shared/tlv.rs\<close>: the walk over tagged records that the Sentry and the GRiDMail
  dialects share. The iterator is a record of its state with its \<open>next\<close> function; the adaptors
  the source chains onto it (\<open>collect\<close>, \<open>map_while\<close>, \<open>flatten\<close>, \<open>find\<close>) work on the list of
  items that repeated calls of \<open>next\<close> yield.
\<close>

datatype tlv_kind = TagU8 | MarkerU16 byte

record tlv_entry =
  entry_tag :: byte
  entry_value :: bytes

record tlv =
  tlv_cursor :: cursor
  tlv_dialect :: tlv_kind
  tlv_failed :: bool

definition tlv_new :: "bytes \<Rightarrow> tlv_kind \<Rightarrow> tlv" where
  "tlv_new data k = \<lparr>tlv_cursor = data, tlv_dialect = k, tlv_failed = False\<rparr>"

definition tlv_tag_u8 :: "bytes \<Rightarrow> tlv" where
  "tlv_tag_u8 data = tlv_new data TagU8"

definition tlv_marker_u16 :: "bytes \<Rightarrow> byte \<Rightarrow> tlv" where
  "tlv_marker_u16 data marker = tlv_new data (MarkerU16 marker)"

fun tlv_read_entry :: "tlv_kind \<Rightarrow> tlv_entry reader" where
  "tlv_read_entry TagU8 c =
     and_then (read_u8 c) (\<lambda>(tag, c).
     and_then (read_u8 c) (\<lambda>(len, c).
     and_then (read_slice (unat len) c) (\<lambda>(v, c).
       Inr (\<lparr>entry_tag = tag, entry_value = v\<rparr>, c))))"
| "tlv_read_entry (MarkerU16 marker) c =
     and_then (read_u8 c) (\<lambda>(found, c).
     if found \<noteq> marker
     then Inl (Validation ''expected record marker {marker}, found {found}''
                 [unat marker, unat found])
     else
       and_then (read_u16 c) (\<lambda>(len, c).
       and_then (read_slice (unat len) c) (\<lambda>(record, c).
         case record of
           [] \<Rightarrow> Inl (Validation ''record length must cover the tag byte'' [])
         | tag # v \<Rightarrow> Inr (\<lparr>entry_tag = tag, entry_value = v\<rparr>, c))))"

definition tlv_next :: "tlv \<Rightarrow> (frame_error + tlv_entry) option \<times> tlv" where
  "tlv_next t =
     (if tlv_failed t \<or> tlv_cursor t = [] then (None, t)
      else case tlv_read_entry (tlv_dialect t) (tlv_cursor t) of
             Inl e \<Rightarrow> (Some (Inl e), t\<lparr>tlv_failed := True\<rparr>)
           | Inr (entry, c) \<Rightarrow> (Some (Inr entry), t\<lparr>tlv_cursor := c\<rparr>))"

text \<open>Every record takes at least its two header bytes, so the walk ends.\<close>

lemma tlv_read_entry_shrinks:
  "tlv_read_entry k c = Inr (e, c') \<Longrightarrow> length c' < length c"
  by (cases k)
     (auto simp: result_simps read_u8_Inr read_u16_Inr read_slice_Inr
           split: if_splits)

definition tlv_measure :: "tlv \<Rightarrow> nat" where
  "tlv_measure t = (if tlv_failed t then 0 else Suc (length (tlv_cursor t)))"

lemma tlv_next_measure:
  "tlv_next t = (Some x, t') \<Longrightarrow> tlv_measure t' < tlv_measure t"
  by (auto simp: tlv_next_def tlv_measure_def dest: tlv_read_entry_shrinks
           split: if_splits sum.splits)

function tlv_items :: "tlv \<Rightarrow> (frame_error + tlv_entry) list" where
  "tlv_items t = (case tlv_next t of (None, _) \<Rightarrow> [] | (Some x, t') \<Rightarrow> x # tlv_items t')"
  by pat_completeness auto
termination
  by (relation "measure tlv_measure") (auto intro: tlv_next_measure dest: sym)

declare tlv_items.simps [simp del]

fun map_while_ok :: "('e + 'a) list \<Rightarrow> 'a list" where
  "map_while_ok (Inr x # xs) = x # map_while_ok xs"
| "map_while_ok _ = []"

definition tlv_collect_all :: "tlv \<Rightarrow> frame_error + tlv_entry list" where
  "tlv_collect_all t = collect_results (tlv_items t)"

definition tlv_well_formed_prefix :: "tlv \<Rightarrow> tlv_entry list" where
  "tlv_well_formed_prefix t = map_while_ok (tlv_items t)"

definition tlv_find_tag :: "tlv \<Rightarrow> byte \<Rightarrow> bytes option" where
  "tlv_find_tag t wanted =
     map_option entry_value
       (find (\<lambda>e. entry_tag e = wanted) (List.map_filter ok (tlv_items t)))"

fun count_valid :: "nat \<Rightarrow> (frame_error + tlv_entry) list \<Rightarrow> bool" where
  "count_valid n [] = (n \<noteq> 0)"
| "count_valid n (Inl e # xs) = False"
| "count_valid n (Inr x # xs) = count_valid (n + 1) xs"

definition tlv_all_records_valid :: "tlv \<Rightarrow> bool" where
  "tlv_all_records_valid t = count_valid 0 (tlv_items t)"

section \<open>Lemmas on the walk\<close>

lemma tlv_items_failed [simp]: "tlv_failed t \<Longrightarrow> tlv_items t = []"
  by (subst tlv_items.simps) (simp add: tlv_next_def)

lemma tlv_items_Nil [simp]: "tlv_items (tlv_new [] k) = []"
  by (subst tlv_items.simps) (simp add: tlv_next_def tlv_new_def)

lemma tlv_items_Inl:
  "c \<noteq> [] \<Longrightarrow> tlv_read_entry k c = Inl e \<Longrightarrow> tlv_items (tlv_new c k) = [Inl e]"
  by (subst tlv_items.simps) (simp add: tlv_next_def tlv_new_def)

lemma tlv_items_Inr:
  "c \<noteq> [] \<Longrightarrow> tlv_read_entry k c = Inr (e, c') \<Longrightarrow>
     tlv_items (tlv_new c k) = Inr e # tlv_items (tlv_new c' k)"
  by (subst tlv_items.simps) (simp add: tlv_next_def tlv_new_def)

lemmas tlv_items_simps = tlv_items_Nil tlv_items_Inl tlv_items_Inr

lemma tlv_read_entry_Nil: "tlv_read_entry k [] = Inl UnexpectedEof"
  by (cases k) simp_all

text \<open>
  The shape of every walk: well-formed entries, then at most one error, after which the
  iterator is exhausted.
\<close>

lemma tlv_items_shape:
  "\<exists>es tail. tlv_items (tlv_new c k) = map Inr es @ tail \<and> (tail = [] \<or> (\<exists>e. tail = [Inl e]))"
proof (induction c rule: length_induct)
  case (1 c)
  show ?case
  proof (cases "c = []")
    case True
    then have "tlv_items (tlv_new c k) = map Inr [] @ []" by simp
    then show ?thesis by blast
  next
    case ne: False
    show ?thesis
    proof (cases "tlv_read_entry k c")
      case (Inl e)
      with ne have "tlv_items (tlv_new c k) = map Inr [] @ [Inl e]" by (simp add: tlv_items_Inl)
      then show ?thesis by blast
    next
      case (Inr r)
      obtain e c' where r: "r = (e, c')" by (cases r)
      from Inr r have "length c' < length c" by (auto dest: tlv_read_entry_shrinks)
      with "1" obtain es tail where
        "tlv_items (tlv_new c' k) = map Inr es @ tail" "tail = [] \<or> (\<exists>e. tail = [Inl e])"
        by blast
      moreover from ne Inr r have "tlv_items (tlv_new c k) = Inr e # tlv_items (tlv_new c' k)"
        by (simp add: tlv_items_Inr)
      ultimately have "tlv_items (tlv_new c k) = map Inr (e # es) @ tail" by simp
      with \<open>tail = [] \<or> (\<exists>e. tail = [Inl e])\<close> show ?thesis by blast
    qed
  qed
qed

lemma collect_results_map_Inr [simp]: "collect_results (map Inr es @ tail) =
    and_then (collect_results tail) (\<lambda>ys. Inr (es @ ys))"
  by (induction es) (simp_all add: and_then_assoc, cases "collect_results tail", simp_all)

lemma map_while_ok_map_Inr [simp]: "map_while_ok (map Inr es @ tail) = es @ map_while_ok tail"
  by (induction es) auto

lemma map_filter_ok_map_Inr [simp]:
  "List.map_filter ok (map Inr es @ tail) = es @ List.map_filter ok tail"
  by (induction es) (auto simp: List.map_filter_def)

lemma count_valid_iff:
  "count_valid n xs \<longleftrightarrow> (n \<noteq> 0 \<or> xs \<noteq> []) \<and> (\<exists>es. collect_results xs = Inr es)"
proof (induction n xs rule: count_valid.induct)
  case (3 n x xs)
  then show ?case by (auto simp: result_simps)
qed auto

lemma find_tag_in_prefix:
  "tlv_find_tag (tlv_new c k) w =
     map_option entry_value (find (\<lambda>e. entry_tag e = w) (tlv_well_formed_prefix (tlv_new c k)))"
proof -
  obtain es tail where "tlv_items (tlv_new c k) = map Inr es @ tail"
    "tail = [] \<or> (\<exists>e. tail = [Inl e])" using tlv_items_shape by blast
  then show ?thesis
    by (auto simp: tlv_find_tag_def tlv_well_formed_prefix_def List.map_filter_def comp_def)
qed

lemma collect_all_step:
  "tlv_collect_all (tlv_new c k) =
     (if c = [] then Inr []
      else and_then (tlv_read_entry k c) (\<lambda>(e, c').
             and_then (tlv_collect_all (tlv_new c' k)) (\<lambda>es. Inr (e # es))))"
  by (cases "tlv_read_entry k c")
     (auto simp: tlv_collect_all_def tlv_items_simps)

section \<open>The contract of a record dialect\<close>

text \<open>
  What a dialect promises: an encoder of single records, the records it can encode, and a
  reader that accepts exactly the encodings. Both dialects of the server meet it; the facts
  about whole record streams are proved here once.
\<close>

locale record_dialect =
  fixes dialect :: tlv_kind
    and enc :: "byte \<Rightarrow> bytes \<Rightarrow> bytes"
    and fits :: "bytes \<Rightarrow> bool"
  assumes read_iff: "tlv_read_entry dialect c = Inr (e, rest) \<longleftrightarrow>
    fits (entry_value e) \<and> c = enc (entry_tag e) (entry_value e) @ rest"
begin

definition encode_all :: "tlv_entry list \<Rightarrow> bytes" where
  "encode_all es = concat (map (\<lambda>e. enc (entry_tag e) (entry_value e)) es)"

lemma enc_nonempty: "fits v \<Longrightarrow> enc t v \<noteq> []"
  using read_iff[of "enc t v" "\<lparr>entry_tag = t, entry_value = v\<rparr>" "[]"]
  by (auto simp: tlv_read_entry_Nil)

lemma collect_encoded:
  "\<forall>e \<in> set es. fits (entry_value e) \<Longrightarrow>
     tlv_collect_all (tlv_new (encode_all es) dialect) = Inr es"
proof (induction es)
  case Nil
  then show ?case by (simp add: encode_all_def tlv_collect_all_def)
next
  case (Cons e es)
  then have "tlv_read_entry dialect (encode_all (e # es)) = Inr (e, encode_all es)"
    by (simp add: read_iff encode_all_def)
  moreover from Cons.prems have "encode_all (e # es) \<noteq> []"
    by (auto simp: encode_all_def enc_nonempty)
  ultimately show ?case using Cons by (subst collect_all_step) simp
qed

lemma collect_only_encodings:
  "tlv_collect_all (tlv_new c dialect) = Inr es \<Longrightarrow>
     c = encode_all es \<and> (\<forall>e \<in> set es. fits (entry_value e))"
proof (induction es arbitrary: c)
  case Nil
  then show ?case
    by (subst (asm) collect_all_step) (auto simp: encode_all_def result_simps split: if_splits)
next
  case (Cons e es)
  from Cons.prems have "c \<noteq> []" by (auto simp: tlv_collect_all_def)
  with Cons.prems obtain c' where r: "tlv_read_entry dialect c = Inr (e, c')"
    and "tlv_collect_all (tlv_new c' dialect) = Inr es"
    by (subst (asm) collect_all_step) (auto simp: result_simps)
  with Cons.IH have "c' = encode_all es \<and> (\<forall>e \<in> set es. fits (entry_value e))" by blast
  with r show ?case by (auto simp: read_iff encode_all_def)
qed

lemma collect_all_iff:
  "tlv_collect_all (tlv_new c dialect) = Inr es \<longleftrightarrow>
     c = encode_all es \<and> (\<forall>e \<in> set es. fits (entry_value e))"
  using collect_encoded collect_only_encodings by blast

lemma all_records_valid_iff:
  "tlv_all_records_valid (tlv_new c dialect) \<longleftrightarrow>
     (\<exists>es. es \<noteq> [] \<and> c = encode_all es \<and> (\<forall>e \<in> set es. fits (entry_value e)))"
proof -
  have "tlv_items (tlv_new c dialect) \<noteq> [] \<longleftrightarrow> c \<noteq> []"
    by (cases "tlv_read_entry dialect c") (cases "c = []", auto simp: tlv_items_simps)+
  then have "tlv_all_records_valid (tlv_new c dialect) \<longleftrightarrow>
      c \<noteq> [] \<and> (\<exists>es. tlv_collect_all (tlv_new c dialect) = Inr es)"
    by (simp add: tlv_all_records_valid_def count_valid_iff tlv_collect_all_def)
  also have "\<dots> \<longleftrightarrow> c \<noteq> [] \<and> (\<exists>es. c = encode_all es \<and> (\<forall>e \<in> set es. fits (entry_value e)))"
    by (simp add: collect_all_iff)
  also have "\<dots> \<longleftrightarrow> (\<exists>es. es \<noteq> [] \<and> c = encode_all es \<and> (\<forall>e \<in> set es. fits (entry_value e)))"
  proof -
    have "encode_all es = [] \<longleftrightarrow> es = []" if "\<forall>e \<in> set es. fits (entry_value e)" for es
      using that by (cases es) (auto simp: encode_all_def enc_nonempty)
    then show ?thesis by auto
  qed
  finally show ?thesis .
qed

end

text \<open>The two wire forms: \<open><tag><u8 length><value>\<close> and \<open><marker><u16 length><tag + value>\<close>.\<close>

definition tag_u8_record :: "byte \<Rightarrow> bytes \<Rightarrow> bytes" where
  "tag_u8_record t v = t # of_nat (length v) # v"

definition marker_u16_record :: "byte \<Rightarrow> byte \<Rightarrow> bytes \<Rightarrow> bytes" where
  "marker_u16_record m t v = m # u16_to_le (of_nat (Suc (length v))) @ t # v"

interpretation tag_u8: record_dialect TagU8 tag_u8_record "\<lambda>v. length v < 256"
proof unfold_locales
  fix c e rest
  show "tlv_read_entry TagU8 c = Inr (e, rest) \<longleftrightarrow>
    length (entry_value e) < 256 \<and> c = tag_u8_record (entry_tag e) (entry_value e) @ rest"
    by (cases e)
       (auto simp: result_simps read_u8_Inr read_slice_Inr tag_u8_record_def)
qed

interpretation marker_u16: record_dialect "MarkerU16 m" "marker_u16_record m"
  "\<lambda>v. length v < 65535" for m
proof unfold_locales
  fix c e rest
  show "tlv_read_entry (MarkerU16 m) c = Inr (e, rest) \<longleftrightarrow>
    length (entry_value e) < 65535 \<and> c = marker_u16_record m (entry_tag e) (entry_value e) @ rest"
    (is "?l \<longleftrightarrow> ?r")
  proof
    assume ?l
    then obtain len where c: "c = m # u16_to_le len @ entry_tag e # entry_value e @ rest"
      and "Suc (length (entry_value e)) = unat len"
      by (cases e)
         (auto simp: result_simps read_u8_Inr read_u16_Inr read_slice_Inr
               split: if_splits)
    then have "len = of_nat (Suc (length (entry_value e)))" by (metis of_nat_unat ucast_id)
    moreover have "length (entry_value e) < 65535"
      using \<open>Suc (length (entry_value e)) = unat len\<close> unat_u16_less[of len] by linarith
    ultimately show ?r using c by (simp add: marker_u16_record_def)
  next
    assume r: ?r
    then have "unat (of_nat (Suc (length (entry_value e))) :: u16) = Suc (length (entry_value e))"
      by (intro unat_of_nat_u16) simp
    with r show ?l
      by (cases e) (auto simp: marker_u16_record_def read_u16_write read_slice_def simp del: of_nat_Suc)
  qed
qed

lemma marker_u16_items:
  "length v < 65535 \<Longrightarrow>
   tlv_items (tlv_new (marker_u16_record m t v @ rest) (MarkerU16 m)) =
     Inr \<lparr>entry_tag = t, entry_value = v\<rparr> # tlv_items (tlv_new rest (MarkerU16 m))"
  by (rule tlv_items_Inr) (simp_all add: marker_u16.read_iff del: tlv_read_entry.simps, simp add: marker_u16_record_def)

section \<open>Properties\<close>

text \<open>Both record dialects are accepted exactly: a payload decodes to a list of records precisely
  when it is the concatenation of their encodings and every value fits its length field, and the
  validity check passes precisely on non-empty such payloads.\<close>

lemma tlv_accepts_exactly:
  "(tlv_collect_all (tlv_new c TagU8) = Inr es \<longleftrightarrow>
      c = concat (map (\<lambda>e. tag_u8_record (entry_tag e) (entry_value e)) es) \<and>
      list_all (\<lambda>e. length (entry_value e) < 256) es) \<and>
   (tlv_collect_all (tlv_new c (MarkerU16 m)) = Inr es \<longleftrightarrow>
      c = concat (map (\<lambda>e. marker_u16_record m (entry_tag e) (entry_value e)) es) \<and>
      list_all (\<lambda>e. length (entry_value e) < 65535) es) \<and>
   (tlv_all_records_valid (tlv_new c TagU8) \<longleftrightarrow>
      (\<exists>es :: tlv_entry list. es \<noteq> [] \<and> c = concat (map (\<lambda>e. tag_u8_record (entry_tag e) (entry_value e)) es) \<and>
            list_all (\<lambda>e. length (entry_value e) < 256) es))"
  using tag_u8.collect_all_iff[of c es] marker_u16.collect_all_iff[of c m es] tag_u8.all_records_valid_iff[of c]
  by (simp add: tag_u8.encode_all_def marker_u16.encode_all_def list_all_iff)

end
