(* ===== verification/Raw_Frame.thy ===== *)
theory Raw_Frame
  imports Wire_IO
begin

text \<open>
  \<^verbatim>\<open>Server/src/server/raw_frame.rs\<close>: byte stuffing and the checksum of the GRiDLink transport.
  The connection a frame is read from is the bytes that will still arrive and the error kind the
  read after them reports (\<open>UnexpectedEofKind\<close> for a peer that closed). The connection a frame is
  written to is the bytes already sent and, for a link that will break, how many more it takes.
\<close>

record in_stream =
  in_bytes :: bytes
  in_end :: io_kind

record out_stream =
  sent :: bytes
  room :: "nat option"

definition stream_read_u8 :: "in_stream \<Rightarrow> frame_error + (byte \<times> in_stream)" where
  "stream_read_u8 src = (case in_bytes src of
      [] \<Rightarrow> Inl (frame_error_from_io (in_end src))
    | b # rest \<Rightarrow> Inr (b, src\<lparr>in_bytes := rest\<rparr>))"

definition stream_read_u16 :: "in_stream \<Rightarrow> frame_error + (u16 \<times> in_stream)" where
  "stream_read_u16 src = (case in_bytes src of
      a # b # rest \<Rightarrow> Inr (u16_of_le a b, src\<lparr>in_bytes := rest\<rparr>)
    | _ \<Rightarrow> Inl (frame_error_from_io (in_end src)))"

definition stream_write_all :: "bytes \<Rightarrow> out_stream \<Rightarrow> (frame_error + unit) \<times> out_stream" where
  "stream_write_all bs dst = (case room dst of
      None \<Rightarrow> (Inr (), dst\<lparr>sent := sent dst @ bs\<rparr>)
    | Some n \<Rightarrow>
        if length bs \<le> n
        then (Inr (), dst\<lparr>sent := sent dst @ bs, room := Some (n - length bs)\<rparr>)
        else (Inl (frame_error_from_io OtherKind), dst\<lparr>sent := sent dst @ take n bs, room := Some 0\<rparr>))"

definition DLE :: byte where "DLE = 0x10"
definition STX :: byte where "STX = 0x02"
definition ETX :: byte where "ETX = 0x03"

definition MAX_FRAME_SIZE :: nat where "MAX_FRAME_SIZE = 4 + 526"

record raw_frame =
  raw_data :: bytes

definition raw_frame_new :: "bytes \<Rightarrow> raw_frame" where
  "raw_frame_new data = \<lparr>raw_data = data\<rparr>"

definition crc16_bit :: "u16 \<Rightarrow> u16" where
  "crc16_bit crc = (if crc AND 1 \<noteq> 0 then drop_bit 1 crc XOR 0xA001 else drop_bit 1 crc)"

definition crc16_byte :: "u16 \<Rightarrow> byte \<Rightarrow> u16" where
  "crc16_byte crc b = (crc16_bit ^^ 8) (crc XOR ucast b)"

definition crc16 :: "bytes \<Rightarrow> u16" where
  "crc16 data = foldl crc16_byte 0 data"

definition push_unstuffed :: "bytes \<Rightarrow> byte \<Rightarrow> frame_error + bytes" where
  "push_unstuffed buffer b =
     (if length buffer \<ge> MAX_FRAME_SIZE then Inl (FrameTooLarge MAX_FRAME_SIZE)
      else Inr (buffer @ [b]))"

lemma stream_read_u8_shrinks:
  "stream_read_u8 src = Inr (b, src') \<Longrightarrow> length (in_bytes src') < length (in_bytes src)"
  by (auto simp: stream_read_u8_def split: list.splits)

function read_unstuffed :: "bytes \<Rightarrow> in_stream \<Rightarrow> frame_error + (bytes \<times> in_stream)" where
  "read_unstuffed buffer src =
     and_then (stream_read_u8 src) (\<lambda>(b, src').
       if b \<noteq> DLE then and_then (push_unstuffed buffer b) (\<lambda>buffer. read_unstuffed buffer src')
       else
         and_then (stream_read_u8 src') (\<lambda>(b, src'').
           if b = DLE then and_then (push_unstuffed buffer DLE) (\<lambda>buffer. read_unstuffed buffer src'')
           else if b = STX then read_unstuffed [] src''
           else if b = ETX then Inr (buffer, src'')
           else Inl (MalformedFrameMarker b)))"
  by pat_completeness auto
termination
  by (relation "measure (\<lambda>(_, src). length (in_bytes src))")
     (auto dest!: stream_read_u8_shrinks)

declare read_unstuffed.simps [simp del]

definition read_from_io :: "in_stream \<Rightarrow> frame_error + (raw_frame \<times> in_stream)" where
  "read_from_io src =
     and_then (read_unstuffed [] src) (\<lambda>(buffer, src).
     let buffer_crc = crc16 buffer in
     and_then (stream_read_u16 src) (\<lambda>(crc, src).
     if crc \<noteq> buffer_crc then Inl (InvalidCrc buffer_crc crc)
     else Inr (raw_frame_new buffer, src)))"

definition write_stuffed :: "bytes \<Rightarrow> u16 \<Rightarrow> out_stream \<Rightarrow> (frame_error + unit) \<times> out_stream" where
  "write_stuffed data crc dst =
     st_then (stream_write_all [DLE, STX] dst) (\<lambda>_ dst.
     st_then (stream_write_all data dst) (\<lambda>_ dst.
     st_then (stream_write_all [DLE, ETX] dst) (\<lambda>_ dst.
     stream_write_all (u16_to_le crc) dst)))"

fun stuff :: "bytes \<Rightarrow> bytes" where
  "stuff [] = []"
| "stuff (b # bs) = (if b = DLE then [b, DLE] else [b]) @ stuff bs"

definition write_data_to_io :: "bytes \<Rightarrow> out_stream \<Rightarrow> (frame_error + unit) \<times> out_stream" where
  "write_data_to_io data dst =
     (let crc = crc16 data; count_of_dle = length (filter (\<lambda>b. b = DLE) data) in
      if count_of_dle = 0 then write_stuffed data crc dst
      else write_stuffed (stuff data) crc dst)"

section \<open>The encoding of a frame\<close>

lemma stuff_no_dle: "DLE \<notin> set data \<Longrightarrow> stuff data = data"
  by (induction data) auto

lemma stuff_append: "stuff (xs @ ys) = stuff xs @ stuff ys"
  by (induction xs) auto

definition frame_bytes :: "bytes \<Rightarrow> bytes" where
  "frame_bytes data = [DLE, STX] @ stuff data @ [DLE, ETX] @ u16_to_le (crc16 data)"

lemma write_data_to_io_eq:
  "write_data_to_io data dst = write_stuffed (stuff data) (crc16 data) dst"
proof (cases "DLE \<in> set data")
  case True
  then have "length (filter (\<lambda>b. b = DLE) data) \<noteq> 0" by (auto simp: filter_empty_conv)
  then show ?thesis by (simp add: write_data_to_io_def)
next
  case False
  then have "length (filter (\<lambda>b. b = DLE) data) = 0" by (auto simp: filter_empty_conv)
  with False show ?thesis by (simp add: write_data_to_io_def stuff_no_dle)
qed

lemma stream_write_all_append:
  "st_then (stream_write_all a dst) (\<lambda>_ dst. stream_write_all b dst) = stream_write_all (a @ b) dst"
  by (cases dst) (auto simp: stream_write_all_def split: option.splits)

lemma st_then_assoc: "st_then (st_then p f) g = st_then p (\<lambda>x s. st_then (f x s) g)"
  by (cases p, cases "fst p") auto

text \<open>A frame is sent as one run of bytes, cut off only where the link breaks.\<close>

lemma write_data_to_io_frame_bytes:
  "write_data_to_io data dst = stream_write_all (frame_bytes data) dst"
  unfolding frame_bytes_def stream_write_all_append[symmetric] write_data_to_io_eq write_stuffed_def
  by (simp add: st_then_assoc)

lemma write_data_to_io_unlimited:
  "room dst = None \<Longrightarrow>
     write_data_to_io data dst = (Inr (), dst\<lparr>sent := sent dst @ frame_bytes data\<rparr>)"
  by (simp add: write_data_to_io_frame_bytes stream_write_all_def)

section \<open>Reading an encoded frame back\<close>

lemma dle_codes [simp]: "DLE \<noteq> STX" "DLE \<noteq> ETX" "STX \<noteq> ETX" "STX \<noteq> DLE" "ETX \<noteq> DLE" "ETX \<noteq> STX"
  by (simp_all add: DLE_def STX_def ETX_def)

lemma read_unstuffed_plain:
  "b \<noteq> DLE \<Longrightarrow> read_unstuffed buffer \<lparr>in_bytes = b # rest, in_end = k\<rparr> =
     and_then (push_unstuffed buffer b) (\<lambda>buffer. read_unstuffed buffer \<lparr>in_bytes = rest, in_end = k\<rparr>)"
  by (subst read_unstuffed.simps) (simp add: stream_read_u8_def)

lemma read_unstuffed_dle:
  "read_unstuffed buffer \<lparr>in_bytes = DLE # DLE # rest, in_end = k\<rparr> =
     and_then (push_unstuffed buffer DLE) (\<lambda>buffer. read_unstuffed buffer \<lparr>in_bytes = rest, in_end = k\<rparr>)"
  by (subst read_unstuffed.simps) (simp add: stream_read_u8_def)

lemma read_unstuffed_stx:
  "read_unstuffed buffer \<lparr>in_bytes = DLE # STX # rest, in_end = k\<rparr> =
     read_unstuffed [] \<lparr>in_bytes = rest, in_end = k\<rparr>"
  by (subst read_unstuffed.simps) (simp add: stream_read_u8_def)

lemma read_unstuffed_etx:
  "read_unstuffed buffer \<lparr>in_bytes = DLE # ETX # rest, in_end = k\<rparr> =
     Inr (buffer, \<lparr>in_bytes = rest, in_end = k\<rparr>)"
  by (subst read_unstuffed.simps) (simp add: stream_read_u8_def)

lemmas read_unstuffed_steps =
  read_unstuffed_plain read_unstuffed_dle read_unstuffed_stx read_unstuffed_etx

text \<open>Stuffed data is read into the buffer as long as it fits, and refused where it does not.\<close>

lemma read_unstuffed_stuff:
  "length buffer \<le> MAX_FRAME_SIZE \<Longrightarrow>
   read_unstuffed buffer \<lparr>in_bytes = stuff data @ rest, in_end = k\<rparr> =
     (if length buffer + length data \<le> MAX_FRAME_SIZE
      then read_unstuffed (buffer @ data) \<lparr>in_bytes = rest, in_end = k\<rparr>
      else Inl (FrameTooLarge MAX_FRAME_SIZE))"
  by (induction data arbitrary: buffer)
     (auto simp: read_unstuffed_steps push_unstuffed_def)

lemma read_frame_bytes_with_crc:
  "read_from_io \<lparr>in_bytes = [DLE, STX] @ stuff data @ [DLE, ETX] @ u16_to_le crc @ rest, in_end = k\<rparr> =
     (if MAX_FRAME_SIZE < length data then Inl (FrameTooLarge MAX_FRAME_SIZE)
      else if crc \<noteq> crc16 data then Inl (InvalidCrc (crc16 data) crc)
      else Inr (\<lparr>raw_data = data\<rparr>, \<lparr>in_bytes = rest, in_end = k\<rparr>))"
  by (simp add: read_from_io_def read_unstuffed_steps read_unstuffed_stuff stream_read_u16_def
                u16_to_le_def Let_def raw_frame_new_def)

lemma read_frame_bytes:
  "length data \<le> MAX_FRAME_SIZE \<Longrightarrow>
     read_from_io \<lparr>in_bytes = frame_bytes data @ rest, in_end = k\<rparr> =
       Inr (\<lparr>raw_data = data\<rparr>, \<lparr>in_bytes = rest, in_end = k\<rparr>)"
  using read_frame_bytes_with_crc[of data "crc16 data" rest k] by (simp add: frame_bytes_def)

lemma push_unstuffed_bound:
  "push_unstuffed buffer b = Inr buffer' \<Longrightarrow> length buffer' \<le> MAX_FRAME_SIZE"
  by (auto simp: push_unstuffed_def split: if_splits)

lemma read_unstuffed_bound:
  "read_unstuffed buffer src = Inr (data, src') \<Longrightarrow> length buffer \<le> MAX_FRAME_SIZE \<Longrightarrow>
     length data \<le> MAX_FRAME_SIZE"
proof (induction buffer src rule: read_unstuffed.induct)
  case (1 buffer src)
  from "1.prems"(1) obtain b src1 where b: "stream_read_u8 src = Inr (b, src1)"
    by (subst (asm) read_unstuffed.simps) (auto simp: result_simps)
  show ?case
  proof (cases "b = DLE")
    case False
    with b "1.prems"(1) obtain buffer' where p: "push_unstuffed buffer b = Inr buffer'"
      and r: "read_unstuffed buffer' src1 = Inr (data, src')"
      by (subst (asm) read_unstuffed.simps) (auto simp: result_simps)
    show ?thesis by (rule "1.IH"(1)[OF b refl False p r push_unstuffed_bound[OF p]])
  next
    case dle: True
    with b "1.prems"(1) obtain b' src2 where b': "stream_read_u8 src1 = Inr (b', src2)"
      by (subst (asm) read_unstuffed.simps) (auto simp: result_simps)
    have ndle: "\<not> b \<noteq> DLE" using dle by simp
    consider "b' = DLE" | "b' = STX" | "b' = ETX"
      using "1.prems"(1) b b' dle by (subst (asm) read_unstuffed.simps) (auto split: if_splits)
    then show ?thesis
    proof cases
      case 1
      with b b' dle "1.prems"(1) obtain buffer' where p: "push_unstuffed buffer DLE = Inr buffer'"
        and r: "read_unstuffed buffer' src2 = Inr (data, src')"
        by (subst (asm) read_unstuffed.simps) (auto simp: result_simps)
      show ?thesis
        by (rule "1.IH"(2)[OF b refl ndle b' refl 1 p r push_unstuffed_bound[OF p]])
    next
      case 2
      with b b' dle "1.prems"(1) have r: "read_unstuffed [] src2 = Inr (data, src')"
        by (subst (asm) read_unstuffed.simps) simp
      have "b' \<noteq> DLE" using 2 by simp
      show ?thesis by (rule "1.IH"(3)[OF b refl ndle b' refl \<open>b' \<noteq> DLE\<close> 2 r]) simp
    next
      case 3
      with b b' dle "1.prems" show ?thesis by (subst (asm) read_unstuffed.simps) simp
    qed
  qed
qed

section \<open>The checksum detects short bursts\<close>

lemma low_bit_iff: "c AND 1 \<noteq> 0 \<longleftrightarrow> bit (c :: u16) 0"
  by (simp add: and_one_eq odd_iff_mod_2_eq_one bit_0)

lemma xor_cancel_iff: "a XOR x = b XOR x \<longleftrightarrow> a = (b :: u16)"
  by (auto simp: bit_eq_iff bit_xor_iff)

lemma crc16_bit_top: "bit (crc16_bit c) 15 \<longleftrightarrow> bit c 0"
proof -
  have top: "bit (0xA001 :: u16) 15" by simp
  have "\<not> bit (drop_bit 1 c) 15" by (auto simp: bit_simps dest: bit_imp_le_length)
  then show ?thesis using top by (simp add: crc16_bit_def low_bit_iff bit_xor_iff)
qed

lemma inj_crc16_bit: "inj crc16_bit"
proof (rule injI)
  fix c d :: u16 assume eq: "crc16_bit c = crc16_bit d"
  then have low: "bit c 0 \<longleftrightarrow> bit d 0" by (metis crc16_bit_top)
  with eq have "drop_bit 1 c = drop_bit 1 d"
    unfolding crc16_bit_def low_bit_iff by (simp add: xor_cancel_iff split: if_splits)
  then have "bit c (Suc n) \<longleftrightarrow> bit d (Suc n)" for n
    by (metis bit_drop_bit_eq comp_apply plus_1_eq_Suc)
  then have "bit c n \<longleftrightarrow> bit d n" for n
    using low by (cases n) auto
  then show "c = d" by (simp add: bit_eq_iff)
qed

lemma inj_crc16_bits: "inj (crc16_bit ^^ n)"
  by (rule inj_fn [OF inj_crc16_bit])

lemma crc16_bit_xor: "crc16_bit (a XOR b) = crc16_bit a XOR crc16_bit b"
  unfolding crc16_bit_def low_bit_iff by (rule bit_word_eqI) (auto simp: bit_simps)

lemma crc16_bits_xor: "(crc16_bit ^^ n) (a XOR b) = (crc16_bit ^^ n) a XOR (crc16_bit ^^ n) b"
  by (induction n) (simp_all add: crc16_bit_xor)

lemma crc16_bits_high:
  "n \<le> 8 \<Longrightarrow> (crc16_bit ^^ n) (push_bit 8 (ucast (b :: byte))) = push_bit (8 - n) (ucast b)"
proof (induction n)
  case (Suc n)
  then obtain k where k: "8 - n = Suc k" by (metis Suc_diff_Suc Suc_le_lessD)
  let ?x = "push_bit (Suc k) (ucast b :: u16)"
  have "\<not> bit ?x 0" by (simp only: bit_push_bit_iff) simp
  then have "crc16_bit ?x = drop_bit 1 ?x" unfolding crc16_bit_def low_bit_iff by simp
  moreover have "drop_bit 1 ?x = push_bit k (ucast b)"
  proof (rule bit_word_eqI)
    fix i assume "i < LENGTH(16)"
    moreover have "k \<le> 7" using k by simp
    ultimately show "bit (drop_bit 1 ?x) i = bit (push_bit k (ucast b :: u16)) i"
      by (auto simp del: push_bit_Suc simp: bit_simps dest: bit_imp_le_length)
  qed
  moreover have "8 - Suc n = k" using k by simp
  ultimately show ?case using Suc k by simp
qed simp

lemma crc16_two_bytes:
  "crc16_byte (crc16_byte c a) b =
     (crc16_bit ^^ 16) (c XOR (ucast a OR push_bit 8 (ucast b)))"
proof -
  have disj: "(ucast a OR push_bit 8 (ucast b) :: u16) = ucast a XOR push_bit 8 (ucast b)"
    by (rule bit_word_eqI) (auto simp: bit_simps dest: bit_imp_le_length)
  have high: "(crc16_bit ^^ 8) (push_bit 8 (ucast b)) = (ucast b :: u16)"
    using crc16_bits_high[of 8 b] by simp
  have "(crc16_bit ^^ 8) (c XOR (ucast a XOR push_bit 8 (ucast b))) =
      (crc16_bit ^^ 8) (c XOR ucast a) XOR ucast b"
    by (simp only: crc16_bits_xor high xor.assoc)
  then have "(crc16_bit ^^ (8 + 8)) (c XOR (ucast a XOR push_bit 8 (ucast b))) =
      (crc16_bit ^^ 8) ((crc16_bit ^^ 8) (c XOR ucast a) XOR ucast b)"
    by (simp only: funpow_add comp_apply)
  then show ?thesis by (simp add: crc16_byte_def disj)
qed

lemma inj_crc16_byte: "crc16_byte c b = crc16_byte d b \<Longrightarrow> c = d"
  using inj_crc16_bits[of 8] by (auto simp: crc16_byte_def inj_eq xor_cancel_iff)

lemma inj_crc16_foldl: "foldl crc16_byte c data = foldl crc16_byte d data \<Longrightarrow> c = d"
  by (induction data arbitrary: c d) (auto dest: inj_crc16_byte)

lemma crc16_detects_two_bytes:
  assumes "crc16 (xs @ [a, b] @ ys) = crc16 (xs @ [a', b'] @ ys)"
  shows "a = a' \<and> b = b'"
proof -
  let ?c = "foldl crc16_byte 0 xs"
  from assms have "crc16_byte (crc16_byte ?c a) b = crc16_byte (crc16_byte ?c a') b'"
    by (auto simp: crc16_def dest: inj_crc16_foldl)
  then have "?c XOR u16_of_le a b = ?c XOR u16_of_le a' b'"
    using inj_crc16_bits[of 16] by (simp add: crc16_two_bytes u16_of_le_def inj_eq)
  then have "?c XOR (?c XOR u16_of_le a b) = ?c XOR (?c XOR u16_of_le a' b')" by (simp only:)
  then have "u16_of_le a b = u16_of_le a' b'" by (simp add: xor.left_commute)
  then have "u16_to_le (u16_of_le a b) = u16_to_le (u16_of_le a' b')" by (simp only:)
  then show ?thesis by simp
qed


section \<open>Properties\<close>

text \<open>C7: what the server writes as a frame is read back as exactly the same data and leaves the
  rest of the stream untouched, whatever the data contains, as long as it is no longer than the
  frame size limit; longer data is written all the same, and refused by the reader as too large.\<close>

theorem raw_frame_roundtrip:
  "read_from_io \<lparr>in_bytes = sent (snd (write_data_to_io data \<lparr>sent = [], room = None\<rparr>)) @ rest, in_end = k\<rparr> =
     (if length data \<le> MAX_FRAME_SIZE
      then Inr (\<lparr>raw_data = data\<rparr>, \<lparr>in_bytes = rest, in_end = k\<rparr>)
      else Inl (FrameTooLarge MAX_FRAME_SIZE))"
  using read_frame_bytes_with_crc[of data "crc16 data" rest k]
  by (simp add: write_data_to_io_unlimited frame_bytes_def)

text \<open>Whatever bytes arrive, the data of a frame the reader accepts never exceeds the frame size
  limit.\<close>

lemma raw_frame_bounded:
  "case read_from_io src of Inl e \<Rightarrow> True | Inr (raw, src') \<Rightarrow> length (raw_data raw) \<le> MAX_FRAME_SIZE"
proof (cases "read_from_io src")
  case (Inr p)
  obtain raw src' where p: "p = (raw, src')" by fastforce
  from Inr obtain src1 where "read_unstuffed [] src = Inr (raw_data raw, src1)"
    by (auto simp: p read_from_io_def raw_frame_new_def Let_def result_simps split: if_splits)
  then show ?thesis using read_unstuffed_bound by (simp add: Inr p)
qed simp

text \<open>A byte other than DLE stands for itself on the wire, so the stuffed data around it is the stuffed data of
  what is around it.\<close>

lemma stuff_eq_Nil [simp]: "stuff xs = [] \<longleftrightarrow> xs = []"
  by (cases xs) auto

lemma stuff_split:
  "stuff data = u @ a # v \<Longrightarrow> a \<noteq> DLE \<Longrightarrow> \<exists>xs ys. data = xs @ a # ys \<and> u = stuff xs \<and> v = stuff ys"
proof (induction data arbitrary: u)
  case (Cons d data)
  show ?case
  proof (cases "d = DLE")
    case True
    with Cons.prems obtain u' where u: "u = DLE # DLE # u'"
      by (auto simp: Cons_eq_append_conv)
    with Cons.prems True have "stuff data = u' @ a # v" by simp
    from Cons.IH[OF this Cons.prems(2)] obtain xs ys where "data = xs @ a # ys" "u' = stuff xs" "v = stuff ys" by blast
    then show ?thesis using u True by (intro exI[of _ "d # xs"] exI[of _ ys]) simp
  next
    case False
    show ?thesis
    proof (cases u)
      case Nil
      then show ?thesis using Cons.prems False by (intro exI[of _ "[]"] exI[of _ data]) simp
    next
      case (Cons c u')
      with Cons.prems False have "stuff data = u' @ a # v" "c = d" by simp_all
      from Cons.IH[OF this(1) Cons.prems(2)] obtain xs ys where "data = xs @ a # ys" "u' = stuff xs" "v = stuff ys" by blast
      then show ?thesis using Cons \<open>c = d\<close> False by (intro exI[of _ "d # xs"] exI[of _ ys]) simp
    qed
  qed
qed simp

lemma stuff_split_pair:
  assumes "stuff data = u @ [a, b] @ v" "a \<noteq> DLE" "b \<noteq> DLE"
  obtains xs ys where "data = xs @ [a, b] @ ys" "u = stuff xs" "v = stuff ys"
proof -
  obtain xs zs where z: "data = xs @ a # zs" "u = stuff xs" "b # v = stuff zs"
    using stuff_split[of data u a "b # v"] assms by auto
  obtain ws ys where y: "zs = ws @ b # ys" "[] = stuff ws" "v = stuff ys"
    using stuff_split[of zs "[]" b v] z(3) assms(3) by auto
  have "ws = []" using y(2) stuff_eq_Nil[of ws] by simp
  with z y show thesis by (intro that[of xs ys]) simp_all
qed

text \<open>C31: the checksum catches every corruption on the wire of two neighbouring bytes of the data (hence of one
  byte) that does not touch the framing: when two bytes between the start and the end of a written frame, neither
  of them DLE, arrive as two others, neither of them DLE, the frame is refused with a checksum error. A corruption
  into DLE is not covered, and cannot be: a frame whose data begins with two zeros is accepted without
  them when they arrive as DLE STX, since the reader starts afresh and the checksum starts at zero.\<close>

theorem raw_frame_detects_two_byte_corruption:
  assumes "sent (snd (write_data_to_io data \<lparr>sent = [], room = None\<rparr>)) = [DLE, STX] @ u @ [a, b] @ v @ [DLE, ETX, c, d]"
    "DLE \<notin> {a, b, a', b'}" "(a, b) \<noteq> (a', b')" "length data \<le> MAX_FRAME_SIZE"
  shows "(\<exists>crc. read_from_io \<lparr>in_bytes = [DLE, STX] @ u @ [a', b'] @ v @ [DLE, ETX, c, d] @ rest, in_end = k\<rparr> =
      Inl (InvalidCrc crc (crc16 data)) \<and> crc \<noteq> crc16 data) \<and>
    sent (snd (write_data_to_io (0 # 0 # data) \<lparr>sent = [], room = None\<rparr>)) =
      [DLE, STX] @ [0, 0] @ u @ [a, b] @ v @ [DLE, ETX, c, d] \<and>
    read_from_io \<lparr>in_bytes = [DLE, STX] @ [DLE, STX] @ u @ [a, b] @ v @ [DLE, ETX, c, d] @ rest, in_end = k\<rparr> =
      Inr (\<lparr>raw_data = data\<rparr>, \<lparr>in_bytes = rest, in_end = k\<rparr>)"
proof (intro conjI)
  have "stuff data = u @ [a, b] @ v \<and> u16_to_le (crc16 data) = [c, d]"
    using assms(1) by (auto simp: write_data_to_io_unlimited frame_bytes_def u16_to_le_def)
  then have wire: "stuff data = u @ [a, b] @ v" "[c, d] = u16_to_le (crc16 data)" by simp_all
  obtain xs ys where data: "data = xs @ [a, b] @ ys" "u = stuff xs" "v = stuff ys"
    using stuff_split_pair[OF wire(1)] assms(2) by auto
  let ?bad = "xs @ [a', b'] @ ys"
  have "crc16 data \<noteq> crc16 ?bad" using crc16_detects_two_bytes[of xs a b ys a' b'] assms(3) data(1) by auto
  moreover have "stuff ?bad = u @ [a', b'] @ v" using assms(2) by (auto simp: stuff_append data)
  moreover have "length ?bad \<le> MAX_FRAME_SIZE" using assms(4) by (simp add: data(1))
  ultimately show "\<exists>crc. read_from_io \<lparr>in_bytes = [DLE, STX] @ u @ [a', b'] @ v @ [DLE, ETX, c, d] @ rest, in_end = k\<rparr> =
      Inl (InvalidCrc crc (crc16 data)) \<and> crc \<noteq> crc16 data"
    using read_frame_bytes_with_crc[of ?bad "crc16 data" rest k] wire(2)[symmetric] by (intro exI[of _ "crc16 ?bad"]) simp
  have "crc16_byte 0 0 = 0" by code_simp
  then have "crc16 (0 # 0 # data) = crc16 data" by (simp add: crc16_def)
  moreover have "0 \<noteq> DLE" by (simp add: DLE_def)
  ultimately show "sent (snd (write_data_to_io (0 # 0 # data) \<lparr>sent = [], room = None\<rparr>)) =
      [DLE, STX] @ [0, 0] @ u @ [a, b] @ v @ [DLE, ETX, c, d]"
    using wire by (simp add: write_data_to_io_unlimited frame_bytes_def)
  show "read_from_io \<lparr>in_bytes = [DLE, STX] @ [DLE, STX] @ u @ [a, b] @ v @ [DLE, ETX, c, d] @ rest, in_end = k\<rparr> =
      Inr (\<lparr>raw_data = data\<rparr>, \<lparr>in_bytes = rest, in_end = k\<rparr>)"
    using read_frame_bytes_with_crc[of data "crc16 data" rest k] wire(1) wire(2)[symmetric] assms(4)
    by (simp add: read_from_io_def read_unstuffed_stx)
qed

theorem raw_frame_detects_two_byte_corruption_witness:
  "\<exists>c d crc. sent (snd (write_data_to_io [1, 2, DLE, 3, 4] \<lparr>sent = [], room = None\<rparr>)) =
      [DLE, STX] @ [1, 2, DLE, DLE] @ [3, 4] @ [] @ [DLE, ETX, c, d] \<and>
    read_from_io \<lparr>in_bytes = [DLE, STX] @ [1, 2, DLE, DLE] @ [4, 3] @ [] @ [DLE, ETX, c, d] @ [], in_end = UnexpectedEofKind\<rparr> =
      Inl (InvalidCrc crc (crc16 [1, 2, DLE, 3, 4]))"
proof -
  obtain c d where cd: "u16_to_le (crc16 [1, 2, DLE, 3, 4]) = [c, d]" by (simp add: u16_to_le_def)
  have w: "sent (snd (write_data_to_io [1, 2, DLE, 3, 4] \<lparr>sent = [], room = None\<rparr>)) =
      [DLE, STX] @ [1, 2, DLE, DLE] @ [3, 4] @ [] @ [DLE, ETX, c, d]"
    using cd by (simp add: write_data_to_io_unlimited frame_bytes_def DLE_def)
  have "DLE \<notin> {3, 4, 4, 3}" "(3 :: byte, 4 :: byte) \<noteq> (4, 3)" by (simp_all add: DLE_def)
  moreover have "length [1, 2, DLE, 3, 4] \<le> MAX_FRAME_SIZE" by (simp add: MAX_FRAME_SIZE_def)
  ultimately show ?thesis
    using raw_frame_detects_two_byte_corruption[OF w, of 4 3 "[]" UnexpectedEofKind] w by blast
qed

end
