(* ===== verification/Link_Frame.thy ===== *)
theory Link_Frame
  imports Raw_Frame
begin

text \<open>
  \<^verbatim>\<open>Server/src/server/frame.rs\<close>: the phone data link frames carried by raw frames: connection
  requests, acknowledgements, disconnects, pings and data.
\<close>

definition EOM_FLAG_ON :: byte where "EOM_FLAG_ON = 1"

definition PDL_VERSION :: bytes where "PDL_VERSION = bstr ''02''"

datatype frame_type = TRfc | TAck | TDisc | TPing | TData

fun frame_type_repr :: "frame_type \<Rightarrow> byte" where
  "frame_type_repr TRfc = 1"
| "frame_type_repr TAck = 2"
| "frame_type_repr TDisc = 3"
| "frame_type_repr TPing = 4"
| "frame_type_repr TData = 5"

definition frame_type_from_repr :: "byte \<Rightarrow> frame_type option" where
  "frame_type_from_repr v =
     (if v = 1 then Some TRfc else if v = 2 then Some TAck else if v = 3 then Some TDisc
      else if v = 4 then Some TPing else if v = 5 then Some TData else None)"

record rfc_frame_body =
  rfc_connection_id :: byte
  rfc_version :: bytes

record short_frame_body =
  short_connection_id :: byte

datatype frame_body =
    Rfc rfc_frame_body
  | Ack short_frame_body
  | Disc short_frame_body
  | Ping short_frame_body
  | Data bytes

record frame =
  frame_flags :: byte
  frame_window_size :: byte
  frame_seq_number :: byte
  frame_body :: frame_body

definition frame_rfc :: "byte \<Rightarrow> byte \<Rightarrow> frame" where
  "frame_rfc conn_id seq_number =
     \<lparr>frame_flags = EOM_FLAG_ON, frame_window_size = 1, frame_seq_number = seq_number,
      frame_body = Rfc \<lparr>rfc_connection_id = conn_id, rfc_version = PDL_VERSION\<rparr>\<rparr>"

definition frame_ack :: "byte \<Rightarrow> byte \<Rightarrow> frame" where
  "frame_ack conn_id seq_number =
     \<lparr>frame_flags = EOM_FLAG_ON, frame_window_size = 0x41, frame_seq_number = seq_number,
      frame_body = Ack \<lparr>short_connection_id = conn_id\<rparr>\<rparr>"

definition frame_data :: "byte \<Rightarrow> byte \<Rightarrow> bytes \<Rightarrow> frame" where
  "frame_data flags seq_number body =
     \<lparr>frame_flags = flags, frame_window_size = 0x44, frame_seq_number = seq_number,
      frame_body = Data body\<rparr>"

definition frame_try_from_raw :: "raw_frame \<Rightarrow> frame_error + frame" where
  "frame_try_from_raw raw =
     and_then (read_array 4 (raw_data raw)) (\<lambda>(hdr, c).
     let ty = hdr ! 0; flags = hdr ! 1; window_size = hdr ! 2; seq_number = hdr ! 3 in
     case frame_type_from_repr ty of
       None \<Rightarrow> Inl (Validation ''unknown frame type {ty}'' [unat ty])
     | Some ty \<Rightarrow>
         and_then
           (case ty of
              TRfc \<Rightarrow> and_then (read_u8 c) (\<lambda>(cid, c).
                      and_then (read_array 2 c) (\<lambda>(version, c).
                        Inr (Rfc \<lparr>rfc_connection_id = cid, rfc_version = version\<rparr>)))
            | TAck \<Rightarrow> and_then (read_u8 c) (\<lambda>(cid, c). Inr (Ack \<lparr>short_connection_id = cid\<rparr>))
            | TDisc \<Rightarrow> and_then (read_u8 c) (\<lambda>(cid, c). Inr (Disc \<lparr>short_connection_id = cid\<rparr>))
            | TPing \<Rightarrow> and_then (read_u8 c) (\<lambda>(cid, c). Inr (Ping \<lparr>short_connection_id = cid\<rparr>))
            | TData \<Rightarrow> Inr (Data c))
           (\<lambda>body. Inr \<lparr>frame_flags = flags, frame_window_size = window_size,
                       frame_seq_number = seq_number, frame_body = body\<rparr>))"

fun frame_body_repr :: "frame_body \<Rightarrow> byte" where
  "frame_body_repr (Rfc _) = frame_type_repr TRfc"
| "frame_body_repr (Ack _) = frame_type_repr TAck"
| "frame_body_repr (Disc _) = frame_type_repr TDisc"
| "frame_body_repr (Ping _) = frame_type_repr TPing"
| "frame_body_repr (Data _) = frame_type_repr TData"

definition frame_write_into :: "frame \<Rightarrow> bytes \<Rightarrow> bytes" where
  "frame_write_into f dst =
     dst @ [frame_body_repr (frame_body f), frame_flags f, frame_window_size f, frame_seq_number f]
     @ (case frame_body f of
          Rfc b \<Rightarrow> rfc_connection_id b # rfc_version b
        | Ack b \<Rightarrow> [short_connection_id b]
        | Disc b \<Rightarrow> [short_connection_id b]
        | Ping b \<Rightarrow> [short_connection_id b]
        | Data b \<Rightarrow> b)"

section \<open>Lemmas\<close>

text \<open>The version of a connection request is two bytes, as its array type says.\<close>

definition frame_wf :: "frame \<Rightarrow> bool" where
  "frame_wf f = (case frame_body f of Rfc b \<Rightarrow> length (rfc_version b) = 2 | _ \<Rightarrow> True)"

lemma frame_type_roundtrip [simp]: "frame_type_from_repr (frame_type_repr t) = Some t"
  by (cases t) (simp_all add: frame_type_from_repr_def)

lemma frame_type_from_repr_Some: "frame_type_from_repr v = Some t \<longleftrightarrow> v = frame_type_repr t"
  by (cases t) (auto simp: frame_type_from_repr_def split: if_splits)

lemma wf_frame_constructors [simp]:
  "frame_wf (frame_rfc c s)" "frame_wf (frame_ack c s)" "frame_wf (frame_data fl s b)"
  by (simp_all add: frame_wf_def frame_rfc_def frame_ack_def frame_data_def PDL_VERSION_def)

lemma read_array_4 [simp]: "read_array 4 (a # b # c # d # rest) = Inr ([a, b, c, d], rest)"
  by (simp add: read_array_def)

lemma frame_parse_write:
  "frame_wf f \<Longrightarrow> frame_try_from_raw \<lparr>raw_data = frame_write_into f []\<rparr> = Inr f"
  by (cases f; cases "frame_body f")
     (auto simp: frame_try_from_raw_def frame_write_into_def frame_wf_def Let_def
                 frame_type_from_repr_def read_array_def)

text \<open>
  The parser ignores bytes after a frame other than a data frame: it accepts exactly the
  encodings of frames, followed by anything where the frame type has a fixed length.
\<close>

lemma frame_parse_only_encodings:
  assumes "frame_try_from_raw raw = Inr f"
  obtains junk where "raw_data raw = frame_write_into f [] @ junk" "frame_wf f"
    "\<And>b. frame_body f = Data b \<Longrightarrow> junk = []"
proof -
  from assms obtain h c t where hdr: "raw_data raw = h @ c" "length h = 4"
    and t: "frame_type_from_repr (h ! 0) = Some t"
    by (auto simp: frame_try_from_raw_def Let_def result_simps read_array_Inr)
  then obtain a b d e where h: "h = [a, b, d, e]"
    by (auto simp: numeral_eq_Suc length_Suc_conv)
  from t h have a: "a = frame_type_repr t" by (simp add: frame_type_from_repr_Some)
  have "\<exists>junk. raw_data raw = frame_write_into f [] @ junk \<and> frame_wf f
      \<and> (\<forall>b. frame_body f = Data b \<longrightarrow> junk = [])"
    using assms hdr h a
    by (cases t)
       (auto simp: frame_try_from_raw_def Let_def result_simps read_u8_Inr read_array_Inr
                   frame_write_into_def frame_wf_def frame_type_from_repr_def)
  then show thesis using that by blast
qed

lemma frame_parse_too_short:
  "length (raw_data raw) < 4 \<Longrightarrow> frame_try_from_raw raw = Inl UnexpectedEof"
  by (simp add: frame_try_from_raw_def read_array_def frame_error_from_io_def)


section \<open>Properties\<close>

text \<open>Parsing inverts writing for every well-formed frame, and a raw frame parses to a frame only if
  it is that frame's encoding, followed by nothing for a data frame and by ignored bytes for the
  fixed-length kinds.\<close>

lemma frame_roundtrip:
  assumes "frame_wf f"
  shows "frame_try_from_raw \<lparr>raw_data = frame_write_into f []\<rparr> = Inr f \<and>
    (\<forall>raw g. frame_try_from_raw raw = Inr g \<longrightarrow>
       (\<exists>junk. raw_data raw = frame_write_into g [] @ junk \<and> frame_wf g \<and>
          (case frame_body g of Data b \<Rightarrow> junk = [] | _ \<Rightarrow> True)))"
proof (intro conjI allI impI)
  show "frame_try_from_raw \<lparr>raw_data = frame_write_into f []\<rparr> = Inr f"
    by (rule frame_parse_write[OF assms])
  fix raw g assume "frame_try_from_raw raw = Inr g"
  then obtain junk where "raw_data raw = frame_write_into g [] @ junk" "frame_wf g"
    "\<And>b. frame_body g = Data b \<Longrightarrow> junk = []" using frame_parse_only_encodings by metis
  then show "\<exists>junk. raw_data raw = frame_write_into g [] @ junk \<and> frame_wf g \<and>
          (case frame_body g of Data b \<Rightarrow> junk = [] | _ \<Rightarrow> True)"
    by (auto split: frame_body.splits)
qed

lemma frame_roundtrip_witness:
  "frame_wf (frame_data 1 2 [3, 4]) \<and>
   frame_try_from_raw \<lparr>raw_data = frame_write_into (frame_data 1 2 [3, 4]) []\<rparr> = Inr (frame_data 1 2 [3, 4])"
  using frame_roundtrip[of "frame_data 1 2 [3, 4]"] by simp

end
