(* ===== verification/Data_Frame.thy ===== *)
theory Data_Frame
  imports Wire_IO
begin

text \<open>
  \<^verbatim>\<open>Server/src/server/data_frame.rs\<close>: the VIPC requests and responses carried by data frames.
  Byte strings wrapped in \<open>BStr\<close> are byte strings.
\<close>

datatype data_frame_type =
    DMsg | DConnect | DConnectResponse | DDisconnect | DDisconnectResponse
  | DSignOn | DSignOnResponse | DSignOff | DError

fun data_frame_type_repr :: "data_frame_type \<Rightarrow> u16" where
  "data_frame_type_repr DMsg = 0"
| "data_frame_type_repr DConnect = 1"
| "data_frame_type_repr DConnectResponse = 2"
| "data_frame_type_repr DDisconnect = 3"
| "data_frame_type_repr DDisconnectResponse = 4"
| "data_frame_type_repr DSignOn = 19"
| "data_frame_type_repr DSignOnResponse = 6"
| "data_frame_type_repr DSignOff = 7"
| "data_frame_type_repr DError = 100"

definition data_frame_type_from_repr :: "u16 \<Rightarrow> data_frame_type option" where
  "data_frame_type_from_repr v =
     (if v = 0 then Some DMsg else if v = 1 then Some DConnect
      else if v = 2 then Some DConnectResponse else if v = 3 then Some DDisconnect
      else if v = 4 then Some DDisconnectResponse else if v = 19 then Some DSignOn
      else if v = 6 then Some DSignOnResponse else if v = 7 then Some DSignOff
      else if v = 100 then Some DError else None)"

record connect_header =
  local_path_id :: u16
  remote_path_id :: u16

record sign_on_property =
  property_ty :: byte
  property_value :: bytes

datatype data_frame_request =
    ReqConnect connect_header bytes
  | ReqDisconnect connect_header u16
  | ReqSignOn "sign_on_property list"
  | ReqSignOff
  | ReqMsg connect_header bytes

datatype data_frame_response =
    RespConnect connect_header u16
  | RespDisconnect connect_header
  | RespSignOn u16 bytes
  | RespMsg connect_header bytes

definition read_connect_header :: "connect_header reader" where
  "read_connect_header c =
     and_then (read_u16 c) (\<lambda>(l, c).
     and_then (read_u16 c) (\<lambda>(r, c). Inr (\<lparr>local_path_id = l, remote_path_id = r\<rparr>, c)))"

lemma read_small_slice_shrinks: "read_small_slice c = Inr (v, c') \<Longrightarrow> length c' < length c"
  by (auto simp: read_small_slice_Inr)

function read_signon_properties :: "cursor \<Rightarrow> frame_error + sign_on_property list" where
  "read_signon_properties c =
     (case c of
        [] \<Rightarrow> Inr []
      | ty # c' \<Rightarrow>
          and_then (read_small_slice c') (\<lambda>(v, c'').
          and_then (read_signon_properties c'') (\<lambda>ps.
            Inr (\<lparr>property_ty = ty, property_value = v\<rparr> # ps))))"
  by pat_completeness auto
termination
  by (relation "measure length") (auto dest!: read_small_slice_shrinks)

declare read_signon_properties.simps [simp del]

definition data_frame_request_try_from_slice :: "bytes \<Rightarrow> frame_error + data_frame_request" where
  "data_frame_request_try_from_slice data =
     and_then (read_u16 data) (\<lambda>(ty, c).
     case data_frame_type_from_repr ty of
       None \<Rightarrow> Inl (Validation ''unknown data frame type {ty}'' [unat ty])
     | Some DConnect \<Rightarrow>
         and_then (read_connect_header c) (\<lambda>(header, c).
         and_then (read_small_slice c) (\<lambda>(path, c). Inr (ReqConnect header path)))
     | Some DDisconnect \<Rightarrow>
         and_then (read_connect_header c) (\<lambda>(header, c).
         and_then (read_u16 c) (\<lambda>(reason, c). Inr (ReqDisconnect header reason)))
     | Some DSignOn \<Rightarrow> and_then (read_signon_properties c) (\<lambda>ps. Inr (ReqSignOn ps))
     | Some DSignOff \<Rightarrow> Inr ReqSignOff
     | Some DMsg \<Rightarrow>
         and_then (read_connect_header c) (\<lambda>(header, c). Inr (ReqMsg header (fst (read_remainder c))))
     | Some t \<Rightarrow> Inl (Validation ''unsupported data frame type {ty}'' [unat (data_frame_type_repr t)]))"

fun data_frame_response_repr :: "data_frame_response \<Rightarrow> u16" where
  "data_frame_response_repr (RespConnect _ _) = data_frame_type_repr DConnectResponse"
| "data_frame_response_repr (RespDisconnect _) = data_frame_type_repr DDisconnectResponse"
| "data_frame_response_repr (RespSignOn _ _) = data_frame_type_repr DSignOnResponse"
| "data_frame_response_repr (RespMsg _ _) = data_frame_type_repr DMsg"

definition write_connect_header :: "connect_header \<Rightarrow> bytes \<Rightarrow> bytes" where
  "write_connect_header h dst = write_u16 (remote_path_id h) (write_u16 (local_path_id h) dst)"

definition data_frame_response_write_into :: "data_frame_response \<Rightarrow> bytes \<Rightarrow> frame_error + bytes" where
  "data_frame_response_write_into r dst =
     (let dst = write_u16 (data_frame_response_repr r) dst in
      case r of
        RespConnect h status \<Rightarrow> Inr (write_u16 status (write_connect_header h dst))
      | RespDisconnect h \<Rightarrow> Inr (write_connect_header h dst)
      | RespSignOn status server_name \<Rightarrow> write_u8_slice server_name (write_u16 status dst)
      | RespMsg h payload \<Rightarrow> Inr (write_all payload (write_connect_header h dst)))"

section \<open>Lemmas\<close>

lemma data_frame_type_roundtrip [simp]:
  "data_frame_type_from_repr (data_frame_type_repr t) = Some t"
  by (cases t) (simp_all add: data_frame_type_from_repr_def)

lemma data_frame_type_Some:
  "data_frame_type_from_repr v = Some t \<longleftrightarrow> v = data_frame_type_repr t"
  by (cases t) (auto simp: data_frame_type_from_repr_def split: if_splits)

lemma read_connect_header_Inr:
  "read_connect_header c = Inr (h, c') \<longleftrightarrow>
     c = u16_to_le (local_path_id h) @ u16_to_le (remote_path_id h) @ c'"
  by (cases h) (auto simp: read_connect_header_def result_simps read_u16_Inr)

text \<open>
  What a client sends: the encoding of a request, against which the parser is checked. The
  parser tolerates trailing bytes after a connect, a disconnect and a sign-off.
\<close>

definition encode_properties :: "sign_on_property list \<Rightarrow> bytes" where
  "encode_properties ps =
     concat (map (\<lambda>p. property_ty p # of_nat (length (property_value p)) # property_value p) ps)"

definition connect_header_bytes :: "connect_header \<Rightarrow> bytes" where
  "connect_header_bytes h = u16_to_le (local_path_id h) @ u16_to_le (remote_path_id h)"

fun encode_request :: "data_frame_request \<Rightarrow> bytes" where
  "encode_request (ReqConnect h path) =
     u16_to_le 1 @ connect_header_bytes h @ of_nat (length path) # path"
| "encode_request (ReqDisconnect h reason) = u16_to_le 3 @ connect_header_bytes h @ u16_to_le reason"
| "encode_request (ReqSignOn ps) = u16_to_le 19 @ encode_properties ps"
| "encode_request ReqSignOff = u16_to_le 7"
| "encode_request (ReqMsg h payload) = u16_to_le 0 @ connect_header_bytes h @ payload"

fun request_encodable :: "data_frame_request \<Rightarrow> bool" where
  "request_encodable (ReqConnect h path) = (length path < 256)"
| "request_encodable (ReqSignOn ps) = list_all (\<lambda>p. length (property_value p) < 256) ps"
| "request_encodable _ = True"

fun request_open_ended :: "data_frame_request \<Rightarrow> bool" where
  "request_open_ended (ReqConnect _ _) = True"
| "request_open_ended (ReqDisconnect _ _) = True"
| "request_open_ended ReqSignOff = True"
| "request_open_ended _ = False"

lemma read_signon_properties_iff:
  "read_signon_properties c = Inr ps \<longleftrightarrow>
     c = encode_properties ps \<and> list_all (\<lambda>p. length (property_value p) < 256) ps"
proof (induction c arbitrary: ps rule: read_signon_properties.induct)
  case (1 c)
  show ?case
  proof (cases c)
    case Nil
    then show ?thesis
      by (cases ps) (auto simp: read_signon_properties.simps encode_properties_def)
  next
    case (Cons ty c')
    have "read_signon_properties c = Inr ps \<longleftrightarrow>
      (\<exists>v c'' ps'. read_small_slice c' = Inr (v, c'') \<and> read_signon_properties c'' = Inr ps' \<and>
         ps = \<lparr>property_ty = ty, property_value = v\<rparr> # ps')"
      unfolding Cons by (subst read_signon_properties.simps) (auto simp: result_simps)
    also have "\<dots> \<longleftrightarrow> (\<exists>v c'' ps'. read_small_slice c' = Inr (v, c'') \<and>
         c'' = encode_properties ps' \<and> list_all (\<lambda>p. length (property_value p) < 256) ps' \<and>
         ps = \<lparr>property_ty = ty, property_value = v\<rparr> # ps')"
      using "1.IH"[OF Cons] by (metis (no_types, lifting))
    also have "\<dots> \<longleftrightarrow> c = encode_properties ps \<and> list_all (\<lambda>p. length (property_value p) < 256) ps"
      by (cases ps) (auto simp: read_small_slice_Inr Cons encode_properties_def)
    finally show ?thesis .
  qed
qed

lemma read_signon_properties_encode:
  "list_all (\<lambda>p. length (property_value p) < 256) ps \<Longrightarrow>
     read_signon_properties (encode_properties ps) = Inr ps"
  by (simp add: read_signon_properties_iff)

lemma read_connect_header_write [wire_simps]:
  "read_connect_header (connect_header_bytes h @ c) = Inr (h, c)"
  by (simp add: connect_header_bytes_def read_connect_header_Inr)

lemma data_frame_type_of_request [simp]:
  "data_frame_type_from_repr 0 = Some DMsg" "data_frame_type_from_repr 1 = Some DConnect"
  "data_frame_type_from_repr 3 = Some DDisconnect" "data_frame_type_from_repr 7 = Some DSignOff"
  "data_frame_type_from_repr 19 = Some DSignOn"
  by (simp_all add: data_frame_type_from_repr_def)

lemma request_parse_encode:
  assumes "request_encodable r" "junk = [] \<or> request_open_ended r"
  shows "data_frame_request_try_from_slice (encode_request r @ junk) = Inr r"
  using assms
  by (cases r)
     (auto simp: data_frame_request_try_from_slice_def wire_simps read_signon_properties_encode
                 read_remainder_def)

lemma request_parse_only_encodings:
  assumes "data_frame_request_try_from_slice data = Inr r"
  shows "request_encodable r \<and>
    (\<exists>junk. data = encode_request r @ junk \<and> (junk = [] \<or> request_open_ended r))"
proof -
  from assms obtain t c where t: "data = u16_to_le (data_frame_type_repr t) @ c"
    by (auto simp: data_frame_request_try_from_slice_def result_simps read_u16_Inr
                   data_frame_type_Some)
  with assms show ?thesis
    by (cases t)
       (auto simp: data_frame_request_try_from_slice_def wire_simps result_simps read_u16_Inr
          read_connect_header_Inr read_small_slice_Inr read_signon_properties_iff
          connect_header_bytes_def read_remainder_def data_frame_type_from_repr_def)
qed

lemma request_parse_iff:
  "data_frame_request_try_from_slice data = Inr r \<longleftrightarrow>
     request_encodable r \<and> (\<exists>junk. data = encode_request r @ junk \<and> (junk = [] \<or> request_open_ended r))"
  using request_parse_encode request_parse_only_encodings by blast


section \<open>Properties\<close>

text \<open>A data frame body parses as a request exactly when it is the encoding of that request; the
  three kinds whose encoding has a fixed end tolerate trailing bytes.\<close>

lemma data_request_accepts_exactly:
  "data_frame_request_try_from_slice data = Inr r \<longleftrightarrow>
     request_encodable r \<and> (\<exists>junk. data = encode_request r @ junk \<and> (junk = [] \<or> request_open_ended r))"
  by (rule request_parse_iff)

end
