(* ===== verification/Vipc_Message.thy ===== *)
theory Vipc_Message
  imports Wire_IO
begin

text \<open>
  \<^verbatim>\<open>Server/src/vipc/message.rs\<close>: the class, note and length-prefixed payload of a VIPC message.
\<close>

type_synonym message_type = u16

record incoming_message =
  in_note :: u16
  in_ty :: message_type
  in_payload :: bytes

record outgoing_message =
  out_note :: u16
  out_ty :: message_type
  out_payload :: bytes

definition incoming_message_try_from_slice :: "bytes \<Rightarrow> frame_error + incoming_message" where
  "incoming_message_try_from_slice data =
     and_then (read_u16 data) (\<lambda>(ty, c).
     and_then (read_u16 c) (\<lambda>(note, c).
     and_then (read_u16 c) (\<lambda>(payload_length, c).
     and_then (read_slice (unat payload_length) c) (\<lambda>(payload, c).
     let remaining = length c in
     if remaining \<noteq> 0 then Inl (Validation ''VIPC message: {remaining} trailing bytes'' [remaining])
     else Inr \<lparr>in_note = note, in_ty = ty, in_payload = payload\<rparr>))))"

definition outgoing_message_write_into :: "outgoing_message \<Rightarrow> bytes \<Rightarrow> frame_error + bytes" where
  "outgoing_message_write_into m dst =
     (case u16_try_from (length (out_payload m)) of
        None \<Rightarrow> Inl (Validation ''VIPC payload of {} bytes exceeds the u16 length field''
                       [length (out_payload m)])
      | Some payload_length \<Rightarrow>
          Inr (write_all (out_payload m) (write_u16 payload_length
                (write_u16 (out_note m) (write_u16 (out_ty m) dst)))))"

section \<open>Lemmas\<close>

lemma message_write_Inr:
  "outgoing_message_write_into m dst = Inr d \<longleftrightarrow>
     length (out_payload m) < 65536 \<and>
     d = dst @ u16_to_le (out_ty m) @ u16_to_le (out_note m)
           @ u16_to_le (of_nat (length (out_payload m))) @ out_payload m"
  by (auto simp: outgoing_message_write_into_def write_u16_def write_all_def split: option.splits)

lemma message_parse_iff:
  "incoming_message_try_from_slice data = Inr m \<longleftrightarrow>
     length (in_payload m) < 65536 \<and>
     data = u16_to_le (in_ty m) @ u16_to_le (in_note m)
              @ u16_to_le (of_nat (length (in_payload m))) @ in_payload m"
  (is "?l \<longleftrightarrow> ?r")
proof
  assume ?l
  then obtain l where "data = u16_to_le (in_ty m) @ u16_to_le (in_note m) @ u16_to_le l @ in_payload m"
    and len: "length (in_payload m) = unat l"
    by (cases m)
       (auto simp: incoming_message_try_from_slice_def result_simps read_u16_Inr read_slice_Inr
             split: if_splits)
  then show ?r unfolding len by simp
next
  assume ?r
  then show ?l
    by (cases m)
       (auto simp: incoming_message_try_from_slice_def read_u16_write read_slice_def)
qed


section \<open>Properties\<close>

text \<open>An outgoing message can be written exactly when its payload is shorter than 64 KiB, and what
  is written parses back to the same class, note and payload.\<close>

lemma message_roundtrip:
  "case outgoing_message_write_into m [] of
     Inl e \<Rightarrow> 65536 \<le> length (out_payload m)
   | Inr d \<Rightarrow> length (out_payload m) < 65536 \<and>
       incoming_message_try_from_slice d =
         Inr \<lparr>in_note = out_note m, in_ty = out_ty m, in_payload = out_payload m\<rparr>"
proof (cases "outgoing_message_write_into m []")
  case (Inl e)
  then show ?thesis by (auto simp: outgoing_message_write_into_def split: option.splits)
next
  case (Inr d)
  then have "length (out_payload m) < 65536 \<and> d = u16_to_le (out_ty m) @ u16_to_le (out_note m)
           @ u16_to_le (of_nat (length (out_payload m))) @ out_payload m"
    by (simp add: message_write_Inr)
  then show ?thesis unfolding Inr by (simp add: message_parse_iff)
qed

end
