(* ===== verification/Grid_Names.thy ===== *)
theory Grid_Names
  imports Prelude
begin

text \<open>
  \<^verbatim>\<open>Server/src/vfs/file/path.rs\<close> and \<^verbatim>\<open>Server/src/vfs/file/name.rs\<close>: GRiD paths
  (\<open>`server:device`folder`file|password\<close>) and file names (\<open>title~kind~\<close>). A \<open>GRiDPath\<close> is a
  transparent wrapper, so a path is its bytes.
\<close>

section \<open>Splitting byte strings\<close>

text \<open>\<^verbatim>\<open>splitn(2, |&byte| byte == s)\<close>: the part before the first separator and, if there is one,
  the part after it.\<close>

fun splitn2 :: "byte \<Rightarrow> bytes \<Rightarrow> bytes \<times> bytes option" where
  "splitn2 s [] = ([], None)"
| "splitn2 s (b # bs) =
     (if b = s then ([], Some bs) else (case splitn2 s bs of (x, y) \<Rightarrow> (b # x, y)))"

text \<open>\<^verbatim>\<open>split(|&byte| byte == s)\<close>.\<close>

fun split_on :: "byte \<Rightarrow> bytes \<Rightarrow> bytes list" where
  "split_on s [] = [[]]"
| "split_on s (b # bs) =
     (if b = s then [] # split_on s bs
      else (case split_on s bs of [] \<Rightarrow> [[b]] | x # xs \<Rightarrow> (b # x) # xs))"

definition strip_suffix :: "bytes \<Rightarrow> bytes \<Rightarrow> bytes option" where
  "strip_suffix suf xs =
     (if length suf \<le> length xs \<and> drop (length xs - length suf) xs = suf
      then Some (take (length xs - length suf) xs) else None)"

section \<open>Paths\<close>

type_synonym grid_path = bytes

record grid_path_parts =
  gp_device :: "bytes option"
  gp_folder :: "bytes option"
  gp_file :: "bytes option"

definition COMPONENT_SEPARATOR :: byte where "COMPONENT_SEPARATOR = 0x60"
definition SERVER_SEPARATOR :: byte where "SERVER_SEPARATOR = 0x3A"
definition PASSWORD_SEPARATOR :: byte where "PASSWORD_SEPARATOR = 0x7C"

lemmas separator_defs = COMPONENT_SEPARATOR_def SERVER_SEPARATOR_def PASSWORD_SEPARATOR_def

definition grid_path_validate :: "bytes \<Rightarrow> string + unit" where
  "grid_path_validate path =
     (case path of
        [] \<Rightarrow> Inl ''path must start with `''
      | b # path_body \<Rightarrow>
        if b \<noteq> COMPONENT_SEPARATOR then Inl ''path must start with `''
        else
          let (path_body, password) = splitn2 PASSWORD_SEPARATOR path_body in
          if (case password of None \<Rightarrow> False
              | Some pw \<Rightarrow> pw = [] \<or> PASSWORD_SEPARATOR \<in> set pw)
          then Inl ''path password must not be empty or contain |''
          else
            case splitn2 SERVER_SEPARATOR path_body of
              (server, None) \<Rightarrow> Inl ''path must contain a server name followed by :''
            | (server, Some components) \<Rightarrow>
                if server = [] then Inl ''path server name must not be empty''
                else if COMPONENT_SEPARATOR \<in> set server
                then Inl ''path server name must not contain `''
                else if SERVER_SEPARATOR \<in> set components
                then Inl ''path must not contain more than one server separator''
                else
                  let components = unwrap_or components
                        (strip_suffix [COMPONENT_SEPARATOR] components) in
                  if components = [] then Inl ''path device must not be empty''
                  else if \<exists>c \<in> set (split_on COMPONENT_SEPARATOR components). c = []
                  then Inl ''path components must not be empty''
                  else Inr ())"

definition grid_path_try_from :: "bytes \<Rightarrow> string + grid_path" where
  "grid_path_try_from path = and_then (grid_path_validate path) (\<lambda>_. Inr path)"

definition grid_path_components :: "grid_path \<Rightarrow> grid_path_parts" where
  "grid_path_components path =
     (let components = unwrap_or [] (snd (splitn2 SERVER_SEPARATOR path));
          components = fst (splitn2 PASSWORD_SEPARATOR components);
          cs = filter (\<lambda>c. c \<noteq> []) (split_on COMPONENT_SEPARATOR components);
          nth_opt = (\<lambda>i. if i < length cs then Some (cs ! i) else None)
      in \<lparr>gp_device = nth_opt 0, gp_folder = nth_opt 1, gp_file = nth_opt 2\<rparr>)"

section \<open>File names\<close>

definition MAX_LENGTH :: nat where "MAX_LENGTH = 80"
definition STORAGE_LENGTH :: nat where "STORAGE_LENGTH = MAX_LENGTH + 1"

definition SEP_KIND :: byte where "SEP_KIND = 0x7E"
definition SEP_PASS :: byte where "SEP_PASS = 0x7C"
definition SEP_PATH :: byte where "SEP_PATH = 0x60"

record grid_file_name =
  name_length :: byte
  name_bytes :: bytes

datatype grid_file_name_error =
    TooLong
  | InvalidFormat
  | ForbiddenCharacter byte

fun check_head :: "bool \<Rightarrow> bytes \<Rightarrow> grid_file_name_error + bool" where
  "check_head has_separator [] = Inr has_separator"
| "check_head has_separator (b # bs) =
     (if b = SEP_KIND \<and> \<not> has_separator then check_head True bs
      else if b = SEP_KIND \<or> b = SEP_PASS \<or> b = SEP_PATH then Inl (ForbiddenCharacter b)
      else check_head has_separator bs)"

definition is_valid_name :: "bytes \<Rightarrow> grid_file_name_error + unit" where
  "is_valid_name v =
     (if length v > MAX_LENGTH then Inl TooLong
      else if v = [] then Inl InvalidFormat
      else if last v \<noteq> SEP_KIND then Inl InvalidFormat
      else and_then (check_head False (butlast v)) (\<lambda>has_separator.
             if \<not> has_separator then Inl InvalidFormat else Inr ()))"

definition grid_file_name_as_bytes :: "grid_file_name \<Rightarrow> bytes" where
  "grid_file_name_as_bytes n =
     (if unat (name_length n) \<le> length (name_bytes n)
      then take (unat (name_length n)) (name_bytes n) else name_bytes n)"

definition grid_file_name_new :: "bytes \<Rightarrow> grid_file_name_error + grid_file_name" where
  "grid_file_name_new v =
     and_then (is_valid_name v) (\<lambda>_.
       Inr \<lparr>name_length = of_nat (length v),
            name_bytes = take MAX_LENGTH v @ replicate (MAX_LENGTH - length v) 0\<rparr>)"

definition grid_file_name_validate :: "grid_file_name \<Rightarrow> grid_file_name_error + unit" where
  "grid_file_name_validate n =
     (if unat (name_length n) > MAX_LENGTH then Inl TooLong
      else is_valid_name (grid_file_name_as_bytes n))"

section \<open>Lemmas on splitting\<close>

lemma splitn2_Cons_neq:
  "x \<noteq> s \<Longrightarrow> splitn2 s (x # xs) = (a, r) \<longleftrightarrow> (\<exists>a'. splitn2 s xs = (a', r) \<and> a = x # a')"
  by (cases "splitn2 s xs") auto

lemma splitn2_None: "splitn2 s xs = (a, None) \<longleftrightarrow> a = xs \<and> s \<notin> set xs"
proof (induction xs arbitrary: a)
  case (Cons x xs)
  show ?case
  proof (cases "x = s")
    case False
    then show ?thesis using Cons.IH by (auto simp: splitn2_Cons_neq simp del: splitn2.simps)
  qed simp
qed auto

lemma splitn2_Some: "splitn2 s xs = (a, Some r) \<longleftrightarrow> xs = a @ s # r \<and> s \<notin> set a"
proof (induction xs arbitrary: a)
  case (Cons x xs)
  show ?case
  proof (cases "x = s")
    case True
    then show ?thesis by (cases a) auto
  next
    case False
    then show ?thesis using Cons.IH
      by (cases a) (auto simp: splitn2_Cons_neq simp del: splitn2.simps)
  qed
qed simp

lemma splitn2_hit [simp]: "s \<notin> set a \<Longrightarrow> splitn2 s (a @ s # r) = (a, Some r)"
  by (simp add: splitn2_Some)

lemma splitn2_miss [simp]: "s \<notin> set xs \<Longrightarrow> splitn2 s xs = (xs, None)"
  by (simp add: splitn2_None)

text \<open>Components joined by a separator, the inverse of \<^const>\<open>split_on\<close>.\<close>

fun join_on :: "byte \<Rightarrow> bytes list \<Rightarrow> bytes" where
  "join_on s [] = []"
| "join_on s [x] = x"
| "join_on s (x # y # ys) = x @ s # join_on s (y # ys)"

lemma split_on_nonempty [simp]: "split_on s xs \<noteq> []"
  by (induction xs) (auto split: list.splits)

lemma join_split_on: "join_on s (split_on s xs) = xs"
proof (induction xs)
  case (Cons x xs)
  then show ?case
    by (cases "(s, split_on s xs)" rule: join_on.cases) (auto split: list.splits)
qed simp

lemma split_on_clean: "\<forall>c \<in> set (split_on s xs). s \<notin> set c \<and> set c \<subseteq> set xs"
  by (induction xs) (auto split: list.splits)

lemma split_on_append_clean: "s \<notin> set x \<Longrightarrow> split_on s (x @ s # ys) = x # split_on s ys"
  by (induction x) (auto split: list.splits)

lemma split_on_single: "s \<notin> set x \<Longrightarrow> split_on s x = [x]"
  by (induction x) auto

lemma split_on_join:
  "cs \<noteq> [] \<Longrightarrow> \<forall>c \<in> set cs. s \<notin> set c \<Longrightarrow> split_on s (join_on s cs) = cs"
  by (induction s cs rule: join_on.induct) (auto simp: split_on_single split_on_append_clean)

lemma split_on_trailing: "split_on s (xs @ [s]) = split_on s xs @ [[]]"
  by (induction xs) (auto split: list.splits)

lemma set_join_on: "set (join_on s cs) \<subseteq> insert s (\<Union>c \<in> set cs. set c)"
  by (induction s cs rule: join_on.induct) auto

lemma join_on_eq_Nil: "\<forall>c \<in> set cs. c \<noteq> [] \<Longrightarrow> join_on s cs = [] \<longleftrightarrow> cs = []"
  by (cases "(s, cs)" rule: join_on.cases) auto

lemma strip_suffix_snoc [simp]: "strip_suffix [s] (xs @ [s]) = Some xs"
  by (simp add: strip_suffix_def)

lemma strip_suffix1_None: "strip_suffix [s] xs = None \<longleftrightarrow> (\<forall>ys. xs \<noteq> ys @ [s])"
  by (cases xs rule: rev_cases) (auto simp: strip_suffix_def)

lemma strip_suffix1_Some: "strip_suffix [s] xs = Some ys \<longleftrightarrow> xs = ys @ [s]"
  by (cases xs rule: rev_cases) (auto simp: strip_suffix_def)


section \<open>Valid paths\<close>

text \<open>
  The text of a path: a server, its components, an optional trailing separator and an optional
  password.
\<close>

definition path_text :: "bytes \<Rightarrow> bytes list \<Rightarrow> bool \<Rightarrow> bytes option \<Rightarrow> bytes" where
  "path_text server cs trailing pw =
     COMPONENT_SEPARATOR # server @ SERVER_SEPARATOR # join_on COMPONENT_SEPARATOR cs
       @ (if trailing then [COMPONENT_SEPARATOR] else [])
       @ (case pw of None \<Rightarrow> [] | Some p \<Rightarrow> PASSWORD_SEPARATOR # p)"

definition path_separators :: "byte set" where
  "path_separators = {COMPONENT_SEPARATOR, SERVER_SEPARATOR, PASSWORD_SEPARATOR}"

definition path_parts_ok :: "bytes \<Rightarrow> bytes list \<Rightarrow> bytes option \<Rightarrow> bool" where
  "path_parts_ok server cs pw \<longleftrightarrow>
     server \<noteq> [] \<and> set server \<inter> path_separators = {} \<and>
     cs \<noteq> [] \<and> (\<forall>c \<in> set cs. c \<noteq> [] \<and> set c \<inter> path_separators = {}) \<and>
     (case pw of None \<Rightarrow> True | Some p \<Rightarrow> p \<noteq> [] \<and> PASSWORD_SEPARATOR \<notin> set p)"

lemma separators_distinct [simp]:
  "COMPONENT_SEPARATOR \<noteq> SERVER_SEPARATOR" "SERVER_SEPARATOR \<noteq> COMPONENT_SEPARATOR"
  "COMPONENT_SEPARATOR \<noteq> PASSWORD_SEPARATOR" "PASSWORD_SEPARATOR \<noteq> COMPONENT_SEPARATOR"
  "SERVER_SEPARATOR \<noteq> PASSWORD_SEPARATOR" "PASSWORD_SEPARATOR \<noteq> SERVER_SEPARATOR"
  by (simp_all add: separator_defs)

lemma join_on_not_ending:
  "cs \<noteq> [] \<Longrightarrow> \<forall>c \<in> set cs. c \<noteq> [] \<and> s \<notin> set c \<Longrightarrow> join_on s cs \<noteq> ys @ [s]"
proof (induction s cs arbitrary: ys rule: join_on.induct)
  case (2 s x)
  then show ?case by auto
next
  case (3 s x y zs)
  then have IH: "\<And>ys. join_on s (y # zs) \<noteq> ys @ [s]" and ne: "join_on s (y # zs) \<noteq> []"
    using join_on_eq_Nil[of "y # zs" s] by auto
  show ?case
  proof
    assume "join_on s (x # y # zs) = ys @ [s]"
    then have "(x @ [s]) @ join_on s (y # zs) = ys @ [s]" by simp
    with ne IH show False
      by (cases "join_on s (y # zs)" rule: rev_cases) (auto simp flip: append.assoc)
  qed
qed simp

lemma join_on_clean:
  "s' \<noteq> s \<Longrightarrow> \<forall>c \<in> set cs. s' \<notin> set c \<Longrightarrow> s' \<notin> set (join_on s cs)"
  using set_join_on[of s cs] by auto

lemma grid_path_validate_text:
  assumes "path_parts_ok server cs pw"
  shows "grid_path_validate (path_text server cs trailing pw) = Inr ()"
proof -
  let ?comps = "join_on COMPONENT_SEPARATOR cs"
  let ?tail = "if trailing then [COMPONENT_SEPARATOR] else []"
  have clean: "\<And>c s. c \<in> set cs \<Longrightarrow> s \<in> path_separators \<Longrightarrow> s \<notin> set c"
    and cne: "\<forall>c \<in> set cs. c \<noteq> []" "cs \<noteq> []" and sne: "server \<noteq> []"
    and server: "\<And>s. s \<in> path_separators \<Longrightarrow> s \<notin> set server"
    using assms by (auto simp: path_parts_ok_def)
  have joined: "PASSWORD_SEPARATOR \<notin> set ?comps" "SERVER_SEPARATOR \<notin> set ?comps"
    using clean by (intro join_on_clean; simp add: path_separators_def)+
  have body: "splitn2 PASSWORD_SEPARATOR
      (server @ SERVER_SEPARATOR # ?comps @ ?tail @ (case pw of None \<Rightarrow> [] | Some p \<Rightarrow> PASSWORD_SEPARATOR # p))
      = (server @ SERVER_SEPARATOR # ?comps @ ?tail, pw)"
    using joined server by (cases pw) (auto simp: splitn2_None splitn2_Some path_separators_def)
  have rest: "splitn2 SERVER_SEPARATOR (server @ SERVER_SEPARATOR # ?comps @ ?tail)
      = (server, Some (?comps @ ?tail))"
    using server by (simp add: splitn2_Some path_separators_def)
  have strip: "unwrap_or (?comps @ ?tail) (strip_suffix [COMPONENT_SEPARATOR] (?comps @ ?tail)) = ?comps"
  proof (cases trailing)
    case False
    have "\<And>ys. ?comps \<noteq> ys @ [COMPONENT_SEPARATOR]"
      using clean cne by (intro join_on_not_ending) (auto simp: path_separators_def)
    then have "strip_suffix [COMPONENT_SEPARATOR] ?comps = None" by (simp add: strip_suffix1_None)
    with False show ?thesis by simp
  qed simp
  have split: "split_on COMPONENT_SEPARATOR ?comps = cs"
    using clean cne by (intro split_on_join) (auto simp: path_separators_def)
  show ?thesis
    using assms sne server cne joined join_on_eq_Nil[OF cne(1), of COMPONENT_SEPARATOR]
    by (auto simp: grid_path_validate_def path_text_def body rest strip split path_parts_ok_def
        path_separators_def split: option.splits)
qed


lemma grid_path_validate_Inr:
  assumes "grid_path_validate path = Inr ()"
  shows "\<exists>server cs trailing pw. path_parts_ok server cs pw \<and> path = path_text server cs trailing pw"
proof -
  from assms obtain body where path: "path = COMPONENT_SEPARATOR # body"
    by (auto simp: grid_path_validate_def split: list.splits if_splits)
  obtain b pw where b: "splitn2 PASSWORD_SEPARATOR body = (b, pw)" by fastforce
  obtain server comps where c: "splitn2 SERVER_SEPARATOR b = (server, comps)" by fastforce
  from assms obtain cc where comps: "comps = Some cc"
    by (auto simp: path b c grid_path_validate_def split: option.splits if_splits)
  define k where "k = unwrap_or cc (strip_suffix [COMPONENT_SEPARATOR] cc)"
  have facts: "server \<noteq> []" "COMPONENT_SEPARATOR \<notin> set server" "SERVER_SEPARATOR \<notin> set cc" "k \<noteq> []"
      "\<forall>x \<in> set (split_on COMPONENT_SEPARATOR k). x \<noteq> []"
      "case pw of None \<Rightarrow> True | Some p \<Rightarrow> p \<noteq> [] \<and> PASSWORD_SEPARATOR \<notin> set p"
    using assms by (auto simp: path b c comps grid_path_validate_def k_def Let_def
        split: option.splits if_splits)
  have b_eq: "b = server @ SERVER_SEPARATOR # cc" "SERVER_SEPARATOR \<notin> set server"
    using c comps by (auto simp: splitn2_Some)
  have body: "body = b @ (case pw of None \<Rightarrow> [] | Some p \<Rightarrow> PASSWORD_SEPARATOR # p)"
    "PASSWORD_SEPARATOR \<notin> set b"
    using b by (cases pw; simp add: splitn2_Some splitn2_None)+
  obtain trailing where cc: "cc = k @ (if trailing then [COMPONENT_SEPARATOR] else [])"
  proof (cases "strip_suffix [COMPONENT_SEPARATOR] cc")
    case None
    with that[of False] show ?thesis by (simp add: k_def)
  next
    case (Some ys)
    with that[of True] show ?thesis by (auto simp: k_def strip_suffix1_Some)
  qed
  let ?cs = "split_on COMPONENT_SEPARATOR k"
  have "path_parts_ok server ?cs pw"
    using facts b_eq body cc split_on_clean[of COMPONENT_SEPARATOR k]
    by (auto simp: path_parts_ok_def path_separators_def)
  moreover have "path = path_text server ?cs trailing pw"
    using path body b_eq cc by (simp add: path_text_def join_split_on)
  ultimately show ?thesis by blast
qed

lemma grid_path_components_text:
  assumes "path_parts_ok server cs pw"
  shows "grid_path_components (path_text server cs trailing pw) =
     \<lparr>gp_device = Some (hd cs),
      gp_folder = (if 1 < length cs then Some (cs ! 1) else None),
      gp_file = (if 2 < length cs then Some (cs ! 2) else None)\<rparr>"
proof -
  let ?comps = "join_on COMPONENT_SEPARATOR cs @ (if trailing then [COMPONENT_SEPARATOR] else [])"
  have ok: "cs \<noteq> []" "\<forall>c \<in> set cs. c \<noteq> []" "\<forall>c \<in> set cs. COMPONENT_SEPARATOR \<notin> set c"
    "\<forall>c \<in> set cs. PASSWORD_SEPARATOR \<notin> set c" "SERVER_SEPARATOR \<notin> set server"
    using assms by (auto simp: path_parts_ok_def path_separators_def)
  have 1: "splitn2 SERVER_SEPARATOR (path_text server cs trailing pw) = (COMPONENT_SEPARATOR # server,
      Some (?comps @ (case pw of None \<Rightarrow> [] | Some p \<Rightarrow> PASSWORD_SEPARATOR # p)))"
    using ok by (auto simp: path_text_def splitn2_Some)
  have "PASSWORD_SEPARATOR \<notin> set ?comps"
    using ok join_on_clean[of PASSWORD_SEPARATOR COMPONENT_SEPARATOR cs] by auto
  then have 2: "fst (splitn2 PASSWORD_SEPARATOR (?comps @ (case pw of None \<Rightarrow> [] | Some p \<Rightarrow> PASSWORD_SEPARATOR # p)))
      = ?comps"
    by (cases pw) (simp_all del: append_assoc)
  have 3: "filter (\<lambda>c. c \<noteq> []) (split_on COMPONENT_SEPARATOR ?comps) = cs"
    using ok by (simp add: split_on_trailing split_on_join)
  show ?thesis
    using ok(1) by (simp add: grid_path_components_def 1 2 3 hd_conv_nth del: append_assoc)
qed

section \<open>Valid names\<close>

lemma check_head_True:
  "check_head True bs = Inr r \<longleftrightarrow> r \<and> set bs \<inter> {SEP_KIND, SEP_PASS, SEP_PATH} = {}"
  by (induction bs) auto

lemma check_head_False:
  "check_head False bs = Inr True \<longleftrightarrow>
     (\<exists>title kind. bs = title @ SEP_KIND # kind \<and>
        set (title @ kind) \<inter> {SEP_KIND, SEP_PASS, SEP_PATH} = {})"
proof (induction bs)
  case (Cons b bs)
  show ?case
  proof (cases "b = SEP_KIND")
    case True
    have "b # bs = title @ SEP_KIND # kind \<and> set (title @ kind) \<inter> {SEP_KIND, SEP_PASS, SEP_PATH} = {}
        \<longleftrightarrow> title = [] \<and> kind = bs \<and> set bs \<inter> {SEP_KIND, SEP_PASS, SEP_PATH} = {}" for title kind
      using True by (cases title) auto
    with True show ?thesis by (simp add: check_head_True)
  next
    case False
    then show ?thesis using Cons.IH by (auto simp: Cons_eq_append_conv; force)
  qed
qed simp


text \<open>A name is \<open>title~kind~\<close> with neither part containing a separator, in at most 80 bytes.\<close>

lemma is_valid_name_iff:
  "is_valid_name v = Inr () \<longleftrightarrow>
     length v \<le> MAX_LENGTH \<and>
     (\<exists>title kind. v = title @ [SEP_KIND] @ kind @ [SEP_KIND] \<and>
        set (title @ kind) \<inter> {SEP_KIND, SEP_PASS, SEP_PATH} = {})"
proof (cases v rule: rev_cases)
  case (snoc w b)
  have "(\<exists>title kind. w @ [b] = title @ [SEP_KIND] @ kind @ [SEP_KIND] \<and> P title kind) \<longleftrightarrow>
      b = SEP_KIND \<and> (\<exists>title kind. w = title @ SEP_KIND # kind \<and> P title kind)" for P
    by (simp flip: append.assoc) auto
  moreover have "is_valid_name (w @ [b]) = Inr () \<longleftrightarrow>
      Suc (length w) \<le> MAX_LENGTH \<and> b = SEP_KIND \<and> check_head False w = Inr True"
    by (auto simp: is_valid_name_def result_simps)
  ultimately show ?thesis by (simp add: snoc check_head_False)
qed (simp add: is_valid_name_def)

lemma grid_file_name_new_as_bytes:
  assumes "grid_file_name_new v = Inr n"
  shows "grid_file_name_as_bytes n = v" "length (name_bytes n) = MAX_LENGTH"
    "grid_file_name_validate n = Inr ()"
proof -
  from assms have ok: "is_valid_name v = Inr ()"
    and n: "n = \<lparr>name_length = of_nat (length v),
                 name_bytes = take MAX_LENGTH v @ replicate (MAX_LENGTH - length v) 0\<rparr>"
    by (auto simp: grid_file_name_new_def result_simps)
  from ok have "length v \<le> 80" by (simp add: is_valid_name_iff MAX_LENGTH_def)
  then show "grid_file_name_as_bytes n = v" "length (name_bytes n) = MAX_LENGTH"
    by (simp_all add: n grid_file_name_as_bytes_def MAX_LENGTH_def)
  with ok \<open>length v \<le> 80\<close> show "grid_file_name_validate n = Inr ()"
    by (simp add: grid_file_name_validate_def n MAX_LENGTH_def)
qed

lemma grid_file_name_validate_as_bytes:
  assumes "grid_file_name_validate n = Inr ()" "length (name_bytes n) = MAX_LENGTH"
  shows "is_valid_name (grid_file_name_as_bytes n) = Inr ()"
    "length (grid_file_name_as_bytes n) = unat (name_length n)"
  using assms by (auto simp: grid_file_name_validate_def grid_file_name_as_bytes_def split: if_splits)

section \<open>Properties\<close>

text \<open>C34: a byte string is accepted as a GRiD path exactly when it has the documented shape: a
  backquote, a non-empty server name, a colon, one or more non-empty components separated by
  backquotes with at most one trailing backquote, none of them containing a separator, and
  optionally a bar with a non-empty password that contains no further bar.\<close>

theorem grid_path_accepts_exactly:
  "is_ok (grid_path_try_from path) \<longleftrightarrow>
     (\<exists>server cs trailing pw. path_parts_ok server cs pw \<and> path = path_text server cs trailing pw)"
proof -
  have "is_ok (grid_path_try_from path) \<longleftrightarrow> grid_path_validate path = Inr ()"
    by (cases "grid_path_validate path") (auto simp: grid_path_try_from_def)
  then show ?thesis using grid_path_validate_text grid_path_validate_Inr by blast
qed

text \<open>For an accepted path, the device, folder and file that \<open>components\<close> reports are the
  first three components of its text; a component the text lacks is reported absent, and the
  password and the trailing separator are never part of a component.\<close>

lemma grid_path_components_of_accepted:
  assumes "is_ok (grid_path_try_from path)"
  shows "\<exists>server cs trailing pw. path_parts_ok server cs pw \<and> path = path_text server cs trailing pw \<and>
    grid_path_components path =
     \<lparr>gp_device = Some (hd cs),
      gp_folder = (if 1 < length cs then Some (cs ! 1) else None),
      gp_file = (if 2 < length cs then Some (cs ! 2) else None)\<rparr>"
proof -
  from assms have "grid_path_validate path = Inr ()"
    by (cases "grid_path_validate path") (auto simp: grid_path_try_from_def)
  then show ?thesis using grid_path_validate_Inr grid_path_components_text by metis
qed

lemma grid_path_components_of_accepted_witness:
  "is_ok (grid_path_try_from (bstr ''`s:d`f~k~|pw'')) \<and>
   (\<exists>server cs trailing pw. path_parts_ok server cs pw \<and>
      bstr ''`s:d`f~k~|pw'' = path_text server cs trailing pw \<and>
      grid_path_components (bstr ''`s:d`f~k~|pw'') =
     \<lparr>gp_device = Some (hd cs),
      gp_folder = (if 1 < length cs then Some (cs ! 1) else None),
      gp_file = (if 2 < length cs then Some (cs ! 2) else None)\<rparr>)"
proof -
  have "is_ok (grid_path_try_from (bstr ''`s:d`f~k~|pw''))" by code_simp
  with grid_path_components_of_accepted[OF this] show ?thesis by blast
qed

text \<open>Constructing a name succeeds exactly on \<open>title~kind~\<close> texts of at most 80 bytes whose
  title and kind are free of separators; the 81-byte form it builds passes \<open>validate\<close> and reads back
  as the same bytes.\<close>

lemma grid_file_name_new_roundtrip:
  "(is_ok (grid_file_name_new v) \<longleftrightarrow>
      length v \<le> 80 \<and>
      (\<exists>title kind. v = title @ [SEP_KIND] @ kind @ [SEP_KIND] \<and>
         set (title @ kind) \<inter> {SEP_KIND, SEP_PASS, SEP_PATH} = {})) \<and>
   (case grid_file_name_new v of
      Inl _ \<Rightarrow> True
    | Inr n \<Rightarrow> grid_file_name_as_bytes n = v \<and> grid_file_name_validate n = Inr ()
               \<and> length (name_bytes n) = 80)"
proof -
  have "is_ok (grid_file_name_new v) \<longleftrightarrow> is_valid_name v = Inr ()"
    by (cases "is_valid_name v") (auto simp: grid_file_name_new_def)
  then show ?thesis
    using grid_file_name_new_as_bytes[of v]
    by (auto simp: is_valid_name_iff MAX_LENGTH_def split: sum.splits)
qed

end
