(* ===== verification/Vfs_Types.thy ===== *)
theory Vfs_Types
  imports Grid_Names
begin

text \<open>
  The vocabulary every part of the file service shares: the modes, statuses and errors of
  \<^verbatim>\<open>Server/src/vfs/backend.rs\<close> and \<^verbatim>\<open>Server/src/vfs/error.rs\<close>, and the error codes of
  \<^verbatim>\<open>Server/src/vipc/vfs/error.rs\<close>. The \<open>Backend\<close> trait itself is the record of functions in
  \<^verbatim>\<open>Vfs_Server\<close>.
\<close>

definition DIRECTORY_ENTRY_PREAMBLE_LEN :: nat where "DIRECTORY_ENTRY_PREAMBLE_LEN = 9"

datatype attach_mode = OldFile | UpdateFile | NewFile

datatype access_mode =
    AccessRead | AccessWrite | AccessUpdate | UpdateDescriptor | ShortDirectory | LongDirectory

datatype seek_mode = SeekBackward | SeekAbsolute | SeekForward | SeekFromEnd

datatype read_direction = DirectionForward | DirectionBackward

datatype object_mode = ObjectByte | ObjectDirectory | ObjectCompleteDirectory

record dir_entry =
  dir_entry_name :: bytes

record file_status =
  fs_access :: access_mode
  fs_seek :: bool
  fs_file_position :: u32
  fs_file_length :: u32
  fs_num_pages :: u16
  fs_num_pages_alloc :: u16

datatype status_action =
    ActSetDirection read_direction
  | ActSetWildcard bytes
  | ActSetObjectMode object_mode
  | ActUnsupported

datatype vfs_error =
    VNotSupported
  | VAccessDenied
  | VDeviceFull
  | VFileNotFound
  | VWriteProtected
  | VFileNotOpen
  | VBadConnection
  | VAlreadyOpen
  | VBadParameter
  | VFileExists
  | VResourceUnavailable
  | VIo io_kind

fun vfs_error_from_io :: "io_kind \<Rightarrow> vfs_error" where
  "vfs_error_from_io NotFound = VFileNotFound"
| "vfs_error_from_io PermissionDenied = VAccessDenied"
| "vfs_error_from_io AlreadyExists = VFileExists"
| "vfs_error_from_io ReadOnlyFilesystem = VWriteProtected"
| "vfs_error_from_io StorageFull = VDeviceFull"
| "vfs_error_from_io QuotaExceeded = VDeviceFull"
| "vfs_error_from_io FileTooLarge = VDeviceFull"
| "vfs_error_from_io InvalidInput = VBadParameter"
| "vfs_error_from_io InvalidData = VBadParameter"
| "vfs_error_from_io Unsupported = VNotSupported"
| "vfs_error_from_io k = VIo k"

fun vfs_error_code :: "vfs_error \<Rightarrow> u16" where
  "vfs_error_code VNotSupported = 35"
| "vfs_error_code VAccessDenied = 38"
| "vfs_error_code VDeviceFull = 41"
| "vfs_error_code VFileNotFound = 33"
| "vfs_error_code VWriteProtected = 106"
| "vfs_error_code VFileNotOpen = 205"
| "vfs_error_code VBadConnection = 221"
| "vfs_error_code VAlreadyOpen = 222"
| "vfs_error_code VBadParameter = 225"
| "vfs_error_code VFileExists = 32"
| "vfs_error_code VResourceUnavailable = 601"
| "vfs_error_code (VIo e) = 601"

fun vfs_result_code :: "vfs_error + 'a \<Rightarrow> u16" where
  "vfs_result_code (Inr _) = 0"
| "vfs_result_code (Inl e) = vfs_error_code e"

lemma vfs_error_code_nonzero: "vfs_error_code e \<noteq> 0"
  by (cases e) simp_all

lemma vfs_result_code_0 [simp]: "vfs_result_code r = 0 \<longleftrightarrow> is_ok r"
  by (cases r) (simp_all add: vfs_error_code_nonzero)

end
