(* ===== verification/Vfs_Protocol.thy ===== *)
theory Vfs_Protocol
  imports Vfs_Types Wire_IO
begin

text \<open>
  \<^verbatim>\<open>Server/src/vipc/vfs/protocol.rs\<close>: the requests and responses of the file service. The
  packed structures are read and written field by field, in their declared order and
  little-endian; a structure that does not fit the unread bytes is an unexpected end of input
  in either reading.
\<close>

section \<open>Requests\<close>

definition VFS_RESPONSE_BIT :: u16 where "VFS_RESPONSE_BIT = 0x8000"
definition VFS_MAX_MESSAGE_LENGTH :: nat where "VFS_MAX_MESSAGE_LENGTH = 514"
definition VFS_PAGE_SIZE :: nat where "VFS_PAGE_SIZE = 504"
definition VFS_MAX_DIRECTORY_OBJECTS_PER_PAGE :: nat where "VFS_MAX_DIRECTORY_OBJECTS_PER_PAGE = 30"
definition VFS_MAX_FILE_NAME_LENGTH :: nat where "VFS_MAX_FILE_NAME_LENGTH = 80"
definition VFS_PASSWORD_SPACE :: nat where "VFS_PASSWORD_SPACE = 17"
definition VFS_DESCRIPTOR_LENGTH :: nat where "VFS_DESCRIPTOR_LENGTH = 198"
definition VFS_MAX_READ_LENGTH :: nat where "VFS_MAX_READ_LENGTH = VFS_PAGE_SIZE"
definition VFS_MAX_WRITE_LENGTH :: nat where "VFS_MAX_WRITE_LENGTH = VFS_PAGE_SIZE"

lemmas vfs_limits = VFS_MAX_MESSAGE_LENGTH_def VFS_PAGE_SIZE_def
  VFS_MAX_DIRECTORY_OBJECTS_PER_PAGE_def VFS_MAX_FILE_NAME_LENGTH_def VFS_DESCRIPTOR_LENGTH_def
  VFS_MAX_READ_LENGTH_def VFS_MAX_WRITE_LENGTH_def VFS_PASSWORD_SPACE_def

record vfs_request_header =
  vh_request :: u16
  vh_requestors_conn_id :: u16
  vh_servers_conn_id :: u16

datatype vfs_request_code =
    CInitialize | CGetStatus | COpen | CClose | CRead | CWrite | CSeek | CTruncate | CAttach
  | CDetach | CRename | CDelete | CReadDesc | CWriteDesc | CFlush | CWaitSrq | CSelfTest
  | CFormat | CSetStatus | CDeactivate | CTrackFormat | CControllerTest | CRamTest | CDriveTest
  | CProgram | CWriteProtect | CBufferCommand | CReadDirPage | CSignOn | CSignOff | CSend
  | CRemoteCopy | CGetMoreStatus | CReadRamBuffer | CWriteRamBuffer

primrec vfs_request_code_repr :: "vfs_request_code \<Rightarrow> u16" where
  "vfs_request_code_repr CInitialize = 0"
| "vfs_request_code_repr CGetStatus = 1"
| "vfs_request_code_repr COpen = 2"
| "vfs_request_code_repr CClose = 3"
| "vfs_request_code_repr CRead = 4"
| "vfs_request_code_repr CWrite = 5"
| "vfs_request_code_repr CSeek = 6"
| "vfs_request_code_repr CTruncate = 7"
| "vfs_request_code_repr CAttach = 8"
| "vfs_request_code_repr CDetach = 9"
| "vfs_request_code_repr CRename = 10"
| "vfs_request_code_repr CDelete = 11"
| "vfs_request_code_repr CReadDesc = 12"
| "vfs_request_code_repr CWriteDesc = 13"
| "vfs_request_code_repr CFlush = 14"
| "vfs_request_code_repr CWaitSrq = 15"
| "vfs_request_code_repr CSelfTest = 16"
| "vfs_request_code_repr CFormat = 17"
| "vfs_request_code_repr CSetStatus = 20"
| "vfs_request_code_repr CDeactivate = 21"
| "vfs_request_code_repr CTrackFormat = 22"
| "vfs_request_code_repr CControllerTest = 23"
| "vfs_request_code_repr CRamTest = 24"
| "vfs_request_code_repr CDriveTest = 25"
| "vfs_request_code_repr CProgram = 26"
| "vfs_request_code_repr CWriteProtect = 27"
| "vfs_request_code_repr CBufferCommand = 28"
| "vfs_request_code_repr CReadDirPage = 29"
| "vfs_request_code_repr CSignOn = 30"
| "vfs_request_code_repr CSignOff = 31"
| "vfs_request_code_repr CSend = 32"
| "vfs_request_code_repr CRemoteCopy = 33"
| "vfs_request_code_repr CGetMoreStatus = 34"
| "vfs_request_code_repr CReadRamBuffer = 35"
| "vfs_request_code_repr CWriteRamBuffer = 36"

definition vfs_request_codes :: "vfs_request_code list" where
  "vfs_request_codes =
     [CInitialize, CGetStatus, COpen, CClose, CRead, CWrite, CSeek, CTruncate, CAttach, CDetach,
      CRename, CDelete, CReadDesc, CWriteDesc, CFlush, CWaitSrq, CSelfTest, CFormat, CSetStatus,
      CDeactivate, CTrackFormat, CControllerTest, CRamTest, CDriveTest, CProgram, CWriteProtect,
      CBufferCommand, CReadDirPage, CSignOn, CSignOff, CSend, CRemoteCopy, CGetMoreStatus,
      CReadRamBuffer, CWriteRamBuffer]"

text \<open>The derived \<open>FromPrimitive\<close>: the constructor with the given discriminant, if there is one.\<close>

definition vfs_request_code_from_u16 :: "u16 \<Rightarrow> vfs_request_code option" where
  "vfs_request_code_from_u16 v = List.find (\<lambda>c. vfs_request_code_repr c = v) vfs_request_codes"

definition attach_mode_from_u8 :: "byte \<Rightarrow> attach_mode option" where
  "attach_mode_from_u8 v =
     (if v = 1 then Some OldFile else if v = 2 then Some UpdateFile
      else if v = 3 then Some NewFile else None)"

definition access_mode_from_u8 :: "byte \<Rightarrow> access_mode option" where
  "access_mode_from_u8 v =
     (if v = 1 then Some AccessRead else if v = 2 then Some AccessWrite
      else if v = 3 then Some AccessUpdate else if v = 4 then Some UpdateDescriptor
      else if v = 5 then Some ShortDirectory else if v = 6 then Some LongDirectory else None)"

definition seek_mode_from_u8 :: "byte \<Rightarrow> seek_mode option" where
  "seek_mode_from_u8 v =
     (if v = 1 then Some SeekBackward else if v = 2 then Some SeekAbsolute
      else if v = 3 then Some SeekForward else if v = 4 then Some SeekFromEnd else None)"

definition read_direction_from_u8 :: "byte \<Rightarrow> read_direction option" where
  "read_direction_from_u8 v =
     (if v = 0 then Some DirectionForward else if v = 1 then Some DirectionBackward else None)"

definition object_mode_from_u8 :: "byte \<Rightarrow> object_mode option" where
  "object_mode_from_u8 v =
     (if v = 0 then Some ObjectByte else if v = 1 then Some ObjectDirectory
      else if v = 2 then Some ObjectCompleteDirectory else None)"

text \<open>Set-status actions, and the types that announce them.\<close>

datatype vfs_set_status_type =
    TSetDirection | TSetWildcard | TSetObjectMode | TSetGpibAddress | TSetDeviceMask | TSetNoteValue
  | TSetNumBuffers | TSetNameAttributes | TSetConsoleMode | TSetAccessRights | TSetSecureMode
  | TSetIpcActivityTimeout | TGetGenericDeviceName | TGetDeviceName

definition vfs_set_status_type_from_u8 :: "byte \<Rightarrow> vfs_set_status_type option" where
  "vfs_set_status_type_from_u8 v =
     (if v = 255 then Some TSetDirection else if v = 254 then Some TSetWildcard
      else if v = 253 then Some TSetObjectMode else if v = 252 then Some TSetGpibAddress
      else if v = 251 then Some TSetDeviceMask else if v = 250 then Some TSetNoteValue
      else if v = 249 then Some TSetNumBuffers else if v = 248 then Some TSetNameAttributes
      else if v = 247 then Some TSetConsoleMode else if v = 246 then Some TSetAccessRights
      else if v = 245 then Some TSetSecureMode else if v = 244 then Some TSetIpcActivityTimeout
      else if v = 243 then Some TGetGenericDeviceName else if v = 242 then Some TGetDeviceName
      else None)"

datatype vfs_set_status_action =
    SetDirection read_direction
  | SetWildcard bytes
  | SetObjectMode object_mode
  | SetGpibAddress bytes
  | SetDeviceMask bytes
  | SetNoteValue bytes
  | SetNumBuffers bytes
  | SetNameAttributes bytes
  | SetConsoleMode bytes
  | SetAccessRights bytes
  | SetSecureMode bytes
  | SetIpcActivityTimeout bytes
  | GetGenericDeviceName bytes
  | GetDeviceName bytes
  | SetUnknown byte bytes

definition read_single_byte :: "bytes \<Rightarrow> string \<Rightarrow> frame_error + byte" where
  "read_single_byte raw name =
     (case raw of
        [b] \<Rightarrow> Inr b
      | _ \<Rightarrow> Inl (Validation (''invalid VFS set '' @ name @ '' length: expected 1, found {}'')
                   [length raw]))"

definition vfs_set_status_action_from_raw :: "byte \<Rightarrow> bytes \<Rightarrow> frame_error + vfs_set_status_action" where
  "vfs_set_status_action_from_raw ty raw =
     (case vfs_set_status_type_from_u8 ty of
        None \<Rightarrow> Inr (SetUnknown ty raw)
      | Some TSetDirection \<Rightarrow>
          and_then (read_single_byte raw ''direction'') (\<lambda>raw_direction.
          case read_direction_from_u8 raw_direction of
            None \<Rightarrow> Inl (Validation ''invalid VFS read direction: {raw_direction}'' [unat raw_direction])
          | Some direction \<Rightarrow> Inr (SetDirection direction))
      | Some TSetWildcard \<Rightarrow> Inr (SetWildcard raw)
      | Some TSetObjectMode \<Rightarrow>
          and_then (read_single_byte raw ''object mode'') (\<lambda>raw_mode.
          case object_mode_from_u8 raw_mode of
            None \<Rightarrow> Inl (Validation ''invalid VFS object mode: {raw_mode}'' [unat raw_mode])
          | Some mode \<Rightarrow> Inr (SetObjectMode mode))
      | Some TSetGpibAddress \<Rightarrow> Inr (SetGpibAddress raw)
      | Some TSetDeviceMask \<Rightarrow> Inr (SetDeviceMask raw)
      | Some TSetNoteValue \<Rightarrow> Inr (SetNoteValue raw)
      | Some TSetNumBuffers \<Rightarrow> Inr (SetNumBuffers raw)
      | Some TSetNameAttributes \<Rightarrow> Inr (SetNameAttributes raw)
      | Some TSetConsoleMode \<Rightarrow> Inr (SetConsoleMode raw)
      | Some TSetAccessRights \<Rightarrow> Inr (SetAccessRights raw)
      | Some TSetSecureMode \<Rightarrow> Inr (SetSecureMode raw)
      | Some TSetIpcActivityTimeout \<Rightarrow> Inr (SetIpcActivityTimeout raw)
      | Some TGetGenericDeviceName \<Rightarrow> Inr (GetGenericDeviceName raw)
      | Some TGetDeviceName \<Rightarrow> Inr (GetDeviceName raw))"

datatype vfs_request_body =
    BGetStatus u16
  | BOpen byte
  | BRead u16
  | BReadDesc u16
  | BReadDirPage u16
  | BWrite bytes
  | BWriteDesc bytes
  | BSetStatus "vfs_set_status_action list"
  | BSeek seek_mode u32
  | BAttach attach_mode access_mode bytes grid_path
  | BDetach
  | BClose
  | BTruncate
  | BFlush
  | BUnknown bytes

record vfs_request =
  vr_header :: vfs_request_header
  vr_body :: vfs_request_body

text \<open>\<open>VfsReadRequest::bounded_length\<close>.\<close>

definition bounded_length :: "u16 \<Rightarrow> nat" where
  "bounded_length data_length = min (unat data_length) VFS_MAX_READ_LENGTH"

definition ensure_empty :: "cursor \<Rightarrow> string \<Rightarrow> frame_error + unit" where
  "ensure_empty c context =
     (let remaining = length c in
      if remaining = 0 then Inr ()
      else Inl (Validation (context @ '': {remaining} trailing bytes'') [remaining]))"

definition read_request :: "cursor \<Rightarrow> frame_error + u16" where
  "read_request c =
     and_then (read_u16 c) (\<lambda>(data_length, c).
     and_then (ensure_empty c ''VFS read payload'') (\<lambda>_. Inr data_length))"

definition read_write_request :: "cursor \<Rightarrow> frame_error + bytes" where
  "read_write_request c =
     and_then (read_u16 c) (\<lambda>(data_length, c).
     and_then (read_slice (unat data_length) c) (\<lambda>(data, c).
     and_then (ensure_empty c ''VFS write payload'') (\<lambda>_. Inr data)))"

text \<open>The loop over the set-status actions.\<close>

lemma read_slice_shrinks: "read_slice n c = Inr (v, c') \<Longrightarrow> length c' \<le> length c"
  by (auto simp: read_slice_Inr)

function read_set_status_actions :: "cursor \<Rightarrow> frame_error + vfs_set_status_action list" where
  "read_set_status_actions c =
     (case c of
        [] \<Rightarrow> Inr []
      | ty # c1 \<Rightarrow>
          and_then (read_u16 c1) (\<lambda>(len, c2).
          and_then (read_slice (unat len) c2) (\<lambda>(raw, c3).
          and_then (vfs_set_status_action_from_raw ty raw) (\<lambda>a.
          and_then (read_set_status_actions c3) (\<lambda>as. Inr (a # as))))))"
  by pat_completeness auto
termination
  by (relation "measure length") (auto simp: read_u16_Inr dest!: read_slice_shrinks)

declare read_set_status_actions.simps [simp del]

definition read_vfs_request_header :: "vfs_request_header reader" where
  "read_vfs_request_header c =
     and_then (read_u16 c) (\<lambda>(request, c).
     and_then (read_u16 c) (\<lambda>(requestors, c).
     and_then (read_u16 c) (\<lambda>(servers, c).
       Inr (\<lparr>vh_request = request, vh_requestors_conn_id = requestors, vh_servers_conn_id = servers\<rparr>, c))))"

definition read_attach_header :: "(byte \<times> byte \<times> bytes) reader" where
  "read_attach_header c =
     and_then (read_u8 c) (\<lambda>(mode, c).
     and_then (read_u8 c) (\<lambda>(access, c).
     and_then (read_array VFS_PASSWORD_SPACE c) (\<lambda>(password, c).
       Inr ((mode, access, password), c))))"

definition read_attach_request :: "cursor \<Rightarrow> frame_error + vfs_request_body" where
  "read_attach_request c =
     and_then (read_attach_header c) (\<lambda>((raw_mode, raw_access, password), c).
     and_then (ok_or (Validation ''invalid VFS attach mode'' []) (attach_mode_from_u8 raw_mode)) (\<lambda>mode.
     and_then (ok_or (Validation ''invalid VFS access mode'' []) (access_mode_from_u8 raw_access)) (\<lambda>access.
     and_then (read_small_slice c) (\<lambda>(raw_path, c).
     and_then (map_err (\<lambda>reason. Validation reason []) (grid_path_try_from raw_path)) (\<lambda>path.
     and_then (ensure_empty c ''VFS attach payload'') (\<lambda>_. Inr (BAttach mode access password path)))))))"

definition read_seek_request :: "cursor \<Rightarrow> frame_error + vfs_request_body" where
  "read_seek_request c =
     and_then (read_u8 c) (\<lambda>(raw_mode, c).
     and_then (ok_or (Validation ''invalid VFS seek mode'' []) (seek_mode_from_u8 raw_mode)) (\<lambda>mode.
     and_then (read_u32 c) (\<lambda>(position, c).
     and_then (ensure_empty c ''VFS seek payload'') (\<lambda>_. Inr (BSeek mode position)))))"

definition read_set_status_request :: "cursor \<Rightarrow> frame_error + vfs_request_body" where
  "read_set_status_request c =
     and_then (read_u16 c) (\<lambda>(data_length, c).
     and_then (read_slice (unat data_length) c) (\<lambda>(data, c).
     and_then (ensure_empty c ''VFS set status payload'') (\<lambda>_.
     and_then (read_set_status_actions data) (\<lambda>actions. Inr (BSetStatus actions)))))"

definition read_vfs_request_body :: "vfs_request_code option \<Rightarrow> cursor \<Rightarrow> frame_error + vfs_request_body" where
  "read_vfs_request_body code c =
     (case code of
        Some CAttach \<Rightarrow> read_attach_request c
      | Some COpen \<Rightarrow>
          and_then (read_u8 c) (\<lambda>(num_buf, c).
          and_then (ensure_empty c ''VFS open payload'') (\<lambda>_. Inr (BOpen num_buf)))
      | Some CGetStatus \<Rightarrow> and_then (read_request c) (\<lambda>l. Inr (BGetStatus l))
      | Some CRead \<Rightarrow> and_then (read_request c) (\<lambda>l. Inr (BRead l))
      | Some CReadDesc \<Rightarrow> and_then (read_request c) (\<lambda>l. Inr (BReadDesc l))
      | Some CReadDirPage \<Rightarrow> and_then (read_request c) (\<lambda>l. Inr (BReadDirPage l))
      | Some CSeek \<Rightarrow> read_seek_request c
      | Some CWrite \<Rightarrow> and_then (read_write_request c) (\<lambda>d. Inr (BWrite d))
      | Some CWriteDesc \<Rightarrow> and_then (read_write_request c) (\<lambda>d. Inr (BWriteDesc d))
      | Some CSetStatus \<Rightarrow> read_set_status_request c
      | Some CDetach \<Rightarrow> and_then (ensure_empty c ''VFS detach payload'') (\<lambda>_. Inr BDetach)
      | Some CClose \<Rightarrow> and_then (ensure_empty c ''VFS close payload'') (\<lambda>_. Inr BClose)
      | Some CTruncate \<Rightarrow> and_then (ensure_empty c ''VFS truncate payload'') (\<lambda>_. Inr BTruncate)
      | Some CFlush \<Rightarrow> and_then (ensure_empty c ''VFS flush payload'') (\<lambda>_. Inr BFlush)
      | _ \<Rightarrow> Inr (BUnknown (fst (read_remainder c))))"

definition vfs_request_try_from_slice :: "bytes \<Rightarrow> frame_error + vfs_request" where
  "vfs_request_try_from_slice data =
     and_then (read_vfs_request_header data) (\<lambda>(header, c).
     and_then (read_vfs_request_body (vfs_request_code_from_u16 (vh_request header)) c) (\<lambda>body.
       Inr \<lparr>vr_header = header, vr_body = body\<rparr>))"

section \<open>Responses\<close>

record vfs_response_header =
  rh_response :: u16
  rh_servers_conn_id :: u16
  rh_requestors_conn_id :: u16
  rh_status :: u16

record vfs_get_status_body =
  gs_open :: byte
  gs_access :: byte
  gs_seek :: byte
  gs_file_position :: u32
  gs_file_length :: u32
  gs_num_pages :: u16
  gs_num_pages_alloc :: u16

datatype vfs_response =
    RSimple vfs_response_header
  | RGetStatus vfs_response_header vfs_get_status_body
  | RReadDirPage vfs_response_header "bytes list"
  | RRead vfs_response_header bytes

definition response_header :: "vfs_request_code \<Rightarrow> vfs_request_header \<Rightarrow> u16 \<Rightarrow> vfs_response_header" where
  "response_header request header status =
     \<lparr>rh_response = VFS_RESPONSE_BIT OR vfs_request_code_repr request,
      rh_servers_conn_id = vh_servers_conn_id header,
      rh_requestors_conn_id = vh_requestors_conn_id header,
      rh_status = status\<rparr>"

definition simple_response :: "vfs_request_code \<Rightarrow> vfs_request_header \<Rightarrow> u16 \<Rightarrow> vfs_response" where
  "simple_response request header error = RSimple (response_header request header error)"

definition vfs_response_header_bytes :: "vfs_response_header \<Rightarrow> bytes" where
  "vfs_response_header_bytes h =
     u16_to_le (rh_response h) @ u16_to_le (rh_servers_conn_id h)
       @ u16_to_le (rh_requestors_conn_id h) @ u16_to_le (rh_status h)"

definition vfs_get_status_body_bytes :: "vfs_get_status_body \<Rightarrow> bytes" where
  "vfs_get_status_body_bytes b =
     [gs_open b, gs_access b, gs_seek b] @ u32_to_le (gs_file_position b)
       @ u32_to_le (gs_file_length b) @ u16_to_le (gs_num_pages b) @ u16_to_le (gs_num_pages_alloc b)"

definition vfs_dir_entry_header_bytes :: "byte \<Rightarrow> bytes" where
  "vfs_dir_entry_header_bytes len =
     [0, 0, 0, 0] @ u32_to_le (of_nat DIRECTORY_ENTRY_PREAMBLE_LEN + ucast len) @ [len]"

fun write_dir_entries :: "bytes list \<Rightarrow> bytes \<Rightarrow> frame_error + bytes" where
  "write_dir_entries [] dst = Inr dst"
| "write_dir_entries (name # entries) dst =
     (case u8_try_from (length name) of
        Some len \<Rightarrow>
          if unat len \<le> VFS_MAX_FILE_NAME_LENGTH
          then write_dir_entries entries
                 (write_all name (write_all (vfs_dir_entry_header_bytes len) dst))
          else Inl (Validation ''VFS directory entry name exceeds the maximum length of 80 bytes'' [])
      | None \<Rightarrow> Inl (Validation ''VFS directory entry name exceeds the maximum length of 80 bytes'' []))"

definition vfs_response_write_into :: "vfs_response \<Rightarrow> bytes \<Rightarrow> frame_error + bytes" where
  "vfs_response_write_into r dst =
     (let start = length dst in
      and_then
        (case r of
           RSimple h \<Rightarrow> Inr (write_all (vfs_response_header_bytes h) dst)
         | RGetStatus h b \<Rightarrow>
             with_u16_len (write_all (vfs_response_header_bytes h) dst)
               (\<lambda>dst. Inr (write_all (vfs_get_status_body_bytes b) dst))
         | RReadDirPage h entries \<Rightarrow>
             with_u16_len (write_all (vfs_response_header_bytes h) dst) (write_dir_entries entries)
         | RRead h data \<Rightarrow>
             with_u16_len (write_all (vfs_response_header_bytes h) dst)
               (\<lambda>dst. Inr (write_all data dst)))
        (\<lambda>dst. if length dst - start > VFS_MAX_MESSAGE_LENGTH
               then Inl (Validation ''VFS response exceeds the maximum length of 514 bytes'' [])
               else Inr dst))"


section \<open>The encoding of requests\<close>

text \<open>What a client sends; the parser is checked against it.\<close>

definition action_record :: "byte \<Rightarrow> bytes \<Rightarrow> bytes" where
  "action_record ty raw = ty # u16_to_le (of_nat (length raw)) @ raw"

primrec read_direction_repr :: "read_direction \<Rightarrow> byte" where
  "read_direction_repr DirectionForward = 0"
| "read_direction_repr DirectionBackward = 1"

primrec object_mode_repr :: "object_mode \<Rightarrow> byte" where
  "object_mode_repr ObjectByte = 0"
| "object_mode_repr ObjectDirectory = 1"
| "object_mode_repr ObjectCompleteDirectory = 2"

primrec attach_mode_repr :: "attach_mode \<Rightarrow> byte" where
  "attach_mode_repr OldFile = 1"
| "attach_mode_repr UpdateFile = 2"
| "attach_mode_repr NewFile = 3"

primrec seek_mode_repr :: "seek_mode \<Rightarrow> byte" where
  "seek_mode_repr SeekBackward = 1"
| "seek_mode_repr SeekAbsolute = 2"
| "seek_mode_repr SeekForward = 3"
| "seek_mode_repr SeekFromEnd = 4"

primrec access_mode_repr :: "access_mode \<Rightarrow> byte" where
  "access_mode_repr AccessRead = 1"
| "access_mode_repr AccessWrite = 2"
| "access_mode_repr AccessUpdate = 3"
| "access_mode_repr UpdateDescriptor = 4"
| "access_mode_repr ShortDirectory = 5"
| "access_mode_repr LongDirectory = 6"

primrec encode_action :: "vfs_set_status_action \<Rightarrow> bytes" where
  "encode_action (SetDirection d) = action_record 255 [read_direction_repr d]"
| "encode_action (SetWildcard pattern) = action_record 254 pattern"
| "encode_action (SetObjectMode m) = action_record 253 [object_mode_repr m]"
| "encode_action (SetGpibAddress raw) = action_record 252 raw"
| "encode_action (SetDeviceMask raw) = action_record 251 raw"
| "encode_action (SetNoteValue raw) = action_record 250 raw"
| "encode_action (SetNumBuffers raw) = action_record 249 raw"
| "encode_action (SetNameAttributes raw) = action_record 248 raw"
| "encode_action (SetConsoleMode raw) = action_record 247 raw"
| "encode_action (SetAccessRights raw) = action_record 246 raw"
| "encode_action (SetSecureMode raw) = action_record 245 raw"
| "encode_action (SetIpcActivityTimeout raw) = action_record 244 raw"
| "encode_action (GetGenericDeviceName raw) = action_record 243 raw"
| "encode_action (GetDeviceName raw) = action_record 242 raw"
| "encode_action (SetUnknown ty raw) = action_record ty raw"

primrec action_encodable :: "vfs_set_status_action \<Rightarrow> bool" where
  "action_encodable (SetDirection d) \<longleftrightarrow> True"
| "action_encodable (SetWildcard pattern) \<longleftrightarrow> length pattern < 65536"
| "action_encodable (SetObjectMode m) \<longleftrightarrow> True"
| "action_encodable (SetGpibAddress raw) \<longleftrightarrow> length raw < 65536"
| "action_encodable (SetDeviceMask raw) \<longleftrightarrow> length raw < 65536"
| "action_encodable (SetNoteValue raw) \<longleftrightarrow> length raw < 65536"
| "action_encodable (SetNumBuffers raw) \<longleftrightarrow> length raw < 65536"
| "action_encodable (SetNameAttributes raw) \<longleftrightarrow> length raw < 65536"
| "action_encodable (SetConsoleMode raw) \<longleftrightarrow> length raw < 65536"
| "action_encodable (SetAccessRights raw) \<longleftrightarrow> length raw < 65536"
| "action_encodable (SetSecureMode raw) \<longleftrightarrow> length raw < 65536"
| "action_encodable (SetIpcActivityTimeout raw) \<longleftrightarrow> length raw < 65536"
| "action_encodable (GetGenericDeviceName raw) \<longleftrightarrow> length raw < 65536"
| "action_encodable (GetDeviceName raw) \<longleftrightarrow> length raw < 65536"
| "action_encodable (SetUnknown ty raw) \<longleftrightarrow> length raw < 65536 \<and> ty < 242"

primrec body_code :: "vfs_request_body \<Rightarrow> vfs_request_code option" where
  "body_code (BGetStatus l) = Some CGetStatus"
| "body_code (BOpen n) = Some COpen"
| "body_code (BRead l) = Some CRead"
| "body_code (BReadDesc l) = Some CReadDesc"
| "body_code (BReadDirPage l) = Some CReadDirPage"
| "body_code (BWrite d) = Some CWrite"
| "body_code (BWriteDesc d) = Some CWriteDesc"
| "body_code (BSetStatus as) = Some CSetStatus"
| "body_code (BSeek m p) = Some CSeek"
| "body_code (BAttach m a pw p) = Some CAttach"
| "body_code BDetach = Some CDetach"
| "body_code BClose = Some CClose"
| "body_code BTruncate = Some CTruncate"
| "body_code BFlush = Some CFlush"
| "body_code (BUnknown d) = None"

definition served_codes :: "vfs_request_code list" where
  "served_codes = [CGetStatus, COpen, CRead, CReadDesc, CReadDirPage, CWrite, CWriteDesc, CSetStatus,
     CSeek, CAttach, CDetach, CClose, CTruncate, CFlush]"

definition sized_block :: "bytes \<Rightarrow> bytes" where
  "sized_block data = u16_to_le (of_nat (length data)) @ data"

primrec encode_body :: "vfs_request_body \<Rightarrow> bytes" where
  "encode_body (BGetStatus l) = u16_to_le l"
| "encode_body (BOpen n) = [n]"
| "encode_body (BRead l) = u16_to_le l"
| "encode_body (BReadDesc l) = u16_to_le l"
| "encode_body (BReadDirPage l) = u16_to_le l"
| "encode_body (BWrite d) = sized_block d"
| "encode_body (BWriteDesc d) = sized_block d"
| "encode_body (BSetStatus as) = sized_block (concat (map encode_action as))"
| "encode_body (BSeek m p) = seek_mode_repr m # u32_to_le p"
| "encode_body (BAttach m a pw p) =
     attach_mode_repr m # access_mode_repr a # pw @ of_nat (length p) # p"
| "encode_body BDetach = []"
| "encode_body BClose = []"
| "encode_body BTruncate = []"
| "encode_body BFlush = []"
| "encode_body (BUnknown d) = d"

primrec body_encodable :: "vfs_request_body \<Rightarrow> bool" where
  "body_encodable (BGetStatus l) \<longleftrightarrow> True"
| "body_encodable (BOpen n) \<longleftrightarrow> True"
| "body_encodable (BRead l) \<longleftrightarrow> True"
| "body_encodable (BReadDesc l) \<longleftrightarrow> True"
| "body_encodable (BReadDirPage l) \<longleftrightarrow> True"
| "body_encodable (BWrite d) \<longleftrightarrow> length d < 65536"
| "body_encodable (BWriteDesc d) \<longleftrightarrow> length d < 65536"
| "body_encodable (BSetStatus as) \<longleftrightarrow>
     list_all action_encodable as \<and> length (concat (map encode_action as)) < 65536"
| "body_encodable (BSeek m p) \<longleftrightarrow> True"
| "body_encodable (BAttach m a pw p) \<longleftrightarrow>
     length pw = 17 \<and> length p < 256 \<and> is_ok (grid_path_try_from p)"
| "body_encodable BDetach \<longleftrightarrow> True"
| "body_encodable BClose \<longleftrightarrow> True"
| "body_encodable BTruncate \<longleftrightarrow> True"
| "body_encodable BFlush \<longleftrightarrow> True"
| "body_encodable (BUnknown d) \<longleftrightarrow> True"

definition encode_vfs_request :: "vfs_request \<Rightarrow> bytes" where
  "encode_vfs_request r =
     (let h = vr_header r in
      u16_to_le (vh_request h) @ u16_to_le (vh_requestors_conn_id h) @ u16_to_le (vh_servers_conn_id h)
        @ encode_body (vr_body r))"

definition code_matches :: "u16 \<Rightarrow> vfs_request_code option \<Rightarrow> bool" where
  "code_matches v oc =
     (case oc of Some c \<Rightarrow> v = vfs_request_code_repr c
      | None \<Rightarrow> v \<notin> vfs_request_code_repr ` set served_codes)"

section \<open>Lemmas on requests\<close>

lemma read_direction_from_u8_Some [simp]:
  "read_direction_from_u8 v = Some d \<longleftrightarrow> v = read_direction_repr d"
  by (cases d) (auto simp: read_direction_from_u8_def)

lemma object_mode_from_u8_Some [simp]: "object_mode_from_u8 v = Some d \<longleftrightarrow> v = object_mode_repr d"
  by (cases d) (auto simp: object_mode_from_u8_def)

lemma attach_mode_from_u8_Some [simp]: "attach_mode_from_u8 v = Some d \<longleftrightarrow> v = attach_mode_repr d"
  by (cases d) (auto simp: attach_mode_from_u8_def)

lemma seek_mode_from_u8_Some [simp]: "seek_mode_from_u8 v = Some d \<longleftrightarrow> v = seek_mode_repr d"
  by (cases d) (auto simp: seek_mode_from_u8_def)

lemma access_mode_from_u8_Some [simp]: "access_mode_from_u8 v = Some d \<longleftrightarrow> v = access_mode_repr d"
  by (cases d) (auto simp: access_mode_from_u8_def)

lemma read_single_byte_Inr [simp]: "read_single_byte raw name = Inr b \<longleftrightarrow> raw = [b]"
  by (auto simp: read_single_byte_def split: list.splits)

lemma ensure_empty_Inr [simp]: "ensure_empty c context = Inr u \<longleftrightarrow> c = []"
  by (auto simp: ensure_empty_def)

lemma vfs_request_code_from_u16_Some:
  "vfs_request_code_from_u16 v = Some c \<longleftrightarrow> v = vfs_request_code_repr c"
  by (cases c) (auto simp: vfs_request_code_from_u16_def vfs_request_codes_def)

lemma byte_below_242:
  "(ty :: byte) < 242 \<longleftrightarrow> ty \<notin> {242, 243, 244, 245, 246, 247, 248, 249, 250, 251, 252, 253, 254, 255}"
proof
  assume other: "ty \<notin> {242, 243, 244, 245, 246, 247, 248, 249, 250, 251, 252, 253, 254, 255}"
  show "ty < 242"
  proof (rule ccontr)
    assume "\<not> ty < 242"
    then have "unat ty \<in> set [242..<256]"
      by (simp only: set_upt atLeastLessThan_iff word_less_nat_alt unat_u8_less) simp
    then have "ty \<in> of_nat ` set [242..<256]" by (intro image_eqI[of _ _ "unat ty"]) simp_all
    with other show False by (simp add: upt_rec)
  qed
qed auto

lemma action_from_raw_iff:
  "length raw < 65536 \<Longrightarrow> vfs_set_status_action_from_raw ty raw = Inr a \<longleftrightarrow>
     action_encodable a \<and> action_record ty raw = encode_action a"
  by (cases a)
     (auto simp: vfs_set_status_action_from_raw_def vfs_set_status_type_from_u8_def result_simps action_record_def byte_below_242)

lemma sized_parts:
  "(\<exists>l. c = u16_to_le l @ v @ c' \<and> length v = unat l \<and> P) \<longleftrightarrow>
     c = u16_to_le (of_nat (length v)) @ v @ c' \<and> length v < 65536 \<and> P"
proof
  assume "\<exists>l. c = u16_to_le l @ v @ c' \<and> length v = unat l \<and> P"
  then obtain l where l: "c = u16_to_le l @ v @ c'" "length v = unat l" P by blast
  have "of_nat (length v) = l" "length v < 65536" unfolding l(2) by simp_all
  with l show "c = u16_to_le (of_nat (length v)) @ v @ c' \<and> length v < 65536 \<and> P" by simp
qed (auto intro!: exI[of _ "of_nat (length v)"])

lemma read_sized_Inr:
  "and_then (read_u16 c) (\<lambda>(l, c). and_then (read_slice (unat l) c) (\<lambda>(v, c). f v c)) = Inr r \<longleftrightarrow>
     (\<exists>v c'. c = u16_to_le (of_nat (length v)) @ v @ c' \<and> length v < 65536 \<and> f v c' = Inr r)"
proof -
  have "and_then (read_u16 c) (\<lambda>(l, c). and_then (read_slice (unat l) c) (\<lambda>(v, c). f v c)) = Inr r \<longleftrightarrow>
     (\<exists>v c' l. c = u16_to_le l @ v @ c' \<and> length v = unat l \<and> f v c' = Inr r)"
    by (auto simp: result_simps read_u16_Inr read_slice_Inr; blast)
  also have "\<dots> \<longleftrightarrow> (\<exists>v c'. c = u16_to_le (of_nat (length v)) @ v @ c' \<and> length v < 65536 \<and> f v c' = Inr r)"
    by (simp only: sized_parts)
  finally show ?thesis .
qed

lemma encode_action_record:
  "action_encodable a \<Longrightarrow> \<exists>ty raw. encode_action a = action_record ty raw \<and> length raw < 65536"
proof (cases a)
  case (SetDirection d)
  then show ?thesis by (auto intro!: exI[of _ 255] exI[of _ "[read_direction_repr d]"])
next
  case (SetObjectMode m)
  then show ?thesis by (auto intro!: exI[of _ 253] exI[of _ "[object_mode_repr m]"])
qed auto

lemma read_set_status_actions_iff:
  "read_set_status_actions c = Inr as \<longleftrightarrow>
     list_all action_encodable as \<and> c = concat (map encode_action as)"
proof (induction c arbitrary: as rule: read_set_status_actions.induct)
  case (1 c)
  show ?case
  proof (cases c)
    case Nil
    have "encode_action a \<noteq> []" for a by (cases a) (simp_all add: action_record_def)
    with Nil show ?thesis by (cases as) (simp_all add: read_set_status_actions.simps)
  next
    case (Cons ty c1)
    have "read_set_status_actions c = Inr as \<longleftrightarrow>
        (\<exists>raw c3. c1 = u16_to_le (of_nat (length raw)) @ raw @ c3 \<and> length raw < 65536 \<and>
           (\<exists>a as'. vfs_set_status_action_from_raw ty raw = Inr a \<and>
              read_set_status_actions c3 = Inr as' \<and> as = a # as'))"
      unfolding Cons by (subst read_set_status_actions.simps) (simp add: read_sized_Inr, auto simp: result_simps)
    also have "\<dots> \<longleftrightarrow> (\<exists>raw c3. c = action_record ty raw @ c3 \<and> length raw < 65536 \<and>
           (\<exists>a as'. action_encodable a \<and> action_record ty raw = encode_action a \<and>
              list_all action_encodable as' \<and> c3 = concat (map encode_action as') \<and> as = a # as'))"
    proof -
      have "vfs_set_status_action_from_raw ty raw = Inr a \<and> read_set_status_actions c3 = Inr as' \<longleftrightarrow>
          action_encodable a \<and> action_record ty raw = encode_action a \<and>
          list_all action_encodable as' \<and> c3 = concat (map encode_action as')"
        if "c1 = u16_to_le (of_nat (length raw)) @ raw @ c3" "length raw < 65536" for raw c3 a as'
        using that "1.IH"[OF Cons, of "(of_nat (length raw), raw @ c3)" _ _ "(raw, c3)" raw c3 a as']
        by (auto simp: read_u16_write read_slice_def action_from_raw_iff)
      then show ?thesis unfolding Cons action_record_def by auto blast+
    qed
    also have "\<dots> \<longleftrightarrow> list_all action_encodable as \<and> c = concat (map encode_action as)"
      using encode_action_record by (cases as) (auto simp: Cons action_record_def; fastforce)+
    finally show ?thesis .
  qed
qed


lemma read_request_Inr: "read_request c = Inr l \<longleftrightarrow> c = u16_to_le l"
  by (auto simp: read_request_def result_simps read_u16_Inr)

lemma read_write_request_Inr:
  "read_write_request c = Inr d \<longleftrightarrow> c = sized_block d \<and> length d < 65536"
  unfolding read_write_request_def by (auto simp only: read_sized_Inr) (auto simp: result_simps sized_block_def)

lemma read_set_status_request_Inr:
  "read_set_status_request c = Inr b \<longleftrightarrow>
     (\<exists>as. b = BSetStatus as \<and> body_encodable b \<and> c = encode_body b)"
  unfolding read_set_status_request_def
  by (auto simp only: read_sized_Inr)
     (auto simp: result_simps read_set_status_actions_iff sized_block_def)

lemma read_seek_request_Inr:
  "read_seek_request c = Inr b \<longleftrightarrow> (\<exists>m p. b = BSeek m p \<and> c = encode_body b)"
  by (auto simp: read_seek_request_def result_simps read_u8_Inr read_u32_Inr)

lemma grid_path_try_from_Inr: "grid_path_try_from p = Inr q \<longleftrightarrow> q = p \<and> is_ok (grid_path_try_from p)"
  by (cases "grid_path_validate p") (auto simp: grid_path_try_from_def)

lemma read_attach_request_Inr:
  "read_attach_request c = Inr b \<longleftrightarrow>
     (\<exists>m a pw p. b = BAttach m a pw p \<and> body_encodable b \<and> c = encode_body b)"
  by (auto simp: read_attach_request_def read_attach_header_def result_simps read_u8_Inr
        read_array_Inr read_small_slice_Inr grid_path_try_from_Inr VFS_PASSWORD_SPACE_def)

lemma read_vfs_request_header_Inr:
  "read_vfs_request_header c = Inr (h, c') \<longleftrightarrow>
     c = u16_to_le (vh_request h) @ u16_to_le (vh_requestors_conn_id h)
           @ u16_to_le (vh_servers_conn_id h) @ c'"
  by (cases h) (auto simp: read_vfs_request_header_def result_simps read_u16_Inr)

lemma read_vfs_request_body_iff:
  "read_vfs_request_body code c = Inr b \<longleftrightarrow>
     body_encodable b \<and> c = encode_body b \<and>
     (case body_code b of Some k \<Rightarrow> code = Some k
      | None \<Rightarrow> (case code of Some k \<Rightarrow> k \<notin> set served_codes | None \<Rightarrow> True))"
proof (cases code)
  case None
  then show ?thesis by (cases b) (auto simp: read_vfs_request_body_def read_remainder_def)
next
  case (Some k)
  show ?thesis
    by (cases k; cases b)
       (auto simp: Some read_vfs_request_body_def read_remainder_def served_codes_def result_simps
          read_request_Inr read_write_request_Inr read_set_status_request_Inr read_seek_request_Inr
          read_attach_request_Inr read_u8_Inr)
qed

lemma code_matches_from_u16:
  "(case oc of Some k \<Rightarrow> vfs_request_code_from_u16 v = Some k
    | None \<Rightarrow> (case vfs_request_code_from_u16 v of Some k \<Rightarrow> k \<notin> set served_codes | None \<Rightarrow> True))
   \<longleftrightarrow> code_matches v oc"
proof (cases oc)
  case None
  have "vfs_request_code_from_u16 v = None \<longleftrightarrow> v \<notin> range vfs_request_code_repr"
    by (metis not_None_eq rangeE rangeI vfs_request_code_from_u16_Some)
  moreover have "vfs_request_code_from_u16 (vfs_request_code_repr k) = Some k" for k
    by (simp add: vfs_request_code_from_u16_Some)
  ultimately show ?thesis
    by (cases "v \<in> range vfs_request_code_repr")
       (auto simp: None code_matches_def dest: vfs_request_code_from_u16_Some[THEN iffD2])
qed (simp add: code_matches_def vfs_request_code_from_u16_Some)

lemma vfs_request_parse_iff:
  "vfs_request_try_from_slice data = Inr r \<longleftrightarrow>
     body_encodable (vr_body r) \<and> code_matches (vh_request (vr_header r)) (body_code (vr_body r)) \<and>
     data = encode_vfs_request r"
proof -
  have "vfs_request_try_from_slice data = Inr r \<longleftrightarrow>
      (\<exists>c. read_vfs_request_header data = Inr (vr_header r, c) \<and>
        read_vfs_request_body (vfs_request_code_from_u16 (vh_request (vr_header r))) c = Inr (vr_body r))"
    by (cases r) (auto simp: vfs_request_try_from_slice_def result_simps)
  also have "\<dots> \<longleftrightarrow> body_encodable (vr_body r) \<and>
      data = encode_vfs_request r \<and> code_matches (vh_request (vr_header r)) (body_code (vr_body r))"
    by (simp add: read_vfs_request_header_Inr read_vfs_request_body_iff code_matches_from_u16
        encode_vfs_request_def Let_def conj_commute)
  finally show ?thesis by blast
qed


section \<open>Lemmas on responses\<close>

definition dir_entry_bytes :: "bytes \<Rightarrow> bytes" where
  "dir_entry_bytes name = [0, 0, 0, 0] @ u32_to_le (of_nat (9 + length name)) @ of_nat (length name) # name"

primrec response_bytes :: "vfs_response \<Rightarrow> bytes" where
  "response_bytes (RSimple h) = vfs_response_header_bytes h"
| "response_bytes (RGetStatus h b) = vfs_response_header_bytes h @ sized_block (vfs_get_status_body_bytes b)"
| "response_bytes (RReadDirPage h names) =
     vfs_response_header_bytes h @ sized_block (concat (map dir_entry_bytes names))"
| "response_bytes (RRead h data) = vfs_response_header_bytes h @ sized_block data"

lemma length_response_header [simp]: "length (vfs_response_header_bytes h) = 8"
  by (simp add: vfs_response_header_bytes_def)

lemma length_get_status_body [simp]: "length (vfs_get_status_body_bytes b) = 15"
  by (simp add: vfs_get_status_body_bytes_def)

lemma length_dir_entry_bytes [simp]: "length (dir_entry_bytes name) = 9 + length name"
  by (simp add: dir_entry_bytes_def)

lemma length_sized_block [simp]: "length (sized_block d) = 2 + length d"
  by (simp add: sized_block_def)

lemma dir_entry_header_name:
  "length name \<le> 80 \<Longrightarrow> vfs_dir_entry_header_bytes (of_nat (length name)) @ name = dir_entry_bytes name"
  by (simp add: vfs_dir_entry_header_bytes_def dir_entry_bytes_def DIRECTORY_ENTRY_PREAMBLE_LEN_def
      unsigned_of_nat take_bit_nat_eq_self)

lemma write_dir_entries_eq:
  "write_dir_entries names dst =
     (if \<forall>n \<in> set names. length n \<le> 80 then Inr (dst @ concat (map dir_entry_bytes names))
      else Inl (Validation ''VFS directory entry name exceeds the maximum length of 80 bytes'' []))"
proof (induction names arbitrary: dst)
  case (Cons n names)
  show ?case
  proof (cases "length n \<le> 80")
    case True
    with dir_entry_header_name[OF this] show ?thesis
      by (simp add: Cons.IH write_all_def vfs_limits u8_try_from_def)
  next
    case False
    then show ?thesis by (auto simp: vfs_limits split: option.splits)
  qed
qed simp

text \<open>The bytes of a response are its specified encoding, and never more than 514.\<close>

lemma vfs_response_write_eq:
  "vfs_response_write_into r dst = Inr d \<longleftrightarrow>
     d = dst @ response_bytes r \<and> length (response_bytes r) \<le> 514 \<and>
     (case r of RReadDirPage h names \<Rightarrow> \<forall>n \<in> set names. length n \<le> 80 | _ \<Rightarrow> True)"
proof (cases r)
  case (RSimple h)
  then show ?thesis by (auto simp: vfs_response_write_into_def write_all_def vfs_limits)
next
  case (RGetStatus h b)
  have "with_u16_len (dst @ vfs_response_header_bytes h) (\<lambda>dst. Inr (dst @ vfs_get_status_body_bytes b))
      = Inr (dst @ response_bytes r)"
    by (subst with_u16_len_appending[where body = "vfs_get_status_body_bytes b"])
       (simp_all add: RGetStatus sized_block_def)
  then show ?thesis by (auto simp: RGetStatus vfs_response_write_into_def write_all_def vfs_limits)
next
  case (RReadDirPage h names)
  show ?thesis
  proof (cases "\<forall>n \<in> set names. length n \<le> 80")
    case True
    let ?b = "concat (map dir_entry_bytes names)"
    have "with_u16_len (dst @ vfs_response_header_bytes h) (write_dir_entries names) =
       (if length ?b < 65536 then Inr (dst @ response_bytes r)
        else Inl (Validation ''a block of {body_length} bytes overruns its u16 length prefix''
                [length ?b]))"
      by (subst with_u16_len_appending[where body = ?b])
         (simp_all add: True RReadDirPage sized_block_def write_dir_entries_eq)
    then show ?thesis
      using True by (auto simp: RReadDirPage vfs_response_write_into_def write_all_def vfs_limits)
  next
    case False
    then show ?thesis
      by (auto simp: RReadDirPage vfs_response_write_into_def write_dir_entries_eq with_u16_len_def)
  qed
next
  case (RRead h data)
  have "with_u16_len (dst @ vfs_response_header_bytes h) (\<lambda>dst. Inr (dst @ data)) =
     (if length data < 65536 then Inr (dst @ response_bytes r)
      else Inl (Validation ''a block of {body_length} bytes overruns its u16 length prefix''
              [length data]))"
    by (subst with_u16_len_appending[where body = data]) (simp_all add: RRead sized_block_def)
  then show ?thesis by (auto simp: RRead vfs_response_write_into_def write_all_def vfs_limits)
qed

section \<open>Properties\<close>

text \<open>C32: a byte string parses as a file-service request exactly when it is the encoding of that
  request: the six-byte header, a body whose kind is the one the request code selects, every length
  field equal to the data it describes, every mode a defined one, the path valid, and no trailing
  bytes; codes the server does not serve are kept as raw bytes.\<close>

theorem vfs_request_accepts_exactly:
  "vfs_request_try_from_slice data = Inr r \<longleftrightarrow>
     body_encodable (vr_body r) \<and> code_matches (vh_request (vr_header r)) (body_code (vr_body r)) \<and>
     data = encode_vfs_request r"
  by (rule vfs_request_parse_iff)

text \<open>Writing a response appends exactly its wire form to the destination; it succeeds exactly
  when the wire form is at most 514 bytes long and, for a directory page, every name is at most 80
  bytes long.\<close>

lemma vfs_response_write_exact:
  "(case vfs_response_write_into r dst of
      Inr d \<Rightarrow> d = dst @ response_bytes r
    | Inl e \<Rightarrow> True) \<and>
   (is_ok (vfs_response_write_into r dst) \<longleftrightarrow>
      length (response_bytes r) \<le> 514 \<and>
      (case r of RReadDirPage h names \<Rightarrow> list_all (\<lambda>n. length n \<le> 80) names | _ \<Rightarrow> True))"
proof (cases "vfs_response_write_into r dst")
  case (Inl e)
  then have "\<not> (length (response_bytes r) \<le> 514 \<and>
      (case r of RReadDirPage h names \<Rightarrow> \<forall>n \<in> set names. length n \<le> 80 | _ \<Rightarrow> True))"
    using vfs_response_write_eq[of r dst "dst @ response_bytes r"] by simp
  then show ?thesis by (simp add: Inl list_all_iff split: vfs_response.splits)
next
  case (Inr d)
  then show ?thesis using vfs_response_write_eq[of r dst d]
    by (simp add: list_all_iff split: vfs_response.splits)
qed

end
