(* ===== verification/Id_Map.thy ===== *)
theory Id_Map
  imports Prelude
begin

text \<open>
  \<^verbatim>\<open>Server/src/shared/bitmap.rs\<close>: the bitmaps \<open>IdMap8\<close> and \<open>IdMap16\<close> that hand out connection
  ids, VFS connection ids and file ids. The macro \<open>id_map!\<close> is generic in the integer type;
  here the operations are generic in the word length \<open>'a\<close>, and \<open>IdMap8\<close> and \<open>IdMap16\<close> are the
  instances at 8 and 16. A map is its array of bytes; the id of a slot is its bit number plus 1.

  \<open>find_free\<close> compares 16 bytes at a time with the \<open>wide\<close> crate. That comparison is the
  parameter \<open>ne\<close>: \<open>ne chunk v\<close> stands for \<^verbatim>\<open>chunk.simd_ne(v).to_bitmask()\<close>. What the code
  relies on is \<open>simd_ne_spec\<close>: bit \<open>k\<close> of the mask tells whether lane \<open>k\<close> differs from \<open>v\<close>.
\<close>

type_synonym id_map = bytes
type_synonym simd_ne = "bytes \<Rightarrow> byte \<Rightarrow> u32"

definition CHUNK_SIZE :: nat where
  "CHUNK_SIZE = 16"

definition id_map_SIZE :: "'a::len itself \<Rightarrow> nat" where
  "id_map_SIZE T = 2 ^ LENGTH('a) - 1"

definition id_map_ALLOC_SIZE :: "'a::len itself \<Rightarrow> nat" where
  "id_map_ALLOC_SIZE T = (id_map_SIZE T + 1) div 8"

definition id_map_TOTAL_CHUNKS :: "'a::len itself \<Rightarrow> nat" where
  "id_map_TOTAL_CHUNKS T = id_map_ALLOC_SIZE T div CHUNK_SIZE"

definition id_map_new :: "'a::len itself \<Rightarrow> id_map" where
  "id_map_new T = replicate (id_map_ALLOC_SIZE T) 0"

definition id_map_set :: "id_map \<Rightarrow> 'a::len word \<Rightarrow> id_map" where
  "id_map_set m i =
     (let bt = i - 1; byte = unat (drop_bit 3 bt); mask = push_bit (unat (bt AND 7)) (1 :: byte)
      in m[byte := m ! byte OR mask])"

definition id_map_is_set :: "id_map \<Rightarrow> 'a::len word \<Rightarrow> bool" where
  "id_map_is_set m i =
     (let bt = i - 1; byte = unat (drop_bit 3 bt); mask = push_bit (unat (bt AND 7)) (1 :: byte)
      in m ! byte AND mask \<noteq> 0)"

definition id_map_clear :: "id_map \<Rightarrow> 'a::len word \<Rightarrow> id_map" where
  "id_map_clear m i =
     (let bt = i - 1; byte = unat (drop_bit 3 bt); mask = push_bit (unat (bt AND 7)) (1 :: byte)
      in m[byte := m ! byte AND NOT mask])"

definition trailing_zeros :: "'a::len word \<Rightarrow> nat" where
  "trailing_zeros w = length (takeWhile (\<lambda>k. \<not> bit w k) [0..<LENGTH('a)])"

definition trailing_ones :: "'a::len word \<Rightarrow> nat" where
  "trailing_ones w = length (takeWhile (\<lambda>k. bit w k) [0..<LENGTH('a)])"

definition id_map_chunks :: "'a::len itself \<Rightarrow> id_map \<Rightarrow> bytes list" where
  "id_map_chunks T m =
     map (\<lambda>i. take CHUNK_SIZE (drop (i * CHUNK_SIZE) m)) [0..<id_map_TOTAL_CHUNKS T]"

fun find_free_from :: "simd_ne \<Rightarrow> id_map \<Rightarrow> nat \<Rightarrow> bytes list \<Rightarrow> 'a::len word option" where
  "find_free_from ne m i [] = None"
| "find_free_from ne m i (chunk # chunks) =
     (let free_bytes = ne chunk 0xFF in
      if free_bytes = 0 then find_free_from ne m (i + 1) chunks
      else
        let byte_offset = trailing_zeros free_bytes;
            byte = m ! (i * CHUNK_SIZE + byte_offset);
            free_bit_offset = trailing_ones byte;
            candidate = 1 + i * CHUNK_SIZE * 8 + byte_offset * 8 + free_bit_offset
        in if candidate > id_map_SIZE TYPE('a) then None else Some (of_nat candidate))"

definition id_map_find_free :: "simd_ne \<Rightarrow> id_map \<Rightarrow> 'a::len word option" where
  "id_map_find_free ne m = find_free_from ne m 0 (id_map_chunks TYPE('a) m)"

text \<open>The documented behaviour of the vector comparison the code relies on.\<close>

definition simd_ne_spec :: "simd_ne \<Rightarrow> bool" where
  "simd_ne_spec ne \<longleftrightarrow>
     (\<forall>c v k. length c = CHUNK_SIZE \<longrightarrow> (bit (ne c v) k \<longleftrightarrow> k < CHUNK_SIZE \<and> c ! k \<noteq> v))"

text \<open>A reference comparison, for evaluation on concrete maps.\<close>

definition simd_ne_ref :: simd_ne where
  "simd_ne_ref c v = horner_sum of_bool 2 (map (\<lambda>x. x \<noteq> v) c)"

section \<open>Maps as bit arrays\<close>

text \<open>\<open>wide_enough\<close> holds for the two instances: the byte array splits into whole chunks.\<close>

definition id_map_wf :: "'a::len itself \<Rightarrow> id_map \<Rightarrow> bool" where
  "id_map_wf T m \<longleftrightarrow> 7 \<le> LENGTH('a) \<and> length m = id_map_ALLOC_SIZE T"

definition map_bit :: "id_map \<Rightarrow> nat \<Rightarrow> bool" where
  "map_bit m k \<longleftrightarrow> bit (m ! (k div 8)) (k mod 8)"

text \<open>The ids in use, as the abstract value of a map.\<close>

definition id_map_used :: "id_map \<Rightarrow> 'a::len word set" where
  "id_map_used m = {i. i \<noteq> 0 \<and> map_bit m (unat i - 1)}"

lemma wf_length:
  assumes "id_map_wf TYPE('a::len) m"
  shows "8 * length m = 2 ^ LENGTH('a)" "length m = 16 * id_map_TOTAL_CHUNKS TYPE('a)"
proof -
  from assms obtain n where n: "LENGTH('a) = n + 7" by (auto simp: id_map_wf_def le_iff_add)
  then have "(2 :: nat) ^ LENGTH('a) = 128 * 2 ^ n" by (simp add: power_add)
  with assms show "8 * length m = 2 ^ LENGTH('a)"
    "length m = 16 * id_map_TOTAL_CHUNKS TYPE('a)"
    by (simp_all add: id_map_wf_def id_map_ALLOC_SIZE_def id_map_SIZE_def id_map_TOTAL_CHUNKS_def
                 CHUNK_SIZE_def)
qed

lemma slot_of_id:
  fixes i :: "'a::len word"
  assumes "i \<noteq> 0"
  shows "unat (i - 1) = unat i - 1"
    "unat (drop_bit 3 (i - 1)) = (unat i - 1) div 8"
    "3 \<le> LENGTH('a) \<Longrightarrow> unat ((i - 1) AND 7) = (unat i - 1) mod 8"
proof -
  show *: "unat (i - 1) = unat i - 1" using assms by (simp add: unat_minus_one)
  show "unat (drop_bit 3 (i - 1)) = (unat i - 1) div 8"
    unfolding unat_drop_bit_eq by (simp add: * drop_bit_eq_div)
  assume "3 \<le> LENGTH('a)"
  have "(i - 1) AND 7 = take_bit 3 (i - 1)" by (simp add: take_bit_eq_mask mask_numeral)
  then show "unat ((i - 1) AND 7) = (unat i - 1) mod 8"
    by (simp only: unsigned_take_bit_eq *) (simp add: take_bit_eq_mod)
qed

lemma bit_mask_byte: "k < 8 \<Longrightarrow> bit (push_bit k (1 :: byte)) j \<longleftrightarrow> j = k"
  by (auto simp: bit_simps)

lemma is_set_iff:
  fixes i :: "'a::len word"
  assumes "3 \<le> LENGTH('a)" "i \<noteq> 0"
  shows "id_map_is_set m i \<longleftrightarrow> i \<in> id_map_used m"
  using assms
  by (simp add: id_map_is_set_def id_map_used_def map_bit_def slot_of_id Let_def and_exp_eq_0_iff_not_bit)

lemma wf_index:
  fixes i :: "'a::len word"
  assumes "id_map_wf TYPE('a) m"
  shows "(unat i - 1) div 8 < length m"
proof -
  have "unat i < 2 ^ LENGTH('a)" by (rule unsigned_less)
  with wf_length(1)[OF assms] show ?thesis by linarith
qed


lemma map_bit_set:
  fixes i :: "'a::len word"
  assumes "id_map_wf TYPE('a) m" "i \<noteq> 0"
  shows "map_bit (id_map_set m i) k \<longleftrightarrow> k = unat i - 1 \<or> map_bit m k"
proof -
  let ?s = "unat i - 1"
  have l: "3 \<le> LENGTH('a)" using assms(1) by (simp add: id_map_wf_def)
  have eq: "id_map_set m i = m[?s div 8 := m ! (?s div 8) OR 2 ^ (?s mod 8)]"
    using assms(2) l by (simp add: id_map_set_def Let_def slot_of_id)
  show ?thesis
  proof (cases "k div 8 = ?s div 8")
    case True
    then have "k = ?s \<longleftrightarrow> k mod 8 = ?s mod 8" by (metis div_mult_mod_eq)
    with True wf_index[OF assms(1), of i] show ?thesis
      by (auto simp: map_bit_def eq bit_simps)
  next
    case False
    then show ?thesis by (auto simp: map_bit_def eq)
  qed
qed

lemma map_bit_clear:
  fixes i :: "'a::len word"
  assumes "id_map_wf TYPE('a) m" "i \<noteq> 0"
  shows "map_bit (id_map_clear m i) k \<longleftrightarrow> k \<noteq> unat i - 1 \<and> map_bit m k"
proof -
  let ?s = "unat i - 1"
  have l: "3 \<le> LENGTH('a)" using assms(1) by (simp add: id_map_wf_def)
  have eq: "id_map_clear m i = m[?s div 8 := m ! (?s div 8) AND NOT (2 ^ (?s mod 8))]"
    using assms(2) l by (simp add: id_map_clear_def Let_def slot_of_id)
  show ?thesis
  proof (cases "k div 8 = ?s div 8")
    case True
    then have "k = ?s \<longleftrightarrow> k mod 8 = ?s mod 8" by (metis div_mult_mod_eq)
    with True wf_index[OF assms(1), of i] show ?thesis
      by (auto simp: map_bit_def eq bit_simps)
  next
    case False
    then show ?thesis by (auto simp: map_bit_def eq)
  qed
qed

lemma unat_pred_inj:
  fixes i j :: "'a::len word"
  shows "i \<noteq> 0 \<Longrightarrow> j \<noteq> 0 \<Longrightarrow> unat i - Suc 0 = unat j - Suc 0 \<longleftrightarrow> i = j"
  by (metis One_nat_def Suc_pred unat_gt_0 unsigned_word_eqI)

lemma used_set:
  fixes i :: "'a::len word"
  assumes "id_map_wf TYPE('a) m" "i \<noteq> 0"
  shows "id_map_used (id_map_set m i) = insert i (id_map_used m :: 'a word set)"
  using assms by (auto simp: id_map_used_def map_bit_set unat_pred_inj)

lemma used_clear:
  fixes i :: "'a::len word"
  assumes "id_map_wf TYPE('a) m" "i \<noteq> 0"
  shows "id_map_used (id_map_clear m i) = (id_map_used m :: 'a word set) - {i}"
  using assms by (auto simp: id_map_used_def map_bit_clear unat_pred_inj)

lemma wf_set [simp]: "id_map_wf T (id_map_set m i) = id_map_wf T m"
  by (simp add: id_map_wf_def id_map_set_def Let_def)

lemma wf_clear [simp]: "id_map_wf T (id_map_clear m i) = id_map_wf T m"
  by (simp add: id_map_wf_def id_map_clear_def Let_def)

lemma wf_new: "7 \<le> LENGTH('a::len) \<Longrightarrow> id_map_wf TYPE('a) (id_map_new TYPE('a))"
  by (simp add: id_map_wf_def id_map_new_def)

lemma used_new:
  assumes "7 \<le> LENGTH('a::len)"
  shows "id_map_used (id_map_new TYPE('a)) = ({} :: 'a word set)"
proof -
  have "(unat i - 1) div 8 < id_map_ALLOC_SIZE TYPE('a)" for i :: "'a word"
    using wf_index[OF wf_new[OF assms], of i] by (simp add: id_map_new_def)
  then show ?thesis by (simp add: id_map_used_def map_bit_def id_map_new_def)
qed

section \<open>The search for a free id\<close>

lemma takeWhile_upt:
  assumes "k < n" "\<not> P k" "\<And>j. j < k \<Longrightarrow> P j"
  shows "length (takeWhile P [0..<n]) = k"
proof -
  have "[0..<n] = [0..<k] @ k # [Suc k..<n]"
    using assms(1) by (metis le_add_same_cancel1 le0 less_imp_add_positive upt_add_eq_append upt_conv_Cons zero_le)
  moreover have "takeWhile P ([0..<k] @ k # [Suc k..<n]) = [0..<k]"
    using assms(2,3) by (subst takeWhile_append2) auto
  ultimately show ?thesis by simp
qed

lemma trailing_zeros_eq:
  fixes w :: "'a::len word"
  shows "bit w k \<Longrightarrow> (\<And>j. j < k \<Longrightarrow> \<not> bit w j) \<Longrightarrow> trailing_zeros w = k"
  unfolding trailing_zeros_def by (rule takeWhile_upt) (auto dest: bit_imp_le_length)

lemma trailing_ones_eq:
  fixes w :: "'a::len word"
  shows "k < LENGTH('a) \<Longrightarrow> \<not> bit w k \<Longrightarrow> (\<And>j. j < k \<Longrightarrow> bit w j) \<Longrightarrow> trailing_ones w = k"
  unfolding trailing_ones_def by (rule takeWhile_upt) auto

lemma byte_full_iff: "b = (0xFF :: byte) \<longleftrightarrow> (\<forall>j < 8. bit b j)"
proof -
  have "(0xFF :: byte) = - 1" by simp
  then have "b = 0xFF \<longleftrightarrow> b = - 1" by (simp only:)
  also have "\<dots> \<longleftrightarrow> (\<forall>j < 8. bit b j)" by (auto intro: bit_word_eqI)
  finally show ?thesis .
qed

definition least_clear :: "id_map \<Rightarrow> nat \<Rightarrow> bool" where
  "least_clear m k \<longleftrightarrow> \<not> map_bit m k \<and> (\<forall>j < k. map_bit m j)"

lemma chunk_bits_full:
  assumes "16 * (i + 1) \<le> length m"
  shows "(\<forall>k < 16. take 16 (drop (i * 16) m) ! k = 0xFF) \<longleftrightarrow>
         (\<forall>j. 128 * i \<le> j \<and> j < 128 * (i + 1) \<longrightarrow> map_bit m j)"
proof
  assume full: "\<forall>k < 16. take 16 (drop (i * 16) m) ! k = 0xFF"
  show "\<forall>j. 128 * i \<le> j \<and> j < 128 * (i + 1) \<longrightarrow> map_bit m j"
  proof (intro allI impI)
    fix j assume j: "128 * i \<le> j \<and> j < 128 * (i + 1)"
    then have "16 * i \<le> j div 8" "j div 8 < 16 * i + 16"
      by (simp_all add: less_eq_div_iff_mult_less_eq div_less_iff_less_mult)
    then obtain k where k: "j div 8 = i * 16 + k" "k < 16"
      by (metis add_less_cancel_left le_Suc_ex mult.commute)
    with full assms have "m ! (j div 8) = 0xFF" by auto
    then show "map_bit m j" by (simp add: map_bit_def byte_full_iff)
  qed
next
  assume bits: "\<forall>j. 128 * i \<le> j \<and> j < 128 * (i + 1) \<longrightarrow> map_bit m j"
  show "\<forall>k < 16. take 16 (drop (i * 16) m) ! k = 0xFF"
  proof (intro allI impI)
    fix k :: nat assume k: "k < 16"
    have "bit (m ! (i * 16 + k)) b" if "b < 8" for b
    proof -
      have "map_bit m (8 * (i * 16 + k) + b)" using bits that k by auto
      moreover have "(8 * (i * 16 + k) + b) div 8 = i * 16 + k" "(8 * (i * 16 + k) + b) mod 8 = b"
        using that by (simp_all only: div_mult_self4 mod_mult_self4) simp_all
      ultimately show ?thesis by (simp only: map_bit_def)
    qed
    with k assms show "take 16 (drop (i * 16) m) ! k = 0xFF"
      by (simp add: byte_full_iff)
  qed
qed

lemma slot_of_bit: "b < 8 \<Longrightarrow> (8 * q + b) div 8 = q" "b < 8 \<Longrightarrow> (8 * q + b) mod 8 = (b :: nat)"
  by simp_all

lemma least_clear_bit:
  assumes below: "\<forall>j < 8 * q. map_bit m j"
    and b: "b < 8" "\<not> bit (m ! q) b" "\<And>j. j < b \<Longrightarrow> bit (m ! q) j"
  shows "(LEAST k. \<not> map_bit m k) = 8 * q + b" "\<not> map_bit m (8 * q + b)"
proof -
  show clear: "\<not> map_bit m (8 * q + b)"
    using b(1,2) by (simp only: map_bit_def slot_of_bit) simp
  show "(LEAST k. \<not> map_bit m k) = 8 * q + b"
  proof (rule Least_equality, rule clear, rule ccontr)
    fix j assume j: "\<not> map_bit m j" "\<not> 8 * q + b \<le> j"
    with below have "8 * q \<le> j" by (meson linorder_not_less)
    then obtain r where r: "j = 8 * q + r" by (metis le_Suc_ex)
    with j(2) b(1) have "r < b" "r < 8" by simp_all
    with b(3) have "map_bit m j" unfolding r by (simp only: map_bit_def slot_of_bit)
    with j(1) show False by simp
  qed
qed

text \<open>Every index below \<open>n\<close> that satisfies a predicate comes with a least one.\<close>

lemma least_below:
  fixes n :: nat
  assumes "\<not> (\<forall>k < n. P k)"
  obtains k where "k < n" "\<not> P k" "\<And>j. j < k \<Longrightarrow> P j"
proof -
  let ?k = "LEAST k. k < n \<and> \<not> P k"
  from assms have "?k < n \<and> \<not> P ?k" by (metis (mono_tags, lifting) LeastI)
  moreover have "P j" if "j < ?k" for j
    using not_less_Least[OF that] that calculation by auto
  ultimately show thesis using that by blast
qed

text \<open>The chunk that holds the first free byte yields the least clear bit of the map.\<close>

lemma find_free_chunk_hit:
  assumes spec: "simd_ne_spec ne" and room: "16 * (i + 1) \<le> length m"
    and below: "\<forall>j < 128 * i. map_bit m j"
    and free: "\<not> (\<forall>k < 16. take 16 (drop (i * 16) m) ! k = 0xFF)"
  defines "c \<equiv> take 16 (drop (i * 16) m)"
  obtains "ne c 0xFF \<noteq> 0"
    "\<not> map_bit m (LEAST k. \<not> map_bit m k)"
    "(LEAST k. \<not> map_bit m k) < 128 * (i + 1)"
    "i * 16 * 8 + trailing_zeros (ne c 0xFF) * 8
       + trailing_ones (m ! (i * 16 + trailing_zeros (ne c 0xFF))) = (LEAST k. \<not> map_bit m k)"
proof -
  have "length c = 16" using room by (simp add: c_def)
  then have mask: "bit (ne c 0xFF) k \<longleftrightarrow> k < 16 \<and> c ! k \<noteq> 0xFF" for k
    using spec unfolding simd_ne_spec_def CHUNK_SIZE_def by blast
  obtain k where k: "k < 16" "c ! k \<noteq> 0xFF" "\<And>j. j < k \<Longrightarrow> c ! j = 0xFF"
    using least_below[OF free] unfolding c_def[symmetric] by blast
  have at: "c ! j = m ! (i * 16 + j)" if "j < 16" for j using that room by (simp add: c_def)
  have tz: "trailing_zeros (ne c 0xFF) = k"
    using k by (intro trailing_zeros_eq) (auto simp: mask)
  let ?q = "i * 16 + k"
  from k(2) obtain b where b: "b < 8" "\<not> bit (m ! ?q) b" "\<And>j. j < b \<Longrightarrow> bit (m ! ?q) j"
    unfolding at[OF k(1)] byte_full_iff using least_below by blast
  then have to: "trailing_ones (m ! ?q) = b" by (intro trailing_ones_eq) auto
  have "map_bit m j" if j: "j < 8 * ?q" for j
  proof (cases "j < 128 * i")
    case False
    then obtain r where "j = 128 * i + r" by (metis le_Suc_ex linorder_not_less)
    with j have r: "j div 8 = i * 16 + r div 8" "r div 8 < k" by (auto simp: div_less_iff_less_mult)
    with k(3) at k(1) have "m ! (j div 8) = 0xFF" by (metis order.strict_trans)
    then show ?thesis by (simp add: map_bit_def byte_full_iff)
  qed (use below in blast)
  then have "(LEAST k. \<not> map_bit m k) = 8 * ?q + b" "\<not> map_bit m (8 * ?q + b)"
    using least_clear_bit[OF _ b] by blast+
  moreover have "ne c 0xFF \<noteq> 0" using mask[of k] k by auto
  moreover have "8 * ?q + b < 128 * (i + 1)" using k(1) b(1) by (simp add: algebra_simps)
  ultimately show thesis by (intro that) (simp_all add: tz to)
qed

lemma find_free_from_correct:
  fixes m :: id_map
  assumes spec: "simd_ne_spec ne" and len: "length m = 16 * n" and "i \<le> n"
    and below: "\<forall>j < 128 * i. map_bit m j"
  shows "(find_free_from ne m i (map (\<lambda>i. take 16 (drop (i * 16) m)) [i..<n]) :: 'a::len word option) =
      (if \<exists>k < 128 * n. \<not> map_bit m k
       then let k = (LEAST k. \<not> map_bit m k)
            in if k + 1 > id_map_SIZE TYPE('a) then None else Some (of_nat (k + 1))
       else None)"
  using assms(3,4)
proof (induction "n - i" arbitrary: i)
  case 0
  then show ?case by auto
next
  case (Suc d)
  let ?c = "take 16 (drop (i * 16) m)"
  have "i < n" using Suc.hyps(2) by simp
  then have chunks: "[i..<n] = i # [i + 1..<n]" and room: "16 * (i + 1) \<le> length m"
    by (simp_all add: upt_conv_Cons len)
  show ?case
  proof (cases "\<forall>k < 16. ?c ! k = 0xFF")
    case True
    moreover have "length ?c = 16" using room by simp
    ultimately have "ne ?c 0xFF = 0"
      using spec unfolding simd_ne_spec_def CHUNK_SIZE_def by (intro bit_word_eqI) simp
    moreover have "\<forall>j < 128 * (i + 1). map_bit m j"
      using True chunk_bits_full[OF room] Suc.prems(2) by (meson linorder_not_less)
    ultimately show ?thesis
      using Suc.hyps(1)[of "i + 1"] Suc.hyps(2) \<open>i < n\<close> by (simp add: chunks)
  next
    case False
    show ?thesis
    proof (rule find_free_chunk_hit [OF spec room Suc.prems(2) False])
      assume hit: "ne ?c 0xFF \<noteq> 0" "\<not> map_bit m (LEAST k. \<not> map_bit m k)"
        "(LEAST k. \<not> map_bit m k) < 128 * (i + 1)"
        "i * 16 * 8 + trailing_zeros (ne ?c 0xFF) * 8
          + trailing_ones (m ! (i * 16 + trailing_zeros (ne ?c 0xFF))) = (LEAST k. \<not> map_bit m k)"
      have "128 * (i + 1) \<le> 128 * n" using \<open>i < n\<close> by simp
      with hit(3) have "(LEAST k. \<not> map_bit m k) < 128 * n" by (rule less_le_trans)
      with hit(2) have "\<exists>k < 128 * n. \<not> map_bit m k" by blast
      with hit(1,4) show ?thesis by (simp add: chunks CHUNK_SIZE_def Let_def)
    qed
  qed
qed

lemma find_free_eq:
  assumes "simd_ne_spec ne" "id_map_wf TYPE('a::len) m"
  shows "(id_map_find_free ne m :: 'a word option) =
      (if \<exists>k < 2 ^ LENGTH('a). \<not> map_bit m k
       then let k = (LEAST k. \<not> map_bit m k)
            in if k + 1 > 2 ^ LENGTH('a) - 1 then None else Some (of_nat (k + 1))
       else None)"
  using find_free_from_correct[OF assms(1) wf_length(2)[OF assms(2)], of 0, where 'a = 'a]
    wf_length[OF assms(2)]
  by (auto simp add: id_map_find_free_def id_map_chunks_def CHUNK_SIZE_def id_map_SIZE_def)

lemma find_free_Some:
  assumes "simd_ne_spec ne" "id_map_wf TYPE('a::len) m"
    and "id_map_find_free ne m = Some (i :: 'a word)"
  shows "i \<noteq> 0" "i \<notin> id_map_used m" "\<forall>j. j \<noteq> 0 \<longrightarrow> j < i \<longrightarrow> j \<in> id_map_used m"
proof -
  let ?k = "LEAST k. \<not> map_bit m k"
  from assms(3) have "\<exists>k. \<not> map_bit m k" and k: "\<not> 2 ^ LENGTH('a) - 1 < ?k + 1"
    and i: "i = of_nat (?k + 1)"
    unfolding find_free_eq[OF assms(1,2)] by (auto simp: Let_def split: if_splits)
  then have clear: "\<not> map_bit m ?k" by (metis LeastI)
  have u: "unat i = ?k + 1"
    unfolding i unat_of_nat using k zero_less_power[of "2 :: nat" "LENGTH('a)"]
    by (intro mod_less) linarith
  from u show "i \<noteq> 0" by auto
  from u clear show "i \<notin> id_map_used m" by (simp add: id_map_used_def)
  show "\<forall>j. j \<noteq> 0 \<longrightarrow> j < i \<longrightarrow> j \<in> id_map_used m"
  proof (intro allI impI)
    fix j :: "'a word" assume j: "j \<noteq> 0" "j < i"
    then have "unat j - 1 < ?k" using u unat_gt_0[of j] by (auto simp: word_less_nat_alt)
    then have "map_bit m (unat j - 1)" using not_less_Least by blast
    with j show "j \<in> id_map_used m" by (simp add: id_map_used_def)
  qed
qed

lemma find_free_None_iff:
  assumes "simd_ne_spec ne" "id_map_wf TYPE('a::len) m"
  shows "(id_map_find_free ne m :: 'a word option) = None \<longleftrightarrow>
    id_map_used m = {i :: 'a word. i \<noteq> 0}"
proof
  assume none: "(id_map_find_free ne m :: 'a word option) = None"
  have "map_bit m (unat i - 1)" if "i \<noteq> 0" for i :: "'a word"
  proof (rule ccontr)
    assume clear: "\<not> map_bit m (unat i - 1)"
    have lt: "unat i < 2 ^ LENGTH('a)" by (rule unsigned_less)
    then have "\<exists>k < 2 ^ LENGTH('a). \<not> map_bit m k" using clear by (metis less_imp_diff_less)
    with none have "2 ^ LENGTH('a) - 1 < (LEAST k. \<not> map_bit m k) + 1"
      unfolding find_free_eq[OF assms] by (auto simp: Let_def split: if_splits)
    moreover from clear have "(LEAST k. \<not> map_bit m k) \<le> unat i - 1" by (rule Least_le)
    moreover from that have "0 < unat i" by (simp add: unat_gt_0)
    ultimately show False using lt by linarith
  qed
  then show "id_map_used m = {i :: 'a word. i \<noteq> 0}" by (auto simp: id_map_used_def)
next
  assume "id_map_used m = {i :: 'a word. i \<noteq> 0}"
  then show "(id_map_find_free ne m :: 'a word option) = None"
    using find_free_Some[OF assms] by (cases "id_map_find_free ne m :: 'a word option") auto
qed

section \<open>The contract of an id pool\<close>

text \<open>
  What the clients of the bitmaps rely on: the connection ids of the server, the connection ids
  of the VFS and the file ids of a disk are drawn from a pool with these laws.
\<close>

locale id_pool =
  fixes used :: "'m \<Rightarrow> 'i set"
    and find_free :: "'m \<Rightarrow> 'i option"
    and set_id :: "'m \<Rightarrow> 'i \<Rightarrow> 'm"
    and clear_id :: "'m \<Rightarrow> 'i \<Rightarrow> 'm"
    and wf :: "'m \<Rightarrow> bool"
    and valid :: "'i set"
  assumes fresh: "wf m \<Longrightarrow> find_free m = Some i \<Longrightarrow> i \<in> valid \<and> i \<notin> used m"
    and full: "wf m \<Longrightarrow> find_free m = None \<longleftrightarrow> used m = valid"
    and used_set: "wf m \<Longrightarrow> i \<in> valid \<Longrightarrow> used (set_id m i) = insert i (used m)"
    and used_clear: "wf m \<Longrightarrow> i \<in> valid \<Longrightarrow> used (clear_id m i) = used m - {i}"
    and wf_set: "wf m \<Longrightarrow> wf (set_id m i)"
    and wf_clear: "wf m \<Longrightarrow> wf (clear_id m i)"
begin

text \<open>\<open>holds m ids\<close>: the ids in use are exactly the pairwise distinct ids some clients hold.\<close>

definition holds :: "'m \<Rightarrow> 'i list \<Rightarrow> bool" where
  "holds m ids \<longleftrightarrow> wf m \<and> distinct ids \<and> set ids = used m \<and> set ids \<subseteq> valid"

lemma holds_acquire:
  "holds m ids \<Longrightarrow> find_free m = Some i \<Longrightarrow> holds (set_id m i) (i # ids)"
  using fresh[of m i] by (auto simp: holds_def used_set wf_set)

lemma holds_release:
  "holds m ids \<Longrightarrow> i \<in> set ids \<Longrightarrow> holds (clear_id m i) (remove1 i ids)"
  by (auto simp: holds_def used_clear wf_clear)

lemma acquire_distinct:
  "wf m \<Longrightarrow> find_free m = Some i \<Longrightarrow> find_free (set_id m i) = Some j \<Longrightarrow> i \<noteq> j"
  using fresh[of m i] fresh[of "set_id m i" j] by (auto simp: used_set wf_set)

lemma released_is_free:
  "wf m \<Longrightarrow> i \<in> valid \<Longrightarrow> find_free (clear_id m i) \<noteq> None"
  by (simp add: full wf_clear used_clear) blast

end

text \<open>Both bitmaps are id pools, for every vector comparison that meets its specification.\<close>

locale simd_compare =
  fixes ne :: simd_ne
  assumes ne_spec: "simd_ne_spec ne"

sublocale simd_compare \<subseteq> id8: id_pool id_map_used "id_map_find_free ne" id_map_set id_map_clear
  "id_map_wf TYPE(8)" "{i :: 8 word. i \<noteq> 0}"
  using find_free_Some[OF ne_spec, where 'a = 8] find_free_None_iff[OF ne_spec, where 'a = 8]
  by unfold_locales (simp_all add: used_set used_clear)

sublocale simd_compare \<subseteq> id16: id_pool id_map_used "id_map_find_free ne" id_map_set id_map_clear
  "id_map_wf TYPE(16)" "{i :: 16 word. i \<noteq> 0}"
  using find_free_Some[OF ne_spec, where 'a = 16] find_free_None_iff[OF ne_spec, where 'a = 16]
  by unfold_locales (simp_all add: used_set used_clear)

lemma simd_ne_ref_spec: "simd_ne_spec simd_ne_ref"
proof -
  have "bit (simd_ne_ref c v) k \<longleftrightarrow> k < CHUNK_SIZE \<and> c ! k \<noteq> v"
    if "length c = CHUNK_SIZE" for c v k
    using that
    by (auto simp: simd_ne_ref_def bit_horner_sum_bit_iff CHUNK_SIZE_def possible_bit_def)
  then show ?thesis by (simp add: simd_ne_spec_def)
qed

interpretation ref: simd_compare simd_ne_ref
  by unfold_locales (rule simd_ne_ref_spec)


section \<open>Properties\<close>

text \<open>C24: the vectorised search returns the smallest id not in use, and nothing exactly when all ids
  are in use; setting and clearing an id changes the set of used ids by exactly that id. This holds
  for both widths and every vector comparison that tells lane by lane which bytes differ.\<close>

theorem id_map_allocates_least_free:
  assumes "simd_ne_spec ne" "id_map_wf TYPE('a::len) m" "(i :: 'a word) \<noteq> 0"
  shows "(id_map_find_free ne m = Some i \<longleftrightarrow>
            i \<notin> id_map_used m \<and> {j. j \<noteq> 0 \<and> j < i} \<subseteq> id_map_used m) \<and>
    ((id_map_find_free ne m :: 'a word option) = None \<longleftrightarrow> id_map_used m = {j :: 'a word. j \<noteq> 0}) \<and>
    id_map_used (id_map_set m i) = insert i (id_map_used m) \<and>
    id_map_used (id_map_clear m i) = id_map_used m - {i}"
proof -
  have "id_map_find_free ne m = Some i"
    if i: "i \<notin> id_map_used m" "{j. j \<noteq> 0 \<and> j < i} \<subseteq> id_map_used m"
  proof -
    obtain k where k: "id_map_find_free ne m = Some (k :: 'a word)"
      using find_free_None_iff[OF assms(1,2)] i(1) assms(3) by (cases "id_map_find_free ne m :: 'a word option") auto
    note f = find_free_Some[OF assms(1,2) k]
    have "\<not> i < k" using f(3) assms(3) i(1) by blast
    moreover have "\<not> k < i" using f(1,2) i(2) by blast
    ultimately have "k = i" by simp
    with k show ?thesis by simp
  qed
  moreover have "i \<notin> id_map_used m \<and> {j. j \<noteq> 0 \<and> j < i} \<subseteq> id_map_used m" if "id_map_find_free ne m = Some i"
    using find_free_Some[OF assms(1,2) that] by blast
  ultimately show ?thesis
    using find_free_None_iff[OF assms(1,2)] used_set[OF assms(2,3)] used_clear[OF assms(2,3)] by blast
qed

theorem id_map_allocates_least_free_witness:
  "simd_ne_spec simd_ne_ref \<and>
   id_map_find_free simd_ne_ref (id_map_set (id_map_new TYPE(8)) (1 :: 8 word)) = Some (2 :: 8 word)"
proof -
  let ?m = "id_map_set (id_map_new TYPE(8)) (1 :: 8 word)"
  have wf: "id_map_wf TYPE(8) ?m" using wf_new[where 'a = 8] by simp
  have used: "id_map_used ?m = {1 :: 8 word}"
    using wf_new[where 'a = 8] by (simp add: used_set used_new)
  have "{j :: 8 word. j \<noteq> 0 \<and> j < 2} \<subseteq> {1}"
  proof
    fix j :: "8 word" assume "j \<in> {j. j \<noteq> 0 \<and> j < 2}"
    then have "unat j \<noteq> 0" "unat j < 2" by (auto simp: word_less_nat_alt unat_eq_zero)
    then have "unat j = unat (1 :: 8 word)" by simp
    then show "j \<in> {1}" by (simp only: word_unat_eq_iff singleton_iff)
  qed
  then show ?thesis
    using id_map_allocates_least_free[OF simd_ne_ref_spec wf, of 2] simd_ne_ref_spec by (simp add: used)
qed

end
