(* ===== verification/Vfs_Server.thy ===== *)
theory Vfs_Server
  imports Vfs_Protocol Id_Map
begin

text \<open>
  \<^verbatim>\<open>Server/src/vipc/vfs/mod.rs\<close>: the file service of a session. It owns the backend, the bitmap
  of the connection ids and the table of attached files. The \<open>Backend\<close> trait of
  \<^verbatim>\<open>Server/src/vfs/backend.rs\<close> is a record of functions; an operation that takes a mutable
  reference returns its new value, whether or not it succeeds. The host file system the backend
  works on is part of the backend's state \<open>'b\<close>.
\<close>

section \<open>The backend trait\<close>

record ('b, 'a, 'h) backend =
  be_is_attachable :: "'b \<Rightarrow> grid_path \<Rightarrow> attach_mode \<Rightarrow> access_mode \<Rightarrow> (vfs_error + 'a) \<times> 'b"
  be_open :: "'b \<Rightarrow> 'a \<Rightarrow> (vfs_error + 'h) \<times> 'a \<times> 'b"
  be_close :: "'b \<Rightarrow> 'h \<Rightarrow> (vfs_error + unit) \<times> 'h \<times> 'b"
  be_read :: "'b \<Rightarrow> 'h \<Rightarrow> nat \<Rightarrow> (vfs_error + bytes) \<times> 'h \<times> 'b"
  be_write :: "'b \<Rightarrow> 'h \<Rightarrow> bytes \<Rightarrow> (vfs_error + unit) \<times> 'h \<times> 'b"
  be_seek :: "'b \<Rightarrow> 'h \<Rightarrow> seek_mode \<Rightarrow> u32 \<Rightarrow> (vfs_error + unit) \<times> 'h \<times> 'b"
  be_truncate :: "'b \<Rightarrow> 'h \<Rightarrow> (vfs_error + unit) \<times> 'h \<times> 'b"
  be_flush :: "'b \<Rightarrow> 'h \<Rightarrow> (vfs_error + unit) \<times> 'h \<times> 'b"
  be_read_desc :: "'b \<Rightarrow> 'h \<Rightarrow> nat \<Rightarrow> (vfs_error + bytes) \<times> 'h \<times> 'b"
  be_write_desc :: "'b \<Rightarrow> 'h \<Rightarrow> bytes \<Rightarrow> (vfs_error + unit) \<times> 'h \<times> 'b"
  be_get_status :: "'b \<Rightarrow> 'a \<Rightarrow> 'h option \<Rightarrow> (vfs_error + file_status) \<times> 'h option \<times> 'b"
  be_set_status :: "'b \<Rightarrow> 'a \<Rightarrow> 'h option \<Rightarrow> status_action list \<Rightarrow>
                    (vfs_error + unit) \<times> 'a \<times> 'h option \<times> 'b"
  be_read_dir :: "'b \<Rightarrow> 'a \<Rightarrow> nat \<Rightarrow> nat \<Rightarrow> (vfs_error + dir_entry list) \<times> 'a \<times> 'b"

text \<open>An \<open>Option<&mut Handle>\<close> may change the handle but neither create nor drop it.\<close>

fun same_option :: "'h option \<Rightarrow> 'h option \<Rightarrow> 'h option" where
  "same_option None new = None"
| "same_option (Some h) None = Some h"
| "same_option (Some h) (Some h') = Some h'"

section \<open>State\<close>

record ('a, 'h) vfs_file_descriptor =
  vf_attachment :: 'a
  vf_handle :: "'h option"

record ('b, 'a, 'h) vfs =
  vfs_backend :: 'b
  vfs_connection_ids :: id_map
  vfs_files :: "u16 \<Rightarrow> ('a, 'h) vfs_file_descriptor option"

definition vfs_new :: "'b \<Rightarrow> ('b, 'a, 'h) vfs" where
  "vfs_new b = \<lparr>vfs_backend = b, vfs_connection_ids = id_map_new TYPE(16), vfs_files = (\<lambda>_. None)\<rparr>"

section \<open>Operations\<close>

text \<open>\<open>files\<close> is keyed by \<open>NonZeroU16\<close>, so id 0 is looked up in no table.\<close>

definition get_file :: "vfs_request_header \<Rightarrow> ('b, 'a, 'h) vfs \<Rightarrow> vfs_error + ('a, 'h) vfs_file_descriptor" where
  "get_file header s =
     (if vh_servers_conn_id header = 0 then Inl VBadConnection
      else ok_or VBadConnection (vfs_files s (vh_servers_conn_id header)))"

definition put_file :: "vfs_request_header \<Rightarrow> ('a, 'h) vfs_file_descriptor \<Rightarrow> 'b \<Rightarrow> ('b, 'a, 'h) vfs \<Rightarrow> ('b, 'a, 'h) vfs" where
  "put_file header file b s =
     s\<lparr>vfs_backend := b, vfs_files := (vfs_files s)(vh_servers_conn_id header \<mapsto> file)\<rparr>"

text \<open>
  The common part of the operations on an open file: look the connection up, require its handle,
  run the backend on it.
\<close>

definition on_handle ::
  "('b \<Rightarrow> 'h \<Rightarrow> (vfs_error + 'r) \<times> 'h \<times> 'b) \<Rightarrow> vfs_request_header \<Rightarrow> ('b, 'a, 'h) vfs \<Rightarrow>
   (vfs_error + 'r) \<times> ('b, 'a, 'h) vfs" where
  "on_handle f header s =
     (case get_file header s of
        Inl e \<Rightarrow> (Inl e, s)
      | Inr file \<Rightarrow>
          (case vf_handle file of
             None \<Rightarrow> (Inl VFileNotOpen, s)
           | Some h \<Rightarrow>
               (case f (vfs_backend s) h of
                  (r, h', b') \<Rightarrow> (r, put_file header (file\<lparr>vf_handle := Some h'\<rparr>) b' s))))"

definition vfs_do_get_status ::
  "('b, 'a, 'h) backend \<Rightarrow> vfs_request_header \<Rightarrow> ('b, 'a, 'h) vfs \<Rightarrow>
   (vfs_error + bool \<times> file_status) \<times> ('b, 'a, 'h) vfs" where
  "vfs_do_get_status B header s =
     (case get_file header s of
        Inl e \<Rightarrow> (Inl e, s)
      | Inr file \<Rightarrow>
          (case be_get_status B (vfs_backend s) (vf_attachment file) (vf_handle file) of
             (r, h', b') \<Rightarrow>
               (and_then r (\<lambda>st. Inr (vf_handle file \<noteq> None, st)),
                put_file header (file\<lparr>vf_handle := same_option (vf_handle file) h'\<rparr>) b' s)))"

definition u8_of_bool :: "bool \<Rightarrow> byte" where
  "u8_of_bool b = (if b then 1 else 0)"

definition vfs_get_status ::
  "('b, 'a, 'h) backend \<Rightarrow> vfs_request_header \<Rightarrow> ('b, 'a, 'h) vfs \<Rightarrow> vfs_response \<times> ('b, 'a, 'h) vfs" where
  "vfs_get_status B header s =
     (case vfs_do_get_status B header s of
        (Inr (is_open, st), s') \<Rightarrow>
          (RGetStatus (response_header CGetStatus header 0)
             \<lparr>gs_open = u8_of_bool is_open, gs_access = access_mode_repr (fs_access st),
              gs_seek = u8_of_bool (fs_seek st), gs_file_position = fs_file_position st,
              gs_file_length = fs_file_length st, gs_num_pages = fs_num_pages st,
              gs_num_pages_alloc = fs_num_pages_alloc st\<rparr>, s')
      | (Inl e, s') \<Rightarrow>
          (RGetStatus (response_header CGetStatus header (vfs_error_code e))
             \<lparr>gs_open = 0, gs_access = access_mode_repr AccessRead, gs_seek = 0,
              gs_file_position = 0, gs_file_length = 0, gs_num_pages = 0,
              gs_num_pages_alloc = 0\<rparr>, s'))"

definition vfs_do_open ::
  "('b, 'a, 'h) backend \<Rightarrow> vfs_request_header \<Rightarrow> ('b, 'a, 'h) vfs \<Rightarrow> (vfs_error + unit) \<times> ('b, 'a, 'h) vfs" where
  "vfs_do_open B header s =
     (case get_file header s of
        Inl e \<Rightarrow> (Inl e, s)
      | Inr file \<Rightarrow>
          if vf_handle file \<noteq> None then (Inl VAlreadyOpen, s)
          else
            (case be_open B (vfs_backend s) (vf_attachment file) of
               (Inl e, a', b') \<Rightarrow> (Inl e, put_file header (file\<lparr>vf_attachment := a'\<rparr>) b' s)
             | (Inr h, a', b') \<Rightarrow>
                 (Inr (), put_file header (file\<lparr>vf_attachment := a', vf_handle := Some h\<rparr>) b' s)))"

definition vfs_do_read ::
  "('b, 'a, 'h) backend \<Rightarrow> vfs_request_header \<Rightarrow> u16 \<Rightarrow> ('b, 'a, 'h) vfs \<Rightarrow>
   (vfs_error + bytes) \<times> ('b, 'a, 'h) vfs" where
  "vfs_do_read B header data_length s =
     on_handle (\<lambda>b h. be_read B b h (bounded_length data_length)) header s"

definition vfs_do_read_desc ::
  "('b, 'a, 'h) backend \<Rightarrow> vfs_request_header \<Rightarrow> u16 \<Rightarrow> ('b, 'a, 'h) vfs \<Rightarrow>
   (vfs_error + bytes) \<times> ('b, 'a, 'h) vfs" where
  "vfs_do_read_desc B header data_length s =
     on_handle (\<lambda>b h. be_read_desc B b h (min (unat data_length) VFS_DESCRIPTOR_LENGTH)) header s"

definition vfs_do_read_dir_page ::
  "('b, 'a, 'h) backend \<Rightarrow> vfs_request_header \<Rightarrow> u16 \<Rightarrow> ('b, 'a, 'h) vfs \<Rightarrow>
   (vfs_error + bytes list) \<times> ('b, 'a, 'h) vfs" where
  "vfs_do_read_dir_page B header data_length s =
     (case get_file header s of
        Inl e \<Rightarrow> (Inl e, s)
      | Inr file \<Rightarrow>
          let max_entries = min (unat data_length) VFS_MAX_DIRECTORY_OBJECTS_PER_PAGE;
              max_bytes = min (max_entries * (DIRECTORY_ENTRY_PREAMBLE_LEN + VFS_MAX_FILE_NAME_LENGTH))
                              VFS_PAGE_SIZE
          in (case be_read_dir B (vfs_backend s) (vf_attachment file) max_entries max_bytes of
                (r, a', b') \<Rightarrow>
                  (and_then r (\<lambda>entries. Inr (map dir_entry_name entries)),
                   put_file header (file\<lparr>vf_attachment := a'\<rparr>) b' s)))"

definition vfs_do_write ::
  "('b, 'a, 'h) backend \<Rightarrow> vfs_request_header \<Rightarrow> bytes \<Rightarrow> ('b, 'a, 'h) vfs \<Rightarrow>
   (vfs_error + unit) \<times> ('b, 'a, 'h) vfs" where
  "vfs_do_write B header data s =
     (if length data > VFS_MAX_WRITE_LENGTH then (Inl VBadParameter, s)
      else on_handle (\<lambda>b h. be_write B b h data) header s)"

definition vfs_do_write_desc ::
  "('b, 'a, 'h) backend \<Rightarrow> vfs_request_header \<Rightarrow> bytes \<Rightarrow> ('b, 'a, 'h) vfs \<Rightarrow>
   (vfs_error + unit) \<times> ('b, 'a, 'h) vfs" where
  "vfs_do_write_desc B header data s =
     (if length data \<noteq> VFS_DESCRIPTOR_LENGTH then (Inl VBadParameter, s)
      else on_handle (\<lambda>b h. be_write_desc B b h data) header s)"

fun status_action_from :: "vfs_set_status_action \<Rightarrow> status_action" where
  "status_action_from (SetDirection d) = ActSetDirection d"
| "status_action_from (SetWildcard p) = ActSetWildcard p"
| "status_action_from (SetObjectMode m) = ActSetObjectMode m"
| "status_action_from _ = ActUnsupported"

definition vfs_do_set_status ::
  "('b, 'a, 'h) backend \<Rightarrow> vfs_request_header \<Rightarrow> vfs_set_status_action list \<Rightarrow> ('b, 'a, 'h) vfs \<Rightarrow>
   (vfs_error + unit) \<times> ('b, 'a, 'h) vfs" where
  "vfs_do_set_status B header actions s =
     (case get_file header s of
        Inl e \<Rightarrow> (Inl e, s)
      | Inr file \<Rightarrow>
          (case be_set_status B (vfs_backend s) (vf_attachment file) (vf_handle file)
                  (map status_action_from actions) of
             (r, a', h', b') \<Rightarrow>
               (r, put_file header
                     (file\<lparr>vf_attachment := a', vf_handle := same_option (vf_handle file) h'\<rparr>) b' s)))"

definition vfs_do_seek ::
  "('b, 'a, 'h) backend \<Rightarrow> vfs_request_header \<Rightarrow> seek_mode \<Rightarrow> u32 \<Rightarrow> ('b, 'a, 'h) vfs \<Rightarrow>
   (vfs_error + unit) \<times> ('b, 'a, 'h) vfs" where
  "vfs_do_seek B header mode position s = on_handle (\<lambda>b h. be_seek B b h mode position) header s"

definition vfs_do_attach ::
  "simd_ne \<Rightarrow> ('b, 'a, 'h) backend \<Rightarrow> attach_mode \<Rightarrow> access_mode \<Rightarrow> grid_path \<Rightarrow> ('b, 'a, 'h) vfs \<Rightarrow>
   (vfs_error + u16) \<times> ('b, 'a, 'h) vfs" where
  "vfs_do_attach ne B mode access path s =
     (case id_map_find_free ne (vfs_connection_ids s) of
        None \<Rightarrow> (Inl VDeviceFull, s)
      | Some file_id \<Rightarrow>
          (case be_is_attachable B (vfs_backend s) path mode access of
             (Inl e, b') \<Rightarrow> (Inl e, s\<lparr>vfs_backend := b'\<rparr>)
           | (Inr attachment, b') \<Rightarrow>
               (Inr file_id,
                s\<lparr>vfs_backend := b',
                  vfs_files := (vfs_files s)(file_id \<mapsto> \<lparr>vf_attachment = attachment, vf_handle = None\<rparr>),
                  vfs_connection_ids := id_map_set (vfs_connection_ids s) file_id\<rparr>)))"

definition vfs_attach ::
  "simd_ne \<Rightarrow> ('b, 'a, 'h) backend \<Rightarrow> vfs_request_header \<Rightarrow> attach_mode \<Rightarrow> access_mode \<Rightarrow> grid_path \<Rightarrow>
   ('b, 'a, 'h) vfs \<Rightarrow> vfs_response \<times> ('b, 'a, 'h) vfs" where
  "vfs_attach ne B header mode access path s =
     (case vfs_do_attach ne B mode access path s of
        (Inr conn_id, s') \<Rightarrow>
          (RSimple \<lparr>rh_response = VFS_RESPONSE_BIT OR vfs_request_code_repr CAttach,
                    rh_servers_conn_id = conn_id,
                    rh_requestors_conn_id = vh_requestors_conn_id header, rh_status = 0\<rparr>, s')
      | (Inl err, s') \<Rightarrow>
          (RSimple \<lparr>rh_response = VFS_RESPONSE_BIT OR vfs_request_code_repr CAttach,
                    rh_servers_conn_id = 0,
                    rh_requestors_conn_id = vh_requestors_conn_id header,
                    rh_status = vfs_error_code err\<rparr>, s'))"

definition vfs_do_detach ::
  "('b, 'a, 'h) backend \<Rightarrow> vfs_request_header \<Rightarrow> ('b, 'a, 'h) vfs \<Rightarrow> (vfs_error + unit) \<times> ('b, 'a, 'h) vfs" where
  "vfs_do_detach B header s =
     (let file_id = vh_servers_conn_id header in
      case get_file header s of
        Inl e \<Rightarrow> (Inl e, s)
      | Inr file \<Rightarrow>
          (let s = s\<lparr>vfs_files := (vfs_files s)(file_id := None)\<rparr> in
           case (case vf_handle file of
                   None \<Rightarrow> (Inr (), vfs_backend s)
                 | Some h \<Rightarrow> (case be_close B (vfs_backend s) h of (r, h', b') \<Rightarrow> (r, b'))) of
             (Inl e, b') \<Rightarrow> (Inl e, s\<lparr>vfs_backend := b'\<rparr>)
           | (Inr _, b') \<Rightarrow>
               (Inr (), s\<lparr>vfs_backend := b',
                          vfs_connection_ids := id_map_clear (vfs_connection_ids s) file_id\<rparr>)))"

definition vfs_do_close ::
  "('b, 'a, 'h) backend \<Rightarrow> vfs_request_header \<Rightarrow> ('b, 'a, 'h) vfs \<Rightarrow> (vfs_error + unit) \<times> ('b, 'a, 'h) vfs" where
  "vfs_do_close B header s =
     (case get_file header s of
        Inl e \<Rightarrow> (Inl e, s)
      | Inr file \<Rightarrow>
          (case vf_handle file of
             None \<Rightarrow> (Inr (), s)
           | Some h \<Rightarrow>
               (case be_close B (vfs_backend s) h of
                  (Inl e, h', b') \<Rightarrow> (Inl e, put_file header (file\<lparr>vf_handle := Some h'\<rparr>) b' s)
                | (Inr _, h', b') \<Rightarrow> (Inr (), put_file header (file\<lparr>vf_handle := None\<rparr>) b' s))))"

definition vfs_do_flush ::
  "('b, 'a, 'h) backend \<Rightarrow> vfs_request_header \<Rightarrow> ('b, 'a, 'h) vfs \<Rightarrow> (vfs_error + unit) \<times> ('b, 'a, 'h) vfs" where
  "vfs_do_flush B header s = on_handle (be_flush B) header s"

definition vfs_do_truncate ::
  "('b, 'a, 'h) backend \<Rightarrow> vfs_request_header \<Rightarrow> ('b, 'a, 'h) vfs \<Rightarrow> (vfs_error + unit) \<times> ('b, 'a, 'h) vfs" where
  "vfs_do_truncate B header s = on_handle (be_truncate B) header s"

definition vfs_unknown :: "vfs_request_header \<Rightarrow> ('b, 'a, 'h) vfs \<Rightarrow> vfs_response \<times> ('b, 'a, 'h) vfs" where
  "vfs_unknown header s =
     (RSimple \<lparr>rh_response = VFS_RESPONSE_BIT OR vh_request header,
               rh_servers_conn_id = vh_servers_conn_id header,
               rh_requestors_conn_id = vh_requestors_conn_id header, rh_status = 35\<rparr>, s)"

text \<open>How a result becomes a response: a bare status, the bytes read, or the names of a page.\<close>

definition respond_simple ::
  "vfs_request_code \<Rightarrow> vfs_request_header \<Rightarrow> (vfs_error + unit) \<times> 's \<Rightarrow> vfs_response \<times> 's" where
  "respond_simple code header p = (case p of (r, s) \<Rightarrow> (simple_response code header (vfs_result_code r), s))"

definition respond_data ::
  "vfs_request_code \<Rightarrow> vfs_request_header \<Rightarrow> (vfs_error + bytes) \<times> 's \<Rightarrow> vfs_response \<times> 's" where
  "respond_data code header p =
     (case p of (r, s) \<Rightarrow>
        (RRead (response_header code header (vfs_result_code r)) (unwrap_or [] (ok r)), s))"

definition respond_page ::
  "vfs_request_header \<Rightarrow> (vfs_error + bytes list) \<times> 's \<Rightarrow> vfs_response \<times> 's" where
  "respond_page header p =
     (case p of (r, s) \<Rightarrow>
        (RReadDirPage (response_header CReadDirPage header (vfs_result_code r)) (unwrap_or [] (ok r)), s))"

text \<open>The handlers: an operation and the response to its result.\<close>

abbreviation vfs_open ::
  "('b, 'a, 'h) backend \<Rightarrow> vfs_request_header \<Rightarrow> ('b, 'a, 'h) vfs \<Rightarrow> vfs_response \<times> ('b, 'a, 'h) vfs" where
  "vfs_open B header s \<equiv> respond_simple COpen header (vfs_do_open B header s)"

abbreviation vfs_read ::
  "('b, 'a, 'h) backend \<Rightarrow> vfs_request_header \<Rightarrow> u16 \<Rightarrow> ('b, 'a, 'h) vfs \<Rightarrow> vfs_response \<times> ('b, 'a, 'h) vfs" where
  "vfs_read B header l s \<equiv> respond_data CRead header (vfs_do_read B header l s)"

abbreviation vfs_read_desc ::
  "('b, 'a, 'h) backend \<Rightarrow> vfs_request_header \<Rightarrow> u16 \<Rightarrow> ('b, 'a, 'h) vfs \<Rightarrow> vfs_response \<times> ('b, 'a, 'h) vfs" where
  "vfs_read_desc B header l s \<equiv> respond_data CReadDesc header (vfs_do_read_desc B header l s)"

abbreviation vfs_read_dir_page ::
  "('b, 'a, 'h) backend \<Rightarrow> vfs_request_header \<Rightarrow> u16 \<Rightarrow> ('b, 'a, 'h) vfs \<Rightarrow> vfs_response \<times> ('b, 'a, 'h) vfs" where
  "vfs_read_dir_page B header l s \<equiv> respond_page header (vfs_do_read_dir_page B header l s)"

abbreviation vfs_write ::
  "('b, 'a, 'h) backend \<Rightarrow> vfs_request_header \<Rightarrow> bytes \<Rightarrow> ('b, 'a, 'h) vfs \<Rightarrow> vfs_response \<times> ('b, 'a, 'h) vfs" where
  "vfs_write B header d s \<equiv> respond_simple CWrite header (vfs_do_write B header d s)"

abbreviation vfs_write_desc ::
  "('b, 'a, 'h) backend \<Rightarrow> vfs_request_header \<Rightarrow> bytes \<Rightarrow> ('b, 'a, 'h) vfs \<Rightarrow> vfs_response \<times> ('b, 'a, 'h) vfs" where
  "vfs_write_desc B header d s \<equiv> respond_simple CWriteDesc header (vfs_do_write_desc B header d s)"

abbreviation vfs_set_status ::
  "('b, 'a, 'h) backend \<Rightarrow> vfs_request_header \<Rightarrow> vfs_set_status_action list \<Rightarrow> ('b, 'a, 'h) vfs \<Rightarrow> vfs_response \<times> ('b, 'a, 'h) vfs" where
  "vfs_set_status B header actions s \<equiv> respond_simple CSetStatus header (vfs_do_set_status B header actions s)"

abbreviation vfs_seek ::
  "('b, 'a, 'h) backend \<Rightarrow> vfs_request_header \<Rightarrow> seek_mode \<Rightarrow> u32 \<Rightarrow> ('b, 'a, 'h) vfs \<Rightarrow> vfs_response \<times> ('b, 'a, 'h) vfs" where
  "vfs_seek B header mode position s \<equiv> respond_simple CSeek header (vfs_do_seek B header mode position s)"

abbreviation vfs_detach ::
  "('b, 'a, 'h) backend \<Rightarrow> vfs_request_header \<Rightarrow> ('b, 'a, 'h) vfs \<Rightarrow> vfs_response \<times> ('b, 'a, 'h) vfs" where
  "vfs_detach B header s \<equiv> respond_simple CDetach header (vfs_do_detach B header s)"

abbreviation vfs_close ::
  "('b, 'a, 'h) backend \<Rightarrow> vfs_request_header \<Rightarrow> ('b, 'a, 'h) vfs \<Rightarrow> vfs_response \<times> ('b, 'a, 'h) vfs" where
  "vfs_close B header s \<equiv> respond_simple CClose header (vfs_do_close B header s)"

abbreviation vfs_flush ::
  "('b, 'a, 'h) backend \<Rightarrow> vfs_request_header \<Rightarrow> ('b, 'a, 'h) vfs \<Rightarrow> vfs_response \<times> ('b, 'a, 'h) vfs" where
  "vfs_flush B header s \<equiv> respond_simple CFlush header (vfs_do_flush B header s)"

abbreviation vfs_truncate ::
  "('b, 'a, 'h) backend \<Rightarrow> vfs_request_header \<Rightarrow> ('b, 'a, 'h) vfs \<Rightarrow> vfs_response \<times> ('b, 'a, 'h) vfs" where
  "vfs_truncate B header s \<equiv> respond_simple CTruncate header (vfs_do_truncate B header s)"

definition vfs_process_request ::
  "simd_ne \<Rightarrow> ('b, 'a, 'h) backend \<Rightarrow> ('b, 'a, 'h) vfs \<Rightarrow> vfs_request \<Rightarrow> vfs_response \<times> ('b, 'a, 'h) vfs" where
  "vfs_process_request ne B s req =
     (let header = vr_header req in
      case vr_body req of
        BGetStatus _ \<Rightarrow> vfs_get_status B header s
      | BOpen _ \<Rightarrow> vfs_open B header s
      | BRead l \<Rightarrow> vfs_read B header l s
      | BReadDesc l \<Rightarrow> vfs_read_desc B header l s
      | BReadDirPage l \<Rightarrow> vfs_read_dir_page B header l s
      | BWrite d \<Rightarrow> vfs_write B header d s
      | BWriteDesc d \<Rightarrow> vfs_write_desc B header d s
      | BSetStatus actions \<Rightarrow> vfs_set_status B header actions s
      | BSeek mode position \<Rightarrow> vfs_seek B header mode position s
      | BAttach mode access password path \<Rightarrow> vfs_attach ne B header mode access path s
      | BDetach \<Rightarrow> vfs_detach B header s
      | BClose \<Rightarrow> vfs_close B header s
      | BFlush \<Rightarrow> vfs_flush B header s
      | BTruncate \<Rightarrow> vfs_truncate B header s
      | BUnknown d \<Rightarrow> vfs_unknown header s)"

section \<open>The contract: a table of connections\<close>

text \<open>
  What a client sees of a connection: it is detached, attached, or attached and open. The contract
  of the service is a step relation on the table of these states, indexed by the request and the
  status it is answered with.
\<close>

datatype conn_state = Detached | Attached | Opened

type_synonym conn_table = "u16 \<Rightarrow> conn_state"

definition conn_table :: "('b, 'a, 'h) vfs \<Rightarrow> conn_table" where
  "conn_table s = (\<lambda>i. case vfs_files s i of
      None \<Rightarrow> Detached | Some f \<Rightarrow> (if vf_handle f = None then Attached else Opened))"

primrec vfs_response_header_of :: "vfs_response \<Rightarrow> vfs_response_header" where
  "vfs_response_header_of (RSimple h) = h"
| "vfs_response_header_of (RGetStatus h b) = h"
| "vfs_response_header_of (RReadDirPage h names) = h"
| "vfs_response_header_of (RRead h data) = h"

abbreviation response_status :: "vfs_response \<Rightarrow> u16" where
  "response_status r \<equiv> rh_status (vfs_response_header_of r)"

primrec needs_open :: "vfs_request_body \<Rightarrow> bool" where
  "needs_open (BGetStatus l) \<longleftrightarrow> False"
| "needs_open (BOpen n) \<longleftrightarrow> False"
| "needs_open (BRead l) \<longleftrightarrow> True"
| "needs_open (BReadDesc l) \<longleftrightarrow> True"
| "needs_open (BReadDirPage l) \<longleftrightarrow> False"
| "needs_open (BWrite d) \<longleftrightarrow> True"
| "needs_open (BWriteDesc d) \<longleftrightarrow> True"
| "needs_open (BSetStatus as) \<longleftrightarrow> False"
| "needs_open (BSeek m p) \<longleftrightarrow> True"
| "needs_open (BAttach m a pw p) \<longleftrightarrow> False"
| "needs_open BDetach \<longleftrightarrow> False"
| "needs_open BClose \<longleftrightarrow> False"
| "needs_open BTruncate \<longleftrightarrow> True"
| "needs_open BFlush \<longleftrightarrow> True"
| "needs_open (BUnknown d) \<longleftrightarrow> False"

definition needs_attached :: "vfs_request_body \<Rightarrow> bool" where
  "needs_attached b \<longleftrightarrow> (case b of BGetStatus _ \<Rightarrow> True | BReadDirPage _ \<Rightarrow> True | BSetStatus _ \<Rightarrow> True | _ \<Rightarrow> False)"

inductive conn_step :: "conn_table \<Rightarrow> vfs_request \<Rightarrow> vfs_response_header \<Rightarrow> conn_table \<Rightarrow> bool" where
  attach_ok: "\<lbrakk>vr_body req = BAttach m a pw p; rh_status h = 0; i = rh_servers_conn_id h; i \<noteq> 0;
      T i = Detached\<rbrakk> \<Longrightarrow> conn_step T req h (T(i := Attached))"
| attach_refused: "\<lbrakk>vr_body req = BAttach m a pw p; rh_status h \<noteq> 0; rh_servers_conn_id h = 0\<rbrakk> \<Longrightarrow>
      conn_step T req h T"
| open_ok: "\<lbrakk>vr_body req = BOpen n; rh_status h = 0; c = vh_servers_conn_id (vr_header req);
      T c = Attached\<rbrakk> \<Longrightarrow> conn_step T req h (T(c := Opened))"
| open_refused: "\<lbrakk>vr_body req = BOpen n; rh_status h \<noteq> 0\<rbrakk> \<Longrightarrow> conn_step T req h T"
| close_ok: "\<lbrakk>vr_body req = BClose; rh_status h = 0; c = vh_servers_conn_id (vr_header req);
      T c \<noteq> Detached\<rbrakk> \<Longrightarrow> conn_step T req h (T(c := Attached))"
| close_refused: "\<lbrakk>vr_body req = BClose; rh_status h \<noteq> 0\<rbrakk> \<Longrightarrow> conn_step T req h T"
| detach_ok: "\<lbrakk>vr_body req = BDetach; rh_status h = 0; c = vh_servers_conn_id (vr_header req);
      T c \<noteq> Detached\<rbrakk> \<Longrightarrow> conn_step T req h (T(c := Detached))"
| detach_close_failed: "\<lbrakk>vr_body req = BDetach; rh_status h \<noteq> 0; c = vh_servers_conn_id (vr_header req);
      T c = Opened\<rbrakk> \<Longrightarrow> conn_step T req h (T(c := Detached))"
| detach_unknown: "\<lbrakk>vr_body req = BDetach; rh_status h = vfs_error_code VBadConnection;
      c = vh_servers_conn_id (vr_header req); c = 0 \<or> T c = Detached\<rbrakk> \<Longrightarrow> conn_step T req h T"
| data_ok: "\<lbrakk>needs_open (vr_body req); rh_status h = 0; T (vh_servers_conn_id (vr_header req)) = Opened\<rbrakk> \<Longrightarrow>
      conn_step T req h T"
| data_refused: "\<lbrakk>needs_open (vr_body req); rh_status h \<noteq> 0\<rbrakk> \<Longrightarrow> conn_step T req h T"
| status_ok: "\<lbrakk>needs_attached (vr_body req); rh_status h = 0;
      T (vh_servers_conn_id (vr_header req)) \<noteq> Detached\<rbrakk> \<Longrightarrow> conn_step T req h T"
| status_refused: "\<lbrakk>needs_attached (vr_body req); rh_status h \<noteq> 0\<rbrakk> \<Longrightarrow> conn_step T req h T"
| unknown: "\<lbrakk>vr_body req = BUnknown d; rh_status h = vfs_error_code VNotSupported\<rbrakk> \<Longrightarrow> conn_step T req h T"

section \<open>The invariant\<close>

text \<open>Every attached file is filed under a non-zero id that the bitmap holds as used.\<close>

definition vfs_inv :: "('b, 'a, 'h) vfs \<Rightarrow> bool" where
  "vfs_inv s \<longleftrightarrow> id_map_wf TYPE(16) (vfs_connection_ids s) \<and> dom (vfs_files s) \<subseteq> id_map_used (vfs_connection_ids s)"

text \<open>With a backend whose close cannot fail no id is lost: the ids in use are the attached files.\<close>

definition vfs_no_leak :: "('b, 'a, 'h) vfs \<Rightarrow> bool" where
  "vfs_no_leak s \<longleftrightarrow> id_map_wf TYPE(16) (vfs_connection_ids s) \<and> dom (vfs_files s) = id_map_used (vfs_connection_ids s)"

definition close_never_fails :: "('b, 'a, 'h) backend \<Rightarrow> bool" where
  "close_never_fails B \<longleftrightarrow> (\<forall>b h. is_ok (fst (be_close B b h)))"

lemma get_file_Inr:
  "get_file header s = Inr f \<longleftrightarrow>
     vh_servers_conn_id header \<noteq> 0 \<and> vfs_files s (vh_servers_conn_id header) = Some f"
  by (auto simp: get_file_def result_simps)

lemma get_file_Inl:
  "get_file header s = Inl e \<longleftrightarrow> e = VBadConnection \<and>
     (vh_servers_conn_id header = 0 \<or> vfs_files s (vh_servers_conn_id header) = None)"
  by (auto simp: get_file_def result_simps)

lemma put_file_fields [simp]:
  "vfs_backend (put_file header f b s) = b"
  "vfs_connection_ids (put_file header f b s) = vfs_connection_ids s"
  "vfs_files (put_file header f b s) = (vfs_files s)(vh_servers_conn_id header \<mapsto> f)"
  by (simp_all add: put_file_def)

lemma same_option_None [simp]: "same_option h h' = None \<longleftrightarrow> h = None"
  by (cases "(h, h')" rule: same_option.cases) auto

text \<open>
  A step on a known connection rewrites its own entry only: same ids, and the entry keeps its
  place. Every operation but attach, detach, open and close is of this form.
\<close>

definition touches_only :: "u16 \<Rightarrow> ('b, 'a, 'h) vfs \<Rightarrow> ('b, 'a, 'h) vfs \<Rightarrow> bool" where
  "touches_only c s s' \<longleftrightarrow>
     vfs_connection_ids s' = vfs_connection_ids s \<and> dom (vfs_files s') = dom (vfs_files s) \<and>
     (\<forall>i. i \<noteq> c \<longrightarrow> vfs_files s' i = vfs_files s i)"

lemma touches_only_refl [simp]: "touches_only c s s"
  by (simp add: touches_only_def)

lemma touches_only_put:
  "get_file header s = Inr f \<Longrightarrow> touches_only (vh_servers_conn_id header) s (put_file header f' b s)"
  by (auto simp: touches_only_def get_file_Inr)

lemma conn_table_put:
  "get_file header s = Inr f \<Longrightarrow> conn_table (put_file header f' b s) =
     (conn_table s)(vh_servers_conn_id header := (if vf_handle f' = None then Attached else Opened))"
  by (auto simp: conn_table_def fun_eq_iff)

lemma conn_table_same:
  "get_file header s = Inr f \<Longrightarrow> (vf_handle f' = None \<longleftrightarrow> vf_handle f = None) \<Longrightarrow>
     conn_table (put_file header f' b s) = conn_table s"
  by (auto simp: conn_table_def fun_eq_iff get_file_Inr)

lemma conn_table_file:
  "get_file header s = Inr f \<Longrightarrow>
     conn_table s (vh_servers_conn_id header) = (if vf_handle f = None then Attached else Opened)"
  by (auto simp: conn_table_def get_file_Inr)

text \<open>
  The shape of a step that leaves every connection in its state: \<open>succ\<close> tells whether it succeeded,
  \<open>req\<close> what state success requires.
\<close>

definition keeps_table :: "(conn_state \<Rightarrow> bool) \<Rightarrow> u16 \<Rightarrow> ('b, 'a, 'h) vfs \<Rightarrow> bool \<Rightarrow> ('b, 'a, 'h) vfs \<Rightarrow> bool" where
  "keeps_table req c s succ s' \<longleftrightarrow>
     touches_only c s s' \<and> conn_table s' = conn_table s \<and> (succ \<longrightarrow> req (conn_table s c))"

lemma keeps_table_refused [simp]: "keeps_table req c s False s"
  by (simp add: keeps_table_def)

lemma respond_parts [simp]:
  "snd (respond_simple code header p) = snd p" "snd (respond_data code header q) = snd q"
  "snd (respond_page header p') = snd p'"
  "response_status (fst (respond_simple code header p)) = vfs_result_code (fst p)"
  "response_status (fst (respond_data code header q)) = vfs_result_code (fst q)"
  "response_status (fst (respond_page header p')) = vfs_result_code (fst p')"
  by (simp_all add: respond_simple_def respond_data_def respond_page_def simple_response_def
      response_header_def split: prod.splits)

lemma on_handle_keeps [simp]:
  "keeps_table (\<lambda>st. st = Opened) (vh_servers_conn_id header) s
     (is_ok (fst (on_handle f header s))) (snd (on_handle f header s))"
  by (auto simp: keeps_table_def on_handle_def conn_table_same conn_table_file touches_only_put
      split: sum.splits option.splits prod.splits)

lemma data_request_keeps:
  "needs_open (vr_body req) \<Longrightarrow>
   keeps_table (\<lambda>st. st = Opened) (vh_servers_conn_id (vr_header req)) s
     (response_status (fst (vfs_process_request ne B s req)) = 0) (snd (vfs_process_request ne B s req))"
  by (cases "vr_body req")
     (simp_all add: vfs_process_request_def Let_def vfs_do_read_def vfs_do_read_desc_def vfs_do_write_def
        vfs_do_write_desc_def vfs_do_seek_def vfs_do_flush_def vfs_do_truncate_def)

lemma get_status_keeps:
  "keeps_table (\<lambda>st. st \<noteq> Detached) (vh_servers_conn_id header) s
     (response_status (fst (vfs_get_status B header s)) = 0) (snd (vfs_get_status B header s))"
  by (auto simp: keeps_table_def vfs_get_status_def vfs_do_get_status_def touches_only_put
        conn_table_same conn_table_file vfs_error_code_nonzero response_header_def
      split: prod.splits sum.splits)

lemma read_dir_page_keeps:
  "keeps_table (\<lambda>st. st \<noteq> Detached) (vh_servers_conn_id header) s
     (is_ok (fst (vfs_do_read_dir_page B header l s))) (snd (vfs_do_read_dir_page B header l s))"
  by (auto simp: keeps_table_def vfs_do_read_dir_page_def Let_def touches_only_put
        conn_table_same conn_table_file split: prod.splits sum.splits)

lemma set_status_keeps:
  "keeps_table (\<lambda>st. st \<noteq> Detached) (vh_servers_conn_id header) s
     (is_ok (fst (vfs_do_set_status B header as s))) (snd (vfs_do_set_status B header as s))"
  by (auto simp: keeps_table_def vfs_do_set_status_def touches_only_put
        conn_table_same conn_table_file split: prod.splits sum.splits)

lemma status_request_keeps:
  "needs_attached (vr_body req) \<Longrightarrow>
   keeps_table (\<lambda>st. st \<noteq> Detached) (vh_servers_conn_id (vr_header req)) s
     (response_status (fst (vfs_process_request ne B s req)) = 0) (snd (vfs_process_request ne B s req))"
  by (cases "vr_body req")
     (simp_all add: needs_attached_def vfs_process_request_def Let_def get_status_keeps read_dir_page_keeps
        set_status_keeps)

lemma open_facts:
  assumes "vfs_do_open B header s = (r, s')"
  shows "touches_only (vh_servers_conn_id header) s s'"
    "is_ok r \<Longrightarrow> conn_table s (vh_servers_conn_id header) = Attached \<and>
       conn_table s' = (conn_table s)(vh_servers_conn_id header := Opened)"
    "\<not> is_ok r \<Longrightarrow> conn_table s' = conn_table s"
  using assms
  by (auto simp: vfs_do_open_def touches_only_put conn_table_put conn_table_file conn_table_same
      split: sum.splits prod.splits if_splits)

lemma close_facts:
  assumes "vfs_do_close B header s = (r, s')"
  shows "touches_only (vh_servers_conn_id header) s s'"
    "is_ok r \<Longrightarrow> conn_table s (vh_servers_conn_id header) \<noteq> Detached \<and>
       conn_table s' = (conn_table s)(vh_servers_conn_id header := Attached)"
    "\<not> is_ok r \<Longrightarrow> conn_table s' = conn_table s"
  using assms
  by (auto simp: vfs_do_close_def touches_only_put conn_table_put conn_table_file conn_table_same
      fun_upd_idem_iff split: sum.splits prod.splits if_splits option.splits)

lemma detach_facts:
  assumes "vfs_do_detach B header s = (r, s')"
  shows "\<forall>i. i \<noteq> vh_servers_conn_id header \<longrightarrow> vfs_files s' i = vfs_files s i"
    "is_ok r \<Longrightarrow> vh_servers_conn_id header \<in> dom (vfs_files s) \<and> vh_servers_conn_id header \<noteq> 0 \<and>
       vfs_files s' = (vfs_files s)(vh_servers_conn_id header := None) \<and>
       vfs_connection_ids s' = id_map_clear (vfs_connection_ids s) (vh_servers_conn_id header)"
    "r = Inl e \<Longrightarrow> vfs_connection_ids s' = vfs_connection_ids s \<and>
       (s' = s \<and> e = VBadConnection \<and>
          (vh_servers_conn_id header = 0 \<or> vfs_files s (vh_servers_conn_id header) = None) \<or>
        vfs_files s' = (vfs_files s)(vh_servers_conn_id header := None) \<and>
        conn_table s (vh_servers_conn_id header) = Opened \<and> \<not> close_never_fails B)"
proof -
  show "\<forall>i. i \<noteq> vh_servers_conn_id header \<longrightarrow> vfs_files s' i = vfs_files s i"
    using assms by (auto simp: vfs_do_detach_def Let_def split: sum.splits prod.splits option.splits)
  show "is_ok r \<Longrightarrow> vh_servers_conn_id header \<in> dom (vfs_files s) \<and> vh_servers_conn_id header \<noteq> 0 \<and>
       vfs_files s' = (vfs_files s)(vh_servers_conn_id header := None) \<and>
       vfs_connection_ids s' = id_map_clear (vfs_connection_ids s) (vh_servers_conn_id header)"
    using assms
    by (auto simp: vfs_do_detach_def Let_def get_file_Inr split: sum.splits prod.splits option.splits)
  assume r: "r = Inl e"
  show "vfs_connection_ids s' = vfs_connection_ids s \<and>
       (s' = s \<and> e = VBadConnection \<and>
          (vh_servers_conn_id header = 0 \<or> vfs_files s (vh_servers_conn_id header) = None) \<or>
        vfs_files s' = (vfs_files s)(vh_servers_conn_id header := None) \<and>
        conn_table s (vh_servers_conn_id header) = Opened \<and> \<not> close_never_fails B)"
  proof (cases "get_file header s")
    case (Inl x)
    with assms r show ?thesis by (auto simp: vfs_do_detach_def get_file_Inl)
  next
    case (Inr f)
    with assms r obtain h b' h' where h: "vf_handle f = Some h"
      "be_close B (vfs_backend s) h = (Inl e, h', b')" "vfs_connection_ids s' = vfs_connection_ids s"
      "vfs_files s' = (vfs_files s)(vh_servers_conn_id header := None)"
      by (auto simp: vfs_do_detach_def Let_def split: sum.splits prod.splits option.splits)
    then have "\<not> close_never_fails B" by (auto simp: close_never_fails_def intro!: exI[of _ "vfs_backend s"] exI[of _ h])
    with h conn_table_file[OF Inr] show ?thesis by simp
  qed
qed

lemma attach_facts:
  assumes "vfs_do_attach ne B m a p s = (r, s')"
  shows "r = Inr i \<Longrightarrow> id_map_find_free ne (vfs_connection_ids s) = Some i \<and>
       (\<exists>at. vfs_files s' = (vfs_files s)(i \<mapsto> \<lparr>vf_attachment = at, vf_handle = None\<rparr>)) \<and>
       vfs_connection_ids s' = id_map_set (vfs_connection_ids s) i"
    "\<not> is_ok r \<Longrightarrow> vfs_files s' = vfs_files s \<and> vfs_connection_ids s' = vfs_connection_ids s"
  using assms by (auto simp: vfs_do_attach_def split: option.splits prod.splits sum.splits)


lemma touches_only_inv: "touches_only c s s' \<Longrightarrow> vfs_inv s \<Longrightarrow> vfs_inv s'"
  by (auto simp: touches_only_def vfs_inv_def)

lemma touches_only_no_leak: "touches_only c s s' \<Longrightarrow> vfs_no_leak s \<Longrightarrow> vfs_no_leak s'"
  by (auto simp: touches_only_def vfs_no_leak_def)

lemma vfs_inv_nonzero: "vfs_inv s \<Longrightarrow> i \<in> dom (vfs_files s) \<Longrightarrow> i \<noteq> 0"
  by (auto simp: vfs_inv_def id_map_used_def)

lemma no_leak_inv: "vfs_no_leak s \<Longrightarrow> vfs_inv s"
  by (simp add: vfs_no_leak_def vfs_inv_def)

text \<open>A request is one of seven kinds; the proofs about \<open>process_request\<close> follow this split.\<close>

lemma request_kinds:
  obtains (attach) m a pw p where "vr_body req = BAttach m a pw p"
  | (op) n where "vr_body req = BOpen n"
  | (close) "vr_body req = BClose"
  | (detach) "vr_body req = BDetach"
  | (data) "needs_open (vr_body req)"
  | (status) "needs_attached (vr_body req)"
  | (unknown) d where "vr_body req = BUnknown d"
  by (cases "vr_body req") (auto simp: needs_attached_def)

lemma attach_fresh:
  assumes "simd_ne_spec ne" "vfs_inv s" "vfs_do_attach ne B m a p s = (Inr i, s')"
  shows "i \<noteq> 0" "vfs_files s i = None" "vfs_inv s'" "vfs_no_leak s \<Longrightarrow> vfs_no_leak s'"
    "conn_table s' = (conn_table s)(i := Attached)" "\<forall>j. j \<noteq> i \<longrightarrow> vfs_files s' j = vfs_files s j"
proof -
  from attach_facts(1)[OF assms(3) refl]
  obtain f where f: "id_map_find_free ne (vfs_connection_ids s) = Some i"
      "vfs_files s' = (vfs_files s)(i \<mapsto> f)" "vf_handle f = None"
    and ids: "vfs_connection_ids s' = id_map_set (vfs_connection_ids s) i"
    by force
  have wf: "id_map_wf TYPE(16) (vfs_connection_ids s)" using assms(2) by (simp add: vfs_inv_def)
  note fresh = find_free_Some(1,2)[OF assms(1) wf f(1)]
  then show "i \<noteq> 0" "vfs_files s i = None" using assms(2) by (auto simp: vfs_inv_def)
  show "vfs_inv s'" "vfs_no_leak s \<Longrightarrow> vfs_no_leak s'"
    using assms(2) wf fresh f ids by (auto simp: vfs_inv_def vfs_no_leak_def used_set)
  show "conn_table s' = (conn_table s)(i := Attached)"
    using f(2,3) by (auto simp: conn_table_def fun_eq_iff)
  show "\<forall>j. j \<noteq> i \<longrightarrow> vfs_files s' j = vfs_files s j" using f(2) by simp
qed

lemma vfs_attach_cases:
  assumes "vr_body req = BAttach m a pw p" "vfs_process_request ne B s req = (resp, s')"
  obtains (ok) i where "vfs_do_attach ne B m a p s = (Inr i, s')" "response_status resp = 0"
      "rh_servers_conn_id (vfs_response_header_of resp) = i"
  | (refused) e where "vfs_do_attach ne B m a p s = (Inl e, s')" "response_status resp = vfs_error_code e"
      "rh_servers_conn_id (vfs_response_header_of resp) = 0"
  using assms
  by (auto simp: vfs_process_request_def vfs_attach_def Let_def split: prod.splits sum.splits)

lemma vfs_simple_cases:
  assumes "vfs_process_request ne B s req = (resp, s')"
  shows "vr_body req = BOpen n \<Longrightarrow> \<exists>r. vfs_do_open B (vr_header req) s = (r, s') \<and> response_status resp = vfs_result_code r"
    "vr_body req = BClose \<Longrightarrow> \<exists>r. vfs_do_close B (vr_header req) s = (r, s') \<and> response_status resp = vfs_result_code r"
    "vr_body req = BDetach \<Longrightarrow> \<exists>r. vfs_do_detach B (vr_header req) s = (r, s') \<and> response_status resp = vfs_result_code r"
    "vr_body req = BUnknown d \<Longrightarrow> s' = s \<and> response_status resp = vfs_error_code VNotSupported"
  using assms
  by (auto simp: vfs_process_request_def respond_simple_def simple_response_def response_header_def
      vfs_unknown_def Let_def split: prod.splits)

text \<open>What every request guarantees; proved kind by kind and collected in \<open>vfs_step_ok\<close>.\<close>

definition step_ok ::
  "('b, 'a, 'h) backend \<Rightarrow> ('b, 'a, 'h) vfs \<Rightarrow> vfs_request \<Rightarrow> vfs_response_header \<Rightarrow> ('b, 'a, 'h) vfs \<Rightarrow> bool" where
  "step_ok B s req h s' \<longleftrightarrow>
     vfs_inv s' \<and> (close_never_fails B \<longrightarrow> vfs_no_leak s \<longrightarrow> vfs_no_leak s') \<and>
     conn_step (conn_table s) req h (conn_table s') \<and>
     (\<forall>i. i \<in> dom (vfs_files s) \<longrightarrow> i \<noteq> vh_servers_conn_id (vr_header req) \<longrightarrow> vfs_files s' i = vfs_files s i)"

lemma step_ok_touches:
  assumes "vfs_inv s" "touches_only (vh_servers_conn_id (vr_header req)) s s'"
    "conn_step (conn_table s) req h (conn_table s')"
  shows "step_ok B s req h s'"
  using assms touches_only_inv[OF assms(2,1)] touches_only_no_leak[OF assms(2)]
  by (simp add: step_ok_def) (simp add: touches_only_def)

lemma step_ok_keeps:
  assumes "vfs_inv s"
    "keeps_table P (vh_servers_conn_id (vr_header req)) s (rh_status h = 0) s'"
    "P = (\<lambda>st. st = Opened) \<and> needs_open (vr_body req) \<or> P = (\<lambda>st. st \<noteq> Detached) \<and> needs_attached (vr_body req)"
  shows "step_ok B s req h s'"
proof (rule step_ok_touches[OF assms(1)])
  show "touches_only (vh_servers_conn_id (vr_header req)) s s'"
    using assms(2) by (simp add: keeps_table_def)
  have "conn_table s' = conn_table s" "rh_status h = 0 \<longrightarrow> P (conn_table s (vh_servers_conn_id (vr_header req)))"
    using assms(2) by (simp_all add: keeps_table_def)
  then show "conn_step (conn_table s) req h (conn_table s')"
    using assms(3) by (cases "rh_status h = 0")
      (auto intro: data_ok data_refused status_ok status_refused)
qed

lemma step_ok_open:
  assumes "vfs_inv s" "vr_body req = BOpen n" "vfs_do_open B (vr_header req) s = (r, s')"
    "rh_status h = vfs_result_code r"
  shows "step_ok B s req h s'"
proof (rule step_ok_touches[OF assms(1) open_facts(1)[OF assms(3)]])
  show "conn_step (conn_table s) req h (conn_table s')"
    using open_facts(2,3)[OF assms(3)] assms(2,4)
    by (cases "is_ok r") (auto intro: open_ok open_refused)
qed

lemma step_ok_close:
  assumes "vfs_inv s" "vr_body req = BClose" "vfs_do_close B (vr_header req) s = (r, s')"
    "rh_status h = vfs_result_code r"
  shows "step_ok B s req h s'"
proof (rule step_ok_touches[OF assms(1) close_facts(1)[OF assms(3)]])
  show "conn_step (conn_table s) req h (conn_table s')"
    using close_facts(2,3)[OF assms(3)] assms(2,4)
    by (cases "is_ok r") (auto intro: close_ok close_refused)
qed

lemma conn_table_remove:
  "vfs_files s' = (vfs_files s)(c := None) \<Longrightarrow> conn_table s' = (conn_table s)(c := Detached)"
  by (auto simp: conn_table_def fun_eq_iff)

lemma dom_conn_table: "i \<in> dom (vfs_files s) \<longleftrightarrow> conn_table s i \<noteq> Detached"
  by (auto simp: conn_table_def split: option.splits)

lemma step_ok_detach:
  assumes "vfs_inv s" "vr_body req = BDetach" "vfs_do_detach B (vr_header req) s = (r, s')"
    "rh_status h = vfs_result_code r"
  shows "step_ok B s req h s'"
proof (cases r)
  case (Inr u)
  let ?c = "vh_servers_conn_id (vr_header req)"
  have d: "?c \<in> dom (vfs_files s)" "?c \<noteq> 0" "vfs_files s' = (vfs_files s)(?c := None)"
    "vfs_connection_ids s' = id_map_clear (vfs_connection_ids s) ?c"
    using detach_facts(2)[OF assms(3)] Inr by auto
  then have "vfs_inv s'" "vfs_no_leak s \<Longrightarrow> vfs_no_leak s'"
    using assms(1) by (auto simp: vfs_inv_def vfs_no_leak_def used_clear)
  moreover have "conn_step (conn_table s) req h (conn_table s')"
    unfolding conn_table_remove[OF d(3)]
    using d(1) assms(2,4) Inr by (intro detach_ok) (auto simp: dom_conn_table)
  ultimately show ?thesis using d(3) by (simp add: step_ok_def)
next
  case (Inl e)
  let ?c = "vh_servers_conn_id (vr_header req)"
  have ids: "vfs_connection_ids s' = vfs_connection_ids s" using detach_facts(3)[OF assms(3) Inl] by simp
  consider "s' = s" "e = VBadConnection" "?c = 0 \<or> vfs_files s ?c = None"
    | "vfs_files s' = (vfs_files s)(?c := None)" "conn_table s ?c = Opened" "\<not> close_never_fails B"
    using detach_facts(3)[OF assms(3) Inl] by argo
  then show ?thesis
  proof cases
    case 1
    then have "conn_step (conn_table s) req h (conn_table s')"
      using assms(2,4) Inl dom_conn_table[of ?c s] by (auto intro!: detach_unknown)
    with 1 assms(1) show ?thesis by (simp add: step_ok_def)
  next
    case 2
    have "conn_step (conn_table s) req h (conn_table s')"
      unfolding conn_table_remove[OF 2(1)] using 2 assms(2,4) Inl vfs_error_code_nonzero
      by (intro detach_close_failed) auto
    with 2 ids assms(1) show ?thesis by (auto simp: step_ok_def vfs_inv_def)
  qed
qed

lemma step_ok_attach:
  assumes "simd_ne_spec ne" "vfs_inv s" "vr_body req = BAttach m a pw p"
    "vfs_process_request ne B s req = (resp, s')"
  shows "step_ok B s req (vfs_response_header_of resp) s'"
proof (cases rule: vfs_attach_cases[OF assms(3,4)])
  case (1 i)
  note f = attach_fresh[OF assms(1,2) 1(1)]
  have "conn_table s i = Detached" using f(2) by (simp add: conn_table_def)
  then have "conn_step (conn_table s) req (vfs_response_header_of resp) (conn_table s')"
    unfolding f(5) using 1 f(1) assms(3) by (intro attach_ok) auto
  with f(2,3,4,6) show ?thesis by (simp add: step_ok_def) (metis domIff)
next
  case (2 e)
  have same: "vfs_files s' = vfs_files s" "vfs_connection_ids s' = vfs_connection_ids s"
    using attach_facts(2)[OF 2(1)] by simp_all
  then have "conn_table s' = conn_table s" by (simp add: conn_table_def fun_eq_iff)
  then have "conn_step (conn_table s) req (vfs_response_header_of resp) (conn_table s')"
    using 2 assms(3) vfs_error_code_nonzero by (auto intro: attach_refused)
  with same assms(2) show ?thesis by (simp add: step_ok_def vfs_inv_def vfs_no_leak_def)
qed

lemma vfs_step_ok:
  assumes "simd_ne_spec ne" "vfs_inv s" "vfs_process_request ne B s req = (resp, s')"
  shows "step_ok B s req (vfs_response_header_of resp) s'"
proof (cases rule: request_kinds[of req])
  case (attach m a pw p)
  then show ?thesis using assms by (intro step_ok_attach)
next
  case (op n)
  then show ?thesis using vfs_simple_cases(1)[OF assms(3) op] step_ok_open[OF assms(2) op] by blast
next
  case close
  then show ?thesis using vfs_simple_cases(2)[OF assms(3) close] step_ok_close[OF assms(2) close] by blast
next
  case detach
  then show ?thesis using vfs_simple_cases(3)[OF assms(3) detach] step_ok_detach[OF assms(2) detach] by blast
next
  case data
  then show ?thesis using data_request_keeps[OF data, of s ne B] assms(3)
    by (intro step_ok_keeps[OF assms(2), where P = "\<lambda>st. st = Opened"]) simp_all
next
  case status
  then show ?thesis using status_request_keeps[OF status, of s ne B] assms(3)
    by (intro step_ok_keeps[OF assms(2), where P = "\<lambda>st. st \<noteq> Detached"]) simp_all
next
  case (unknown d)
  then have "s' = s" "response_status resp = vfs_error_code VNotSupported"
    using vfs_simple_cases(4)[OF assms(3) unknown] by simp_all
  then show ?thesis using assms(2) unknown by (auto simp: step_ok_def intro: conn_step.unknown)
qed

lemma vfs_new_ok: "vfs_inv (vfs_new b)" "vfs_no_leak (vfs_new b)" "conn_table (vfs_new b) = (\<lambda>_. Detached)"
  by (simp_all add: vfs_inv_def vfs_no_leak_def vfs_new_def wf_new used_new conn_table_def)


section \<open>Runs\<close>

text \<open>
  A run of the service: before each request the backend may have been changed by others (the host
  is shared by all sessions), so every request comes with the backend state it meets.
\<close>

fun vfs_run ::
  "simd_ne \<Rightarrow> ('b, 'a, 'h) backend \<Rightarrow> ('b, 'a, 'h) vfs \<Rightarrow> ('b \<times> vfs_request) list \<Rightarrow> ('b, 'a, 'h) vfs" where
  "vfs_run ne B s [] = s"
| "vfs_run ne B s ((b, req) # steps) =
     vfs_run ne B (snd (vfs_process_request ne B (s\<lparr>vfs_backend := b\<rparr>) req)) steps"

lemma inv_other_backend [simp]:
  "vfs_inv (s\<lparr>vfs_backend := b\<rparr>) = vfs_inv s" "vfs_no_leak (s\<lparr>vfs_backend := b\<rparr>) = vfs_no_leak s"
  "conn_table (s\<lparr>vfs_backend := b\<rparr>) = conn_table s"
  by (simp_all add: vfs_inv_def vfs_no_leak_def conn_table_def)

lemma vfs_run_inv:
  assumes "simd_ne_spec ne"
  shows "vfs_inv s \<Longrightarrow> vfs_inv (vfs_run ne B s steps)"
proof (induction steps arbitrary: s)
  case (Cons st steps)
  obtain b req where st: "st = (b, req)" by fastforce
  have "vfs_inv (snd (vfs_process_request ne B (s\<lparr>vfs_backend := b\<rparr>) req))"
    using vfs_step_ok[OF assms, of "s\<lparr>vfs_backend := b\<rparr>" B req] Cons.prems
    by (cases "vfs_process_request ne B (s\<lparr>vfs_backend := b\<rparr>) req") (auto simp: step_ok_def)
  then show ?case using Cons.IH by (simp add: st)
qed simp

lemma vfs_run_no_leak:
  assumes "simd_ne_spec ne" "close_never_fails B"
  shows "vfs_no_leak s \<Longrightarrow> vfs_no_leak (vfs_run ne B s steps)"
proof (induction steps arbitrary: s)
  case (Cons st steps)
  obtain b req where st: "st = (b, req)" by fastforce
  have "vfs_no_leak (snd (vfs_process_request ne B (s\<lparr>vfs_backend := b\<rparr>) req))"
    using vfs_step_ok[OF assms(1), of "s\<lparr>vfs_backend := b\<rparr>" B req] Cons.prems no_leak_inv assms(2)
    by (cases "vfs_process_request ne B (s\<lparr>vfs_backend := b\<rparr>) req") (auto simp: step_ok_def)
  then show ?case using Cons.IH by (simp add: st)
qed simp

section \<open>Backends whose answers fit a message\<close>

text \<open>
  The lengths the service asks for are chosen so that the answer fits a 514-byte message. That the
  backend keeps to them is its side of the contract: \<open>att_ok\<close> is what it maintains of an attachment.
\<close>

locale bounded_backend =
  fixes B :: "('b, 'a, 'h) backend" and att_ok :: "'a \<Rightarrow> bool"
  assumes attachable_ok: "be_is_attachable B b p m ac = (Inr a, b') \<Longrightarrow> att_ok a"
    and open_ok: "att_ok a \<Longrightarrow> be_open B b a = (r, a', b') \<Longrightarrow> att_ok a'"
    and set_status_ok: "att_ok a \<Longrightarrow> be_set_status B b a ho acts = (ru, a', ho', b') \<Longrightarrow> att_ok a'"
    and read_dir_ok: "att_ok a \<Longrightarrow> be_read_dir B b a k n = (rd, a', b') \<Longrightarrow> att_ok a'"
    and read_bound: "be_read B b h n = (Inr d, h', b') \<Longrightarrow> length d \<le> n"
    and read_desc_bound: "be_read_desc B b h n = (Inr d, h', b') \<Longrightarrow> length d \<le> n"
    and read_dir_bound: "att_ok a \<Longrightarrow> be_read_dir B b a k n = (Inr es, a', b') \<Longrightarrow>
      (\<Sum>e\<leftarrow>es. 9 + length (dir_entry_name e)) \<le> n \<and> (\<forall>e \<in> set es. length (dir_entry_name e) \<le> 80)"
begin

definition atts_ok :: "('b, 'a, 'h) vfs \<Rightarrow> bool" where
  "atts_ok s \<longleftrightarrow> (\<forall>i f. vfs_files s i = Some f \<longrightarrow> att_ok (vf_attachment f))"

lemma atts_ok_put:
  "atts_ok s \<Longrightarrow> att_ok (vf_attachment f) \<Longrightarrow> atts_ok (put_file header f b s)"
  by (auto simp: atts_ok_def)

lemma atts_ok_file: "atts_ok s \<Longrightarrow> get_file header s = Inr f \<Longrightarrow> att_ok (vf_attachment f)"
  by (auto simp: atts_ok_def get_file_Inr)

lemma atts_ok_new: "atts_ok (vfs_new b)"
  by (simp add: atts_ok_def vfs_new_def)

lemma atts_ok_on_handle: "atts_ok s \<Longrightarrow> atts_ok (snd (on_handle f header s))"
  by (auto simp: on_handle_def intro!: atts_ok_put dest: atts_ok_file split: sum.splits option.splits prod.splits)

lemma atts_ok_get_status: "atts_ok s \<Longrightarrow> atts_ok (snd (vfs_get_status B header s))"
  by (auto simp: vfs_get_status_def vfs_do_get_status_def intro!: atts_ok_put dest: atts_ok_file
      split: sum.splits prod.splits)

lemma atts_ok_open: "atts_ok s \<Longrightarrow> atts_ok (snd (vfs_do_open B header s))"
  by (auto simp: vfs_do_open_def intro!: atts_ok_put dest: atts_ok_file intro: open_ok[OF atts_ok_file]
      split: sum.splits prod.splits)

lemma atts_ok_read_dir: "atts_ok s \<Longrightarrow> atts_ok (snd (vfs_do_read_dir_page B header l s))"
  by (auto simp: vfs_do_read_dir_page_def Let_def intro!: atts_ok_put dest: atts_ok_file intro: read_dir_ok[OF atts_ok_file]
      split: sum.splits prod.splits)

lemma atts_ok_set_status: "atts_ok s \<Longrightarrow> atts_ok (snd (vfs_do_set_status B header as s))"
  by (auto simp: vfs_do_set_status_def intro!: atts_ok_put dest: atts_ok_file intro: set_status_ok[OF atts_ok_file]
      split: sum.splits prod.splits)

lemma atts_ok_attach: "atts_ok s \<Longrightarrow> atts_ok (snd (vfs_attach ne B header m a p s))"
  by (auto simp: vfs_attach_def vfs_do_attach_def atts_ok_def dest: attachable_ok
      split: sum.splits prod.splits option.splits)

lemma atts_ok_close: "atts_ok s \<Longrightarrow> atts_ok (snd (vfs_do_close B header s))"
  by (auto simp: vfs_do_close_def intro!: atts_ok_put dest: atts_ok_file
      split: sum.splits prod.splits option.splits)

lemma atts_ok_detach: "atts_ok s \<Longrightarrow> atts_ok (snd (vfs_do_detach B header s))"
  by (auto simp: vfs_do_detach_def atts_ok_def Let_def split: sum.splits prod.splits option.splits)

lemmas atts_ok_ops = atts_ok_on_handle atts_ok_get_status atts_ok_open atts_ok_read_dir
  atts_ok_set_status atts_ok_attach atts_ok_close atts_ok_detach

lemma atts_ok_step: "atts_ok s \<Longrightarrow> atts_ok (snd (vfs_process_request ne B s req))"
  by (cases "vr_body req")
     (simp_all add: vfs_process_request_def Let_def vfs_do_read_def vfs_do_read_desc_def
        vfs_do_write_def vfs_do_write_desc_def vfs_do_seek_def vfs_do_flush_def vfs_do_truncate_def
        vfs_unknown_def atts_ok_ops)

lemma atts_ok_run: "atts_ok s \<Longrightarrow> atts_ok (vfs_run ne B s steps)"
proof (induction steps arbitrary: s)
  case (Cons st steps)
  obtain b req where st: "st = (b, req)" by fastforce
  have "atts_ok (s\<lparr>vfs_backend := b\<rparr>)" using Cons.prems by (simp add: atts_ok_def)
  then show ?case using Cons.IH atts_ok_step by (simp add: st)
qed simp

definition answer_fits :: "vfs_response \<Rightarrow> bool" where
  "answer_fits r \<longleftrightarrow> (\<forall>dst. is_ok (vfs_response_write_into r dst))"

lemma answer_fits_iff:
  "answer_fits r \<longleftrightarrow> length (response_bytes r) \<le> 514 \<and>
     (case r of RReadDirPage h names \<Rightarrow> \<forall>n \<in> set names. length n \<le> 80 | _ \<Rightarrow> True)"
  using vfs_response_write_eq[of r] by (auto simp: answer_fits_def is_ok_iff)

lemma answer_fits_simple [simp]: "answer_fits (RSimple h)" "answer_fits (RGetStatus h b)"
  by (simp_all add: answer_fits_iff)

lemma answer_fits_respond_simple [simp]: "answer_fits (fst (respond_simple code header p))"
  by (simp add: respond_simple_def simple_response_def split: prod.splits)

lemma answer_fits_data: "(\<And>d. r = Inr d \<Longrightarrow> length d \<le> 504) \<Longrightarrow> answer_fits (fst (respond_data code header (r, s)))"
  by (cases r) (simp_all add: respond_data_def answer_fits_iff)

lemma on_handle_bound:
  assumes "\<And>b h d h' b'. f b h = (Inr d, h', b') \<Longrightarrow> length d \<le> n" "n \<le> 504"
  shows "answer_fits (fst (respond_data code header (on_handle f header s)))"
proof -
  obtain r s' where r: "on_handle f header s = (r, s')" by fastforce
  have "length d \<le> 504" if "r = Inr d" for d
    using r that assms(1)[of _ _ d] assms(2)
    by (fastforce simp: on_handle_def split: sum.splits option.splits prod.splits)
  then show ?thesis unfolding r by (rule answer_fits_data)
qed

lemma dir_page_fits:
  assumes "atts_ok s"
  shows "answer_fits (fst (respond_page header (vfs_do_read_dir_page B header l s)))"
proof -
  obtain r s' where r: "vfs_do_read_dir_page B header l s = (r, s')" by fastforce
  show ?thesis
  proof (cases r)
    case (Inl e)
    then show ?thesis by (simp add: r respond_page_def answer_fits_iff)
  next
    case (Inr names)
    then obtain f k es a' b' where f: "get_file header s = Inr f" and names: "names = map dir_entry_name es"
      and es: "be_read_dir B (vfs_backend s) (vf_attachment f) k
                 (min (k * (DIRECTORY_ENTRY_PREAMBLE_LEN + VFS_MAX_FILE_NAME_LENGTH)) VFS_PAGE_SIZE)
               = (Inr es, a', b')"
      using r by (auto simp: vfs_do_read_dir_page_def Let_def result_simps split: sum.splits prod.splits)
    from read_dir_bound[OF atts_ok_file[OF assms f] es]
    have b: "(\<Sum>e\<leftarrow>es. 9 + length (dir_entry_name e)) \<le> 504" "\<forall>e \<in> set es. length (dir_entry_name e) \<le> 80"
      by (simp_all add: vfs_limits)
    have "length (concat (map dir_entry_bytes names)) = (\<Sum>e\<leftarrow>es. 9 + length (dir_entry_name e))"
      by (simp add: names length_concat comp_def)
    with b show ?thesis by (simp add: r Inr respond_page_def answer_fits_iff names)
  qed
qed

lemma process_request_fits:
  assumes "atts_ok s"
  shows "answer_fits (fst (vfs_process_request ne B s req))"
proof (cases "vr_body req")
  case (BRead l)
  then show ?thesis
    by (auto simp: vfs_process_request_def Let_def vfs_do_read_def bounded_length_def vfs_limits
        intro!: on_handle_bound[where n = "min (unat l) 504"] dest: read_bound)
next
  case (BReadDesc l)
  then show ?thesis
    by (auto simp: vfs_process_request_def Let_def vfs_do_read_desc_def vfs_limits
        intro!: on_handle_bound[where n = "min (unat l) 198"] dest: read_desc_bound)
next
  case (BReadDirPage l)
  then show ?thesis using dir_page_fits[OF assms] by (simp add: vfs_process_request_def Let_def)
qed (auto simp: vfs_process_request_def Let_def vfs_get_status_def vfs_attach_def vfs_unknown_def
       split: prod.splits sum.splits)

lemma run_fits:
  "is_ok (vfs_response_write_into
     (fst (vfs_process_request ne B ((vfs_run ne B (vfs_new b0) steps)\<lparr>vfs_backend := b\<rparr>) req)) dst)"
proof -
  have "atts_ok ((vfs_run ne B (vfs_new b0) steps)\<lparr>vfs_backend := b\<rparr>)"
    using atts_ok_run[OF atts_ok_new] by (simp add: atts_ok_def)
  from process_request_fits[OF this] show ?thesis by (simp add: answer_fits_def)
qed

end

end
