(* ===== verification/Host_Fs.thy ===== *)
theory Host_Fs
  imports Prelude
begin

text \<open>
  What the file service uses of the Rust standard library's paths and files: \<open>PathBuf::push\<close>, how the host
  resolves a path, \<open>create_dir_all\<close>, \<open>OpenOptions::open\<close>, and reading, writing, seeking and
  truncating an open file. The host is its nodes and a script of events: each call of the host
  consumes one event, which lets it proceed, fail with an error of the host, or transfer only part of the data.
  An empty script lets every call proceed. There are no symbolic links and nothing is unlinked or
  renamed, as nothing in the server does so; an open file is therefore its path and its offset.
\<close>

section \<open>Paths\<close>

type_synonym path_buf = bytes
type_synonym host_path = "bytes list"

definition SLASH :: byte where "SLASH = 0x2F"

text \<open>\<open>PathBuf::push\<close> and \<open>Path::join\<close>: an absolute argument replaces the path.\<close>

definition path_push :: "path_buf \<Rightarrow> bytes \<Rightarrow> path_buf" where
  "path_push p c =
     (if c \<noteq> [] \<and> hd c = SLASH then c
      else if p = [] \<or> last p = SLASH then p @ c
      else p @ SLASH # c)"

fun split_slash :: "bytes \<Rightarrow> bytes list" where
  "split_slash [] = [[]]"
| "split_slash (b # bs) =
     (if b = SLASH then [] # split_slash bs
      else (case split_slash bs of [] \<Rightarrow> [[b]] | x # xs \<Rightarrow> (b # x) # xs))"

text \<open>How the host walks an absolute path.\<close>

definition resolve_step :: "host_path \<Rightarrow> bytes \<Rightarrow> host_path" where
  "resolve_step p c = (if c = [] \<or> c = [0x2E] then p else if c = [0x2E, 0x2E] then butlast p else p @ [c])"

definition resolve :: "path_buf \<Rightarrow> host_path" where
  "resolve p = foldl resolve_step [] (split_slash p)"

section \<open>Nodes and events\<close>

datatype node_kind = FileNode | DirNode | OtherNode

record node =
  nd_kind :: node_kind
  nd_data :: bytes
  nd_created :: "nat option"
  nd_modified :: nat

datatype host_event = Proceed | Fail io_kind | Short nat

record host =
  host_nodes :: "(host_path \<times> node) list"
  host_script :: "host_event list"
  host_now :: nat
  host_xattrs :: "((host_path \<times> string) \<times> bytes) list"

type_synonym 'a host_result = "(io_kind + 'a) \<times> host"

definition next_event :: "host \<Rightarrow> host_event \<times> host" where
  "next_event h =
     (case host_script h of [] \<Rightarrow> (Proceed, h) | e # es \<Rightarrow> (e, h\<lparr>host_script := es\<rparr>))"

definition host_node :: "host \<Rightarrow> host_path \<Rightarrow> node option" where
  "host_node h p = map_of (host_nodes h) p"

fun set_node :: "host_path \<Rightarrow> node \<Rightarrow> (host_path \<times> node) list \<Rightarrow> (host_path \<times> node) list" where
  "set_node p n [] = [(p, n)]"
| "set_node p n ((q, m) # ns) = (if q = p then (p, n) # ns else (q, m) # set_node p n ns)"

definition put_node :: "host_path \<Rightarrow> node \<Rightarrow> host \<Rightarrow> host" where
  "put_node p n h = h\<lparr>host_nodes := set_node p n (host_nodes h)\<rparr>"

text \<open>A system call: the event decides whether \<open>f\<close> runs, and how much it may transfer.\<close>

definition syscall :: "(nat option \<Rightarrow> host \<Rightarrow> 'a host_result) \<Rightarrow> host \<Rightarrow> 'a host_result" where
  "syscall f h =
     (case next_event h of
        (Fail k, h') \<Rightarrow> (Inl k, h')
      | (Proceed, h') \<Rightarrow> f None h'
      | (Short n, h') \<Rightarrow> f (Some n) h')"

section \<open>Calls on paths\<close>

definition new_node :: "node_kind \<Rightarrow> host \<Rightarrow> node" where
  "new_node k h = \<lparr>nd_kind = k, nd_data = [], nd_created = Some (host_now h), nd_modified = host_now h\<rparr>"

definition is_dir :: "host \<Rightarrow> host_path \<Rightarrow> bool" where
  "is_dir h p \<longleftrightarrow> p = [] \<or> (case host_node h p of None \<Rightarrow> False | Some n \<Rightarrow> nd_kind n = DirNode)"

definition fs_metadata :: "path_buf \<Rightarrow> host \<Rightarrow> node host_result" where
  "fs_metadata p = syscall (\<lambda>_ h. (ok_or NotFound (host_node h (resolve p)), h))"

definition mkdir :: "host_path \<Rightarrow> host \<Rightarrow> unit host_result" where
  "mkdir q = syscall (\<lambda>_ h.
     if q = [] \<or> host_node h q \<noteq> None then (Inl AlreadyExists, h)
     else if is_dir h (butlast q) then (Inr (), put_node q (new_node DirNode h) h)
     else (Inl (if host_node h (butlast q) = None then NotFound else OtherKind), h))"

text \<open>\<open>Path::is_dir\<close>, which takes a failing call for a no; an error \<open>k\<close> stands unless there is a directory.\<close>

definition unless_dir :: "host_path \<Rightarrow> io_kind \<Rightarrow> host \<Rightarrow> unit host_result" where
  "unless_dir q k h =
     (case next_event h of
        (Fail _, h') \<Rightarrow> (Inl k, h')
      | (_, h') \<Rightarrow> (if is_dir h' q then Inr () else Inl k, h'))"

text \<open>\<open>create_dir_all\<close>: make the directory; when its parent is missing, make the parent the same way first and
  try again. The path is given from its last component to its first. A failure on the way leaves what
  was made so far.\<close>

fun mkdir_all :: "host_path \<Rightarrow> host \<Rightarrow> unit host_result" where
  "mkdir_all [] h =
     (case mkdir [] h of
        (Inr _, h) \<Rightarrow> (Inr (), h)
      | (Inl k, h) \<Rightarrow> if k = NotFound then (Inl OtherKind, h) else unless_dir [] k h)"
| "mkdir_all (c # cs) h =
     (case mkdir (rev (c # cs)) h of
        (Inr _, h) \<Rightarrow> (Inr (), h)
      | (Inl k, h) \<Rightarrow>
          if k = NotFound
          then (case mkdir_all cs h of
                  (Inl k, h) \<Rightarrow> (Inl k, h)
                | (Inr _, h) \<Rightarrow>
                    (case mkdir (rev (c # cs)) h of
                       (Inr _, h) \<Rightarrow> (Inr (), h)
                     | (Inl k, h) \<Rightarrow> unless_dir (rev (c # cs)) k h))
          else unless_dir (rev (c # cs)) k h)"

definition create_dir_all :: "path_buf \<Rightarrow> host \<Rightarrow> unit host_result" where
  "create_dir_all p = mkdir_all (rev (resolve p))"

text \<open>The entries of a directory, in the order the host enumerates them.\<close>

definition fs_read_dir :: "path_buf \<Rightarrow> host \<Rightarrow> (bytes \<times> node_kind) list host_result" where
  "fs_read_dir p = syscall (\<lambda>_ h.
     if is_dir h (resolve p)
     then (Inr (map (\<lambda>(q, n). (last q, nd_kind n))
                  (filter (\<lambda>(q, n). q \<noteq> [] \<and> butlast q = resolve p) (host_nodes h))), h)
     else (Inl (if host_node h (resolve p) = None then NotFound else OtherKind), h))"

section \<open>Calls on open files\<close>

record fd =
  fd_path :: host_path
  fd_pos :: nat

text \<open>\<open>OpenOptions\<close> with create, read and write, without truncation.\<close>

definition open_create :: "path_buf \<Rightarrow> host \<Rightarrow> fd host_result" where
  "open_create p = syscall (\<lambda>_ h.
     let q = resolve p in
     if is_dir h q then (Inl OtherKind, h)
     else if host_node h q \<noteq> None then (Inr \<lparr>fd_path = q, fd_pos = 0\<rparr>, h)
     else if is_dir h (butlast q)
     then (Inr \<lparr>fd_path = q, fd_pos = 0\<rparr>, put_node q (new_node FileNode h) h)
     else (Inl NotFound, h))"

definition fd_node :: "host \<Rightarrow> fd \<Rightarrow> node" where
  "fd_node h d = unwrap_or (new_node FileNode h) (host_node h (fd_path d))"

definition fd_put :: "fd \<Rightarrow> bytes \<Rightarrow> host \<Rightarrow> host" where
  "fd_put d bs h =
     put_node (fd_path d) ((fd_node h d)\<lparr>nd_data := bs, nd_modified := host_now h\<rparr>) h"

definition fd_len :: "fd \<Rightarrow> host \<Rightarrow> nat host_result" where
  "fd_len d = syscall (\<lambda>_ h. (Inr (length (nd_data (fd_node h d))), h))"

definition fd_metadata :: "fd \<Rightarrow> host \<Rightarrow> node host_result" where
  "fd_metadata d = syscall (\<lambda>_ h. (Inr (fd_node h d), h))"

definition short_of :: "nat option \<Rightarrow> nat \<Rightarrow> nat" where
  "short_of lim n = (case lim of None \<Rightarrow> n | Some m \<Rightarrow> min m n)"

text \<open>\<open>lseek\<close> refuses offsets that do not fit a signed 64-bit integer.\<close>

definition fd_seek_start :: "nat \<Rightarrow> fd \<Rightarrow> host \<Rightarrow> (io_kind + nat) \<times> fd \<times> host" where
  "fd_seek_start n d h =
     (case next_event h of
        (Fail k, h') \<Rightarrow> (Inl k, d, h')
      | (_, h') \<Rightarrow> if n < 2 ^ 63 then (Inr n, d\<lparr>fd_pos := n\<rparr>, h') else (Inl InvalidInput, d, h'))"

definition fd_read :: "nat \<Rightarrow> fd \<Rightarrow> host \<Rightarrow> (io_kind + bytes) \<times> fd \<times> host" where
  "fd_read n d h =
     (case next_event h of
        (Fail k, h') \<Rightarrow> (Inl k, d, h')
      | (e, h') \<Rightarrow>
          let got = take (short_of (case e of Short m \<Rightarrow> Some m | _ \<Rightarrow> None) n)
                         (drop (fd_pos d) (nd_data (fd_node h' d)))
          in (Inr got, d\<lparr>fd_pos := fd_pos d + length got\<rparr>, h'))"

text \<open>Bytes written at an offset; a gap past the old end reads as zeros.\<close>

definition splice_at :: "bytes \<Rightarrow> nat \<Rightarrow> bytes \<Rightarrow> bytes" where
  "splice_at old at new =
     take at old @ replicate (at - length old) 0 @ new @ drop (at + length new) old"

definition fd_write :: "bytes \<Rightarrow> fd \<Rightarrow> host \<Rightarrow> (io_kind + nat) \<times> fd \<times> host" where
  "fd_write buf d h =
     (case next_event h of
        (Fail k, h') \<Rightarrow> (Inl k, d, h')
      | (e, h') \<Rightarrow>
          let count = short_of (case e of Short m \<Rightarrow> Some m | _ \<Rightarrow> None) (length buf);
              old = nd_data (fd_node h' d)
          in (Inr count, d\<lparr>fd_pos := fd_pos d + count\<rparr>,
              if count = 0 then h' else fd_put d (splice_at old (fd_pos d) (take count buf)) h'))"

definition fd_set_len :: "nat \<Rightarrow> fd \<Rightarrow> host \<Rightarrow> unit host_result" where
  "fd_set_len n d = syscall (\<lambda>_ h.
     let old = nd_data (fd_node h d)
     in (Inr (), fd_put d (take n old @ replicate (n - length old) 0) h))"

section \<open>Lemmas on paths\<close>

lemma split_slash_nonempty [simp]: "split_slash xs \<noteq> []"
  by (induction xs) (auto split: list.splits)

lemma split_slash_append:
  "split_slash (xs @ SLASH # ys) = split_slash xs @ split_slash ys"
  by (induction xs) (auto split: list.splits)

lemma split_slash_single: "SLASH \<notin> set xs \<Longrightarrow> split_slash xs = [xs]"
  by (induction xs) auto

lemma split_slash_snoc: "split_slash (xs @ [SLASH]) = split_slash xs @ [[]]"
  using split_slash_append[of xs "[]"] by simp

lemma foldl_resolve_empty [simp]: "foldl resolve_step p [[]] = p"
  by (simp add: resolve_step_def)

text \<open>Pushing a relative path continues the walk where the base path ended.\<close>

lemma resolve_push:
  assumes "c = [] \<or> hd c \<noteq> SLASH" "p \<noteq> []"
  shows "resolve (path_push p c) = foldl resolve_step (resolve p) (split_slash c)"
proof (cases "last p = SLASH")
  case True
  with assms(2) obtain q where q: "p = q @ [SLASH]" by (metis append_butlast_last_id)
  with assms True have "path_push p c = q @ SLASH # c" by (auto simp: path_push_def)
  then show ?thesis by (simp add: resolve_def split_slash_append q split_slash_snoc resolve_step_def)
next
  case False
  with assms have "path_push p c = p @ SLASH # c" by (auto simp: path_push_def)
  then show ?thesis by (simp add: resolve_def split_slash_append)
qed

definition plain_component :: "bytes \<Rightarrow> bool" where
  "plain_component c \<longleftrightarrow> c \<noteq> [] \<and> SLASH \<notin> set c \<and> c \<noteq> [0x2E] \<and> c \<noteq> [0x2E, 0x2E]"

lemma resolve_push_plain:
  "plain_component c \<Longrightarrow> p \<noteq> [] \<Longrightarrow> resolve (path_push p c) = resolve p @ [c]"
  by (subst resolve_push)
     (auto simp: plain_component_def split_slash_single resolve_step_def dest: hd_in_set)

lemma path_push_nonempty [simp]: "p \<noteq> [] \<Longrightarrow> path_push p c \<noteq> []"
  by (auto simp: path_push_def)

section \<open>Lemmas on nodes\<close>

lemma map_of_set_node [simp]: "map_of (set_node p n ns) = (map_of ns)(p \<mapsto> n)"
  by (induction p n ns rule: set_node.induct) (auto simp: fun_eq_iff)

lemma host_node_put [simp]: "host_node (put_node p n h) = (host_node h)(p \<mapsto> n)"
  by (simp add: host_node_def put_node_def fun_eq_iff)

lemma next_event_nodes [simp]: "next_event h = (e, h') \<Longrightarrow> host_nodes h' = host_nodes h"
  by (auto simp: next_event_def split: list.splits)

lemma next_event_node: "next_event h = (e, h') \<Longrightarrow> host_node h' = host_node h"
  by (simp add: host_node_def fun_eq_iff)

lemma next_event_empty [simp]: "host_script h = [] \<Longrightarrow> next_event h = (Proceed, h)"
  by (simp add: next_event_def)

lemma length_splice: "length (splice_at old at new) = max (length old) (at + length new)"
  by (auto simp: splice_at_def)

lemma take_splice: "k \<le> at \<Longrightarrow> k \<le> length old \<Longrightarrow> take k (splice_at old at new) = take k old"
  by (simp add: splice_at_def min_def)

end
