(* ===== verification/Grid_File.thy ===== *)
theory Grid_File
  imports Host_Fs Vfs_Types
begin

text \<open>
  \<^verbatim>\<open>Server/src/vfs/file/mod.rs\<close>: a GRiD file is a host file with a 16-byte header; reads, writes
  and seeks address the body behind it. A method that takes a mutable reference returns the new
  file and the new host, whether or not it succeeds. Offsets are \<open>u64\<close> in the sources and natural
  numbers here, with the checked additions written out; the plain addition of \<open>body_offset\<close> cannot
  overflow because the host refuses offsets from \<open>2 ^ 63\<close> on.
\<close>

section \<open>The header\<close>

record grid_file_header =
  hd_magic :: bytes
  hd_format_version :: byte
  hd_version_major :: byte
  hd_version_minor :: byte
  hd_version_patch :: byte
  hd_flags :: byte
  hd_property_length :: u32

datatype grid_file_error =
    GIo io_kind
  | InvalidHeaderMagic
  | UnsupportedHeaderVersion byte
  | DataTooShort nat nat
  | DataTooLarge

fun io_error_from_grid :: "grid_file_error \<Rightarrow> io_kind" where
  "io_error_from_grid (GIo k) = k"
| "io_error_from_grid InvalidHeaderMagic = InvalidData"
| "io_error_from_grid (UnsupportedHeaderVersion v) = InvalidData"
| "io_error_from_grid (DataTooShort a m) = InvalidData"
| "io_error_from_grid DataTooLarge = InvalidInput"

definition HEADER_MAGIC :: bytes where "HEADER_MAGIC = bstr ''GRiDiRG''"
definition HEADER_FORMAT_VERSION :: byte where "HEADER_FORMAT_VERSION = 1"
definition HEADER_LENGTH :: nat where "HEADER_LENGTH = 16"

definition grid_file_header_new :: grid_file_header where
  "grid_file_header_new =
     \<lparr>hd_magic = HEADER_MAGIC, hd_format_version = HEADER_FORMAT_VERSION, hd_version_major = 0,
      hd_version_minor = 0, hd_version_patch = 0, hd_flags = 0, hd_property_length = 0\<rparr>"

definition header_validate :: "grid_file_header \<Rightarrow> grid_file_error + unit" where
  "header_validate h =
     (if hd_magic h \<noteq> HEADER_MAGIC then Inl InvalidHeaderMagic
      else if hd_format_version h \<noteq> HEADER_FORMAT_VERSION
      then Inl (UnsupportedHeaderVersion (hd_format_version h))
      else Inr ())"

definition header_as_bytes :: "grid_file_header \<Rightarrow> bytes" where
  "header_as_bytes h =
     hd_magic h @ [hd_format_version h, hd_version_major h, hd_version_minor h, hd_version_patch h,
                   hd_flags h] @ u32_to_le (hd_property_length h)"

text \<open>The transmutation of a 16-byte array.\<close>

definition header_transmute :: "bytes \<Rightarrow> grid_file_header" where
  "header_transmute bs =
     \<lparr>hd_magic = take 7 bs, hd_format_version = bs ! 7, hd_version_major = bs ! 8,
      hd_version_minor = bs ! 9, hd_version_patch = bs ! 10, hd_flags = bs ! 11,
      hd_property_length = u32_of_le (bs ! 12) (bs ! 13) (bs ! 14) (bs ! 15)\<rparr>"

definition header_from_bytes :: "bytes \<Rightarrow> grid_file_error + grid_file_header" where
  "header_from_bytes bs =
     (let header = header_transmute bs in and_then (header_validate header) (\<lambda>_. Inr header))"

definition header_to_bytes :: "grid_file_header \<Rightarrow> grid_file_error + bytes" where
  "header_to_bytes h = and_then (header_validate h) (\<lambda>_. Inr (header_as_bytes h))"

section \<open>Loops of the standard library\<close>

lemma fd_read_length: "fd_read n d h = (Inr got, s) \<Longrightarrow> length got \<le> n"
  by (auto simp: fd_read_def short_of_def Let_def split: prod.splits host_event.splits)

text \<open>\<open>Read::read_exact\<close> and \<open>Write::write_all\<close> on a host file.\<close>

function read_exact :: "nat \<Rightarrow> fd \<Rightarrow> host \<Rightarrow> (io_kind + bytes) \<times> fd \<times> host" where
  "read_exact n d h =
     (if n = 0 then (Inr [], d, h)
      else (case fd_read n d h of
              (Inl k, d', h') \<Rightarrow> (Inl k, d', h')
            | (Inr got, d', h') \<Rightarrow>
                if got = [] then (Inl UnexpectedEofKind, d', h')
                else (case read_exact (n - length got) d' h' of
                        (Inl k, d'', h'') \<Rightarrow> (Inl k, d'', h'')
                      | (Inr rest, d'', h'') \<Rightarrow> (Inr (got @ rest), d'', h''))))"
  by pat_completeness auto
termination by (relation "measure (\<lambda>(n, d, h). n)") auto

declare read_exact.simps [simp del]

function write_all_fd :: "bytes \<Rightarrow> fd \<Rightarrow> host \<Rightarrow> (io_kind + unit) \<times> fd \<times> host" where
  "write_all_fd data d h =
     (if data = [] then (Inr (), d, h)
      else (case fd_write data d h of
              (Inl k, d', h') \<Rightarrow> (Inl k, d', h')
            | (Inr count, d', h') \<Rightarrow>
                if count = 0 then (Inl OtherKind, d', h')
                else write_all_fd (drop count data) d' h'))"
  by pat_completeness auto
termination by (relation "measure (\<lambda>(data, d, h). length data)") auto

declare write_all_fd.simps [simp del]

section \<open>Files\<close>

record grid_file =
  gf_fd :: fd
  gf_name :: grid_file_name
  gf_header :: grid_file_header
  gf_body_pos :: nat

type_synonym 'a gf_result = "(io_kind + 'a) \<times> grid_file \<times> host"

definition body_offset :: "nat \<Rightarrow> nat" where
  "body_offset position = HEADER_LENGTH + position"

definition seek_body :: "nat \<Rightarrow> grid_file \<Rightarrow> host \<Rightarrow> nat gf_result" where
  "seek_body position f h =
     (case fd_seek_start (body_offset position) (gf_fd f) h of
        (r, d', h') \<Rightarrow> (r, f\<lparr>gf_fd := d'\<rparr>, h'))"

definition body_length :: "grid_file \<Rightarrow> host \<Rightarrow> nat host_result" where
  "body_length f h =
     (case fd_len (gf_fd f) h of
        (Inl k, h') \<Rightarrow> (Inl k, h')
      | (Inr n, h') \<Rightarrow>
          (if HEADER_LENGTH \<le> n then Inr (n - HEADER_LENGTH) else Inl InvalidData, h'))"

definition validate_body_length :: "grid_file_header \<Rightarrow> nat \<Rightarrow> grid_file_error + unit" where
  "validate_body_length header body_len =
     (let property_length = unat (hd_property_length header) in
      if body_len < property_length then Inl (DataTooShort body_len property_length)
      else if body_len - property_length > 2 ^ 32 - 1 then Inl DataTooLarge
      else Inr ())"

definition from_file :: "fd \<Rightarrow> grid_file_name \<Rightarrow> host \<Rightarrow> (grid_file_error + grid_file) \<times> host" where
  "from_file d name h =
     (case read_exact HEADER_LENGTH d h of
        (Inl k, d', h') \<Rightarrow> (Inl (GIo k), h')
      | (Inr header_bytes, d', h') \<Rightarrow>
          (case header_from_bytes header_bytes of
             Inl e \<Rightarrow> (Inl e, h')
           | Inr header \<Rightarrow>
               (case fd_len d' h' of
                  (Inl k, h'') \<Rightarrow> (Inl (GIo k), h'')
                | (Inr physical_length, h'') \<Rightarrow>
                    let minimum_length = HEADER_LENGTH + unat (hd_property_length header) in
                    if physical_length < minimum_length
                    then (Inl (DataTooShort physical_length minimum_length), h'')
                    else if physical_length - minimum_length > 2 ^ 32 - 1 then (Inl DataTooLarge, h'')
                    else
                      (case seek_body 0 \<lparr>gf_fd = d', gf_name = name, gf_header = header, gf_body_pos = 0\<rparr> h'' of
                         (Inl k, f, h''') \<Rightarrow> (Inl (GIo k), h''')
                       | (Inr _, f, h''') \<Rightarrow> (Inr f, h''')))))"

definition gf_truncate :: "grid_file \<Rightarrow> host \<Rightarrow> (grid_file_error + unit) \<times> grid_file \<times> host" where
  "gf_truncate f h =
     (case validate_body_length (gf_header f) (gf_body_pos f) of
        Inl e \<Rightarrow> (Inl e, f, h)
      | Inr _ \<Rightarrow>
          (case fd_set_len (body_offset (gf_body_pos f)) (gf_fd f) h of
             (r, h') \<Rightarrow> (map_err GIo r, f, h')))"

definition sync_header :: "grid_file \<Rightarrow> host \<Rightarrow> (grid_file_error + unit) \<times> grid_file \<times> host" where
  "sync_header f h =
     (case fd_seek_start 0 (gf_fd f) h of
        (Inl k, d, h) \<Rightarrow> (Inl (GIo k), f\<lparr>gf_fd := d\<rparr>, h)
      | (Inr _, d, h) \<Rightarrow>
          (case header_to_bytes (gf_header f) of
             Inl e \<Rightarrow> (Inl e, f\<lparr>gf_fd := d\<rparr>, h)
           | Inr bs \<Rightarrow>
               (case write_all_fd bs d h of
                  (Inl k, d, h) \<Rightarrow> (Inl (GIo k), f\<lparr>gf_fd := d\<rparr>, h)
                | (Inr _, d, h) \<Rightarrow>
                    (case fd_seek_start (body_offset (gf_body_pos f)) d h of
                       (r, d, h) \<Rightarrow> (map_err GIo (and_then r (\<lambda>_. Inr ())), f\<lparr>gf_fd := d\<rparr>, h)))))"

definition set_header :: "grid_file_header \<Rightarrow> grid_file \<Rightarrow> host \<Rightarrow> (grid_file_error + unit) \<times> grid_file \<times> host" where
  "set_header new_header f h =
     (case body_length f h of
        (Inl k, h) \<Rightarrow> (Inl (GIo k), f, h)
      | (Inr n, h) \<Rightarrow>
          (case and_then (validate_body_length new_header n) (\<lambda>_. header_to_bytes new_header) of
             Inl e \<Rightarrow> (Inl e, f, h)
           | Inr _ \<Rightarrow> sync_header (f\<lparr>gf_header := new_header\<rparr>) h))"

definition write_layout :: "grid_file_header \<Rightarrow> bytes \<Rightarrow> fd \<Rightarrow> host \<Rightarrow> (grid_file_error + unit) \<times> fd \<times> host" where
  "write_layout header body d h =
     (case fd_set_len (HEADER_LENGTH + length body) d h of
        (Inl k, h) \<Rightarrow> (Inl (GIo k), d, h)
      | (Inr _, h) \<Rightarrow>
          (case fd_seek_start 0 d h of
             (Inl k, d, h) \<Rightarrow> (Inl (GIo k), d, h)
           | (Inr _, d, h) \<Rightarrow>
               (case header_to_bytes header of
                  Inl e \<Rightarrow> (Inl e, d, h)
                | Inr bs \<Rightarrow>
                    (case write_all_fd bs d h of
                       (Inl k, d, h) \<Rightarrow> (Inl (GIo k), d, h)
                     | (Inr _, d, h) \<Rightarrow>
                         (case write_all_fd body d h of (r, d, h) \<Rightarrow> (map_err GIo r, d, h))))))"

text \<open>\<open>GRiDFile::create\<close>.\<close>

definition gf_create :: "fd \<Rightarrow> grid_file_name \<Rightarrow> grid_file_header \<Rightarrow> bytes \<Rightarrow> host \<Rightarrow> (grid_file_error + grid_file) \<times> host" where
  "gf_create d name header body h =
     (case validate_body_length header (length body) of
        Inl e \<Rightarrow> (Inl e, h)
      | Inr _ \<Rightarrow>
          (case write_layout header body d h of
             (Inl e, d, h) \<Rightarrow> (Inl e, h)
           | (Inr _, d, h) \<Rightarrow>
               (case seek_body 0 \<lparr>gf_fd = d, gf_name = name, gf_header = header, gf_body_pos = 0\<rparr> h of
                  (Inl k, f, h) \<Rightarrow> (Inl (GIo k), h)
                | (Inr _, f, h) \<Rightarrow> (Inr f, h))))"

text \<open>\<open>Read::read\<close> with a buffer of \<open>n\<close> bytes: the bytes put into it.\<close>

definition gf_read :: "nat \<Rightarrow> grid_file \<Rightarrow> host \<Rightarrow> bytes gf_result" where
  "gf_read n f h =
     (case body_length f h of
        (Inl k, h) \<Rightarrow> (Inl k, f, h)
      | (Inr body_len, h) \<Rightarrow>
          if gf_body_pos f \<ge> body_len \<or> n = 0 then (Inr [], f, h)
          else
            let available = body_len - gf_body_pos f; read_length = min n available in
            (case seek_body (gf_body_pos f) f h of
               (Inl k, f, h) \<Rightarrow> (Inl k, f, h)
             | (Inr _, f, h) \<Rightarrow>
                 (case fd_read read_length (gf_fd f) h of
                    (Inl k, d, h) \<Rightarrow> (Inl k, f\<lparr>gf_fd := d\<rparr>, h)
                  | (Inr got, d, h) \<Rightarrow>
                      (Inr got, f\<lparr>gf_fd := d, gf_body_pos := gf_body_pos f + length got\<rparr>, h))))"

definition gf_write :: "bytes \<Rightarrow> grid_file \<Rightarrow> host \<Rightarrow> nat gf_result" where
  "gf_write buf f h =
     (if buf = [] then (Inr 0, f, h)
      else
        let end_pos = gf_body_pos f + length buf in
        if end_pos \<ge> 2 ^ 64 then (Inl InvalidInput, f, h)
        else
          (case body_length f h of
             (Inl k, h) \<Rightarrow> (Inl k, f, h)
           | (Inr n, h) \<Rightarrow>
               (case validate_body_length (gf_header f) (max end_pos n) of
                  Inl e \<Rightarrow> (Inl (io_error_from_grid e), f, h)
                | Inr _ \<Rightarrow>
                    (case seek_body (gf_body_pos f) f h of
                       (Inl k, f, h) \<Rightarrow> (Inl k, f, h)
                     | (Inr _, f, h) \<Rightarrow>
                         (case fd_write buf (gf_fd f) h of
                            (Inl k, d, h) \<Rightarrow> (Inl k, f\<lparr>gf_fd := d\<rparr>, h)
                          | (Inr count, d, h) \<Rightarrow>
                              (Inr count, f\<lparr>gf_fd := d, gf_body_pos := gf_body_pos f + count\<rparr>, h))))))"

text \<open>\<open>Write::write_all\<close> on a GRiD file.\<close>

function gf_write_all :: "bytes \<Rightarrow> grid_file \<Rightarrow> host \<Rightarrow> unit gf_result" where
  "gf_write_all data f h =
     (if data = [] then (Inr (), f, h)
      else (case gf_write data f h of
              (Inl k, f', h') \<Rightarrow> (Inl k, f', h')
            | (Inr count, f', h') \<Rightarrow>
                if count = 0 then (Inl OtherKind, f', h')
                else gf_write_all (drop count data) f' h'))"
  by pat_completeness auto
termination by (relation "measure (\<lambda>(data, f, h). length data)") auto

declare gf_write_all.simps [simp del]

datatype seek_from = Start nat | Current int | End int

definition seek_target :: "nat \<Rightarrow> int \<Rightarrow> nat option" where
  "seek_target start offset =
     (if 0 \<le> offset then (if start + nat offset < 2 ^ 64 then Some (start + nat offset) else None)
      else (if nat (- offset) \<le> start then Some (start - nat (- offset)) else None))"

definition gf_seek :: "seek_from \<Rightarrow> grid_file \<Rightarrow> host \<Rightarrow> nat gf_result" where
  "gf_seek position f h =
     (case (case position of
              Start p \<Rightarrow> (Inr (Some p), h)
            | Current offset \<Rightarrow> (Inr (seek_target (gf_body_pos f) offset), h)
            | End offset \<Rightarrow>
                (case body_length f h of
                   (Inl k, h) \<Rightarrow> (Inl k, h)
                 | (Inr n, h) \<Rightarrow> (Inr (seek_target n offset), h))) of
        (Inl k, h) \<Rightarrow> (Inl k, f, h)
      | (Inr None, h) \<Rightarrow> (Inl InvalidInput, f, h)
      | (Inr (Some target), h) \<Rightarrow>
          (case seek_body target f h of
             (Inl k, f, h) \<Rightarrow> (Inl k, f, h)
           | (Inr _, f, h) \<Rightarrow> (Inr target, f\<lparr>gf_body_pos := target\<rparr>, h)))"


section \<open>The body as an abstract array\<close>

definition gf_data :: "grid_file \<Rightarrow> host \<Rightarrow> bytes" where
  "gf_data f h = nd_data (fd_node h (gf_fd f))"

definition gf_body :: "grid_file \<Rightarrow> host \<Rightarrow> bytes" where
  "gf_body f h = drop HEADER_LENGTH (gf_data f h)"

text \<open>A file that is open on well-formed contents: its header is valid and is what the host stores,
  and the body holds at least the properties.\<close>

definition gf_ok :: "grid_file \<Rightarrow> host \<Rightarrow> bool" where
  "gf_ok f h \<longleftrightarrow>
     header_validate (gf_header f) = Inr () \<and>
     take HEADER_LENGTH (gf_data f h) = header_as_bytes (gf_header f) \<and>
     HEADER_LENGTH + unat (hd_property_length (gf_header f)) \<le> length (gf_data f h) \<and>
     host_node h (fd_path (gf_fd f)) \<noteq> None"

lemma header_magic_length [simp]: "length HEADER_MAGIC = 7"
  by (simp add: HEADER_MAGIC_def)

lemma header_validate_Inr:
  "header_validate h = Inr u \<longleftrightarrow> hd_magic h = HEADER_MAGIC \<and> hd_format_version h = HEADER_FORMAT_VERSION"
  by (auto simp: header_validate_def)

lemma header_as_bytes_length: "header_validate h = Inr u \<Longrightarrow> length (header_as_bytes h) = 16"
  by (simp add: header_validate_Inr header_as_bytes_def)

lemma list16:
  assumes "length bs = 16"
  obtains a0 a1 a2 a3 a4 a5 a6 a7 a8 a9 a10 a11 a12 a13 a14 a15
  where "bs = [a0, a1, a2, a3, a4, a5, a6, a7, a8, a9, a10, a11, a12, a13, a14, a15]"
  using assms by (auto simp: length_Suc_conv eval_nat_numeral)

text \<open>Reading and writing a header are inverse to each other.\<close>

lemma header_transmute_as_bytes:
  "length bs = 16 \<Longrightarrow> header_as_bytes (header_transmute bs) = bs"
  by (erule list16) (simp add: header_as_bytes_def header_transmute_def)

lemma header_as_bytes_transmute:
  assumes "length (hd_magic h) = 7"
  shows "header_transmute (header_as_bytes h) = h"
proof -
  obtain m f a b c d p where h: "h = \<lparr>hd_magic = m, hd_format_version = f, hd_version_major = a,
      hd_version_minor = b, hd_version_patch = c, hd_flags = d, hd_property_length = p\<rparr>"
    by (cases h) auto
  have "length m = 7" using assms by (simp add: h)
  then show ?thesis
    by (simp add: h header_transmute_def header_as_bytes_def nth_append u32_to_le_def)
qed

section \<open>What each operation touches\<close>

lemma syscall_quiet [simp]: "host_script h = [] \<Longrightarrow> syscall f h = f None h"
  by (simp add: syscall_def)

lemma fd_len_nodes: "fd_len d h = (r, h') \<Longrightarrow> host_nodes h' = host_nodes h"
  by (auto simp: fd_len_def syscall_def split: prod.splits host_event.splits dest: next_event_nodes)

lemma fd_seek_facts:
  "fd_seek_start n d h = (r, d', h') \<Longrightarrow> host_nodes h' = host_nodes h \<and> fd_path d' = fd_path d"
  "fd_seek_start n d h = (Inr m, d', h') \<Longrightarrow> m = n \<and> d' = d\<lparr>fd_pos := n\<rparr> \<and> n < 2 ^ 63"
  by (auto simp: fd_seek_start_def split: prod.splits host_event.splits if_splits dest: next_event_nodes)

lemma fd_read_facts:
  "fd_read n d h = (r, d', h') \<Longrightarrow> host_nodes h' = host_nodes h \<and> fd_path d' = fd_path d"
  by (auto simp: fd_read_def Let_def split: prod.splits host_event.splits if_splits dest: next_event_nodes)

lemma fd_node_cong:
  "host_nodes h' = host_nodes h \<Longrightarrow> fd_path d' = fd_path d \<Longrightarrow> nd_data (fd_node h' d') = nd_data (fd_node h d)"
  by (cases "map_of (host_nodes h) (fd_path d)") (simp_all add: fd_node_def host_node_def new_node_def)

lemma gf_data_cong:
  "host_nodes h' = host_nodes h \<Longrightarrow> fd_path (gf_fd f') = fd_path (gf_fd f) \<Longrightarrow> gf_data f' h' = gf_data f h"
  unfolding gf_data_def by (rule fd_node_cong)

lemma seek_body_Pair:
  "seek_body p f h = (r, f', h') \<longleftrightarrow>
     (\<exists>d'. fd_seek_start (16 + p) (gf_fd f) h = (r, d', h') \<and> f' = f\<lparr>gf_fd := d'\<rparr>)"
  by (cases "fd_seek_start (16 + p) (gf_fd f) h")
     (auto simp: seek_body_def body_offset_def HEADER_LENGTH_def)

lemma seek_body_facts:
  assumes "seek_body p f h = (r, f', h')"
  shows "host_nodes h' = host_nodes h" "fd_path (gf_fd f') = fd_path (gf_fd f)"
    "gf_header f' = gf_header f" "gf_body_pos f' = gf_body_pos f" "gf_name f' = gf_name f"
    "r = Inr m \<Longrightarrow> fd_pos (gf_fd f') = 16 + p \<and> 16 + p < 2 ^ 63"
proof -
  obtain d' where d': "fd_seek_start (16 + p) (gf_fd f) h = (r, d', h')" "f' = f\<lparr>gf_fd := d'\<rparr>"
    using assms by (auto simp: seek_body_Pair)
  show "host_nodes h' = host_nodes h" "fd_path (gf_fd f') = fd_path (gf_fd f)"
    "gf_header f' = gf_header f" "gf_body_pos f' = gf_body_pos f" "gf_name f' = gf_name f"
    using fd_seek_facts(1)[OF d'(1)] d'(2) by simp_all
  assume "r = Inr m"
  then show "fd_pos (gf_fd f') = 16 + p \<and> 16 + p < 2 ^ 63"
    using fd_seek_facts(2)[of "16 + p" "gf_fd f" h m d' h'] d' by auto
qed

lemma body_length_facts:
  assumes "body_length f h = (r, h')"
  shows "host_nodes h' = host_nodes h" "r = Inr n \<Longrightarrow> n = length (gf_body f h) \<and> 16 \<le> length (gf_data f h)"
proof -
  obtain r1 h1 where l: "fd_len (gf_fd f) h = (r1, h1)" by fastforce
  from assms l show nodes: "host_nodes h' = host_nodes h"
    by (auto simp: body_length_def split: sum.splits dest: fd_len_nodes)
  assume "r = Inr n"
  with assms l have "r1 = Inr (n + 16)"
    by (auto simp: body_length_def HEADER_LENGTH_def split: sum.splits if_splits)
  with l have "n + 16 = length (nd_data (fd_node h1 (gf_fd f)))"
    by (auto simp: fd_len_def syscall_def split: prod.splits host_event.splits)
  also have "\<dots> = length (gf_data f h)"
    using fd_node_cong[of h1 h "gf_fd f" "gf_fd f"] fd_len_nodes[OF l] by (simp add: gf_data_def)
  finally show "n = length (gf_body f h) \<and> 16 \<le> length (gf_data f h)"
    by (simp add: gf_body_def HEADER_LENGTH_def)
qed


text \<open>
  The effect of a write on the host: nothing, or the first bytes of the buffer spliced into the
  file's data behind the header; no other node changes.
\<close>

definition writes_behind_header :: "grid_file \<Rightarrow> host \<Rightarrow> bytes \<Rightarrow> nat \<Rightarrow> host \<Rightarrow> bool" where
  "writes_behind_header f h buf count h' \<longleftrightarrow>
     gf_data f h' = (if count = 0 then gf_data f h
                     else splice_at (gf_data f h) (16 + gf_body_pos f) (take count buf)) \<and>
     (\<forall>q. q \<noteq> fd_path (gf_fd f) \<longrightarrow> host_node h' q = host_node h q) \<and>
     (host_node h (fd_path (gf_fd f)) \<noteq> None \<longrightarrow> host_node h' (fd_path (gf_fd f)) \<noteq> None)"

lemma writes_nothing: "host_nodes h' = host_nodes h \<Longrightarrow> writes_behind_header f h buf 0 h'"
  using gf_data_cong[of h' h f f] by (simp add: writes_behind_header_def host_node_def)

lemma fd_put_data: "nd_data (fd_node (fd_put d bs h) d) = bs"
  by (simp add: fd_put_def fd_node_def)

lemma fd_put_node: "q \<noteq> fd_path d \<Longrightarrow> host_node (fd_put d bs h) q = host_node h q"
  "\<exists>y. host_node (fd_put d bs h) (fd_path d) = Some y"
  by (simp_all add: fd_put_def)

lemma fd_write_facts:
  assumes "fd_write buf d h = (r, d', h')"
  shows "fd_path d' = fd_path d"
    "r = Inl k \<Longrightarrow> host_nodes h' = host_nodes h"
    "r = Inr count \<Longrightarrow> count \<le> length buf \<and> fd_pos d' = fd_pos d + count \<and>
       (if count = 0 then host_nodes h' = host_nodes h
        else nd_data (fd_node h' d) = splice_at (nd_data (fd_node h d)) (fd_pos d) (take count buf) \<and>
             (\<forall>q. q \<noteq> fd_path d \<longrightarrow> host_node h' q = host_node h q) \<and> host_node h' (fd_path d) \<noteq> None)"
proof -
  obtain e h1 where e: "next_event h = (e, h1)" by fastforce
  have n: "host_nodes h1 = host_nodes h" "host_node h1 = host_node h"
    using next_event_nodes[OF e] next_event_node[OF e] by simp_all
  have data: "nd_data (fd_node h1 d) = nd_data (fd_node h d)" using fd_node_cong[OF n(1) refl] .
  show "fd_path d' = fd_path d" "r = Inl k \<Longrightarrow> host_nodes h' = host_nodes h"
    using assms e n by (cases e; auto simp: fd_write_def Let_def)+
  assume "r = Inr count"
  with assms e n data show "count \<le> length buf \<and> fd_pos d' = fd_pos d + count \<and>
       (if count = 0 then host_nodes h' = host_nodes h
        else nd_data (fd_node h' d) = splice_at (nd_data (fd_node h d)) (fd_pos d) (take count buf) \<and>
             (\<forall>q. q \<noteq> fd_path d \<longrightarrow> host_node h' q = host_node h q) \<and> host_node h' (fd_path d) \<noteq> None)"
    by (cases e) (auto simp: fd_write_def Let_def short_of_def fd_put_data fd_put_node
        split: if_splits)
qed

lemma gf_write_facts:
  assumes "gf_write buf f h = (r, f', h')"
  shows "fd_path (gf_fd f') = fd_path (gf_fd f)" "gf_header f' = gf_header f" "gf_name f' = gf_name f"
    "r = Inl k \<Longrightarrow> gf_body_pos f' = gf_body_pos f \<and> writes_behind_header f h buf 0 h'"
    "r = Inr count \<Longrightarrow> count \<le> length buf \<and> gf_body_pos f' = gf_body_pos f + count \<and>
        writes_behind_header f h buf count h'"
proof -
  consider (none) "f' = f" "host_nodes h' = host_nodes h" "r = Inr 0 \<or> (\<exists>k. r = Inl k)"
    | (seek) k h1 where "seek_body (gf_body_pos f) f h1 = (Inl k, f', h')" "r = Inl k" "host_nodes h1 = host_nodes h"
    | (wrote) h1 m f1 h2 r1 d where "host_nodes h1 = host_nodes h" "seek_body (gf_body_pos f) f h1 = (Inr m, f1, h2)"
        "fd_write buf (gf_fd f1) h2 = (r1, d, h')" "r = r1"
        "f' = (case r1 of Inl k \<Rightarrow> f1\<lparr>gf_fd := d\<rparr> | Inr c \<Rightarrow> f1\<lparr>gf_fd := d, gf_body_pos := gf_body_pos f1 + c\<rparr>)"
    using assms
    by (auto simp: gf_write_def Let_def split: if_splits prod.splits sum.splits
        dest!: body_length_facts(1))
  note split = this
  have main: "fd_path (gf_fd f') = fd_path (gf_fd f) \<and> gf_header f' = gf_header f \<and> gf_name f' = gf_name f \<and>
     (case r of Inl k \<Rightarrow> gf_body_pos f' = gf_body_pos f \<and> writes_behind_header f h buf 0 h'
      | Inr count \<Rightarrow> count \<le> length buf \<and> gf_body_pos f' = gf_body_pos f + count \<and>
        writes_behind_header f h buf count h')"
    using split
  proof cases
    case none
    then show ?thesis using writes_nothing[of h' h f buf] by auto
  next
    case seek
    then show ?thesis using seek_body_facts(1-5)[OF seek(1)] writes_nothing[of h' h f buf] by simp
  next
    case wrote
    note sb = seek_body_facts(1-5)[OF wrote(2)] seek_body_facts(6)[OF wrote(2) refl]
    note fw = fd_write_facts[OF wrote(3)]
    have d: "nd_data (fd_node h2 (gf_fd f1)) = gf_data f h" "nd_data (fd_node h' (gf_fd f1)) = gf_data f h'"
      using sb wrote(1) fd_node_cong[of h2 h "gf_fd f1" "gf_fd f"] fd_node_cong[of h' h' "gf_fd f1" "gf_fd f"]
      by (simp_all add: gf_data_def)
    show ?thesis
    proof (cases r1)
      case (Inl k)
      then show ?thesis using wrote sb fw(1,2) writes_nothing[of h' h f buf] by auto
    next
      case (Inr c)
      with fw(3)[of c] have c: "c \<le> length buf" and
        h': "if c = 0 then host_nodes h' = host_nodes h2
             else nd_data (fd_node h' (gf_fd f1)) = splice_at (nd_data (fd_node h2 (gf_fd f1))) (fd_pos (gf_fd f1)) (take c buf) \<and>
             (\<forall>q. q \<noteq> fd_path (gf_fd f1) \<longrightarrow> host_node h' q = host_node h2 q) \<and> host_node h' (fd_path (gf_fd f1)) \<noteq> None"
        by auto
      have "writes_behind_header f h buf c h'"
      proof (cases "c = 0")
        case True
        with h' sb wrote(1) show ?thesis using writes_nothing[of h' h f buf] by simp
      next
        case False
        with h' d sb wrote(1) show ?thesis by (auto simp: writes_behind_header_def host_node_def)
      qed
      with Inr wrote sb fw(1) c show ?thesis by simp
    qed
  qed
  then show "fd_path (gf_fd f') = fd_path (gf_fd f)" "gf_header f' = gf_header f" "gf_name f' = gf_name f"
    "r = Inl k \<Longrightarrow> gf_body_pos f' = gf_body_pos f \<and> writes_behind_header f h buf 0 h'"
    "r = Inr count \<Longrightarrow> count \<le> length buf \<and> gf_body_pos f' = gf_body_pos f + count \<and>
        writes_behind_header f h buf count h'"
    by auto
qed


section \<open>The header survives every body operation\<close>

lemma gf_ok_cong:
  "host_nodes h' = host_nodes h \<Longrightarrow> fd_path (gf_fd f') = fd_path (gf_fd f) \<Longrightarrow>
     gf_header f' = gf_header f \<Longrightarrow> gf_ok f h \<Longrightarrow> gf_ok f' h'"
  using gf_data_cong[of h' h f' f] by (simp add: gf_ok_def host_node_def)

lemma gf_ok_writes:
  assumes "gf_ok f h" "writes_behind_header f h buf count h'"
  shows "gf_ok f h'"
proof -
  have "16 \<le> length (gf_data f h)" using assms(1) by (simp add: gf_ok_def HEADER_LENGTH_def)
  then have "take 16 (gf_data f h') = take 16 (gf_data f h)" "length (gf_data f h) \<le> length (gf_data f h')"
    using assms(2) by (auto simp: writes_behind_header_def take_splice length_splice)
  then show ?thesis using assms by (auto simp: gf_ok_def HEADER_LENGTH_def writes_behind_header_def)
qed

lemma gf_ok_same_path:
  "gf_ok f h \<Longrightarrow> fd_path (gf_fd f') = fd_path (gf_fd f) \<Longrightarrow> gf_header f' = gf_header f \<Longrightarrow> gf_ok f' h"
  using gf_ok_cong[of h h f' f] by simp

lemma gf_write_ok:
  assumes "gf_ok f h" "gf_write buf f h = (r, f', h')"
  shows "gf_ok f' h'"
proof -
  note g = gf_write_facts[OF assms(2)]
  have "\<exists>count. writes_behind_header f h buf count h'" using g(4,5) by (cases r) auto
  then have "gf_ok f h'" using gf_ok_writes[OF assms(1)] by blast
  then show ?thesis using g(1,2) by (rule gf_ok_same_path)
qed

lemma gf_write_all_ok: "gf_ok f h \<Longrightarrow> gf_write_all data f h = (r, f', h') \<Longrightarrow> gf_ok f' h'"
proof (induction data f h arbitrary: r f' h' rule: gf_write_all.induct)
  case (1 data f h)
  obtain r1 f1 h1 where w: "gf_write data f h = (r1, f1, h1)" by (cases "gf_write data f h") auto
  show ?case
  proof (cases "data = [] \<or> (\<exists>k. r1 = Inl k) \<or> r1 = Inr 0")
    case True
    then have "(f', h') = (f, h) \<or> (f', h') = (f1, h1)"
      using "1.prems"(2) w by (subst (asm) gf_write_all.simps) (auto split: if_splits)
    then show ?thesis using "1.prems"(1) gf_write_ok[OF "1.prems"(1) w] by auto
  next
    case False
    then obtain c where c: "r1 = Inr c" "0 < c" "data \<noteq> []" by (cases r1) auto
    then have "gf_write_all (drop c data) f1 h1 = (r, f', h')"
      using "1.prems"(2) w by (subst (asm) gf_write_all.simps) simp
    then show ?thesis using "1.IH" c w gf_write_ok[OF "1.prems"(1) w] by auto
  qed
qed

lemma seek_body_keeps:
  "seek_body p f h = (r, f', h') \<Longrightarrow>
     host_nodes h' = host_nodes h \<and> fd_path (gf_fd f') = fd_path (gf_fd f) \<and> gf_header f' = gf_header f"
  by (simp add: seek_body_facts)

lemma gf_seek_facts:
  assumes "gf_seek p f h = (r, f', h')"
  shows "host_nodes h' = host_nodes h \<and> fd_path (gf_fd f') = fd_path (gf_fd f) \<and> gf_header f' = gf_header f"
  using assms
  by (auto simp: gf_seek_def split: seek_from.splits prod.splits sum.splits option.splits
      dest!: body_length_facts(1) seek_body_keeps)

lemma gf_read_facts:
  assumes "gf_read n f h = (r, f', h')"
  shows "host_nodes h' = host_nodes h \<and> fd_path (gf_fd f') = fd_path (gf_fd f) \<and> gf_header f' = gf_header f"
  using assms
  by (auto simp: gf_read_def Let_def split: prod.splits sum.splits if_splits
      dest!: body_length_facts(1) seek_body_keeps fd_read_facts)

lemma gf_read_length:
  assumes "gf_read n f h = (Inr got, f', h')"
  shows "length got \<le> n"
  using assms
  by (auto simp: gf_read_def Let_def split: prod.splits sum.splits if_splits dest!: fd_read_length)

lemma gf_truncate_ok:
  assumes "gf_ok f h" "gf_truncate f h = (r, f', h')"
  shows "gf_ok f' h'"
proof (cases "validate_body_length (gf_header f) (gf_body_pos f)")
  case (Inl e)
  with assms show ?thesis by (simp add: gf_truncate_def)
next
  case (Inr u)
  then have p: "unat (hd_property_length (gf_header f)) \<le> gf_body_pos f"
    by (auto simp: validate_body_length_def Let_def split: if_splits)
  obtain e h1 where e: "next_event h = (e, h1)" by fastforce
  note n = next_event_nodes[OF e] next_event_node[OF e]
  have ok1: "gf_ok f h1" using gf_ok_cong[OF n(1) refl refl assms(1)] .
  let ?new = "take (16 + gf_body_pos f) (gf_data f h1) @ replicate (16 + gf_body_pos f - length (gf_data f h1)) 0"
  have f': "f' = f" using assms(2) Inr by (auto simp: gf_truncate_def split: prod.splits)
  consider "h' = h1" | "h' = fd_put (gf_fd f) ?new h1"
    using assms(2) Inr e
    by (cases e) (auto simp: gf_truncate_def fd_set_len_def syscall_def body_offset_def
        HEADER_LENGTH_def gf_data_def Let_def)
  then show ?thesis
  proof cases
    case 1
    with ok1 f' show ?thesis by simp
  next
    case 2
    have "gf_data f h' = ?new" using 2 by (simp add: gf_data_def fd_put_data)
    moreover have "host_node h' (fd_path (gf_fd f)) \<noteq> None" using 2 fd_put_node(2) by simp
    moreover have "length ?new = 16 + gf_body_pos f" by simp
    moreover have "take 16 ?new = take 16 (gf_data f h1)"
      using ok1 by (simp add: gf_ok_def HEADER_LENGTH_def min_def)
    ultimately show ?thesis using ok1 p f' by (simp add: gf_ok_def HEADER_LENGTH_def)
  qed
qed


section \<open>A quiet host\<close>

text \<open>When the host lets every call proceed, the operations are those of an array with a position.\<close>

lemma fd_len_quiet: "host_script h = [] \<Longrightarrow> fd_len d h = (Inr (length (nd_data (fd_node h d))), h)"
  by (simp add: fd_len_def)

lemma body_length_quiet:
  "host_script h = [] \<Longrightarrow> gf_ok f h \<Longrightarrow> body_length f h = (Inr (length (gf_body f h)), h)"
  by (simp add: body_length_def fd_len_quiet gf_ok_def gf_body_def gf_data_def)

lemma seek_body_quiet:
  "host_script h = [] \<Longrightarrow> 16 + p < 2 ^ 63 \<Longrightarrow>
     seek_body p f h = (Inr (16 + p), f\<lparr>gf_fd := (gf_fd f)\<lparr>fd_pos := 16 + p\<rparr>\<rparr>, h)"
  by (simp add: seek_body_def body_offset_def HEADER_LENGTH_def fd_seek_start_def)

lemma fd_node_pos [simp]: "fd_node h (d\<lparr>fd_pos := p\<rparr>) = fd_node h d"
  by (simp add: fd_node_def)

lemma gf_read_quiet:
  assumes "host_script h = []" "gf_ok f h" "16 + gf_body_pos f < 2 ^ 63"
  shows "\<exists>f'. gf_read n f h = (Inr (take n (drop (gf_body_pos f) (gf_body f h))), f', h) \<and>
     gf_body_pos f' = gf_body_pos f + length (take n (drop (gf_body_pos f) (gf_body f h))) \<and>
     fd_path (gf_fd f') = fd_path (gf_fd f) \<and> gf_header f' = gf_header f"
proof (cases "length (gf_body f h) \<le> gf_body_pos f \<or> n = 0")
  case True
  then have "take n (drop (gf_body_pos f) (gf_body f h)) = []" by auto
  with True show ?thesis using assms by (auto simp: gf_read_def body_length_quiet)
next
  case False
  have d: "drop (16 + gf_body_pos f) (nd_data (fd_node h (gf_fd f))) = drop (gf_body_pos f) (gf_body f h)"
    by (simp add: gf_body_def gf_data_def HEADER_LENGTH_def add.commute)
  have "take (min n (length (gf_body f h) - gf_body_pos f)) (drop (gf_body_pos f) (gf_body f h))
      = take n (drop (gf_body_pos f) (gf_body f h))"
    by (simp add: min_def)
  with False d show ?thesis
    using assms by (simp add: gf_read_def body_length_quiet seek_body_quiet fd_read_def short_of_def)
qed

lemma gf_write_quiet:
  assumes "host_script h = []" "gf_ok f h" "data \<noteq> []" "16 + gf_body_pos f < 2 ^ 63"
    "max (gf_body_pos f + length data) (length (gf_body f h)) - unat (hd_property_length (gf_header f)) < 2 ^ 32"
  shows "\<exists>f' h'. gf_write data f h = (Inr (length data), f', h') \<and> host_script h' = [] \<and> gf_ok f' h' \<and>
     gf_body_pos f' = gf_body_pos f + length data \<and> gf_header f' = gf_header f \<and>
     fd_path (gf_fd f') = fd_path (gf_fd f) \<and>
     gf_body f' h' = splice_at (gf_body f h) (gf_body_pos f) data"
proof -
  let ?f1 = "f\<lparr>gf_fd := (gf_fd f)\<lparr>fd_pos := 16 + gf_body_pos f\<rparr>\<rparr>"
  let ?h' = "fd_put (gf_fd ?f1) (splice_at (gf_data f h) (16 + gf_body_pos f) data) h"
  let ?f' = "?f1\<lparr>gf_fd := (gf_fd ?f1)\<lparr>fd_pos := 16 + gf_body_pos f + length data\<rparr>,
                 gf_body_pos := gf_body_pos f + length data\<rparr>"
  have props: "unat (hd_property_length (gf_header f)) \<le> length (gf_body f h)"
    using assms(2) by (auto simp: gf_ok_def gf_body_def HEADER_LENGTH_def)
  have bound: "gf_body_pos f + length data < 2 ^ 64"
  proof -
    have "unat (hd_property_length (gf_header f)) < 2 ^ 32"
      using unsigned_less[of "hd_property_length (gf_header f)"] by simp
    moreover have "gf_body_pos f + length data \<le> max (gf_body_pos f + length data) (length (gf_body f h))"
      by simp
    moreover have "(2 :: nat) ^ 32 + 2 ^ 32 \<le> 2 ^ 64" by simp
    ultimately show ?thesis using assms(5) by linarith
  qed
  have valid: "validate_body_length (gf_header f) (max (gf_body_pos f + length data) (length (gf_body f h))) = Inr ()"
    using props assms(5) by (auto simp: validate_body_length_def Let_def)
  have w: "gf_write data f h = (Inr (length data), ?f', ?h')"
    using assms bound valid
    by (simp add: gf_write_def Let_def body_length_quiet seek_body_quiet fd_write_def short_of_def gf_data_def)
  have "gf_data ?f' ?h' = splice_at (gf_data f h) (16 + gf_body_pos f) data"
    using fd_put_data[of "gf_fd ?f1"] by (simp add: gf_data_def fd_node_def)
  moreover have "drop 16 (splice_at (gf_data f h) (16 + gf_body_pos f) data)
      = splice_at (drop 16 (gf_data f h)) (gf_body_pos f) data"
    using assms(2) by (simp add: splice_at_def gf_ok_def HEADER_LENGTH_def drop_take ac_simps)
  moreover have "host_script ?h' = []" using assms(1) by (simp add: fd_put_def put_node_def)
  ultimately show ?thesis
    using w gf_write_ok[OF assms(2) w] by (auto simp: gf_body_def HEADER_LENGTH_def)
qed


lemma gf_write_all_quiet:
  assumes "host_script h = []" "gf_ok f h" "16 + gf_body_pos f < 2 ^ 63"
    "max (gf_body_pos f + length data) (length (gf_body f h)) - unat (hd_property_length (gf_header f)) < 2 ^ 32"
  shows "\<exists>f' h'. gf_write_all data f h = (Inr (), f', h') \<and> host_script h' = [] \<and> gf_ok f' h' \<and>
     gf_body_pos f' = gf_body_pos f + length data \<and> gf_header f' = gf_header f \<and>
     fd_path (gf_fd f') = fd_path (gf_fd f) \<and>
     (data \<noteq> [] \<longrightarrow> gf_body f' h' = splice_at (gf_body f h) (gf_body_pos f) data)"
proof (cases "data = []")
  case True
  with assms show ?thesis by (simp add: gf_write_all.simps)
next
  case False
  from gf_write_quiet[OF assms(1,2) False assms(3,4)] obtain f' h' where
    w: "gf_write data f h = (Inr (length data), f', h')" and rest: "host_script h' = []" "gf_ok f' h'"
     "gf_body_pos f' = gf_body_pos f + length data" "gf_header f' = gf_header f"
     "fd_path (gf_fd f') = fd_path (gf_fd f)"
     "gf_body f' h' = splice_at (gf_body f h) (gf_body_pos f) data" by blast
  have "gf_write_all data f h = (Inr (), f', h')"
    using False by (subst gf_write_all.simps) (simp add: w gf_write_all.simps)
  with rest show ?thesis by blast
qed

lemma less_add_sub: "a < b + c \<Longrightarrow> 0 < b \<Longrightarrow> a - c < (b :: nat)"
  by linarith

lemma splice_read_back: "take (length new) (drop at (splice_at old at new)) = new"
  by (cases "at \<le> length old") (simp_all add: splice_at_def)

section \<open>Opening\<close>

lemma fd_read_Inr:
  assumes "fd_read n d h = (Inr got, d', h')"
  shows "got = take (length got) (drop (fd_pos d) (nd_data (fd_node h d)))" "length got \<le> n"
    "d' = d\<lparr>fd_pos := fd_pos d + length got\<rparr>" "host_nodes h' = host_nodes h"
proof -
  show "length got \<le> n" by (rule fd_read_length[OF assms])
  show nodes: "host_nodes h' = host_nodes h" using fd_read_facts[OF assms] by simp
  obtain e h1 where e: "next_event h = (e, h1)" by fastforce
  have "nd_data (fd_node h1 d) = nd_data (fd_node h d)"
    using fd_node_cong[OF next_event_nodes[OF e] refl] .
  then obtain k where got: "got = take k (drop (fd_pos d) (nd_data (fd_node h d)))"
    using assms e by (cases e) (auto simp: fd_read_def Let_def)
  show "got = take (length got) (drop (fd_pos d) (nd_data (fd_node h d)))" unfolding got by (simp add: min_def)
  show "d' = d\<lparr>fd_pos := fd_pos d + length got\<rparr>"
    using assms e by (cases e) (auto simp: fd_read_def Let_def)
qed

lemma take_take_drop:
  "a = take (length a) (drop p xs) \<Longrightarrow> length a \<le> n \<Longrightarrow>
   b = take (n - length a) (drop (p + length a) xs) \<Longrightarrow> a @ b = take n (drop p xs)"
  by (metis add.commute drop_drop le_add_diff_inverse take_add)

lemma read_exact_Inr:
  "read_exact n d h = (Inr bs, d', h') \<Longrightarrow>
     length bs = n \<and> bs = take n (drop (fd_pos d) (nd_data (fd_node h d))) \<and>
     host_nodes h' = host_nodes h \<and> fd_path d' = fd_path d"
proof (induction n d h arbitrary: bs d' h' rule: read_exact.induct)
  case (1 n d h)
  show ?case
  proof (cases "n = 0")
    case True
    with "1.prems" show ?thesis by (simp add: read_exact.simps)
  next
    case False
    with "1.prems" obtain got d1 h1 rest where
      got: "fd_read n d h = (Inr got, d1, h1)" "got \<noteq> []"
      and rest: "read_exact (n - length got) d1 h1 = (Inr rest, d', h')" "bs = got @ rest"
      by (subst (asm) read_exact.simps) (auto split: prod.splits sum.splits if_splits)
    note g = fd_read_Inr[OF got(1)]
    have IH: "length rest = n - length got"
      "rest = take (n - length got) (drop (fd_pos d1) (nd_data (fd_node h1 d1)))"
      "host_nodes h' = host_nodes h1" "fd_path d' = fd_path d1"
      using "1.IH"[OF False got(1)[symmetric] refl refl got(2) rest(1)] by blast+
    have data: "nd_data (fd_node h1 d1) = nd_data (fd_node h d)"
      using fd_node_cong[of h1 h d1 d] g(3,4) by simp
    have "got @ rest = take n (drop (fd_pos d) (nd_data (fd_node h d)))"
      using take_take_drop[OF g(1,2)] IH(2) data g(3) by simp
    moreover have "length bs = n" using IH(1) g(2) rest(2) by simp
    ultimately show ?thesis using IH(3,4) g(3,4) rest(2) by simp
  qed
qed

text \<open>Opening succeeds only on contents with a valid header and a complete property section, and
  leaves the file at the start of its body.\<close>

lemma from_file_Inr:
  assumes "from_file d name h = (Inr f, h')" "fd_pos d = 0" "host_node h (fd_path d) \<noteq> None"
  shows "gf_ok f h' \<and> gf_body_pos f = 0 \<and> gf_name f = name \<and> host_nodes h' = host_nodes h \<and>
    fd_path (gf_fd f) = fd_path d \<and>
    header_from_bytes (take 16 (nd_data (fd_node h d))) = Inr (gf_header f)"
proof -
  from assms(1) obtain bs d1 h1 header n h2 m f1 where
    re: "read_exact 16 d h = (Inr bs, d1, h1)" and hd: "header_from_bytes bs = Inr header"
    and len: "fd_len d1 h1 = (Inr n, h2)" and n: "16 + unat (hd_property_length header) \<le> n"
    and sb: "seek_body 0 \<lparr>gf_fd = d1, gf_name = name, gf_header = header, gf_body_pos = 0\<rparr> h2 = (Inr m, f, h')"
    by (auto simp: from_file_def HEADER_LENGTH_def Let_def split: prod.splits sum.splits if_splits)
  note r = read_exact_Inr[OF re]
  have data: "nd_data (fd_node h1 d1) = nd_data (fd_node h d)"
    using fd_node_cong[of h1 h d1 d] r by simp
  have n': "n = length (nd_data (fd_node h d))"
  proof -
    obtain e h1' where e: "next_event h1 = (e, h1')" by fastforce
    with len have "n = length (nd_data (fd_node h1' d1))"
      by (cases e) (auto simp: fd_len_def syscall_def)
    then show ?thesis using fd_node_cong[OF next_event_nodes[OF e] refl, of d1] data by simp
  qed
  note s = seek_body_facts(1-5)[OF sb]
  have nodes: "host_nodes h' = host_nodes h" using s r fd_len_nodes[OF len] by simp
  have fdata: "gf_data f h' = nd_data (fd_node h d)"
    using fd_node_cong[of h' h "gf_fd f" d] nodes s r by (simp add: gf_data_def)
  have "header = header_transmute bs" "header_validate header = Inr ()"
    using hd by (auto simp: header_from_bytes_def Let_def result_simps)
  then have "header_as_bytes header = bs" using r header_transmute_as_bytes[of bs] by argo
  then show ?thesis
    using s r hd nodes fdata n n' assms(2,3) \<open>header_validate header = Inr ()\<close>
    by (simp add: gf_ok_def HEADER_LENGTH_def host_node_def)
qed

lemma read_exact_nodes: "read_exact n d h = (r, d', h') \<Longrightarrow> host_nodes h' = host_nodes h \<and> fd_path d' = fd_path d"
proof (induction n d h arbitrary: r d' h' rule: read_exact.induct)
  case (1 n d h)
  obtain r1 d1 h1 where f: "fd_read n d h = (r1, d1, h1)" by (cases "fd_read n d h") auto
  note f' = fd_read_facts[OF f]
  show ?case
  proof (cases "n = 0 \<or> (\<exists>k. r1 = Inl k) \<or> r1 = Inr []")
    case True
    then have "(d', h') = (d, h) \<or> (d', h') = (d1, h1)"
      using "1.prems" f by (subst (asm) read_exact.simps) (auto split: if_splits)
    then show ?thesis using f' by auto
  next
    case False
    then obtain got where got: "r1 = Inr got" "got \<noteq> []" "n \<noteq> 0" by (cases r1) auto
    obtain r2 d2 h2 where r2: "read_exact (n - length got) d1 h1 = (r2, d2, h2)"
      by (cases "read_exact (n - length got) d1 h1") auto
    then have "d' = d2 \<and> h' = h2"
      using "1.prems" f got by (subst (asm) read_exact.simps) (auto split: sum.splits)
    then show ?thesis using "1.IH" f f' got r2 by fastforce
  qed
qed

lemma from_file_nodes:
  assumes "from_file d name h = (r, h')"
  shows "host_nodes h' = host_nodes h" "r = Inr f \<Longrightarrow> fd_path (gf_fd f) = fd_path d"
  using assms
  by (auto simp: from_file_def Let_def split: sum.splits prod.splits if_splits
      dest!: read_exact_nodes fd_len_nodes seek_body_keeps)

lemma from_file_empty:
  assumes "fd_pos d = 0" "nd_data (fd_node h d) = []"
  shows "\<exists>k h'. from_file d name h = (Inl (GIo k), h') \<and> (host_script h = [] \<longrightarrow> k = UnexpectedEofKind \<and> h' = h)"
proof -
  have none: "\<not> (\<exists>bs d' h'. read_exact 16 d h = (Inr bs, d', h'))"
    using read_exact_Inr[of 16 d h] assms by auto
  obtain r d' h' where re: "read_exact 16 d h = (r, d', h')" by (cases "read_exact 16 d h") auto
  with none obtain k where k: "r = Inl k" by (cases r) auto
  have "k = UnexpectedEofKind \<and> h' = h" if "host_script h = []"
    using re k that assms by (simp add: read_exact.simps fd_read_def short_of_def)
  then show ?thesis using re k by (simp add: from_file_def HEADER_LENGTH_def)
qed


section \<open>Properties\<close>

text \<open>Any sequence of the operations the backend performs on an open file, on any host, in which every write begins
  at body position \<open>n\<close> or later; \<open>n = 0\<close> allows every write.\<close>

inductive gf_step :: "nat \<Rightarrow> grid_file \<times> host \<Rightarrow> grid_file \<times> host \<Rightarrow> bool" for n where
  step_read: "gf_read len f h = (r, f', h') \<Longrightarrow> gf_step n (f, h) (f', h')"
| step_write: "gf_write_all data f h = (r, f', h') \<Longrightarrow> n \<le> gf_body_pos f \<Longrightarrow> gf_step n (f, h) (f', h')"
| step_seek: "gf_seek p f h = (r, f', h') \<Longrightarrow> gf_step n (f, h) (f', h')"
| step_truncate: "gf_truncate f h = (r, f', h') \<Longrightarrow> gf_step n (f, h) (f', h')"

text \<open>The properties are the start of the body: the part of them below position \<open>n\<close>.\<close>

definition gf_properties_below :: "nat \<Rightarrow> grid_file \<Rightarrow> host \<Rightarrow> bytes" where
  "gf_properties_below n f h = take (min n (unat (hd_property_length (gf_header f)))) (gf_body f h)"

definition gf_kept :: "nat \<Rightarrow> grid_file \<times> host \<Rightarrow> grid_file \<times> host \<Rightarrow> bool" where
  "gf_kept n = (\<lambda>(f, h) (f', h'). gf_header f' = gf_header f \<and>
     gf_properties_below n f' h' = gf_properties_below n f h)"

lemma gf_kept_trans: "gf_kept n s s' \<Longrightarrow> gf_kept n s' s'' \<Longrightarrow> gf_kept n s s''"
  by (auto simp: gf_kept_def)

lemma gf_kept_same:
  "host_nodes h' = host_nodes h \<and> fd_path (gf_fd f') = fd_path (gf_fd f) \<and> gf_header f' = gf_header f \<Longrightarrow> gf_kept n (f, h) (f', h')"
  using gf_data_cong[of h' h f' f] by (simp add: gf_kept_def gf_properties_below_def gf_body_def)

text \<open>A change of the data behind position \<open>m\<close> of the body keeps what is before it.\<close>

lemma gf_kept_prefix:
  assumes "take (16 + m) (gf_data f' h') = take (16 + m) (gf_data f h)" "gf_header f' = gf_header f"
    "min n (unat (hd_property_length (gf_header f))) \<le> m"
  shows "gf_kept n (f, h) (f', h')"
proof -
  let ?k = "min n (unat (hd_property_length (gf_header f)))"
  have "take ?k (drop 16 (gf_data g i)) = take ?k (drop 16 (take (16 + m) (gf_data g i)))" for g i
    using assms(3) by (simp add: drop_take min.absorb1)
  then show ?thesis
    using assms(1,2) by (simp add: gf_kept_def gf_properties_below_def gf_body_def HEADER_LENGTH_def)
qed

lemma gf_write_kept:
  assumes "gf_ok f h" "n \<le> gf_body_pos f" "gf_write buf f h = (r, f', h')"
  shows "gf_kept n (f, h) (f', h') \<and> n \<le> gf_body_pos f'"
proof -
  note g = gf_write_facts[OF assms(3)]
  let ?m = "min n (unat (hd_property_length (gf_header f)))"
  obtain count where w: "writes_behind_header f h buf count h'" using g(4,5) by (cases r) auto
  have "16 + unat (hd_property_length (gf_header f)) \<le> length (gf_data f h)"
    using assms(1) by (simp add: gf_ok_def HEADER_LENGTH_def)
  then have "16 + ?m \<le> length (gf_data f h)" "16 + ?m \<le> 16 + gf_body_pos f" using assms(2) by linarith+
  then have "take (16 + ?m) (gf_data f h') = take (16 + ?m) (gf_data f h)"
    using w by (auto simp: writes_behind_header_def take_splice)
  moreover have "gf_data f' h' = gf_data f h'" using gf_data_cong[OF refl g(1)] .
  ultimately have "gf_kept n (f, h) (f', h')" using gf_kept_prefix[OF _ g(2), of ?m h' h n] by simp
  moreover have "n \<le> gf_body_pos f'" using g(4,5) assms(2) by (cases r) auto
  ultimately show ?thesis by simp
qed

lemma gf_write_all_kept:
  "gf_ok f h \<Longrightarrow> n \<le> gf_body_pos f \<Longrightarrow> gf_write_all data f h = (r, f', h') \<Longrightarrow> gf_kept n (f, h) (f', h')"
proof (induction data f h arbitrary: r f' h' rule: gf_write_all.induct)
  case (1 data f h)
  obtain r1 f1 h1 where w: "gf_write data f h = (r1, f1, h1)" by (cases "gf_write data f h") auto
  note k = gf_write_kept[OF "1.prems"(1,2) w]
  show ?case
  proof (cases "data = [] \<or> (\<exists>k. r1 = Inl k) \<or> r1 = Inr 0")
    case True
    then have "(f', h') = (f, h) \<or> (f', h') = (f1, h1)"
      using "1.prems"(3) w by (subst (asm) gf_write_all.simps) (auto split: if_splits)
    then show ?thesis using k gf_kept_same[of h h f f n] by auto
  next
    case False
    then obtain c where c: "r1 = Inr c" "0 < c" "data \<noteq> []" by (cases r1) auto
    then have "gf_write_all (drop c data) f1 h1 = (r, f', h')"
      using "1.prems"(3) w by (subst (asm) gf_write_all.simps) simp
    then have "gf_kept n (f1, h1) (f', h')" using "1.IH" c w gf_write_ok[OF "1.prems"(1) w] k by auto
    then show ?thesis using k gf_kept_trans by blast
  qed
qed

lemma gf_truncate_kept:
  assumes "gf_ok f h" "gf_truncate f h = (r, f', h')"
  shows "gf_kept n (f, h) (f', h')"
proof (cases "validate_body_length (gf_header f) (gf_body_pos f)")
  case (Inl e)
  with assms show ?thesis by (simp add: gf_truncate_def gf_kept_same)
next
  case (Inr u)
  let ?p = "unat (hd_property_length (gf_header f))"
  have p: "?p \<le> gf_body_pos f" using Inr by (auto simp: validate_body_length_def Let_def split: if_splits)
  have f': "f' = f" using assms(2) Inr by (auto simp: gf_truncate_def split: prod.splits)
  obtain e h1 where e: "next_event h = (e, h1)" by fastforce
  have d1: "gf_data f h1 = gf_data f h" using gf_data_cong[OF next_event_nodes[OF e] refl] .
  let ?new = "take (16 + gf_body_pos f) (gf_data f h) @ replicate (16 + gf_body_pos f - length (gf_data f h)) 0"
  have "gf_data f h' = gf_data f h \<or> gf_data f h' = ?new"
    using assms(2) Inr e d1
    by (cases e) (auto simp: gf_truncate_def fd_set_len_def syscall_def body_offset_def
        HEADER_LENGTH_def gf_data_def fd_put_data Let_def)
  moreover have "16 + ?p \<le> length (gf_data f h)" using assms(1) by (simp add: gf_ok_def HEADER_LENGTH_def)
  then have "take (16 + ?p) ?new = take (16 + ?p) (gf_data f h)" using p by (simp add: min_def)
  ultimately show ?thesis using gf_kept_prefix[of ?p f' h' f h n] f' by auto
qed

lemma gf_step_ok: "gf_step n s s' \<Longrightarrow> gf_ok (fst s) (snd s) \<Longrightarrow> gf_ok (fst s') (snd s') \<and> gf_kept n s s'"
  by (induction rule: gf_step.induct)
     (auto dest: gf_write_all_ok gf_truncate_ok gf_read_facts gf_seek_facts
       intro: gf_ok_cong gf_kept_same gf_write_all_kept gf_truncate_kept)

text \<open>C9: whatever the host does (it may fail any call or transfer any part of the data), a sequence of reads, writes,
  seeks and truncations on an opened file keeps its header, in the file and on the host, and never makes the file
  shorter than the header and the properties it announces. The contents of the properties, which are the start of
  the body, are kept as well, below the position where the first write begins: when every write begins at body
  position \<open>n\<close> or later, the first \<open>n\<close> bytes of the properties are what they were.\<close>

theorem grid_file_header_survives:
  assumes "(gf_step n)\<^sup>*\<^sup>* (f, h) (f', h')" "gf_ok f h"
  shows "gf_ok f' h' \<and> gf_header f' = gf_header f \<and> gf_properties_below n f' h' = gf_properties_below n f h"
proof -
  have "gf_ok (fst s') (snd s') \<and> gf_kept n s s'" if "(gf_step n)\<^sup>*\<^sup>* s s'" "gf_ok (fst s) (snd s)" for s s'
    using that
  proof (induction rule: rtranclp_induct)
    case base
    then show ?case by (cases s) (simp add: gf_kept_same)
  next
    case (step s' s'')
    then show ?case using gf_step_ok[of n s' s''] gf_kept_trans[of n s s' s''] by blast
  qed
  from this[OF assms(1)] assms(2) show ?thesis by (simp add: gf_kept_def)
qed

definition sample_name :: grid_file_name where
  "sample_name = \<lparr>name_length = 0, name_bytes = []\<rparr>"

definition sample_file :: grid_file where
  "sample_file = \<lparr>gf_fd = \<lparr>fd_path = [[65]], fd_pos = 16\<rparr>, gf_name = sample_name,
     gf_header = grid_file_header_new, gf_body_pos = 2\<rparr>"

definition sample_host :: "host_event list \<Rightarrow> host" where
  "sample_host script = \<lparr>host_nodes = [([[65]],
     \<lparr>nd_kind = FileNode, nd_data = header_as_bytes grid_file_header_new @ [1, 2, 3],
      nd_created = None, nd_modified = 0\<rparr>)], host_script = script, host_now = 0,
     host_xattrs = []\<rparr>"

lemma sample_ok: "gf_ok sample_file (sample_host script)"
  by (simp add: gf_ok_def gf_data_def sample_file_def sample_host_def fd_node_def host_node_def
      header_validate_def grid_file_header_new_def HEADER_LENGTH_def header_as_bytes_def)

text \<open>Two bytes of properties, and a write behind them that the host cuts short and then fails.\<close>

definition sample_header_2 :: grid_file_header where
  "sample_header_2 = grid_file_header_new\<lparr>hd_property_length := 2\<rparr>"

definition sample_host_2 :: host where
  "sample_host_2 = \<lparr>host_nodes = [([[65]],
     \<lparr>nd_kind = FileNode, nd_data = header_as_bytes sample_header_2 @ [1, 2, 3],
      nd_created = None, nd_modified = 0\<rparr>)], host_script = [Proceed, Proceed, Short 1, Fail StorageFull], host_now = 0,
     host_xattrs = []\<rparr>"

theorem grid_file_header_survives_witness:
  "\<exists>f' h'. (gf_step 2)\<^sup>*\<^sup>* (sample_file\<lparr>gf_header := sample_header_2\<rparr>, sample_host_2) (f', h') \<and>
     gf_ok f' h' \<and> gf_header f' = sample_header_2 \<and> gf_properties_below 2 f' h' = [1, 2]"
proof -
  let ?f = "sample_file\<lparr>gf_header := sample_header_2\<rparr>"
  obtain r f' h' where "gf_write_all [7, 8, 9] ?f sample_host_2 = (r, f', h')"
    by (cases "gf_write_all [7, 8, 9] ?f sample_host_2") auto
  then have run: "(gf_step 2)\<^sup>*\<^sup>* (?f, sample_host_2) (f', h')"
    using step_write[of "[7, 8, 9]" ?f sample_host_2 r f' h' 2] by (simp add: sample_file_def)
  have ok: "gf_ok ?f sample_host_2"
    by (simp add: gf_ok_def gf_data_def sample_file_def sample_host_2_def sample_header_2_def fd_node_def host_node_def
        header_validate_def grid_file_header_new_def HEADER_LENGTH_def header_as_bytes_def)
  have "gf_properties_below 2 ?f sample_host_2 = [1, 2]"
    by (simp add: gf_properties_below_def gf_body_def gf_data_def sample_file_def sample_host_2_def sample_header_2_def
        fd_node_def host_node_def grid_file_header_new_def HEADER_LENGTH_def header_as_bytes_def)
  with grid_file_header_survives[OF run ok] run show ?thesis by auto
qed

text \<open>C23: on a host that lets every call proceed, writing is splicing into the body at the file's
  position (zero-filling a gap), and reading the same range afterwards returns the data written. The
  hypotheses are that the position is a valid file offset and the body stays below the 4 GiB the
  format allows behind the properties.\<close>

theorem grid_file_write_read:
  assumes "host_script h = []" "gf_ok f h" "16 + gf_body_pos f < 2 ^ 63" "data \<noteq> []"
    "max (gf_body_pos f + length data) (length (gf_body f h)) < 2 ^ 32 + unat (hd_property_length (gf_header f))"
  shows "\<exists>f1 h1 f2 f3.
    gf_write_all data f h = (Inr (), f1, h1) \<and>
    gf_body f1 h1 = splice_at (gf_body f h) (gf_body_pos f) data \<and>
    gf_body_pos f1 = gf_body_pos f + length data \<and>
    gf_seek (Start (gf_body_pos f)) f1 h1 = (Inr (gf_body_pos f), f2, h1) \<and>
    gf_read (length data) f2 h1 = (Inr data, f3, h1)"
proof -
  have "max (gf_body_pos f + length data) (length (gf_body f h)) - unat (hd_property_length (gf_header f)) < 2 ^ 32"
    by (rule less_add_sub[OF assms(5)]) simp
  from gf_write_all_quiet[OF assms(1-3) this] assms(4) obtain f1 h1 where
    w: "gf_write_all data f h = (Inr (), f1, h1)" "host_script h1 = []" "gf_ok f1 h1"
      "gf_body_pos f1 = gf_body_pos f + length data" "fd_path (gf_fd f1) = fd_path (gf_fd f)"
      "gf_body f1 h1 = splice_at (gf_body f h) (gf_body_pos f) data" by blast
  define f2 where "f2 = f1\<lparr>gf_fd := (gf_fd f1)\<lparr>fd_pos := 16 + gf_body_pos f\<rparr>, gf_body_pos := gf_body_pos f\<rparr>"
  have s: "gf_seek (Start (gf_body_pos f)) f1 h1 = (Inr (gf_body_pos f), f2, h1)"
    using seek_body_quiet[OF w(2), of "gf_body_pos f" f1] assms(3) by (simp add: gf_seek_def f2_def)
  have f2: "gf_ok f2 h1" "gf_body_pos f2 = gf_body_pos f"
    using gf_ok_same_path[OF w(3), of f2] by (simp_all add: f2_def)
  have body: "gf_body f2 h1 = splice_at (gf_body f h) (gf_body_pos f) data"
    using w(6) gf_data_cong[of h1 h1 f2 f1] by (simp add: gf_body_def f2_def)
  obtain f3 where "gf_read (length data) f2 h1 = (Inr data, f3, h1)"
    using gf_read_quiet[OF w(2) f2(1), of "length data"] assms(3) f2(2) body splice_read_back by auto
  with w s show ?thesis by blast
qed

theorem grid_file_write_read_witness:
  "host_script (sample_host []) = [] \<and> gf_ok sample_file (sample_host []) \<and>
   (\<exists>f1 h1 f2 f3.
    gf_write_all [7, 8, 9] sample_file (sample_host []) = (Inr (), f1, h1) \<and>
    gf_body f1 h1 = splice_at (gf_body sample_file (sample_host [])) (gf_body_pos sample_file) [7, 8, 9] \<and>
    gf_body_pos f1 = gf_body_pos sample_file + length [7, 8, 9 :: byte] \<and>
    gf_seek (Start (gf_body_pos sample_file)) f1 h1 = (Inr (gf_body_pos sample_file), f2, h1) \<and>
    gf_read (length [7, 8, 9 :: byte]) f2 h1 = (Inr [7, 8, 9], f3, h1))"
proof -
  have q: "host_script (sample_host []) = []" by (simp add: sample_host_def)
  have b: "gf_body sample_file (sample_host []) = [1, 2, 3]"
    by (simp add: gf_body_def gf_data_def sample_file_def sample_host_def fd_node_def host_node_def
        grid_file_header_new_def header_as_bytes_def HEADER_LENGTH_def)
  have "16 + gf_body_pos sample_file < 2 ^ 63"
    "max (gf_body_pos sample_file + length [7, 8, 9 :: byte]) (length (gf_body sample_file (sample_host [])))
       < 2 ^ 32 + unat (hd_property_length (gf_header sample_file))"
    unfolding b by (simp_all add: sample_file_def grid_file_header_new_def)
  from grid_file_write_read[OF q sample_ok this(1) _ this(2)] q sample_ok show ?thesis by blast
qed

text \<open>Opening a host file yields a usable GRiD file only if its first sixteen bytes are a valid
  header and the property section is complete; the file then stands at the start of its body, the
  host is unchanged, and the header it carries is the one that was read, even when the host hands
  the header out in several short reads.\<close>

lemma grid_file_open_sound:
  assumes "from_file d name h = (Inr f, h')" "fd_pos d = 0" "host_node h (fd_path d) \<noteq> None"
  shows "gf_ok f h' \<and> gf_body_pos f = 0 \<and> gf_name f = name \<and> host_nodes h' = host_nodes h \<and>
    fd_path (gf_fd f) = fd_path d \<and>
    header_from_bytes (take 16 (nd_data (fd_node h d))) = Inr (gf_header f)"
  using assms by (rule from_file_Inr)

lemma grid_file_open_sound_witness:
  "\<exists>f h'. from_file \<lparr>fd_path = [[65]], fd_pos = 0\<rparr> sample_name (sample_host [Short 5, Short 6]) = (Inr f, h') \<and>
     host_node (sample_host [Short 5, Short 6]) [[65]] \<noteq> None \<and> gf_ok f h' \<and> gf_body_pos f = 0"
proof -
  let ?d = "\<lparr>fd_path = [[65]], fd_pos = 0\<rparr>" and ?h = "sample_host [Short 5, Short 6]"
  have "is_ok (fst (from_file ?d sample_name ?h))"
    by (simp add: from_file_def read_exact.simps fd_read_def next_event_def sample_host_def fd_node_def
        host_node_def short_of_def HEADER_LENGTH_def header_from_bytes_def header_transmute_def
        header_as_bytes_def grid_file_header_new_def HEADER_MAGIC_def HEADER_FORMAT_VERSION_def bstr_def
        u32_to_le_def u32_of_le_def fd_len_def syscall_def seek_body_def fd_seek_start_def body_offset_def
        header_validate_def)
  then obtain f h' where f: "from_file ?d sample_name ?h = (Inr f, h')"
    by (cases "from_file ?d sample_name ?h") (auto simp: is_ok_iff)
  have n: "host_node ?h (fd_path ?d) \<noteq> None" by (simp add: sample_host_def host_node_def)
  from grid_file_open_sound[OF f _ n] f n show ?thesis by auto
qed

end
