(* ===== verification/Grid_Descriptor.thy ===== *)
theory Grid_Descriptor
  imports Grid_Names Wire_IO
begin

text \<open>
  \<^verbatim>\<open>Server/src/vfs/file/date.rs\<close> and \<^verbatim>\<open>Server/src/vfs/file/descriptor.rs\<close>: the 11-byte date and
  the 198-byte descriptor. The date library is not part of the sources: what \<open>from_zoned\<close> asks of a
  \<open>Zoned\<close> is the record \<open>zoned\<close> of its getters, and the conversion of a host time stamp is a
  parameter, \<open>zone\<close>, that gives \<open>None\<close> outside the range of the library.
\<close>

section \<open>Dates\<close>

record grid_date =
  gd_year :: u16
  gd_month :: byte
  gd_day :: byte
  gd_hour :: byte
  gd_minute :: byte
  gd_second :: byte
  gd_tenth_of_second :: byte
  gd_day_of_week :: byte
  gd_day_of_year :: u16

record zoned =
  zn_year :: int
  zn_month :: int
  zn_day :: int
  zn_hour :: int
  zn_minute :: int
  zn_second :: int
  zn_subsec_nanosecond :: int
  zn_sunday_one_offset :: int
  zn_day_of_year :: int

definition grid_date_never :: grid_date where
  "grid_date_never =
     \<lparr>gd_year = 0, gd_month = 0, gd_day = 0, gd_hour = 0, gd_minute = 0, gd_second = 0,
      gd_tenth_of_second = 0, gd_day_of_week = 0, gd_day_of_year = 0\<rparr>"

definition grid_date_from_zoned :: "zoned \<Rightarrow> grid_date" where
  "grid_date_from_zoned z =
     \<lparr>gd_year = word_of_int (zn_year z), gd_month = word_of_int (zn_month z),
      gd_day = word_of_int (zn_day z), gd_hour = word_of_int (zn_hour z),
      gd_minute = word_of_int (zn_minute z), gd_second = word_of_int (zn_second z),
      gd_tenth_of_second = word_of_int (zn_subsec_nanosecond z div 100000000),
      gd_day_of_week = word_of_int (zn_sunday_one_offset z),
      gd_day_of_year = word_of_int (zn_day_of_year z)\<rparr>"

definition grid_date_from_system_time :: "(nat \<Rightarrow> zoned option) \<Rightarrow> nat \<Rightarrow> grid_date" where
  "grid_date_from_system_time zone t =
     (case zone t of Some z \<Rightarrow> grid_date_from_zoned z | None \<Rightarrow> grid_date_never)"

definition grid_date_bytes :: "grid_date \<Rightarrow> bytes" where
  "grid_date_bytes d =
     u16_to_le (gd_year d) @ [gd_month d, gd_day d, gd_hour d, gd_minute d, gd_second d,
       gd_tenth_of_second d, gd_day_of_week d] @ u16_to_le (gd_day_of_year d)"

definition read_grid_date :: "grid_date reader" where
  "read_grid_date c =
     and_then (read_u16 c) (\<lambda>(y, c).
     and_then (read_u8 c) (\<lambda>(mo, c).
     and_then (read_u8 c) (\<lambda>(dy, c).
     and_then (read_u8 c) (\<lambda>(h, c).
     and_then (read_u8 c) (\<lambda>(mi, c).
     and_then (read_u8 c) (\<lambda>(s, c).
     and_then (read_u8 c) (\<lambda>(t, c).
     and_then (read_u8 c) (\<lambda>(w, c).
     and_then (read_u16 c) (\<lambda>(dd, c).
       Inr (\<lparr>gd_year = y, gd_month = mo, gd_day = dy, gd_hour = h, gd_minute = mi, gd_second = s,
             gd_tenth_of_second = t, gd_day_of_week = w, gd_day_of_year = dd\<rparr>, c))))))))))"

section \<open>Descriptors\<close>

definition DESCRIPTOR_LENGTH :: nat where "DESCRIPTOR_LENGTH = 198"

record grid_file_descriptor =
  ds_file_length :: u32
  ds_file_name :: grid_file_name
  ds_creation_date :: grid_date
  ds_dir_file_id :: u16
  ds_last_modified_date :: grid_date
  ds_expiration_date :: grid_date
  ds_machine_id :: u32
  ds_compressed :: byte
  ds_encrypted :: byte
  ds_protected :: byte
  ds_password :: bytes
  ds_dir_length :: u32
  ds_dir_count :: u16
  ds_grid_write1 :: bytes
  ds_machine_id2 :: byte
  ds_uses_8087 :: byte
  ds_version1 :: byte
  ds_version2 :: byte
  ds_machine_id3 :: u32
  ds_grid_write2 :: bytes
  ds_version3 :: byte
  ds_property_length :: u32
  ds_rom :: byte
  ds_rom_id :: u16
  ds_mode :: u16
  ds_rainy_day_bytes :: bytes
  ds_user_defined_bytes :: bytes
  ds_grid_central_use :: u16

definition descriptor_default :: grid_file_descriptor where
  "descriptor_default =
     \<lparr>ds_file_length = 0, ds_file_name = \<lparr>name_length = 0, name_bytes = replicate 80 0\<rparr>,
      ds_creation_date = grid_date_never, ds_dir_file_id = 0, ds_last_modified_date = grid_date_never,
      ds_expiration_date = grid_date_never, ds_machine_id = 0, ds_compressed = 0, ds_encrypted = 0,
      ds_protected = 0, ds_password = replicate 5 0, ds_dir_length = 0, ds_dir_count = 0,
      ds_grid_write1 = replicate 6 0, ds_machine_id2 = 0, ds_uses_8087 = 0, ds_version1 = 0,
      ds_version2 = 0, ds_machine_id3 = 0, ds_grid_write2 = replicate 11 0, ds_version3 = 0,
      ds_property_length = 0, ds_rom = 0, ds_rom_id = 0, ds_mode = 0,
      ds_rainy_day_bytes = replicate 3 0, ds_user_defined_bytes = replicate 20 0,
      ds_grid_central_use = 0\<rparr>"

definition file_name_storage :: "grid_file_name \<Rightarrow> bytes" where
  "file_name_storage n = name_length n # name_bytes n"

definition descriptor_to_bytes :: "grid_file_descriptor \<Rightarrow> bytes" where
  "descriptor_to_bytes d =
     u32_to_le (ds_file_length d) @ file_name_storage (ds_file_name d)
     @ grid_date_bytes (ds_creation_date d) @ u16_to_le (ds_dir_file_id d)
     @ grid_date_bytes (ds_last_modified_date d) @ grid_date_bytes (ds_expiration_date d)
     @ u32_to_le (ds_machine_id d) @ [ds_compressed d, ds_encrypted d, ds_protected d]
     @ ds_password d @ u32_to_le (ds_dir_length d) @ u16_to_le (ds_dir_count d)
     @ ds_grid_write1 d @ [ds_machine_id2 d, ds_uses_8087 d, ds_version1 d, ds_version2 d]
     @ u32_to_le (ds_machine_id3 d) @ ds_grid_write2 d @ [ds_version3 d]
     @ u32_to_le (ds_property_length d) @ [ds_rom d] @ u16_to_le (ds_rom_id d)
     @ u16_to_le (ds_mode d) @ ds_rainy_day_bytes d @ ds_user_defined_bytes d
     @ u16_to_le (ds_grid_central_use d)"

definition read_file_name_storage :: "grid_file_name reader" where
  "read_file_name_storage c =
     and_then (read_u8 c) (\<lambda>(l, c).
     and_then (read_array MAX_LENGTH c) (\<lambda>(bs, c). Inr (\<lparr>name_length = l, name_bytes = bs\<rparr>, c)))"

text \<open>The fields of the structure, read in their declared order.\<close>

definition read_descriptor :: "grid_file_descriptor reader" where
  "read_descriptor c =
     and_then (read_u32 c) (\<lambda>(file_length, c).
     and_then (read_file_name_storage c) (\<lambda>(file_name, c).
     and_then (read_grid_date c) (\<lambda>(creation_date, c).
     and_then (read_u16 c) (\<lambda>(dir_file_id, c).
     and_then (read_grid_date c) (\<lambda>(last_modified_date, c).
     and_then (read_grid_date c) (\<lambda>(expiration_date, c).
     and_then (read_u32 c) (\<lambda>(machine_id, c).
     and_then (read_u8 c) (\<lambda>(compressed, c).
     and_then (read_u8 c) (\<lambda>(encrypted, c).
     and_then (read_u8 c) (\<lambda>(protected, c).
     and_then (read_array 5 c) (\<lambda>(password, c).
     and_then (read_u32 c) (\<lambda>(dir_length, c).
     and_then (read_u16 c) (\<lambda>(dir_count, c).
     and_then (read_array 6 c) (\<lambda>(grid_write1, c).
     and_then (read_u8 c) (\<lambda>(machine_id2, c).
     and_then (read_u8 c) (\<lambda>(uses_8087, c).
     and_then (read_u8 c) (\<lambda>(version1, c).
     and_then (read_u8 c) (\<lambda>(version2, c).
     and_then (read_u32 c) (\<lambda>(machine_id3, c).
     and_then (read_array 11 c) (\<lambda>(grid_write2, c).
     and_then (read_u8 c) (\<lambda>(version3, c).
     and_then (read_u32 c) (\<lambda>(property_length, c).
     and_then (read_u8 c) (\<lambda>(rom, c).
     and_then (read_u16 c) (\<lambda>(rom_id, c).
     and_then (read_u16 c) (\<lambda>(mode, c).
     and_then (read_array 3 c) (\<lambda>(rainy_day_bytes, c).
     and_then (read_array 20 c) (\<lambda>(user_defined_bytes, c).
     and_then (read_u16 c) (\<lambda>(grid_central_use, c).
       Inr (\<lparr>ds_file_length = file_length, ds_file_name = file_name, ds_creation_date = creation_date,
             ds_dir_file_id = dir_file_id, ds_last_modified_date = last_modified_date,
             ds_expiration_date = expiration_date, ds_machine_id = machine_id,
             ds_compressed = compressed, ds_encrypted = encrypted, ds_protected = protected,
             ds_password = password, ds_dir_length = dir_length, ds_dir_count = dir_count,
             ds_grid_write1 = grid_write1, ds_machine_id2 = machine_id2, ds_uses_8087 = uses_8087,
             ds_version1 = version1, ds_version2 = version2, ds_machine_id3 = machine_id3,
             ds_grid_write2 = grid_write2, ds_version3 = version3,
             ds_property_length = property_length, ds_rom = rom, ds_rom_id = rom_id, ds_mode = mode,
             ds_rainy_day_bytes = rainy_day_bytes, ds_user_defined_bytes = user_defined_bytes,
             ds_grid_central_use = grid_central_use\<rparr>, c)))))))))))))))))))))))))))))"

datatype descriptor_error = WrongLength nat | InvalidName grid_file_name_error

definition descriptor_from_bytes :: "bytes \<Rightarrow> descriptor_error + grid_file_descriptor" where
  "descriptor_from_bytes bs =
     (if length bs \<noteq> DESCRIPTOR_LENGTH then Inl (WrongLength (length bs))
      else case read_descriptor bs of
        Inl _ \<Rightarrow> Inl (WrongLength (length bs))
      | Inr (d, _) \<Rightarrow>
          and_then (map_err InvalidName (grid_file_name_validate (ds_file_name d))) (\<lambda>_. Inr d))"

section \<open>Lemmas\<close>

text \<open>The arrays of a descriptor have their declared lengths.\<close>

definition descriptor_shape :: "grid_file_descriptor \<Rightarrow> bool" where
  "descriptor_shape d \<longleftrightarrow>
     length (name_bytes (ds_file_name d)) = 80 \<and> length (ds_password d) = 5 \<and>
     length (ds_grid_write1 d) = 6 \<and> length (ds_grid_write2 d) = 11 \<and>
     length (ds_rainy_day_bytes d) = 3 \<and> length (ds_user_defined_bytes d) = 20"

lemma grid_date_length [simp]: "length (grid_date_bytes d) = 11"
  by (simp add: grid_date_bytes_def)

lemma descriptor_length: "descriptor_shape d \<Longrightarrow> length (descriptor_to_bytes d) = 198"
  by (simp add: descriptor_shape_def descriptor_to_bytes_def file_name_storage_def)

lemma read_grid_date_Inr: "read_grid_date c = Inr (d, c') \<longleftrightarrow> c = grid_date_bytes d @ c'"
  by (cases d) (auto simp: read_grid_date_def result_simps read_u16_Inr read_u8_Inr grid_date_bytes_def)

lemma read_file_name_storage_Inr:
  "read_file_name_storage c = Inr (n, c') \<longleftrightarrow> c = file_name_storage n @ c' \<and> length (name_bytes n) = 80"
  by (cases n) (auto simp: read_file_name_storage_def result_simps read_u8_Inr read_array_Inr
      file_name_storage_def MAX_LENGTH_def)

lemma read_descriptor_Inr:
  "read_descriptor c = Inr (d, c') \<longleftrightarrow> c = descriptor_to_bytes d @ c' \<and> descriptor_shape d"
  by (cases d)
     (auto simp: read_descriptor_def result_simps read_u32_Inr read_u16_Inr read_u8_Inr read_array_Inr
        read_grid_date_Inr read_file_name_storage_Inr descriptor_to_bytes_def descriptor_shape_def)


section \<open>Properties\<close>

text \<open>The descriptor codec is exact: a byte string decodes to a descriptor precisely when it is
  that descriptor's 198-byte encoding and its file name is a valid one.\<close>

lemma descriptor_roundtrip:
  "descriptor_from_bytes bs = Inr d \<longleftrightarrow>
     bs = descriptor_to_bytes d \<and> length bs = 198 \<and> descriptor_shape d \<and>
     grid_file_name_validate (ds_file_name d) = Inr ()"
proof
  assume "descriptor_from_bytes bs = Inr d"
  then obtain c' where l: "length bs = 198" and r: "read_descriptor bs = Inr (d, c')"
    and v: "grid_file_name_validate (ds_file_name d) = Inr ()"
    by (cases "grid_file_name_validate (ds_file_name d)")
       (auto simp: descriptor_from_bytes_def DESCRIPTOR_LENGTH_def result_simps
          split: if_splits sum.splits)
  from r have "bs = descriptor_to_bytes d @ c'" "descriptor_shape d" by (simp_all add: read_descriptor_Inr)
  with l descriptor_length[of d] v show "bs = descriptor_to_bytes d \<and> length bs = 198 \<and>
     descriptor_shape d \<and> grid_file_name_validate (ds_file_name d) = Inr ()" by simp
next
  assume *: "bs = descriptor_to_bytes d \<and> length bs = 198 \<and>
     descriptor_shape d \<and> grid_file_name_validate (ds_file_name d) = Inr ()"
  then have "read_descriptor bs = Inr (d, [])" by (simp add: read_descriptor_Inr)
  with * descriptor_length[of d] show "descriptor_from_bytes bs = Inr d"
    by (simp add: descriptor_from_bytes_def DESCRIPTOR_LENGTH_def)
qed

end
