(* ===== verification/Rust_Text.thy ===== *)
theory Rust_Text
  imports Prelude
begin

text \<open>
  The text operations of Rust's standard library the sources use: a \<open>str\<close> is its UTF-8 bytes,
  validated as \<open>str::from_utf8\<close> does; ASCII tests and case folding; printing and parsing decimal
  numbers.
\<close>

section \<open>UTF-8 and ASCII\<close>

definition utf8_cont :: "byte \<Rightarrow> bool" where
  "utf8_cont b \<longleftrightarrow> 0x80 \<le> b \<and> b \<le> 0xBF"

text \<open>The well-formed sequences of the Unicode standard, one test per leading byte.\<close>

fun utf8_valid :: "bytes \<Rightarrow> bool" where
  "utf8_valid [] = True"
| "utf8_valid [a] = (a < 0x80)"
| "utf8_valid [a, b] =
     (if a < 0x80 then utf8_valid [b] else 0xC2 \<le> a \<and> a \<le> 0xDF \<and> utf8_cont b)"
| "utf8_valid [a, b, c] =
     (if a < 0x80 then utf8_valid [b, c]
      else if 0xC2 \<le> a \<and> a \<le> 0xDF then utf8_cont b \<and> utf8_valid [c]
      else if a = 0xE0 then 0xA0 \<le> b \<and> b \<le> 0xBF \<and> utf8_cont c
      else if a = 0xED then 0x80 \<le> b \<and> b \<le> 0x9F \<and> utf8_cont c
      else 0xE1 \<le> a \<and> a \<le> 0xEF \<and> utf8_cont b \<and> utf8_cont c)"
| "utf8_valid (a # b # c # d # bs) =
     (if a < 0x80 then utf8_valid (b # c # d # bs)
      else if 0xC2 \<le> a \<and> a \<le> 0xDF then utf8_cont b \<and> utf8_valid (c # d # bs)
      else if a = 0xE0 then 0xA0 \<le> b \<and> b \<le> 0xBF \<and> utf8_cont c \<and> utf8_valid (d # bs)
      else if a = 0xED then 0x80 \<le> b \<and> b \<le> 0x9F \<and> utf8_cont c \<and> utf8_valid (d # bs)
      else if 0xE1 \<le> a \<and> a \<le> 0xEF then utf8_cont b \<and> utf8_cont c \<and> utf8_valid (d # bs)
      else if a = 0xF0 then 0x90 \<le> b \<and> b \<le> 0xBF \<and> utf8_cont c \<and> utf8_cont d \<and> utf8_valid bs
      else if a = 0xF4 then 0x80 \<le> b \<and> b \<le> 0x8F \<and> utf8_cont c \<and> utf8_cont d \<and> utf8_valid bs
      else 0xF1 \<le> a \<and> a \<le> 0xF3 \<and> utf8_cont b \<and> utf8_cont c \<and> utf8_cont d \<and> utf8_valid bs)"

definition from_utf8 :: "bytes \<Rightarrow> bytes option" where
  "from_utf8 bs = (if utf8_valid bs then Some bs else None)"

definition is_ascii :: "bytes \<Rightarrow> bool" where
  "is_ascii bs \<longleftrightarrow> list_all (\<lambda>b. b < 0x80) bs"

definition to_ascii_lowercase :: "byte \<Rightarrow> byte" where
  "to_ascii_lowercase b = (if 0x41 \<le> b \<and> b \<le> 0x5A then b + 0x20 else b)"

definition eq_ignore_ascii_case :: "bytes \<Rightarrow> bytes \<Rightarrow> bool" where
  "eq_ignore_ascii_case a b \<longleftrightarrow> map to_ascii_lowercase a = map to_ascii_lowercase b"

section \<open>Numbers\<close>

text \<open>\<open>i64::to_string\<close>.\<close>

fun digits :: "nat \<Rightarrow> bytes" where
  "digits n = (if n < 10 then [of_nat (48 + n)] else digits (n div 10) @ [of_nat (48 + n mod 10)])"

declare digits.simps [simp del]

definition i64_to_string :: "int \<Rightarrow> bytes" where
  "i64_to_string i = (if i < 0 then 0x2D # digits (nat (- i)) else digits (nat i))"

text \<open>\<open>str::parse::<usize>\<close>: an optional plus sign, at least one digit, and a value of 64 bits.\<close>

fun parse_digits :: "nat \<Rightarrow> bytes \<Rightarrow> nat option" where
  "parse_digits acc [] = Some acc"
| "parse_digits acc (b # bs) =
     (if 0x30 \<le> b \<and> b \<le> 0x39
      then let v = 10 * acc + (unat b - 48) in
           if v < 2 ^ 64 then parse_digits v bs else None
      else None)"

definition parse_usize :: "bytes \<Rightarrow> nat option" where
  "parse_usize s =
     (case s of
        [] \<Rightarrow> None
      | b # bs \<Rightarrow> if b = 0x2B then (if bs = [] then None else parse_digits 0 bs) else parse_digits 0 s)"

section \<open>Lemmas\<close>

lemma eq_ignore_ascii_case_refl [simp]: "eq_ignore_ascii_case a a"
  by (simp add: eq_ignore_ascii_case_def)

lemma utf8_valid_Cons_ascii: "a < 0x80 \<Longrightarrow> utf8_valid (a # bs) = utf8_valid bs"
  by (cases bs rule: utf8_valid.cases) simp_all

lemma ascii_utf8: "is_ascii bs \<Longrightarrow> utf8_valid bs"
  by (induction bs) (simp_all add: is_ascii_def utf8_valid_Cons_ascii)

definition undigits :: "bytes \<Rightarrow> nat" where
  "undigits bs = foldl (\<lambda>a b. 10 * a + (unat b - 48)) 0 bs"

lemma unat_digit: "k < 10 \<Longrightarrow> unat (of_nat (48 + k) :: byte) = 48 + k"
  by (rule unat_of_nat_u8) simp

lemma undigits_digits: "undigits (digits n) = n"
proof (induction n rule: digits.induct)
  case (1 n)
  show ?case
  proof (cases "n < 10")
    case True
    then show ?thesis using unat_digit[of n] by (subst digits.simps) (simp add: undigits_def del: of_nat_add)
  next
    case False
    then have "undigits (digits (n div 10) @ [of_nat (48 + n mod 10)]) = 10 * (n div 10) + n mod 10"
      using 1 unat_digit[of "n mod 10"] by (simp add: undigits_def del: of_nat_add)
    then show ?thesis using False by (subst digits.simps) (simp del: of_nat_add)
  qed
qed

lemma digits_range: "b \<in> set (digits n) \<Longrightarrow> 48 \<le> unat b \<and> unat b < 58"
proof (induction n rule: digits.induct)
  case (1 n)
  have "48 \<le> unat (of_nat (48 + k) :: byte) \<and> unat (of_nat (48 + k) :: byte) < 58" if "k < 10" for k
    using that unat_digit[OF that] by simp
  then show ?case using 1 by (subst (asm) digits.simps) (auto simp del: of_nat_add split: if_splits)
qed

lemma digits_nonempty: "digits n \<noteq> []"
  by (subst digits.simps) simp

lemma digits_no_minus: "digits n \<noteq> 0x2D # xs"
proof
  assume "digits n = 0x2D # xs"
  then have "0x2D \<in> set (digits n)" by simp
  from digits_range[OF this] show False by simp
qed

lemma inj_i64_to_string: "i64_to_string i = i64_to_string j \<longleftrightarrow> i = j"
proof
  assume eq: "i64_to_string i = i64_to_string j"
  have "digits m = digits n \<Longrightarrow> m = n" for m n by (metis undigits_digits)
  with eq digits_no_minus show "i = j"
    by (auto simp: i64_to_string_def split: if_splits)
       (metis digits_no_minus | force)+
qed simp

lemma parse_digits_foldl:
  assumes "list_all (\<lambda>b. 0x30 \<le> b \<and> b \<le> 0x39) bs" "foldl (\<lambda>a b. 10 * a + (unat b - 48)) acc bs < 2 ^ 64"
  shows "parse_digits acc bs = Some (foldl (\<lambda>a b. 10 * a + (unat b - 48)) acc bs)"
  using assms
proof (induction bs arbitrary: acc)
  case (Cons b bs)
  have mono: "a \<le> foldl (\<lambda>a b. 10 * a + (unat b - 48)) a xs" for a and xs :: bytes
  proof (induction xs arbitrary: a)
    case (Cons x xs)
    have "a \<le> 10 * a + (unat x - 48)" by simp
    also have "\<dots> \<le> foldl (\<lambda>a b. 10 * a + (unat b - 48)) (10 * a + (unat x - 48)) xs" by (rule Cons)
    finally show ?case by simp
  qed simp
  have "10 * acc + (unat b - 48) < 2 ^ 64" using Cons.prems(2) mono[of "10 * acc + (unat b - 48)" bs] by simp
  with Cons show ?case by (simp add: Let_def)
qed simp

lemma parse_usize_digits: "n < 2 ^ 64 \<Longrightarrow> parse_usize (digits n) = Some n"
proof -
  assume n: "n < 2 ^ 64"
  have dig: "list_all (\<lambda>b. 0x30 \<le> b \<and> b \<le> 0x39) (digits n)"
    using digits_range[of _ n] by (fastforce simp: list_all_iff word_le_nat_alt)
  have "parse_digits 0 (digits n) = Some n"
    using parse_digits_foldl[OF dig, of 0] undigits_digits[of n] n by (simp add: undigits_def)
  moreover obtain b bs where "digits n = b # bs" using digits_nonempty by (cases "digits n") auto
  moreover from this have "b \<noteq> 0x2B" using dig by (auto simp: word_le_nat_alt)
  ultimately show ?thesis by (simp add: parse_usize_def)
qed

lemma digits_ascii: "is_ascii (digits n)"
  using digits_range[of _ n] by (fastforce simp: is_ascii_def list_all_iff word_less_nat_alt)

lemma digits_length: "n < 10 ^ Suc k \<Longrightarrow> length (digits n) \<le> Suc k"
proof (induction k arbitrary: n)
  case 0
  then show ?case by (subst digits.simps) simp
next
  case (Suc k)
  show ?case
  proof (cases "n < 10")
    case False
    have "n div 10 < 10 ^ Suc k" using Suc.prems by (simp add: less_mult_imp_div_less mult.commute)
    from Suc.IH[OF this] False show ?thesis by (subst digits.simps) simp
  qed (subst digits.simps, simp)
qed

lemma digits_length_usize: "n < 2 ^ 64 \<Longrightarrow> length (digits n) < 256"
  using digits_length[of n 19] by simp

end
