(* ===== verification/Dir_Manager.thy ===== *)
theory Dir_Manager
  imports Host_Fs Vfs_Types Id_Map Rust_Text
begin

text \<open>
  \<^verbatim>\<open>Server/src/vfs/dirmanager.rs\<close>: where the virtual disks lie on the host, how a folder and a file
  name become a host path, and the ids of files and directories. The ids are stored in extended
  attributes; the \<open>xattr\<close> crate is not part of the sources, so its two calls are the parameter
  \<open>xa\<close>. The mutex around the id maps serialises the calls, which are one step here.
\<close>

section \<open>Paths of the standard library\<close>

text \<open>The components of an absolute path; comparisons of paths are comparisons of components.\<close>

definition path_components :: "path_buf \<Rightarrow> bytes list" where
  "path_components p = filter (\<lambda>c. c \<noteq> [] \<and> c \<noteq> [0x2E]) (split_slash p)"

definition path_of_components :: "bytes list \<Rightarrow> path_buf" where
  "path_of_components cs = (if cs = [] then [SLASH] else concat (map (\<lambda>c. SLASH # c) cs))"

definition path_parent :: "path_buf \<Rightarrow> path_buf option" where
  "path_parent p =
     (case path_components p of [] \<Rightarrow> None | cs \<Rightarrow> Some (path_of_components (butlast cs)))"

definition path_file_name :: "path_buf \<Rightarrow> bytes option" where
  "path_file_name p =
     (case path_components p of [] \<Rightarrow> None
      | cs \<Rightarrow> if last cs = [0x2E, 0x2E] then None else Some (last cs))"

definition path_starts_with :: "path_buf \<Rightarrow> path_buf \<Rightarrow> bool" where
  "path_starts_with p base \<longleftrightarrow>
     take (length (path_components base)) (path_components p) = path_components base"

section \<open>State\<close>

record vfs_path =
  vp_disk :: path_buf
  vp_path :: path_buf

record dir_manager =
  dm_root_path :: path_buf
  dm_file_ids :: "path_buf \<Rightarrow> id_map option"

record xattr_api =
  xattr_get :: "host \<Rightarrow> path_buf \<Rightarrow> string \<Rightarrow> io_kind + bytes option"
  xattr_set :: "host \<Rightarrow> path_buf \<Rightarrow> string \<Rightarrow> bytes \<Rightarrow> (io_kind + unit) \<times> host"

text \<open>The calls as the host implements them, for evaluation.\<close>

definition xattr_ref :: xattr_api where
  "xattr_ref =
     \<lparr>xattr_get = (\<lambda>h p key. if resolve p = [] \<or> host_node h (resolve p) \<noteq> None
                            then Inr (map_of (host_xattrs h) (resolve p, key)) else Inl NotFound),
      xattr_set = (\<lambda>h p key v. if resolve p = [] \<or> host_node h (resolve p) \<noteq> None
                            then (Inr (), h\<lparr>host_xattrs := ((resolve p, key), v) # host_xattrs h\<rparr>)
                            else (Inl NotFound, h))\<rparr>"

definition XATTR_FILE_ID_KEY :: string where "XATTR_FILE_ID_KEY = ''user.grid.file-id''"
definition XATTR_SUPPORT_KEY :: string where "XATTR_SUPPORT_KEY = ''user.grid.xattr-probe''"

section \<open>Opening the root\<close>

text \<open>\<open>fs::canonicalize\<close> and \<open>File::open\<close> on a host without symbolic links.\<close>

definition fs_canonicalize :: "path_buf \<Rightarrow> host \<Rightarrow> path_buf host_result" where
  "fs_canonicalize p = syscall (\<lambda>_ h.
     if resolve p = [] \<or> host_node h (resolve p) \<noteq> None
     then (Inr (path_of_components (resolve p)), h) else (Inl NotFound, h))"

definition fs_open_read :: "path_buf \<Rightarrow> host \<Rightarrow> fd host_result" where
  "fs_open_read p = syscall (\<lambda>_ h.
     if resolve p = [] \<or> host_node h (resolve p) \<noteq> None
     then (Inr \<lparr>fd_path = resolve p, fd_pos = 0\<rparr>, h) else (Inl NotFound, h))"

text \<open>\<open>Metadata::is_dir\<close> of an open file.\<close>

definition fd_is_dir :: "fd \<Rightarrow> host \<Rightarrow> bool host_result" where
  "fd_is_dir d = syscall (\<lambda>_ h. (Inr (is_dir h (fd_path d)), h))"

definition SUPPORTED :: bytes where "SUPPORTED = bstr ''supported''"

definition is_xattr_supported :: "xattr_api \<Rightarrow> path_buf \<Rightarrow> host \<Rightarrow> unit host_result" where
  "is_xattr_supported xa path h =
     st_then (xattr_set xa h path XATTR_SUPPORT_KEY SUPPORTED) (\<lambda>_ h.
       (and_then (xattr_get xa h path XATTR_SUPPORT_KEY) (\<lambda>v. if v \<noteq> Some SUPPORTED then Inl Unsupported else Inr ()), h))"

text \<open>What \<open>File::try_lock\<close> answers depends on the other processes of the host.\<close>

datatype lock_answer = Locked | WouldBlock | LockFailed io_kind

datatype dir_manager_error =
    PathError string io_kind
  | AlreadyInUse
  | LockError io_kind
  | NotADirectory

definition path_err :: "string \<Rightarrow> 'a host_result \<Rightarrow> (dir_manager_error + 'a) \<times> host" where
  "path_err what r = (map_err (PathError what) (fst r), snd r)"

definition dir_manager_new ::
  "xattr_api \<Rightarrow> lock_answer \<Rightarrow> path_buf \<Rightarrow> host \<Rightarrow> (dir_manager_error + dir_manager) \<times> host" where
  "dir_manager_new xa lock path h =
     st_then (path_err ''normalize path'' (fs_canonicalize path h)) (\<lambda>path h.
     st_then (path_err ''open dir'' (fs_open_read path h)) (\<lambda>d h.
     case lock of
       WouldBlock \<Rightarrow> (Inl AlreadyInUse, h)
     | LockFailed k \<Rightarrow> (Inl (LockError k), h)
     | Locked \<Rightarrow>
         st_then (path_err ''get dir metadata'' (fd_is_dir d h)) (\<lambda>dir h.
         if \<not> dir then (Inl NotADirectory, h)
         else
           st_then (path_err ''check xattr support'' (is_xattr_supported xa path h)) (\<lambda>_ h.
           (Inr \<lparr>dm_root_path = path, dm_file_ids = (\<lambda>_. None)\<rparr>, h)))))"

section \<open>Virtual disks\<close>

definition SUBJECT_SUFFIX :: bytes where "SUBJECT_SUFFIX = bstr ''~Subject~''"

definition push_component :: "path_buf \<Rightarrow> bytes \<Rightarrow> vfs_error + path_buf" where
  "push_component path component =
     (let component = unwrap_or component (strip_suffix SUBJECT_SUFFIX component) in
      if \<exists>b \<in> set component. b = 0 \<or> b = SLASH then Inl VBadParameter
      else if component = [0x2E] \<or> component = [0x2E, 0x2E] then Inl VBadParameter
      else Inr (path_push path component))"

definition map_file_path :: "path_buf \<Rightarrow> bytes option \<Rightarrow> bytes option \<Rightarrow> vfs_error + vfs_path" where
  "map_file_path disk_path folder file =
     and_then (case folder of None \<Rightarrow> Inr disk_path | Some c \<Rightarrow> push_component disk_path c) (\<lambda>path.
     and_then (case file of None \<Rightarrow> Inr path | Some c \<Rightarrow> push_component path c) (\<lambda>path.
       Inr \<lparr>vp_disk = disk_path, vp_path = path\<rparr>))"

definition join_str :: "path_buf \<Rightarrow> string \<Rightarrow> path_buf" where
  "join_str p s = path_push p (bstr s)"

definition mail_file_path :: "dir_manager \<Rightarrow> bytes option \<Rightarrow> bytes option \<Rightarrow> vfs_error + vfs_path" where
  "mail_file_path dm = map_file_path (join_str (dm_root_path dm) ''Mail'')"

definition company_disk :: "dir_manager \<Rightarrow> int \<Rightarrow> path_buf" where
  "company_disk dm company_id =
     path_push (join_str (join_str (dm_root_path dm) ''Sentry'') ''Companies'') (i64_to_string company_id)"

definition company_file_path :: "dir_manager \<Rightarrow> int \<Rightarrow> bytes option \<Rightarrow> bytes option \<Rightarrow> vfs_error + vfs_path" where
  "company_file_path dm company_id = map_file_path (join_str (company_disk dm company_id) ''Shared'')"

definition group_disk :: "dir_manager \<Rightarrow> int \<Rightarrow> int \<Rightarrow> path_buf" where
  "group_disk dm company_id group_id =
     path_push (join_str (company_disk dm company_id) ''Groups'') (i64_to_string group_id)"

definition group_file_path :: "dir_manager \<Rightarrow> int \<Rightarrow> int \<Rightarrow> bytes option \<Rightarrow> bytes option \<Rightarrow> vfs_error + vfs_path" where
  "group_file_path dm company_id group_id =
     map_file_path (join_str (group_disk dm company_id group_id) ''Shared'')"

definition user_file_path ::
  "dir_manager \<Rightarrow> int \<Rightarrow> int \<Rightarrow> int \<Rightarrow> bytes option \<Rightarrow> bytes option \<Rightarrow> vfs_error + vfs_path" where
  "user_file_path dm company_id group_id user_id =
     map_file_path (path_push (join_str (group_disk dm company_id group_id) ''Users'') (i64_to_string user_id))"

definition software_file_path :: "dir_manager \<Rightarrow> bytes option \<Rightarrow> bytes option \<Rightarrow> vfs_error + vfs_path" where
  "software_file_path dm = map_file_path (join_str (dm_root_path dm) ''Software'')"

definition server_file_path :: "dir_manager \<Rightarrow> bytes option \<Rightarrow> bytes option \<Rightarrow> vfs_error + vfs_path" where
  "server_file_path dm = map_file_path (join_str (dm_root_path dm) ''Server'')"

definition shared_file_path :: "dir_manager \<Rightarrow> bytes option \<Rightarrow> bytes option \<Rightarrow> vfs_error + vfs_path" where
  "shared_file_path dm = map_file_path (join_str (join_str (dm_root_path dm) ''Sentry'') ''Shared'')"

section \<open>File ids\<close>

definition read_file_id :: "xattr_api \<Rightarrow> host \<Rightarrow> path_buf \<Rightarrow> io_kind + u16 option" where
  "read_file_id xa h path =
     and_then (xattr_get xa h path XATTR_FILE_ID_KEY) (\<lambda>raw.
       case raw of
         None \<Rightarrow> Inr None
       | Some [a, b] \<Rightarrow> (let v = u16_of_le a b in if v = 0 then Inl InvalidData else Inr (Some v))
       | Some _ \<Rightarrow> Inl InvalidData)"

text \<open>
  The walk over a disk. \<open>fuel\<close> bounds the depth of the recursion; the deepest path of the host is
  enough, since every level goes one directory deeper.
\<close>

definition note_id :: "u16 option \<Rightarrow> id_map \<Rightarrow> id_map" where
  "note_id oid ids = (case oid of None \<Rightarrow> ids | Some i \<Rightarrow> id_map_set ids i)"

fun collect_entries ::
  "(path_buf \<Rightarrow> id_map \<Rightarrow> host \<Rightarrow> id_map host_result) \<Rightarrow> xattr_api \<Rightarrow> path_buf \<Rightarrow>
   (bytes \<times> node_kind) list \<Rightarrow> id_map \<Rightarrow> host \<Rightarrow> id_map host_result" where
  "collect_entries rec xa path [] ids h = (Inr ids, h)"
| "collect_entries rec xa path ((name, kind) # es) ids h =
     (let entry_path = path_push path name in
      if kind = DirNode
      then (case rec entry_path ids h of
              (Inl k, h) \<Rightarrow> (Inl k, h)
            | (Inr ids, h) \<Rightarrow> collect_entries rec xa path es ids h)
      else (case read_file_id xa h entry_path of
              Inl k \<Rightarrow> (Inl k, h)
            | Inr oid \<Rightarrow> collect_entries rec xa path es (note_id oid ids) h))"

fun collect_file_ids :: "nat \<Rightarrow> xattr_api \<Rightarrow> path_buf \<Rightarrow> id_map \<Rightarrow> host \<Rightarrow> id_map host_result" where
  "collect_file_ids 0 xa path ids h = (Inl OtherKind, h)"
| "collect_file_ids (Suc fuel) xa path ids h =
     (case read_file_id xa h path of
        Inl k \<Rightarrow> (Inl k, h)
      | Inr oid \<Rightarrow>
          (case fs_read_dir path h of
             (Inl k, h) \<Rightarrow> (Inl k, h)
           | (Inr entries, h) \<Rightarrow>
               collect_entries (collect_file_ids fuel xa) xa path entries (note_id oid ids) h))"

definition walk_fuel :: "host \<Rightarrow> nat" where
  "walk_fuel h = Suc (foldr (\<lambda>(p, n). max (length p)) (host_nodes h) 0)"

definition allocate_file_id ::
  "simd_ne \<Rightarrow> xattr_api \<Rightarrow> path_buf \<Rightarrow> path_buf \<Rightarrow> dir_manager \<Rightarrow> host \<Rightarrow>
   (vfs_error + u16) \<times> dir_manager \<times> host" where
  "allocate_file_id ne xa disk path dm h =
     (case read_file_id xa h path of
        Inl k \<Rightarrow> (Inl (vfs_error_from_io k), dm, h)
      | Inr (Some i) \<Rightarrow> (Inr i, dm, h)
      | Inr None \<Rightarrow>
          (case (case dm_file_ids dm disk of
                   Some ids \<Rightarrow> (Inr ids, h)
                 | None \<Rightarrow> collect_file_ids (walk_fuel h) xa disk (id_map_new TYPE(16)) h) of
             (Inl k, h) \<Rightarrow> (Inl (vfs_error_from_io k), dm, h)
           | (Inr ids, h) \<Rightarrow>
               (let dm = dm\<lparr>dm_file_ids := (dm_file_ids dm)(disk \<mapsto> ids)\<rparr> in
                case read_file_id xa h path of
                  Inl k \<Rightarrow> (Inl (vfs_error_from_io k), dm, h)
                | Inr (Some i) \<Rightarrow> (Inr i, dm, h)
                | Inr None \<Rightarrow>
                    (case id_map_find_free ne ids of
                       None \<Rightarrow> (Inl VDeviceFull, dm, h)
                     | Some i \<Rightarrow>
                         (case xattr_set xa h path XATTR_FILE_ID_KEY (u16_to_le i) of
                            (Inl k, h) \<Rightarrow> (Inl (vfs_error_from_io k), dm, h)
                          | (Inr _, h) \<Rightarrow>
                              (Inr i, dm\<lparr>dm_file_ids := (dm_file_ids dm)(disk \<mapsto> id_map_set ids i)\<rparr>, h))))))"

definition file_id ::
  "simd_ne \<Rightarrow> xattr_api \<Rightarrow> vfs_path \<Rightarrow> dir_manager \<Rightarrow> host \<Rightarrow> (vfs_error + u16) \<times> dir_manager \<times> host" where
  "file_id ne xa p dm h = allocate_file_id ne xa (vp_disk p) (vp_path p) dm h"

definition parent_file_id ::
  "simd_ne \<Rightarrow> xattr_api \<Rightarrow> vfs_path \<Rightarrow> dir_manager \<Rightarrow> host \<Rightarrow> (vfs_error + u16) \<times> dir_manager \<times> host" where
  "parent_file_id ne xa p dm h =
     (case path_parent (vp_path p) of
        None \<Rightarrow> (Inl VResourceUnavailable, dm, h)
      | Some parent \<Rightarrow>
          if \<not> path_starts_with parent (vp_disk p) then (Inl VResourceUnavailable, dm, h)
          else allocate_file_id ne xa (vp_disk p) parent dm h)"

section \<open>Lemmas: confinement\<close>

lemma push_component_Inr:
  assumes "push_component path c = Inr path'" "path \<noteq> []"
  shows "path' \<noteq> []" "resolve path' = resolve path \<or> (\<exists>x. plain_component x \<and> resolve path' = resolve path @ [x])"
proof -
  let ?c = "unwrap_or c (strip_suffix SUBJECT_SUFFIX c)"
  from assms(1) have c: "SLASH \<notin> set ?c" "?c \<noteq> [0x2E]" "?c \<noteq> [0x2E, 0x2E]"
    and p: "path' = path_push path ?c"
    by (auto simp: push_component_def Let_def split: if_splits)
  from p assms(2) show "path' \<noteq> []" by simp
  show "resolve path' = resolve path \<or> (\<exists>x. plain_component x \<and> resolve path' = resolve path @ [x])"
  proof (cases "?c = []")
    case True
    then show ?thesis using p resolve_push[of "[]" path] assms(2) by (simp add: resolve_step_def)
  next
    case False
    then have "plain_component ?c" using c by (simp add: plain_component_def)
    then show ?thesis using p resolve_push_plain[OF _ assms(2)] by blast
  qed
qed

text \<open>A mapped path lies at most two plain components below its disk.\<close>

lemma map_file_path_below:
  assumes "map_file_path disk folder file = Inr vp" "disk \<noteq> []"
  shows "vp_disk vp = disk \<and> (\<exists>cs. resolve (vp_path vp) = resolve disk @ cs \<and> length cs \<le> 2 \<and> (\<forall>c \<in> set cs. plain_component c))"
proof -
  obtain p1 p2 where p1: "(case folder of None \<Rightarrow> Inr disk | Some c \<Rightarrow> push_component disk c) = Inr p1"
    and p2: "(case file of None \<Rightarrow> Inr p1 | Some c \<Rightarrow> push_component p1 c) = Inr p2"
    and vp: "vp = \<lparr>vp_disk = disk, vp_path = p2\<rparr>"
    using assms(1) by (auto simp: map_file_path_def result_simps)
  have 1: "p1 \<noteq> [] \<and> (\<exists>cs. resolve p1 = resolve disk @ cs \<and> length cs \<le> 1 \<and> (\<forall>c \<in> set cs. plain_component c))"
  proof (cases folder)
    case None
    with p1 assms(2) show ?thesis by simp
  next
    case (Some c)
    with p1 push_component_Inr[of disk c p1] assms(2) show ?thesis by fastforce
  qed
  then obtain cs where cs: "resolve p1 = resolve disk @ cs" "length cs \<le> 1" "\<forall>c \<in> set cs. plain_component c"
    and ne: "p1 \<noteq> []" by blast
  have "\<exists>ds. resolve p2 = resolve p1 @ ds \<and> length ds \<le> 1 \<and> (\<forall>c \<in> set ds. plain_component c)"
  proof (cases "file")
    case None
    with p2 show ?thesis by simp
  next
    case (Some c)
    with p2 push_component_Inr[of p1 c p2] ne show ?thesis by fastforce
  qed
  then obtain ds where "resolve p2 = resolve p1 @ ds" "length ds \<le> 1" "\<forall>c \<in> set ds. plain_component c" by blast
  with cs have "resolve p2 = resolve disk @ (cs @ ds)" "length (cs @ ds) \<le> 2" "\<forall>c \<in> set (cs @ ds). plain_component c"
    by auto
  with vp show ?thesis by auto
qed

section \<open>Lemmas: the disks\<close>

lemma i64_to_string_plain: "plain_component (i64_to_string i)"
proof -
  have no: "b \<notin> set (digits n)" if "unat b < 48" for b n using digits_range[of b n] that by auto
  have "SLASH \<notin> set (digits n)" "0x2E \<notin> set (digits n)" for n
    by (rule no, simp add: SLASH_def)+
  moreover have "(0x2D :: byte) \<noteq> SLASH" by (simp add: SLASH_def)
  moreover have "digits n \<noteq> [0x2E]" "digits n \<noteq> [0x2E, 0x2E]" for n
    using \<open>\<And>n. 0x2E \<notin> set (digits n)\<close> by (metis list.set_intros(1))+
  ultimately show ?thesis
    using digits_nonempty by (auto simp: plain_component_def i64_to_string_def)
qed


text \<open>The virtual disks, and where they lie below the root.\<close>

datatype disk =
    MailDisk | SoftwareDisk | ServerDisk | SharedDisk
  | CompanyDisk int | GroupDisk int int | UserDisk int int int

primrec disk_file_path :: "dir_manager \<Rightarrow> disk \<Rightarrow> bytes option \<Rightarrow> bytes option \<Rightarrow> vfs_error + vfs_path" where
  "disk_file_path dm MailDisk = mail_file_path dm"
| "disk_file_path dm SoftwareDisk = software_file_path dm"
| "disk_file_path dm ServerDisk = server_file_path dm"
| "disk_file_path dm SharedDisk = shared_file_path dm"
| "disk_file_path dm (CompanyDisk c) = company_file_path dm c"
| "disk_file_path dm (GroupDisk c g) = group_file_path dm c g"
| "disk_file_path dm (UserDisk c g u) = user_file_path dm c g u"

definition company_components :: "int \<Rightarrow> bytes list" where
  "company_components c = [bstr ''Sentry'', bstr ''Companies'', i64_to_string c]"

primrec disk_components :: "disk \<Rightarrow> bytes list" where
  "disk_components MailDisk = [bstr ''Mail'']"
| "disk_components SoftwareDisk = [bstr ''Software'']"
| "disk_components ServerDisk = [bstr ''Server'']"
| "disk_components SharedDisk = [bstr ''Sentry'', bstr ''Shared'']"
| "disk_components (CompanyDisk c) = company_components c @ [bstr ''Shared'']"
| "disk_components (GroupDisk c g) = company_components c @ [bstr ''Groups'', i64_to_string g, bstr ''Shared'']"
| "disk_components (UserDisk c g u) =
     company_components c @ [bstr ''Groups'', i64_to_string g, bstr ''Users'', i64_to_string u]"

lemma plain_names [simp]:
  "plain_component (bstr ''Mail'')" "plain_component (bstr ''Sentry'')" "plain_component (bstr ''Companies'')"
  "plain_component (bstr ''Groups'')" "plain_component (bstr ''Users'')" "plain_component (bstr ''Shared'')"
  "plain_component (bstr ''Server'')" "plain_component (bstr ''Software'')"
  by (simp_all add: plain_component_def bstr_def SLASH_def)

lemma resolve_join_str: "plain_component (bstr s) \<Longrightarrow> p \<noteq> [] \<Longrightarrow> resolve (join_str p s) = resolve p @ [bstr s]"
  by (simp add: join_str_def resolve_push_plain)

lemma join_str_nonempty [simp]: "p \<noteq> [] \<Longrightarrow> join_str p s \<noteq> []"
  by (simp add: join_str_def)

lemmas disk_path_simps = mail_file_path_def software_file_path_def server_file_path_def
  shared_file_path_def company_file_path_def group_file_path_def user_file_path_def company_disk_def
  group_disk_def

lemma disk_file_path_below:
  assumes "disk_file_path dm d folder file = Inr vp" "dm_root_path dm \<noteq> []"
  shows "resolve (vp_disk vp) = resolve (dm_root_path dm) @ disk_components d \<and>
    (\<exists>cs. resolve (vp_path vp) = resolve (dm_root_path dm) @ disk_components d @ cs \<and> length cs \<le> 2 \<and>
       (\<forall>c \<in> set cs. plain_component c))"
proof -
  obtain disk where m: "map_file_path disk folder file = Inr vp" and ne: "disk \<noteq> []"
    and r: "resolve disk = resolve (dm_root_path dm) @ disk_components d"
    using assms
    by (cases d) (auto simp: disk_path_simps resolve_join_str resolve_push_plain i64_to_string_plain
        company_components_def)
  from map_file_path_below[OF m ne] r show ?thesis by auto
qed

lemma bstr_inj: "bstr s = bstr t \<longleftrightarrow> s = t"
proof -
  have "inj (\<lambda>c. of_nat (of_char c) :: byte)"
  proof (rule injI)
    fix c d :: char assume "(of_nat (of_char c) :: byte) = of_nat (of_char d)"
    then have "unat (of_nat (of_char c) :: byte) = unat (of_nat (of_char d) :: byte)" by simp
    then show "c = d" by (simp add: unat_of_nat_u8)
  qed
  then show ?thesis by (auto simp: bstr_def dest: inj_map_eq_map)
qed

text \<open>No disk lies inside another, and different accounts never share a user disk.\<close>

lemma disk_components_prefix_free:
  "disk_components d @ xs = disk_components d' @ ys \<Longrightarrow> d = d'"
  by (cases d; cases d') (auto simp: company_components_def bstr_inj inj_i64_to_string)

end
