(* ===== verification/Fs_Proxy.thy ===== *)
theory Fs_Proxy
  imports Vfs_Server Grid_File Grid_Descriptor Dir_Manager "HOL-Library.List_Lexorder"
begin

text \<open>
  \<^verbatim>\<open>Server/src/vfs/fsproxy.rs\<close>: the backend that maps GRiD paths to the virtual disks of the signed-on
  account and serves them from the host. Its state carries the directory manager and the host.
  \<open>zone\<close>, \<open>xa\<close> and \<open>ne\<close> are the third-party calls of the components below.
\<close>

section \<open>State\<close>

definition BUFFER_SIZE :: nat where "BUFFER_SIZE = 512"
definition PAGE_SIZE :: nat where "PAGE_SIZE = 512"
definition MAX_DIRECTORY_NAME_LENGTH :: nat where "MAX_DIRECTORY_NAME_LENGTH = 80"
definition FILE_SYSTEM_SUFFIX :: bytes where "FILE_SYSTEM_SUFFIX = bstr ''~FS~''"

definition RESOURCE_SUBJECTS :: "bytes list" where
  "RESOURCE_SUBJECTS = map bstr [''User Subjects'', ''Group Subjects'', ''Company Subjects'',
     ''Software Subjects'', ''Server Subjects'', ''Shared Subjects'']"

datatype mapped_path = MFile vfs_path | MDirectory vfs_path | MResources

record attachment_status =
  as_direction :: read_direction
  as_object_mode :: object_mode
  as_wildcard :: "bytes option"

record fs_attachment =
  fa_target :: mapped_path
  fa_access :: access_mode
  fa_position :: nat
  fa_listing :: "dir_entry list option"
  fa_status :: attachment_status

definition attachment_status_default :: attachment_status where
  "attachment_status_default =
     \<lparr>as_direction = DirectionForward, as_object_mode = ObjectByte, as_wildcard = None\<rparr>"

datatype fs_handle = HFile vfs_path grid_file | HDirectory vfs_path

record fs_proxy =
  fp_company_id :: int
  fp_group_id :: int
  fp_user_id :: int
  fp_dirman :: dir_manager
  fp_host :: host

section \<open>Mapping paths\<close>

definition map_gridpath :: "fs_proxy \<Rightarrow> grid_path \<Rightarrow> vfs_error + mapped_path" where
  "map_gridpath b path =
     (let pc = grid_path_components path in
      and_then (ok_or VResourceUnavailable (gp_device pc)) (\<lambda>device.
      let folder = gp_folder pc; fle = gp_file pc; dm = fp_dirman b in
      if device = bstr ''Name Device'' \<and> folder = Some (bstr ''Resources~Subject~'') then Inr MResources
      else
        and_then
          (if device = bstr ''Mail'' then mail_file_path dm folder fle
           else if device = bstr ''User Subjects''
           then user_file_path dm (fp_company_id b) (fp_group_id b) (fp_user_id b) folder fle
           else if device = bstr ''Group Subjects''
           then group_file_path dm (fp_company_id b) (fp_group_id b) folder fle
           else if device = bstr ''Company Subjects'' then company_file_path dm (fp_company_id b) folder fle
           else if device = bstr ''Software Subjects'' then software_file_path dm folder fle
           else if device = bstr ''Server Subjects'' then server_file_path dm folder fle
           else if device = bstr ''Shared Subjects'' then shared_file_path dm folder fle
           else Inl VResourceUnavailable)
          (\<lambda>real_path. Inr (if fle \<noteq> None then MFile real_path else MDirectory real_path))))"

section \<open>Directories and names\<close>

fun list_entries :: "(bytes \<times> node_kind) list \<Rightarrow> dir_entry list" where
  "list_entries [] = []"
| "list_entries ((name, kind) # es) =
     (let name = (if kind = DirNode then name @ SUBJECT_SUFFIX else name) in
      if kind = OtherNode then list_entries es
      else if length name > MAX_DIRECTORY_NAME_LENGTH then list_entries es
      else \<lparr>dir_entry_name = name\<rparr> # list_entries es)"

definition directory_entries :: "path_buf \<Rightarrow> host \<Rightarrow> (vfs_error + dir_entry list) \<times> host" where
  "directory_entries path h =
     (case fs_read_dir path h of
        (Inl k, h) \<Rightarrow> (Inl (vfs_error_from_io k), h)
      | (Inr raw, h) \<Rightarrow> (Inr (sort_key dir_entry_name (list_entries raw)), h))"

definition resource_entries :: "dir_entry list" where
  "resource_entries = map (\<lambda>s. \<lparr>dir_entry_name = s @ FILE_SYSTEM_SUFFIX\<rparr>) RESOURCE_SUBJECTS"

definition fs_file_name :: "path_buf \<Rightarrow> vfs_error + grid_file_name" where
  "fs_file_name path =
     and_then (ok_or VResourceUnavailable (path_file_name path)) (\<lambda>name.
       map_err (\<lambda>_. VBadParameter) (grid_file_name_new name))"

definition fs_directory_name :: "path_buf \<Rightarrow> vfs_error + grid_file_name" where
  "fs_directory_name path =
     and_then (ok_or VResourceUnavailable (path_file_name path)) (\<lambda>name.
       map_err (\<lambda>_. VBadParameter) (grid_file_name_new (name @ SUBJECT_SUFFIX)))"

definition creation_date :: "(nat \<Rightarrow> zoned option) \<Rightarrow> node \<Rightarrow> grid_date" where
  "creation_date zone md =
     (case nd_created md of None \<Rightarrow> grid_date_never | Some t \<Rightarrow> grid_date_from_system_time zone t)"

section \<open>The operations of the backend\<close>

definition fs_is_attachable ::
  "fs_proxy \<Rightarrow> grid_path \<Rightarrow> attach_mode \<Rightarrow> access_mode \<Rightarrow> (vfs_error + fs_attachment) \<times> fs_proxy" where
  "fs_is_attachable b path mode access =
     (case map_gridpath b path of
        Inl e \<Rightarrow> (Inl e, b)
      | Inr target \<Rightarrow>
          (case (case target of
                   MFile p \<Rightarrow>
                     (case path_parent (vp_path p) of
                        None \<Rightarrow> (Inl VResourceUnavailable, fp_host b)
                      | Some parent \<Rightarrow>
                          (case create_dir_all parent (fp_host b) of
                             (r, h) \<Rightarrow> (map_err vfs_error_from_io r, h)))
                 | MDirectory p \<Rightarrow>
                     (case create_dir_all (vp_path p) (fp_host b) of
                        (r, h) \<Rightarrow> (map_err vfs_error_from_io r, h))
                 | MResources \<Rightarrow> (Inr (), fp_host b)) of
             (Inl e, h) \<Rightarrow> (Inl e, b\<lparr>fp_host := h\<rparr>)
           | (Inr _, h) \<Rightarrow>
               (Inr \<lparr>fa_target = target, fa_access = access, fa_position = 0, fa_listing = None,
                     fa_status = attachment_status_default\<rparr>, b\<lparr>fp_host := h\<rparr>)))"

definition fs_open :: "fs_proxy \<Rightarrow> fs_attachment \<Rightarrow> (vfs_error + fs_handle) \<times> fs_attachment \<times> fs_proxy" where
  "fs_open b a =
     (case fa_target a of
        MFile p \<Rightarrow>
          (case open_create (vp_path p) (fp_host b) of
             (Inl k, h) \<Rightarrow> (Inl (vfs_error_from_io k), a, b\<lparr>fp_host := h\<rparr>)
           | (Inr d, h) \<Rightarrow>
               (case fs_file_name (vp_path p) of
                  Inl e \<Rightarrow> (Inl e, a, b\<lparr>fp_host := h\<rparr>)
                | Inr name \<Rightarrow>
                    (case from_file d name h of
                       (Inl e, h) \<Rightarrow> (Inl (vfs_error_from_io (io_error_from_grid e)), a, b\<lparr>fp_host := h\<rparr>)
                     | (Inr f, h) \<Rightarrow> (Inr (HFile p f), a, b\<lparr>fp_host := h\<rparr>))))
      | MDirectory p \<Rightarrow> (Inr (HDirectory p), a, b)
      | MResources \<Rightarrow> (Inl VAccessDenied, a, b))"

definition fs_close :: "fs_proxy \<Rightarrow> fs_handle \<Rightarrow> (vfs_error + unit) \<times> fs_handle \<times> fs_proxy" where
  "fs_close b fh = (Inr (), fh, b)"

text \<open>The result of a call on the GRiD file of a handle, put back into the handle and the state.\<close>

definition file_result ::
  "fs_proxy \<Rightarrow> vfs_path \<Rightarrow> ('e \<Rightarrow> io_kind) \<Rightarrow> ('e + 'a) \<times> grid_file \<times> host \<Rightarrow>
   (vfs_error + 'a) \<times> fs_handle \<times> fs_proxy" where
  "file_result b p conv res =
     (case res of (r, f, h) \<Rightarrow> (map_err (\<lambda>e. vfs_error_from_io (conv e)) r, HFile p f, b\<lparr>fp_host := h\<rparr>))"

definition fs_read :: "fs_proxy \<Rightarrow> fs_handle \<Rightarrow> nat \<Rightarrow> (vfs_error + bytes) \<times> fs_handle \<times> fs_proxy" where
  "fs_read b fh len =
     (if len \<ge> BUFFER_SIZE then (Inl VBadParameter, fh, b)
      else case fh of
        HFile p f \<Rightarrow> file_result b p id (gf_read len f (fp_host b))
      | HDirectory p \<Rightarrow> (Inl VAccessDenied, fh, b))"

definition fs_write :: "fs_proxy \<Rightarrow> fs_handle \<Rightarrow> bytes \<Rightarrow> (vfs_error + unit) \<times> fs_handle \<times> fs_proxy" where
  "fs_write b fh data =
     (case fh of
        HFile p f \<Rightarrow> file_result b p id (gf_write_all data f (fp_host b))
      | HDirectory p \<Rightarrow> (Inl VAccessDenied, fh, b))"

definition seek_from_mode :: "seek_mode \<Rightarrow> u32 \<Rightarrow> seek_from" where
  "seek_from_mode mode position =
     (case mode of
        SeekBackward \<Rightarrow> Current (- uint position)
      | SeekAbsolute \<Rightarrow> Start (unat position)
      | SeekForward \<Rightarrow> Current (uint position)
      | SeekFromEnd \<Rightarrow> End (- uint position))"

definition fs_seek :: "fs_proxy \<Rightarrow> fs_handle \<Rightarrow> seek_mode \<Rightarrow> u32 \<Rightarrow> (vfs_error + unit) \<times> fs_handle \<times> fs_proxy" where
  "fs_seek b fh mode position =
     (case fh of
        HFile p f \<Rightarrow>
          (case file_result b p id (gf_seek (seek_from_mode mode position) f (fp_host b)) of
             (r, fh', b') \<Rightarrow> (and_then r (\<lambda>_. Inr ()), fh', b'))
      | HDirectory p \<Rightarrow> (Inl VAccessDenied, fh, b))"

definition fs_truncate :: "fs_proxy \<Rightarrow> fs_handle \<Rightarrow> (vfs_error + unit) \<times> fs_handle \<times> fs_proxy" where
  "fs_truncate b fh =
     (case fh of
        HFile p f \<Rightarrow> file_result b p io_error_from_grid (gf_truncate f (fp_host b))
      | HDirectory p \<Rightarrow> (Inl VResourceUnavailable, fh, b))"

text \<open>\<open>File::flush\<close> does nothing: host files are unbuffered.\<close>

definition fs_flush :: "fs_proxy \<Rightarrow> fs_handle \<Rightarrow> (vfs_error + unit) \<times> fs_handle \<times> fs_proxy" where
  "fs_flush b fh =
     (case fh of HFile p f \<Rightarrow> (Inr (), fh, b) | HDirectory p \<Rightarrow> (Inl VAccessDenied, fh, b))"

definition file_descriptor ::
  "simd_ne \<Rightarrow> xattr_api \<Rightarrow> (nat \<Rightarrow> zoned option) \<Rightarrow> fs_proxy \<Rightarrow> vfs_path \<Rightarrow> grid_file \<Rightarrow>
   (vfs_error + grid_file_descriptor) \<times> fs_proxy" where
  "file_descriptor ne xa zone b p f =
     (case fd_metadata (gf_fd f) (fp_host b) of
        (Inl k, h) \<Rightarrow> (Inl (vfs_error_from_io k), b\<lparr>fp_host := h\<rparr>)
      | (Inr md, h) \<Rightarrow>
          (case body_length f h of
             (Inl k, h) \<Rightarrow> (Inl (vfs_error_from_io k), b\<lparr>fp_host := h\<rparr>)
           | (Inr n, h) \<Rightarrow>
               (case u32_try_from n of
                  None \<Rightarrow> (Inl VBadParameter, b\<lparr>fp_host := h\<rparr>)
                | Some file_length \<Rightarrow>
                    (case parent_file_id ne xa p (fp_dirman b) h of
                       (Inl e, dm, h) \<Rightarrow> (Inl e, b\<lparr>fp_host := h, fp_dirman := dm\<rparr>)
                     | (Inr i, dm, h) \<Rightarrow>
                         (let header = gf_header f in
                          (Inr (descriptor_default
                             \<lparr>ds_file_length := file_length, ds_file_name := gf_name f,
                              ds_creation_date := creation_date zone md, ds_dir_file_id := i,
                              ds_last_modified_date := grid_date_from_system_time zone (nd_modified md),
                              ds_expiration_date := grid_date_never,
                              ds_uses_8087 := hd_flags header AND 1,
                              ds_version1 := hd_version_major header,
                              ds_version2 := hd_version_minor header,
                              ds_version3 := hd_version_patch header,
                              ds_property_length := hd_property_length header\<rparr>),
                           b\<lparr>fp_host := h, fp_dirman := dm\<rparr>))))))"

definition directory_descriptor ::
  "simd_ne \<Rightarrow> xattr_api \<Rightarrow> (nat \<Rightarrow> zoned option) \<Rightarrow> fs_proxy \<Rightarrow> vfs_path \<Rightarrow>
   (vfs_error + grid_file_descriptor) \<times> fs_proxy" where
  "directory_descriptor ne xa zone b p =
     (case fs_metadata (vp_path p) (fp_host b) of
        (Inl k, h) \<Rightarrow> (Inl (vfs_error_from_io k), b\<lparr>fp_host := h\<rparr>)
      | (Inr md, h) \<Rightarrow>
          (case directory_entries (vp_path p) h of
             (Inl e, h) \<Rightarrow> (Inl e, b\<lparr>fp_host := h\<rparr>)
           | (Inr entries, h) \<Rightarrow>
               (let dir_length = (\<Sum>e\<leftarrow>entries. DIRECTORY_ENTRY_PREAMBLE_LEN + length (dir_entry_name e)) in
                case fs_directory_name (vp_path p) of
                  Inl e \<Rightarrow> (Inl e, b\<lparr>fp_host := h\<rparr>)
                | Inr name \<Rightarrow>
                    (case file_id ne xa p (fp_dirman b) h of
                       (Inl e, dm, h) \<Rightarrow> (Inl e, b\<lparr>fp_host := h, fp_dirman := dm\<rparr>)
                     | (Inr i, dm, h) \<Rightarrow>
                         (Inr (descriptor_default
                            \<lparr>ds_file_name := name, ds_creation_date := creation_date zone md,
                             ds_dir_file_id := i,
                             ds_last_modified_date := grid_date_from_system_time zone (nd_modified md),
                             ds_expiration_date := grid_date_never,
                             ds_dir_length := unwrap_or (- 1) (u32_try_from dir_length),
                             ds_dir_count := unwrap_or (- 1) (u16_try_from (length entries))\<rparr>),
                          b\<lparr>fp_host := h, fp_dirman := dm\<rparr>)))))"

definition fs_read_desc ::
  "simd_ne \<Rightarrow> xattr_api \<Rightarrow> (nat \<Rightarrow> zoned option) \<Rightarrow> fs_proxy \<Rightarrow> fs_handle \<Rightarrow> nat \<Rightarrow>
   (vfs_error + bytes) \<times> fs_handle \<times> fs_proxy" where
  "fs_read_desc ne xa zone b fh len =
     (case (case fh of HFile p f \<Rightarrow> file_descriptor ne xa zone b p f
            | HDirectory p \<Rightarrow> directory_descriptor ne xa zone b p) of
        (r, b) \<Rightarrow> (and_then r (\<lambda>desc. Inr (take len (descriptor_to_bytes desc))), fh, b))"

definition fs_write_desc :: "fs_proxy \<Rightarrow> fs_handle \<Rightarrow> bytes \<Rightarrow> (vfs_error + unit) \<times> fs_handle \<times> fs_proxy" where
  "fs_write_desc b fh descriptor = (Inr (), fh, b)"

definition fs_get_status ::
  "fs_proxy \<Rightarrow> fs_attachment \<Rightarrow> fs_handle option \<Rightarrow> (vfs_error + file_status) \<times> fs_handle option \<times> fs_proxy" where
  "fs_get_status b a fh =
     (case (case fh of
              Some (HFile p f) \<Rightarrow>
                (case u32_try_from (gf_body_pos f) of
                   None \<Rightarrow> (Inl VBadParameter, fp_host b)
                 | Some position \<Rightarrow>
                     (case body_length f (fp_host b) of
                        (Inl k, h) \<Rightarrow> (Inl (vfs_error_from_io k), h)
                      | (Inr n, h) \<Rightarrow>
                          (and_then (ok_or VBadParameter (u32_try_from n)) (\<lambda>len. Inr (True, position, len)), h)))
            | _ \<Rightarrow> (Inr (False, unwrap_or (- 1) (u32_try_from (fa_position a)), 0), fp_host b)) of
        (Inl e, h) \<Rightarrow> (Inl e, fh, b\<lparr>fp_host := h\<rparr>)
      | (Inr (seek, position, len), h) \<Rightarrow>
          (let num_pages = unwrap_or (- 1) (u16_try_from ((unat len + (PAGE_SIZE - 1)) div PAGE_SIZE)) in
           (Inr \<lparr>fs_access = fa_access a, fs_seek = seek, fs_file_position = position,
                 fs_file_length = len, fs_num_pages = num_pages, fs_num_pages_alloc = num_pages\<rparr>,
            fh, b\<lparr>fp_host := h\<rparr>)))"

fun apply_status_action :: "status_action \<Rightarrow> fs_attachment \<Rightarrow> fs_attachment" where
  "apply_status_action (ActSetDirection d) a = a\<lparr>fa_status := (fa_status a)\<lparr>as_direction := d\<rparr>\<rparr>"
| "apply_status_action (ActSetObjectMode m) a = a\<lparr>fa_status := (fa_status a)\<lparr>as_object_mode := m\<rparr>\<rparr>"
| "apply_status_action (ActSetWildcard p) a = a\<lparr>fa_status := (fa_status a)\<lparr>as_wildcard := Some p\<rparr>\<rparr>"
| "apply_status_action ActUnsupported a = a"

definition fs_set_status ::
  "fs_proxy \<Rightarrow> fs_attachment \<Rightarrow> fs_handle option \<Rightarrow> status_action list \<Rightarrow>
   (vfs_error + unit) \<times> fs_attachment \<times> fs_handle option \<times> fs_proxy" where
  "fs_set_status b a fh actions = (Inr (), fold apply_status_action actions a, fh, b)"

text \<open>The loop that fills a page: entries from the position on, while both limits allow.\<close>

fun fill_page :: "nat \<Rightarrow> nat \<Rightarrow> nat \<Rightarrow> dir_entry list \<Rightarrow> dir_entry list" where
  "fill_page max_entries max_bytes page_size [] = []"
| "fill_page 0 max_bytes page_size (e # es) = []"
| "fill_page (Suc k) max_bytes page_size (e # es) =
     (let entry_size = DIRECTORY_ENTRY_PREAMBLE_LEN + length (dir_entry_name e) in
      if page_size + entry_size > max_bytes then []
      else e # fill_page k max_bytes (page_size + entry_size) es)"

definition fs_read_dir_page ::
  "fs_proxy \<Rightarrow> fs_attachment \<Rightarrow> nat \<Rightarrow> nat \<Rightarrow> (vfs_error + dir_entry list) \<times> fs_attachment \<times> fs_proxy" where
  "fs_read_dir_page b a max_entries max_bytes =
     (case (case fa_listing a of
              Some l \<Rightarrow> (Inr l, fp_host b)
            | None \<Rightarrow>
                (case fa_target a of
                   MDirectory p \<Rightarrow> directory_entries (vp_path p) (fp_host b)
                 | MResources \<Rightarrow> (Inr resource_entries, fp_host b)
                 | MFile p \<Rightarrow> (Inl VNotSupported, fp_host b))) of
        (Inl e, h) \<Rightarrow> (Inl e, a, b\<lparr>fp_host := h\<rparr>)
      | (Inr listing, h) \<Rightarrow>
          (let page = fill_page max_entries max_bytes 0 (drop (fa_position a) listing) in
           (Inr page, a\<lparr>fa_listing := Some listing, fa_position := fa_position a + length page\<rparr>,
            b\<lparr>fp_host := h\<rparr>)))"

definition fs_backend ::
  "simd_ne \<Rightarrow> xattr_api \<Rightarrow> (nat \<Rightarrow> zoned option) \<Rightarrow> (fs_proxy, fs_attachment, fs_handle) backend" where
  "fs_backend ne xa zone =
     \<lparr>be_is_attachable = fs_is_attachable, be_open = fs_open, be_close = fs_close, be_read = fs_read,
      be_write = fs_write, be_seek = fs_seek, be_truncate = fs_truncate, be_flush = fs_flush,
      be_read_desc = fs_read_desc ne xa zone, be_write_desc = fs_write_desc,
      be_get_status = fs_get_status, be_set_status = fs_set_status, be_read_dir = fs_read_dir_page\<rparr>"


section \<open>Lemmas: pages\<close>

definition entries_ok :: "dir_entry list \<Rightarrow> bool" where
  "entries_ok es \<longleftrightarrow> (\<forall>e \<in> set es. length (dir_entry_name e) \<le> 80)"

definition fs_att_ok :: "fs_attachment \<Rightarrow> bool" where
  "fs_att_ok a \<longleftrightarrow> (case fa_listing a of None \<Rightarrow> True | Some l \<Rightarrow> entries_ok l)"

lemma list_entries_ok: "entries_ok (list_entries raw)"
  by (induction raw rule: list_entries.induct)
     (auto simp: entries_ok_def Let_def MAX_DIRECTORY_NAME_LENGTH_def)

lemma directory_entries_ok: "directory_entries p h = (Inr es, h') \<Longrightarrow> entries_ok es"
  using list_entries_ok
  by (auto simp: directory_entries_def entries_ok_def split: prod.splits sum.splits)

lemma resource_entries_ok: "entries_ok resource_entries"
  by (simp add: entries_ok_def resource_entries_def RESOURCE_SUBJECTS_def FILE_SYSTEM_SUFFIX_def)

lemma fill_page_prefix: "\<exists>rest. es = fill_page k n sz es @ rest"
  by (induction k n sz es rule: fill_page.induct) (auto simp: Let_def)

lemma fill_page_limits:
  "length (fill_page k n sz es) \<le> k"
  "sz \<le> n \<Longrightarrow> sz + (\<Sum>e\<leftarrow>fill_page k n sz es. 9 + length (dir_entry_name e)) \<le> n"
  by (induction k n sz es rule: fill_page.induct)
     (auto simp: Let_def DIRECTORY_ENTRY_PREAMBLE_LEN_def)

text \<open>A page with room for one entry of the longest name makes progress.\<close>

lemma fill_page_progress:
  "entries_ok es \<Longrightarrow> es \<noteq> [] \<Longrightarrow> 0 < k \<Longrightarrow> 89 \<le> n \<Longrightarrow> fill_page k n 0 es \<noteq> []"
  by (cases "(k, n, 0 :: nat, es)" rule: fill_page.cases)
     (auto simp: entries_ok_def Let_def DIRECTORY_ENTRY_PREAMBLE_LEN_def)

lemma fill_page_take: "fill_page k n sz es = take (length (fill_page k n sz es)) es"
  using fill_page_prefix[of es k n sz] by (metis append_eq_conv_conj)

lemma read_dir_page_facts:
  assumes "fs_read_dir_page b a k n = (Inr page, a', b')"
  obtains l where "fa_listing a' = Some l" "fa_listing a = Some l \<or> fa_listing a = None"
    "fs_att_ok a \<Longrightarrow> entries_ok l" "page = fill_page k n 0 (drop (fa_position a) l)"
    "fa_position a' = fa_position a + length page" "fa_target a' = fa_target a"
  using assms directory_entries_ok resource_entries_ok
  by (auto simp: fs_read_dir_page_def Let_def fs_att_ok_def split: option.splits prod.splits sum.splits
      mapped_path.splits)

lemma read_dir_page_cached:
  "fa_listing a = Some l \<Longrightarrow>
     fs_read_dir_page b a k n =
       (Inr (fill_page k n 0 (drop (fa_position a) l)),
        a\<lparr>fa_listing := Some l, fa_position := fa_position a + length (fill_page k n 0 (drop (fa_position a) l))\<rparr>,
        b\<lparr>fp_host := fp_host b\<rparr>)"
  by (simp add: fs_read_dir_page_def Let_def)

lemma fs_read_dir_page_ok: "fs_att_ok a \<Longrightarrow> fs_read_dir_page b a k n = (r, a', b') \<Longrightarrow> fs_att_ok a'"
  using directory_entries_ok resource_entries_ok
  by (auto simp: fs_read_dir_page_def Let_def fs_att_ok_def split: option.splits prod.splits sum.splits
      mapped_path.splits)

lemma apply_status_listing: "fa_listing (fold apply_status_action acts a) = fa_listing a"
proof (induction acts arbitrary: a)
  case (Cons x acts)
  then show ?case by (cases x) simp_all
qed simp

lemma fs_open_att: "fs_open b a = (r, a', b') \<Longrightarrow> a' = a"
  by (auto simp: fs_open_def split: mapped_path.splits prod.splits sum.splits)

text \<open>The backend keeps its side of the contract: its answers fit the lengths it is asked for.\<close>

interpretation fs: bounded_backend "fs_backend ne xa zone" fs_att_ok for ne xa zone
proof
  show "be_is_attachable (fs_backend ne xa zone) b p m ac = (Inr a, b') \<Longrightarrow> fs_att_ok a" for b p m ac a b'
    by (auto simp: fs_backend_def fs_is_attachable_def fs_att_ok_def split: sum.splits prod.splits)
  show "fs_att_ok a \<Longrightarrow> be_open (fs_backend ne xa zone) b a = (r, a', b') \<Longrightarrow> fs_att_ok a'" for b a r a' b'
    by (auto simp: fs_backend_def dest: fs_open_att)
  show "fs_att_ok a \<Longrightarrow> be_set_status (fs_backend ne xa zone) b a ho acts = (ru, a', ho', b') \<Longrightarrow> fs_att_ok a'"
    for b a ho acts ru a' ho' b'
    by (auto simp: fs_backend_def fs_set_status_def fs_att_ok_def apply_status_listing)
  show "fs_att_ok a \<Longrightarrow> be_read_dir (fs_backend ne xa zone) b a k n = (rd, a', b') \<Longrightarrow> fs_att_ok a'"
    for b a k n rd a' b'
    by (auto simp: fs_backend_def dest: fs_read_dir_page_ok)
  show "be_read (fs_backend ne xa zone) b h n = (Inr d, h', b') \<Longrightarrow> length d \<le> n" for b h n d h' b'
    by (auto simp: fs_backend_def fs_read_def file_result_def result_simps dest: gf_read_length
        split: if_splits fs_handle.splits prod.splits)
  show "be_read_desc (fs_backend ne xa zone) b h n = (Inr d, h', b') \<Longrightarrow> length d \<le> n" for b h n d h' b'
    by (auto simp: fs_backend_def fs_read_desc_def result_simps split: prod.splits)
  show "fs_att_ok a \<Longrightarrow> be_read_dir (fs_backend ne xa zone) b a k n = (Inr es, a', b') \<Longrightarrow>
      (\<Sum>e\<leftarrow>es. 9 + length (dir_entry_name e)) \<le> n \<and> (\<forall>e \<in> set es. length (dir_entry_name e) \<le> 80)"
    for b a k n es a' b'
  proof -
    assume ok: "fs_att_ok a" and r: "be_read_dir (fs_backend ne xa zone) b a k n = (Inr es, a', b')"
    then have "fs_read_dir_page b a k n = (Inr es, a', b')" by (simp add: fs_backend_def)
    then obtain l where l: "entries_ok l" "es = fill_page k n 0 (drop (fa_position a) l)"
      using read_dir_page_facts ok by metis
    have "set es \<subseteq> set l"
      using l(2) fill_page_prefix[of "drop (fa_position a) l" k n 0]
      by (metis in_set_dropD Un_iff set_append subsetI)
    with l show ?thesis using fill_page_limits(2)[of 0 n k] by (auto simp: entries_ok_def)
  qed
qed


section \<open>Properties: directory walks\<close>

text \<open>
  The pages a client gets from a sequence of requests. Each request meets its own backend state,
  since files may come and go between two pages.
\<close>

fun read_pages :: "nat \<Rightarrow> nat \<Rightarrow> fs_proxy list \<Rightarrow> fs_attachment \<Rightarrow> dir_entry list list" where
  "read_pages k n [] a = []"
| "read_pages k n (b # bs) a =
     (case fs_read_dir_page b a k n of
        (Inl e, a', b') \<Rightarrow> [] # read_pages k n bs a'
      | (Inr page, a', b') \<Rightarrow> page # read_pages k n bs a')"

text \<open>The limits the file service derives from the entry count a client asks for.\<close>

definition page_entries :: "u16 \<Rightarrow> nat" where
  "page_entries l = min (unat l) VFS_MAX_DIRECTORY_OBJECTS_PER_PAGE"

definition page_bytes :: "u16 \<Rightarrow> nat" where
  "page_bytes l = min (page_entries l * (DIRECTORY_ENTRY_PREAMBLE_LEN + VFS_MAX_FILE_NAME_LENGTH)) VFS_PAGE_SIZE"

lemma page_limits: "l \<noteq> 0 \<Longrightarrow> 0 < page_entries l \<and> 89 \<le> page_bytes l"
  by (simp add: page_entries_def page_bytes_def vfs_limits DIRECTORY_ENTRY_PREAMBLE_LEN_def
      unat_gt_0 min_def Suc_le_eq)

lemma fill_page_drop:
  "fill_page k n 0 (drop p l) @ drop (p + length (fill_page k n 0 (drop p l))) l = drop p l"
  using fill_page_take[of k n 0 "drop p l"] by (metis add.commute append_take_drop_id drop_drop)

lemma read_pages_cached:
  assumes "entries_ok l" "0 < k" "89 \<le> n"
  shows "fa_listing a = Some l \<Longrightarrow> length l - fa_position a \<le> length bs \<Longrightarrow>
    concat (read_pages k n bs a) = drop (fa_position a) l"
proof (induction bs arbitrary: a)
  case (Cons b bs)
  let ?page = "fill_page k n 0 (drop (fa_position a) l)"
  let ?a = "a\<lparr>fa_listing := Some l, fa_position := fa_position a + length ?page\<rparr>"
  have "entries_ok (drop (fa_position a) l)"
    using assms(1) by (auto simp: entries_ok_def dest: in_set_dropD)
  then have "fa_position a < length l \<Longrightarrow> ?page \<noteq> []" using fill_page_progress assms(2,3) by simp
  then have "length l - fa_position ?a \<le> length bs"
    using Cons.prems(2) by (cases "fa_position a < length l") (auto simp: Suc_le_eq neq_Nil_conv)
  then have "concat (read_pages k n bs ?a) = drop (fa_position a + length ?page) l"
    using Cons.IH[of ?a] by simp
  then show ?case using fill_page_drop by (simp add: read_dir_page_cached[OF Cons.prems(1)])
qed simp

text \<open>C15: a client that keeps asking for directory pages receives every entry of the listing exactly
  once and in name order, whatever non-zero count it asks for and whatever happens on the host
  between two requests: the pages concatenate to the listing taken by the first request.\<close>

theorem directory_walk_complete:
  assumes "l \<noteq> 0" "fa_listing a = None" "fa_position a = 0" "fa_target a = MDirectory p"
    "directory_entries (vp_path p) (fp_host b) = (Inr listing, h')" "length listing \<le> length bs"
  shows "concat (read_pages (page_entries l) (page_bytes l) (b # bs) a) = listing \<and>
    sorted (map dir_entry_name listing)"
proof -
  let ?k = "page_entries l" and ?n = "page_bytes l"
  let ?page = "fill_page ?k ?n 0 listing"
  let ?a = "a\<lparr>fa_listing := Some listing, fa_position := length ?page\<rparr>"
  have ok: "entries_ok listing" by (rule directory_entries_ok[OF assms(5)])
  have "concat (read_pages ?k ?n bs ?a) = drop (length ?page) listing"
    using read_pages_cached[OF ok, of ?k ?n ?a bs] page_limits[OF assms(1)] assms(6) by simp
  moreover have "fs_read_dir_page b a ?k ?n = (Inr ?page, ?a, b\<lparr>fp_host := h'\<rparr>)"
    using assms(2-5) by (simp add: fs_read_dir_page_def Let_def)
  moreover have "?page @ drop (length ?page) listing = listing"
    using fill_page_drop[of ?k ?n 0 listing] by simp
  ultimately have "concat (read_pages ?k ?n (b # bs) a) = listing" by simp
  moreover have "sorted (map dir_entry_name listing)"
    using assms(5) by (auto simp: directory_entries_def split: prod.splits sum.splits)
  ultimately show ?thesis by blast
qed

definition sample_dir :: vfs_path where
  "sample_dir = \<lparr>vp_disk = bstr ''/r'', vp_path = bstr ''/r''\<rparr>"

definition sample_proxy :: fs_proxy where
  "sample_proxy = \<lparr>fp_company_id = 1, fp_group_id = 2, fp_user_id = 3,
     fp_dirman = \<lparr>dm_root_path = bstr ''/r'', dm_file_ids = (\<lambda>_. None)\<rparr>,
     fp_host = \<lparr>host_nodes = [([bstr ''r''], \<lparr>nd_kind = DirNode, nd_data = [], nd_created = None, nd_modified = 0\<rparr>),
       ([bstr ''r'', bstr ''b''], \<lparr>nd_kind = DirNode, nd_data = [], nd_created = None, nd_modified = 0\<rparr>),
       ([bstr ''r'', bstr ''a~T~''], \<lparr>nd_kind = FileNode, nd_data = [], nd_created = None, nd_modified = 0\<rparr>)],
       host_script = [], host_now = 0, host_xattrs = []\<rparr>\<rparr>"

definition sample_attachment :: fs_attachment where
  "sample_attachment = \<lparr>fa_target = MDirectory sample_dir, fa_access = ShortDirectory, fa_position = 0,
     fa_listing = None, fa_status = attachment_status_default\<rparr>"

definition sample_listing :: "dir_entry list" where
  "sample_listing = [\<lparr>dir_entry_name = bstr ''a~T~''\<rparr>, \<lparr>dir_entry_name = bstr ''b~Subject~''\<rparr>]"

theorem directory_walk_complete_witness:
  "directory_entries (vp_path sample_dir) (fp_host sample_proxy) = (Inr sample_listing, fp_host sample_proxy) \<and>
   concat (read_pages (page_entries 1) (page_bytes 1) (sample_proxy # [sample_proxy, sample_proxy]) sample_attachment)
     = sample_listing \<and> sorted (map dir_entry_name sample_listing)"
proof -
  have d: "directory_entries (vp_path sample_dir) (fp_host sample_proxy) = (Inr sample_listing, fp_host sample_proxy)"
    by code_simp
  have l: "length sample_listing \<le> length [sample_proxy, sample_proxy]" by (simp add: sample_listing_def)
  have a: "fa_listing sample_attachment = None" "fa_position sample_attachment = 0"
    "fa_target sample_attachment = MDirectory sample_dir" by (simp_all add: sample_attachment_def)
  have "(1 :: u16) \<noteq> 0" by simp
  from directory_walk_complete[OF this a d l] d show ?thesis by blast
qed


section \<open>Properties: confinement\<close>

text \<open>The disks a session of an account may reach.\<close>

definition account_disks :: "fs_proxy \<Rightarrow> disk set" where
  "account_disks b = {MailDisk, SoftwareDisk, ServerDisk, SharedDisk, CompanyDisk (fp_company_id b),
     GroupDisk (fp_company_id b) (fp_group_id b),
     UserDisk (fp_company_id b) (fp_group_id b) (fp_user_id b)}"

primrec mapped_vfs_path :: "mapped_path \<Rightarrow> vfs_path option" where
  "mapped_vfs_path (MFile p) = Some p"
| "mapped_vfs_path (MDirectory p) = Some p"
| "mapped_vfs_path MResources = None"

lemma map_gridpath_disk:
  assumes "map_gridpath b path = Inr target" "mapped_vfs_path target = Some vp"
  shows "\<exists>d \<in> account_disks b. \<exists>folder fle. disk_file_path (fp_dirman b) d folder fle = Inr vp"
proof -
  let ?dm = "fp_dirman b" and ?fo = "gp_folder (grid_path_components path)"
    and ?fi = "gp_file (grid_path_components path)"
  have "mail_file_path ?dm ?fo ?fi = Inr vp \<or> software_file_path ?dm ?fo ?fi = Inr vp \<or>
      server_file_path ?dm ?fo ?fi = Inr vp \<or> shared_file_path ?dm ?fo ?fi = Inr vp \<or>
      company_file_path ?dm (fp_company_id b) ?fo ?fi = Inr vp \<or>
      group_file_path ?dm (fp_company_id b) (fp_group_id b) ?fo ?fi = Inr vp \<or>
      user_file_path ?dm (fp_company_id b) (fp_group_id b) (fp_user_id b) ?fo ?fi = Inr vp"
    using assms by (auto simp: map_gridpath_def Let_def result_simps split: if_splits)
  then show ?thesis
    unfolding account_disks_def using disk_file_path.simps[of ?dm] by (auto; metis)
qed

text \<open>C4: a session reaches only the virtual disks of its own account: the host path any GRiD path is
  mapped to, as the host resolves it, lies at most two plain components (no separators, no parent or
  current directory) below one of the seven disks of the account.\<close>

theorem session_paths_confined:
  assumes "dm_root_path (fp_dirman b) \<noteq> []"
    "map_gridpath b path = Inr target" "mapped_vfs_path target = Some vp"
  shows "\<exists>d cs. d \<in> account_disks b \<and> length cs \<le> 2 \<and> list_all plain_component cs \<and>
    resolve (vp_path vp) = resolve (dm_root_path (fp_dirman b)) @ disk_components d @ cs"
proof -
  obtain d folder fle where d: "d \<in> account_disks b" "disk_file_path (fp_dirman b) d folder fle = Inr vp"
    using map_gridpath_disk[OF assms(2,3)] by blast
  from disk_file_path_below[OF d(2) assms(1)] d(1) show ?thesis by (auto simp: list_all_iff)
qed

theorem session_paths_confined_witness:
  "\<exists>vp. map_gridpath sample_proxy (bstr ''`s:User Subjects`x~Subject~`f~T~'') = Inr (MFile vp) \<and>
    (\<exists>d cs. d \<in> account_disks sample_proxy \<and> length cs \<le> 2 \<and> list_all plain_component cs \<and>
       resolve (vp_path vp) = resolve (dm_root_path (fp_dirman sample_proxy)) @ disk_components d @ cs)"
proof -
  have "case map_gridpath sample_proxy (bstr ''`s:User Subjects`x~Subject~`f~T~'') of Inr (MFile vp) \<Rightarrow> True | _ \<Rightarrow> False"
    by code_simp
  then obtain vp where vp: "map_gridpath sample_proxy (bstr ''`s:User Subjects`x~Subject~`f~T~'') = Inr (MFile vp)"
    by (auto split: sum.splits mapped_path.splits)
  have "dm_root_path (fp_dirman sample_proxy) \<noteq> []" by (simp add: sample_proxy_def bstr_def)
  from session_paths_confined[OF this vp] vp show ?thesis by simp
qed

text \<open>The user disks of different accounts are disjoint on the host: what one session's paths
  resolve to on its own user disk is never the same object as, nor inside, what another account's
  session reaches on any of its disks.\<close>

lemma user_disks_isolated:
  assumes "dm_root_path dm \<noteq> []"
    "user_file_path dm c g u folder fle = Inr vp"
    "disk_file_path dm d folder' fle' = Inr vp'" "d \<noteq> UserDisk c g u"
  shows "resolve (vp_path vp) \<noteq> resolve (vp_path vp') \<and>
    (\<forall>xs. resolve (vp_path vp) \<noteq> resolve (vp_path vp') @ xs \<and> resolve (vp_path vp') \<noteq> resolve (vp_path vp) @ xs)"
proof -
  have "disk_file_path dm (UserDisk c g u) folder fle = Inr vp" using assms(2) by simp
  from disk_file_path_below[OF this assms(1)] obtain cs where
    cs: "resolve (vp_path vp) = resolve (dm_root_path dm) @ disk_components (UserDisk c g u) @ cs" by blast
  from disk_file_path_below[OF assms(3,1)] obtain ds where
    ds: "resolve (vp_path vp') = resolve (dm_root_path dm) @ disk_components d @ ds" by blast
  have ne: "disk_components (UserDisk c g u) @ xs \<noteq> disk_components d @ ys" for xs ys
    using disk_components_prefix_free assms(4) by metis
  have "\<forall>xs. resolve (vp_path vp) \<noteq> resolve (vp_path vp') @ xs \<and> resolve (vp_path vp') \<noteq> resolve (vp_path vp) @ xs"
    using ne unfolding cs ds by (metis append_assoc same_append_eq)
  then show ?thesis by (metis append_Nil2)
qed

lemma user_disks_isolated_witness:
  "\<exists>vp vp'. user_file_path (fp_dirman sample_proxy) 1 2 3 (Some (bstr ''x'')) None = Inr vp \<and>
     disk_file_path (fp_dirman sample_proxy) (UserDisk 1 2 33) None None = Inr vp' \<and>
     resolve (vp_path vp) \<noteq> resolve (vp_path vp')"
proof -
  let ?dm = "fp_dirman sample_proxy"
  have root: "dm_root_path ?dm \<noteq> []" by (simp add: sample_proxy_def bstr_def)
  have "is_ok (user_file_path ?dm 1 2 3 (Some (bstr ''x'')) None)" by code_simp
  then obtain vp where vp: "user_file_path ?dm 1 2 3 (Some (bstr ''x'')) None = Inr vp" by (auto simp: is_ok_iff)
  obtain vp' where vp': "disk_file_path ?dm (UserDisk 1 2 33) None None = Inr vp'"
    by (simp add: user_file_path_def map_file_path_def)
  have "UserDisk 1 2 33 \<noteq> UserDisk 1 2 3" by simp
  from user_disks_isolated[OF root vp vp' this] vp vp' show ?thesis by blast
qed

section \<open>Properties: the file service on this backend\<close>

text \<open>C20: every answer of the file service can be put on the wire: on this backend, after any run
  of requests and whatever happened on the host in between, the response to any further request is
  at most 514 bytes long and its names at most 80, so writing it never fails.\<close>

theorem vfs_responses_always_fit:
  "is_ok (vfs_response_write_into
     (fst (vfs_process_request ne (fs_backend ne xa zone)
             ((vfs_run ne (fs_backend ne xa zone) (vfs_new b0) steps)\<lparr>vfs_backend := b\<rparr>) req)) dst)"
  by (rule fs.run_fits)

lemma fs_close_never_fails: "close_never_fails (fs_backend ne xa zone)"
  by (simp add: close_never_fails_def fs_backend_def fs_close_def)

text \<open>C5: the file service implements the connection table it promises: with any backend, every
  request is a step of the contract (an attach answers with a non-zero id that was free, an open needs
  an attached and unopened connection, reads and writes need an open one, everything else leaves the
  table as it was), and the bitmap invariant is kept.\<close>

theorem vfs_refines_connection_table:
  assumes "simd_ne_spec ne" "vfs_inv s" "vfs_process_request ne B s req = (resp, s')"
  shows "vfs_inv s' \<and> conn_step (conn_table s) req (vfs_response_header_of resp) (conn_table s')"
  using vfs_step_ok[OF assms] by (simp add: step_ok_def)

text \<open>A backend for evaluation: attributes as the host stores them, and no time zone data.\<close>

definition sample_backend :: "(fs_proxy, fs_attachment, fs_handle) backend" where
  "sample_backend = fs_backend simd_ne_ref xattr_ref (\<lambda>_. None)"

definition sample_attach :: vfs_request where
  "sample_attach =
     \<lparr>vr_header = \<lparr>vh_request = 8, vh_requestors_conn_id = 5, vh_servers_conn_id = 0\<rparr>,
      vr_body = BAttach OldFile ShortDirectory (replicate 17 0) (bstr ''`s:Mail'')\<rparr>"

theorem vfs_refines_connection_table_witness:
  "\<exists>resp s'. vfs_process_request simd_ne_ref sample_backend (vfs_new sample_proxy) sample_attach = (resp, s') \<and>
     vfs_inv s' \<and> conn_step (\<lambda>_. Detached) sample_attach (vfs_response_header_of resp) (conn_table s')"
proof -
  let ?B = sample_backend
  obtain resp s' where r: "vfs_process_request simd_ne_ref ?B (vfs_new sample_proxy) sample_attach = (resp, s')"
    by fastforce
  from vfs_refines_connection_table[OF simd_ne_ref_spec vfs_new_ok(1) r] r
  show ?thesis by (auto simp: vfs_new_ok(3))
qed

text \<open>C14: requests on one connection never disturb another: the attached file, its handle and its
  position of every other connection are exactly as before, an attach included.\<close>

theorem vfs_connections_isolated:
  assumes "simd_ne_spec ne" "vfs_inv s" "vfs_process_request ne B s req = (resp, s')"
    "vfs_files s i = Some f" "i \<noteq> vh_servers_conn_id (vr_header req)"
  shows "vfs_files s' i = Some f"
  using vfs_step_ok[OF assms(1-3)] assms(4,5) by (auto simp: step_ok_def)

definition sample_vfs :: "(fs_proxy, fs_attachment, fs_handle) vfs" where
  "sample_vfs = \<lparr>vfs_backend = sample_proxy, vfs_connection_ids = id_map_set (id_map_new TYPE(16)) (7 :: u16),
     vfs_files = [7 \<mapsto> \<lparr>vf_attachment = sample_attachment, vf_handle = None\<rparr>]\<rparr>"

lemma sample_vfs_inv: "vfs_inv sample_vfs"
  using wf_new[where 'a = 16] by (simp add: vfs_inv_def sample_vfs_def used_set used_new)

theorem vfs_connections_isolated_witness:
  "vfs_inv sample_vfs \<and>
   vfs_files (snd (vfs_process_request simd_ne_ref sample_backend sample_vfs sample_attach)) 7
     = Some \<lparr>vf_attachment = sample_attachment, vf_handle = None\<rparr>"
proof -
  let ?B = sample_backend
  obtain resp s' where r: "vfs_process_request simd_ne_ref ?B sample_vfs sample_attach = (resp, s')" by fastforce
  have "vfs_files sample_vfs 7 = Some \<lparr>vf_attachment = sample_attachment, vf_handle = None\<rparr>"
    "7 \<noteq> vh_servers_conn_id (vr_header sample_attach)"
    by (simp_all add: sample_vfs_def sample_attach_def)
  from vfs_connections_isolated[OF simd_ne_ref_spec sample_vfs_inv r this] r sample_vfs_inv
  show ?thesis by simp
qed

text \<open>C21: connection ids are never lost: after any run on this backend, the service refuses an attach
  for want of ids exactly when all 65535 of them are attached.\<close>

theorem vfs_ids_never_leak:
  assumes "simd_ne_spec ne"
  shows "id_map_find_free ne (vfs_connection_ids (vfs_run ne (fs_backend ne xa zone) (vfs_new b) steps)) = (None :: u16 option)
    \<longleftrightarrow> dom (vfs_files (vfs_run ne (fs_backend ne xa zone) (vfs_new b) steps)) = {i. i \<noteq> 0}"
proof -
  let ?s = "vfs_run ne (fs_backend ne xa zone) (vfs_new b) steps"
  have "vfs_no_leak ?s" by (rule vfs_run_no_leak[OF assms fs_close_never_fails vfs_new_ok(2)])
  then have "id_map_wf TYPE(16) (vfs_connection_ids ?s)" "dom (vfs_files ?s) = id_map_used (vfs_connection_ids ?s)"
    by (simp_all add: vfs_no_leak_def)
  with find_free_None_iff[OF assms this(1)] show ?thesis by simp
qed

theorem vfs_ids_never_leak_witness:
  "id_map_find_free simd_ne_ref (vfs_connection_ids (vfs_run simd_ne_ref sample_backend
      (vfs_new sample_proxy) [(sample_proxy, sample_attach)])) = (None :: u16 option)
    \<longleftrightarrow> dom (vfs_files (vfs_run simd_ne_ref sample_backend
      (vfs_new sample_proxy) [(sample_proxy, sample_attach)])) = {i. i \<noteq> 0}"
  unfolding sample_backend_def by (rule vfs_ids_never_leak[OF simd_ne_ref_spec])

text \<open>A path with no file, or with an empty one.\<close>

definition empty_at :: "host \<Rightarrow> host_path \<Rightarrow> bool" where
  "empty_at h q \<longleftrightarrow> (case host_node h q of None \<Rightarrow> True | Some n \<Rightarrow> nd_data n = [])"

lemma open_create_empty:
  assumes "open_create p h = (Inr d, h')" "empty_at h (resolve p)"
  shows "fd_pos d = 0 \<and> nd_data (fd_node h' d) = []"
proof -
  obtain ev h0 where ev: "next_event h = (ev, h0)" by fastforce
  with assms next_event_node[OF ev] show ?thesis
    by (cases ev) (auto simp: open_create_def syscall_def Let_def empty_at_def fd_node_def new_node_def split: if_splits)
qed

lemma open_create_new:
  assumes "next_event h = (ev, h0)" "\<forall>k. ev \<noteq> Fail k" "host_node h (resolve p) = None" "resolve p \<noteq> []" "is_dir h (butlast (resolve p))"
  shows "open_create p h = (Inr \<lparr>fd_path = resolve p, fd_pos = 0\<rparr>, put_node (resolve p) (new_node FileNode h0) h0)"
proof -
  note same = next_event_node[OF assms(1)]
  have "\<not> is_dir h0 (resolve p)" "is_dir h0 (butlast (resolve p))" using assms(3-5) same by (simp_all add: is_dir_def)
  then show ?thesis using assms(1-3) same by (cases ev) (auto simp: open_create_def syscall_def Let_def)
qed

lemma fs_open_empty:
  assumes "fa_target a = MFile p" "empty_at (fp_host b) (resolve (vp_path p))"
  shows "\<exists>e b'. fs_open b a = (Inl e, a, b')"
proof (cases "fst (open_create (vp_path p) (fp_host b))")
  case (Inl k)
  then show ?thesis by (cases "open_create (vp_path p) (fp_host b)") (auto simp: fs_open_def assms(1))
next
  case (Inr d)
  then obtain h where o: "open_create (vp_path p) (fp_host b) = (Inr d, h)"
    by (cases "open_create (vp_path p) (fp_host b)") auto
  have "\<exists>k h'. from_file d name h = (Inl (GIo k), h')" for name
    using from_file_empty open_create_empty[OF o assms(2)] by blast
  then obtain k h' where f: "from_file d (projr (fs_file_name (vp_path p))) h = (Inl (GIo k), h')" by blast
  show ?thesis using f by (cases "fs_file_name (vp_path p)") (simp_all add: fs_open_def assms(1) o)
qed

lemma fs_open_nodes:
  assumes "fa_target a = MFile p" "open_create (vp_path p) (fp_host b) = (Inr d, h)" "fs_open b a = (r, a', b')"
  shows "host_nodes (fp_host b') = host_nodes h"
  using assms by (auto simp: fs_open_def split: sum.splits prod.splits dest: from_file_nodes(1))

text \<open>C40: a file that does not exist yet cannot be opened: whatever the host does, the open fails and leaves
  the attachment as it was. When its directory exists and the host carries out the first call, the open
  leaves an empty file at the path and changes no other object of the host, and every later open of it
  fails as well, because an empty file has no header; on a host that carries out every call the error of
  a file with a valid name is the unexpected end of the file.\<close>

theorem open_of_new_file_fails:
  assumes "fa_target a = MFile p" "host_node (fp_host b) (resolve (vp_path p)) = None"
  shows "\<exists>e b'. fs_open b a = (Inl e, a, b') \<and>
    (resolve (vp_path p) \<noteq> [] \<longrightarrow> is_dir (fp_host b) (butlast (resolve (vp_path p))) \<longrightarrow> (\<forall>k. fst (next_event (fp_host b)) \<noteq> Fail k) \<longrightarrow>
       (\<exists>n. host_node (fp_host b') = (host_node (fp_host b))(resolve (vp_path p) \<mapsto> n) \<and>
            nd_kind n = FileNode \<and> nd_data n = []) \<and>
       (\<forall>script. \<exists>e' b''. fs_open (b'\<lparr>fp_host := (fp_host b')\<lparr>host_script := script\<rparr>\<rparr>) a = (Inl e', a, b'')) \<and>
       (host_script (fp_host b) = [] \<longrightarrow> is_ok (fs_file_name (vp_path p)) \<longrightarrow>
          e = vfs_error_from_io UnexpectedEofKind))"
proof -
  let ?q = "resolve (vp_path p)" and ?h = "fp_host b"
  obtain e b' where o: "fs_open b a = (Inl e, a, b')" using fs_open_empty[OF assms(1), of b] assms(2) by (auto simp: empty_at_def)
  obtain ev h0 where ev: "next_event ?h = (ev, h0)" by fastforce
  have "(\<exists>n. host_node (fp_host b') = (host_node ?h)(?q \<mapsto> n) \<and> nd_kind n = FileNode \<and> nd_data n = []) \<and>
      (\<forall>script. \<exists>e' b''. fs_open (b'\<lparr>fp_host := (fp_host b')\<lparr>host_script := script\<rparr>\<rparr>) a = (Inl e', a, b'')) \<and>
      (host_script ?h = [] \<longrightarrow> is_ok (fs_file_name (vp_path p)) \<longrightarrow> e = vfs_error_from_io UnexpectedEofKind)"
    if root: "?q \<noteq> []" and d: "is_dir ?h (butlast ?q)" and proceeds: "\<forall>k. ev \<noteq> Fail k"
  proof -
    let ?n = "new_node FileNode h0" and ?d = "\<lparr>fd_path = ?q, fd_pos = 0\<rparr>"
    let ?h1 = "put_node ?q ?n h0"
    note c = open_create_new[OF ev proceeds assms(2) root d]
    have "host_node (fp_host b') = host_node ?h1"
      by (rule ext) (simp add: host_node_def fs_open_nodes[OF assms(1) c o] del: host_node_put)
    then have node: "host_node (fp_host b') = (host_node ?h)(?q \<mapsto> ?n)" using next_event_node[OF ev] by simp
    have "empty_at ((fp_host b')\<lparr>host_script := script\<rparr>) ?q" for script
      using fun_cong[OF node, of ?q] by (simp add: empty_at_def host_node_def new_node_def)
    then have again: "\<exists>e' b''. fs_open (b'\<lparr>fp_host := (fp_host b')\<lparr>host_script := script\<rparr>\<rparr>) a = (Inl e', a, b'')" for script
      by (intro fs_open_empty[OF assms(1)]) simp
    have eof: "e = vfs_error_from_io UnexpectedEofKind" if s: "host_script ?h = []" and i: "is_ok (fs_file_name (vp_path p))"
    proof -
      obtain name where name: "fs_file_name (vp_path p) = Inr name" using i by (auto simp: is_ok_iff)
      have "host_script ?h1 = []" using ev s by (simp add: next_event_def put_node_def)
      then obtain h' where "from_file ?d name ?h1 = (Inl (GIo UnexpectedEofKind), h')"
        using from_file_empty[of ?d ?h1 name] by (auto simp: fd_node_def new_node_def)
      then show ?thesis using o c name by (simp add: fs_open_def assms(1))
    qed
    have "nd_kind ?n = FileNode" "nd_data ?n = []" by (simp_all add: new_node_def)
    with node again eof show ?thesis by blast
  qed
  with o ev show ?thesis by auto
qed

definition sample_new_file :: fs_attachment where
  "sample_new_file = sample_attachment\<lparr>fa_target := MFile \<lparr>vp_disk = bstr ''/r'', vp_path = bstr ''/r/n~T~''\<rparr>\<rparr>"

theorem open_of_new_file_fails_witness:
  "host_node (fp_host sample_proxy) (resolve (bstr ''/r/n~T~'')) = None \<and>
   (\<exists>b' n. fs_open sample_proxy sample_new_file = (Inl (vfs_error_from_io UnexpectedEofKind), sample_new_file, b') \<and>
      host_node (fp_host b') [bstr ''r'', bstr ''n~T~''] = Some n \<and> nd_kind n = FileNode \<and> nd_data n = [] \<and>
      (\<exists>e b''. fs_open b' sample_new_file = (Inl e, sample_new_file, b'')))"
proof -
  let ?p = "\<lparr>vp_disk = bstr ''/r'', vp_path = bstr ''/r/n~T~''\<rparr>"
  have n: "host_node (fp_host sample_proxy) (resolve (bstr ''/r/n~T~'')) = None" by code_simp
  have q: "resolve (bstr ''/r/n~T~'') = [bstr ''r'', bstr ''n~T~'']" by code_simp
  have d: "is_dir (fp_host sample_proxy) (butlast (resolve (bstr ''/r/n~T~'')))" by code_simp
  have i: "is_ok (fs_file_name (bstr ''/r/n~T~''))" by code_simp
  have s: "host_script (fp_host sample_proxy) = []" by (simp add: sample_proxy_def)
  then have ev: "\<forall>k. fst (next_event (fp_host sample_proxy)) \<noteq> Fail k" by (simp add: next_event_def)
  have t: "fa_target sample_new_file = MFile ?p" by (simp add: sample_new_file_def)
  obtain e b' m where o: "fs_open sample_proxy sample_new_file = (Inl e, sample_new_file, b')"
    and m: "host_node (fp_host b') = (host_node (fp_host sample_proxy))(resolve (bstr ''/r/n~T~'') \<mapsto> m)"
      "nd_kind m = FileNode" "nd_data m = []"
    and again: "\<exists>e' b''. fs_open (b'\<lparr>fp_host := (fp_host b')\<lparr>host_script := host_script (fp_host b')\<rparr>\<rparr>) sample_new_file =
      (Inl e', sample_new_file, b'')"
    and e: "e = vfs_error_from_io UnexpectedEofKind"
    using open_of_new_file_fails[OF t] n d i s ev q by (metis vfs_path.select_convs(2) list.discI)
  have "host_node (fp_host b') [bstr ''r'', bstr ''n~T~''] = Some m" using m(1) q by simp
  with o m(2,3) again e n show ?thesis by auto
qed

end
