(* ===== verification/Fs_Confinement.thy ===== *)
theory Fs_Confinement
  imports Fs_Proxy
begin

text \<open>
  What a session can do to the host through the file service (\<^verbatim>\<open>Server/src/vipc/vfs/mod.rs\<close> over
  \<^verbatim>\<open>Server/src/vfs/fsproxy.rs\<close>). The locale \<open>confined_backend\<close> is the contract between the two: each
  backend operation keeps an invariant of the backend state, of the attachments and of the open
  handles, and changes the state only within a relation. The service then does so request by request.
  The file system backend is an instance: its relation lets the host change only on the disks of the
  account the session belongs to.
\<close>

section \<open>The contract\<close>

definition keeps_handle ::
  "('b \<Rightarrow> bool) \<Rightarrow> ('b \<Rightarrow> 'b \<Rightarrow> bool) \<Rightarrow> ('h \<Rightarrow> bool) \<Rightarrow> ('b \<Rightarrow> 'h \<Rightarrow> 'r \<times> 'h \<times> 'b) \<Rightarrow> bool" where
  "keeps_handle I R H f \<longleftrightarrow> (\<forall>b h r h' b'. I b \<longrightarrow> H h \<longrightarrow> f b h = (r, h', b') \<longrightarrow> R b b' \<and> H h')"

lemma keeps_handleD: "keeps_handle I R H f \<Longrightarrow> I b \<Longrightarrow> H h \<Longrightarrow> f b h = (r, h', b') \<Longrightarrow> R b b' \<and> H h'"
  by (auto simp: keeps_handle_def)

locale confined_backend =
  fixes B :: "('b, 'a, 'h) backend" and I :: "'b \<Rightarrow> bool" and R :: "'b \<Rightarrow> 'b \<Rightarrow> bool"
    and J :: "'a \<Rightarrow> bool" and H :: "'h \<Rightarrow> bool"
  assumes R_refl: "I b \<Longrightarrow> R b b"
    and R_inv: "I b \<Longrightarrow> R b b' \<Longrightarrow> I b'"
    and attachable: "I b \<Longrightarrow> be_is_attachable B b p m ac = (ra, b') \<Longrightarrow> R b b' \<and> (\<forall>a. ra = Inr a \<longrightarrow> J a)"
    and open_file: "I b \<Longrightarrow> J a \<Longrightarrow> be_open B b a = (ro, a', b') \<Longrightarrow> R b b' \<and> J a' \<and> (\<forall>h. ro = Inr h \<longrightarrow> H h)"
    and close: "keeps_handle I R H (be_close B)"
    and read: "keeps_handle I R H (\<lambda>b h. be_read B b h n)"
    and "write": "keeps_handle I R H (\<lambda>b h. be_write B b h d)"
    and seek: "keeps_handle I R H (\<lambda>b h. be_seek B b h sm pos)"
    and truncate: "keeps_handle I R H (be_truncate B)"
    and flush: "keeps_handle I R H (be_flush B)"
    and read_desc: "keeps_handle I R H (\<lambda>b h. be_read_desc B b h n)"
    and write_desc: "keeps_handle I R H (\<lambda>b h. be_write_desc B b h d)"
    and get_status: "I b \<Longrightarrow> J a \<Longrightarrow> pred_option H ho \<Longrightarrow> be_get_status B b a ho = (rs, ho', b') \<Longrightarrow>
      R b b' \<and> pred_option H ho'"
    and set_status: "I b \<Longrightarrow> J a \<Longrightarrow> pred_option H ho \<Longrightarrow> be_set_status B b a ho acts = (ru, a', ho', b') \<Longrightarrow>
      R b b' \<and> J a' \<and> pred_option H ho'"
    and read_dir: "I b \<Longrightarrow> J a \<Longrightarrow> be_read_dir B b a k n = (rd, a', b') \<Longrightarrow> R b b' \<and> J a'"
begin

definition ok_file :: "('a, 'h) vfs_file_descriptor \<Rightarrow> bool" where
  "ok_file f \<longleftrightarrow> J (vf_attachment f) \<and> pred_option H (vf_handle f)"

definition ok_vfs :: "('b, 'a, 'h) vfs \<Rightarrow> bool" where
  "ok_vfs s \<longleftrightarrow> I (vfs_backend s) \<and> (\<forall>i f. vfs_files s i = Some f \<longrightarrow> ok_file f)"

definition step :: "('b, 'a, 'h) vfs \<Rightarrow> ('b, 'a, 'h) vfs \<Rightarrow> bool" where
  "step s s' \<longleftrightarrow> ok_vfs s' \<and> R (vfs_backend s) (vfs_backend s')"

lemma step_refl: "ok_vfs s \<Longrightarrow> step s s"
  by (simp add: step_def ok_vfs_def R_refl)

lemma step_put:
  assumes "ok_vfs s" "R (vfs_backend s) b" "ok_file f"
  shows "step s (put_file header f b s)"
  using assms R_inv by (auto simp: step_def ok_vfs_def)

lemma ok_get_file: "ok_vfs s \<Longrightarrow> get_file header s = Inr f \<Longrightarrow> ok_file f"
  by (auto simp: ok_vfs_def get_file_Inr)

lemma pred_same_option: "pred_option H h \<Longrightarrow> pred_option H h' \<Longrightarrow> pred_option H (same_option h h')"
  by (cases "(h, h')" rule: same_option.cases) auto

lemma step_on_handle:
  assumes "ok_vfs s" "keeps_handle I R H f"
  shows "step s (snd (on_handle f header s))"
proof (cases "get_file header s")
  case (Inl e)
  then show ?thesis using step_refl[OF assms(1)] by (simp add: on_handle_def)
next
  case (Inr fle)
  note ok = ok_get_file[OF assms(1) Inr]
  show ?thesis
  proof (cases "vf_handle fle")
    case None
    then show ?thesis using Inr step_refl[OF assms(1)] by (simp add: on_handle_def)
  next
    case (Some h)
    obtain r h' b' where r: "f (vfs_backend s) h = (r, h', b')" by (cases "f (vfs_backend s) h") auto
    have "R (vfs_backend s) b' \<and> H h'"
      using keeps_handleD[OF assms(2) _ _ r] assms(1) ok Some by (simp add: ok_vfs_def ok_file_def)
    then show ?thesis using Inr Some r ok step_put[OF assms(1)] by (simp add: on_handle_def ok_file_def)
  qed
qed

lemma step_get_status: "ok_vfs s \<Longrightarrow> step s (snd (vfs_get_status B header s))"
proof (cases "get_file header s")
  case (Inl e)
  then show "ok_vfs s \<Longrightarrow> ?thesis" by (simp add: vfs_get_status_def vfs_do_get_status_def step_refl)
next
  case (Inr fle)
  assume ok: "ok_vfs s"
  obtain r h' b' where r: "be_get_status B (vfs_backend s) (vf_attachment fle) (vf_handle fle) = (r, h', b')"
    by (cases "be_get_status B (vfs_backend s) (vf_attachment fle) (vf_handle fle)") auto
  note f = ok_get_file[OF ok Inr]
  have "R (vfs_backend s) b' \<and> pred_option H h'"
    using get_status[OF _ _ _ r] ok f by (simp add: ok_vfs_def ok_file_def)
  then have "step s (put_file header (fle\<lparr>vf_handle := same_option (vf_handle fle) h'\<rparr>) b' s)"
    using f pred_same_option by (intro step_put[OF ok]) (auto simp: ok_file_def)
  moreover have "snd (vfs_get_status B header s) =
      put_file header (fle\<lparr>vf_handle := same_option (vf_handle fle) h'\<rparr>) b' s"
    using Inr r by (cases r) (auto simp: vfs_get_status_def vfs_do_get_status_def)
  ultimately show ?thesis by simp
qed

lemma step_open: "ok_vfs s \<Longrightarrow> step s (snd (vfs_do_open B header s))"
proof (cases "get_file header s")
  case (Inl e)
  then show "ok_vfs s \<Longrightarrow> ?thesis" by (simp add: vfs_do_open_def step_refl)
next
  case (Inr fle)
  assume ok: "ok_vfs s"
  obtain r a' b' where r: "be_open B (vfs_backend s) (vf_attachment fle) = (r, a', b')"
    by (cases "be_open B (vfs_backend s) (vf_attachment fle)") auto
  note f = ok_get_file[OF ok Inr]
  have o: "R (vfs_backend s) b' \<and> J a' \<and> (\<forall>h. r = Inr h \<longrightarrow> H h)"
    using open_file[OF _ _ r] ok f by (simp add: ok_vfs_def ok_file_def)
  show ?thesis
  proof (cases "vf_handle fle")
    case None
    then show ?thesis using Inr r o f by (cases r) (auto simp: vfs_do_open_def ok_file_def intro!: step_put[OF ok])
  next
    case (Some h)
    then show ?thesis using Inr by (simp add: vfs_do_open_def step_refl[OF ok])
  qed
qed

lemma step_read_dir: "ok_vfs s \<Longrightarrow> step s (snd (vfs_do_read_dir_page B header l s))"
proof (cases "get_file header s")
  case (Inl e)
  then show "ok_vfs s \<Longrightarrow> ?thesis" by (simp add: vfs_do_read_dir_page_def step_refl)
next
  case (Inr fle)
  assume ok: "ok_vfs s"
  note f = ok_get_file[OF ok Inr]
  have "R (vfs_backend s) b' \<and> J a'" if "be_read_dir B (vfs_backend s) (vf_attachment fle) k n = (r, a', b')" for k n r a' b'
    using read_dir[OF _ _ that] ok f by (simp add: ok_vfs_def ok_file_def)
  then show ?thesis
    using Inr f by (auto simp: vfs_do_read_dir_page_def Let_def ok_file_def intro!: step_put[OF ok] split: prod.splits)
qed

lemma step_set_status: "ok_vfs s \<Longrightarrow> step s (snd (vfs_do_set_status B header as s))"
proof (cases "get_file header s")
  case (Inl e)
  then show "ok_vfs s \<Longrightarrow> ?thesis" by (simp add: vfs_do_set_status_def step_refl)
next
  case (Inr fle)
  assume ok: "ok_vfs s"
  note f = ok_get_file[OF ok Inr]
  have "R (vfs_backend s) b' \<and> J a' \<and> pred_option H h'"
    if "be_set_status B (vfs_backend s) (vf_attachment fle) (vf_handle fle) acts = (r, a', h', b')" for acts r a' h' b'
    using set_status[OF _ _ _ that] ok f by (simp add: ok_vfs_def ok_file_def)
  then show ?thesis
    using Inr f pred_same_option
    by (auto simp: vfs_do_set_status_def ok_file_def intro!: step_put[OF ok] split: prod.splits)
qed

lemma step_attach: "ok_vfs s \<Longrightarrow> step s (snd (vfs_attach ne B header m ac p s))"
proof -
  assume ok: "ok_vfs s"
  obtain r b' where r: "be_is_attachable B (vfs_backend s) p m ac = (r, b')" by fastforce
  have "R (vfs_backend s) b' \<and> (\<forall>a. r = Inr a \<longrightarrow> J a)" using attachable[OF _ r] ok by (simp add: ok_vfs_def)
  then show ?thesis
    using r ok R_inv step_refl[OF ok]
    by (cases r) (auto simp: vfs_attach_def vfs_do_attach_def step_def ok_vfs_def ok_file_def split: option.splits)
qed

lemma close_backend:
  assumes "ok_vfs s" "get_file header s = Inr f" "vf_handle f = Some h" "be_close B (vfs_backend s) h = (r, h', b')"
  shows "R (vfs_backend s) b' \<and> H h' \<and> I b'"
  using keeps_handleD[OF close _ _ assms(4)] ok_get_file[OF assms(1,2)] assms(1,3) R_inv
  by (auto simp: ok_vfs_def ok_file_def)

lemma step_close: "ok_vfs s \<Longrightarrow> step s (snd (vfs_do_close B header s))"
proof (cases "get_file header s")
  case (Inl e)
  then show "ok_vfs s \<Longrightarrow> ?thesis" by (simp add: vfs_do_close_def step_refl)
next
  case (Inr fle)
  assume ok: "ok_vfs s"
  show ?thesis
    using Inr step_refl[OF ok] close_backend[OF ok Inr] ok_get_file[OF ok Inr]
    by (auto simp: vfs_do_close_def ok_file_def intro!: step_put[OF ok] split: option.splits prod.splits sum.splits)
qed

lemma step_detach: "ok_vfs s \<Longrightarrow> step s (snd (vfs_do_detach B header s))"
proof (cases "get_file header s")
  case (Inl e)
  then show "ok_vfs s \<Longrightarrow> ?thesis" by (simp add: vfs_do_detach_def step_refl)
next
  case (Inr fle)
  assume ok: "ok_vfs s"
  show ?thesis
    using Inr ok R_refl close_backend[OF ok Inr]
    by (auto simp: vfs_do_detach_def Let_def step_def ok_vfs_def split: option.splits prod.splits sum.splits)
qed

lemmas step_ops = step_get_status step_open step_read_dir step_set_status step_attach step_close step_detach
  step_refl step_on_handle[OF _ read] step_on_handle[OF _ "write"] step_on_handle[OF _ seek]
  step_on_handle[OF _ truncate] step_on_handle[OF _ flush] step_on_handle[OF _ read_desc]
  step_on_handle[OF _ write_desc]

lemma step_request: "ok_vfs s \<Longrightarrow> step s (snd (vfs_process_request ne B s req))"
  by (cases "vr_body req")
     (simp_all add: vfs_process_request_def Let_def vfs_do_read_def vfs_do_read_desc_def
        vfs_do_write_def vfs_do_write_desc_def vfs_do_seek_def vfs_do_flush_def vfs_do_truncate_def
        vfs_unknown_def step_ops)

lemma ok_vfs_new: "I b \<Longrightarrow> ok_vfs (vfs_new b)"
  by (simp add: ok_vfs_def vfs_new_def)

end

section \<open>Canonical paths\<close>

text \<open>A path without parent components is the list of its components.\<close>

definition no_parent_dirs :: "path_buf \<Rightarrow> bool" where
  "no_parent_dirs p \<longleftrightarrow> [0x2E, 0x2E] \<notin> set (split_slash p)"

lemma foldl_resolve_plain:
  "[0x2E, 0x2E] \<notin> set cs \<Longrightarrow> foldl resolve_step acc cs = acc @ filter (\<lambda>c. c \<noteq> [] \<and> c \<noteq> [0x2E]) cs"
  by (induction cs arbitrary: acc) (auto simp: resolve_step_def)

lemma resolve_components: "no_parent_dirs p \<Longrightarrow> resolve p = path_components p"
  by (simp add: no_parent_dirs_def resolve_def path_components_def foldl_resolve_plain)

lemma split_slash_no_slash: "c \<in> set (split_slash p) \<Longrightarrow> SLASH \<notin> set c"
proof (induction p arbitrary: c)
  case (Cons b bs)
  then show ?case by (cases "split_slash bs") (auto split: if_splits)
qed simp

lemma path_components_plain: "no_parent_dirs p \<Longrightarrow> c \<in> set (path_components p) \<Longrightarrow> plain_component c"
  using split_slash_no_slash[of c p] by (auto simp: path_components_def no_parent_dirs_def plain_component_def)

lemma split_slash_joined:
  "\<forall>c \<in> set cs. SLASH \<notin> set c \<Longrightarrow> split_slash (concat (map (\<lambda>c. SLASH # c) cs)) = [] # cs"
proof (induction cs)
  case (Cons c cs)
  show ?case
  proof (cases cs)
    case Nil
    then show ?thesis using Cons.prems split_slash_single[of c] by simp
  next
    case (Cons d ds)
    have "split_slash (d @ concat (map (\<lambda>c. SLASH # c) ds)) = d # ds"
      using Cons.IH Cons.prems Cons by simp
    then have "split_slash (c @ SLASH # d @ concat (map (\<lambda>c. SLASH # c) ds)) = c # d # ds"
      using Cons.prems split_slash_append[of c] split_slash_single[of c] by simp
    then show ?thesis by (simp add: Cons)
  qed
qed simp

lemma resolve_path_of_components: "list_all plain_component cs \<Longrightarrow> resolve (path_of_components cs) = cs"
proof -
  assume p: "list_all plain_component cs"
  have "filter (\<lambda>c. c \<noteq> [] \<and> c \<noteq> [0x2E]) cs = cs" "[0x2E, 0x2E] \<notin> set cs" "\<forall>c \<in> set cs. SLASH \<notin> set c"
    using p by (auto simp: list_all_iff plain_component_def intro: filter_True)
  moreover have "split_slash [SLASH] = [[], []]" by simp
  ultimately show ?thesis
    using split_slash_joined[of cs]
    by (simp add: path_of_components_def resolve_def foldl_resolve_plain resolve_step_def)
qed

lemma resolve_parent:
  assumes "no_parent_dirs p" "path_parent p = Some q"
  shows "resolve q = butlast (resolve p)"
proof -
  have "q = path_of_components (butlast (path_components p))"
    using assms(2) by (auto simp: path_parent_def split: list.splits)
  moreover have "list_all plain_component (butlast (path_components p))"
    using path_components_plain[OF assms(1)] by (auto simp: list_all_iff dest: in_set_butlastD)
  ultimately show ?thesis by (simp add: resolve_path_of_components resolve_components[OF assms(1)])
qed

lemma no_parent_push:
  assumes "no_parent_dirs p" "p \<noteq> []" "SLASH \<notin> set c" "c \<noteq> [0x2E, 0x2E]"
  shows "no_parent_dirs (path_push p c)"
proof -
  have c: "c = [] \<or> hd c \<noteq> SLASH" using assms(3) hd_in_set by metis
  show ?thesis
  proof (cases "last p = SLASH")
    case True
    then obtain q where q: "p = q @ [SLASH]" using assms(2) by (metis append_butlast_last_id)
    with c have "path_push p c = q @ SLASH # c" by (auto simp: path_push_def)
    then show ?thesis
      using assms q by (simp add: no_parent_dirs_def split_slash_append split_slash_snoc split_slash_single)
  next
    case False
    with c assms(2) have "path_push p c = p @ SLASH # c" by (auto simp: path_push_def)
    then show ?thesis using assms by (simp add: no_parent_dirs_def split_slash_append split_slash_single)
  qed
qed

lemma no_parent_join: "plain_component (bstr t) \<Longrightarrow> no_parent_dirs p \<Longrightarrow> p \<noteq> [] \<Longrightarrow> no_parent_dirs (join_str p t)"
  using no_parent_push[of p "bstr t"] by (simp add: join_str_def plain_component_def)

lemma no_parent_push_component:
  assumes "push_component p c = Inr p'" "no_parent_dirs p" "p \<noteq> []"
  shows "no_parent_dirs p' \<and> p' \<noteq> []"
  using assms no_parent_push[OF assms(2,3)]
  by (auto simp: push_component_def Let_def split: if_splits)

lemma no_parent_map_file_path:
  assumes "map_file_path disk folder fle = Inr vp" "no_parent_dirs disk" "disk \<noteq> []"
  shows "no_parent_dirs (vp_path vp)"
proof -
  obtain p1 where p1: "(case folder of None \<Rightarrow> Inr disk | Some c \<Rightarrow> push_component disk c) = Inr p1"
    and p2: "(case fle of None \<Rightarrow> Inr p1 | Some c \<Rightarrow> push_component p1 c) = Inr (vp_path vp)"
    using assms(1) by (auto simp: map_file_path_def result_simps)
  have "no_parent_dirs p1 \<and> p1 \<noteq> []"
    using p1 assms(2,3) no_parent_push_component by (cases folder) auto
  with p2 show ?thesis using no_parent_push_component by (cases fle) auto
qed

lemma no_parent_disk_file_path:
  assumes "disk_file_path dm d folder fle = Inr vp" "no_parent_dirs (dm_root_path dm)" "dm_root_path dm \<noteq> []"
  shows "no_parent_dirs (vp_path vp)"
proof -
  have id: "no_parent_dirs p \<Longrightarrow> p \<noteq> [] \<Longrightarrow> no_parent_dirs (path_push p (i64_to_string i))" for p i
    using no_parent_push[of p "i64_to_string i"] i64_to_string_plain[of i] by (simp add: plain_component_def)
  obtain disk where "map_file_path disk folder fle = Inr vp" "no_parent_dirs disk" "disk \<noteq> []"
    using assms by (cases d) (auto simp: disk_path_simps no_parent_join id)
  then show ?thesis by (rule no_parent_map_file_path)
qed

lemma foldl_resolve_components_plain:
  "list_all plain_component acc \<Longrightarrow> (\<And>c. c \<in> set cs \<Longrightarrow> SLASH \<notin> set c) \<Longrightarrow>
     list_all plain_component (foldl resolve_step acc cs)"
proof (induction cs arbitrary: acc)
  case (Cons c cs)
  have "list_all plain_component (resolve_step acc c)"
    using Cons.prems by (auto simp: resolve_step_def plain_component_def list_all_iff dest: in_set_butlastD)
  then show ?case using Cons by simp
qed simp

lemma resolve_plain: "list_all plain_component (resolve p)"
  unfolding resolve_def by (rule foldl_resolve_components_plain) (auto dest: split_slash_no_slash)

lemma canonical_path:
  "no_parent_dirs (path_of_components (resolve p))" "path_of_components (resolve p) \<noteq> []"
  "resolve (path_of_components (resolve p)) = resolve p"
proof -
  have p: "\<forall>c \<in> set (resolve p). SLASH \<notin> set c" "[0x2E, 0x2E] \<notin> set (resolve p)"
    using resolve_plain[of p] by (auto simp: list_all_iff plain_component_def)
  show "no_parent_dirs (path_of_components (resolve p))"
    using split_slash_joined[OF p(1)] p(2) by (simp add: no_parent_dirs_def path_of_components_def)
  show "path_of_components (resolve p) \<noteq> []" by (auto simp: path_of_components_def neq_Nil_conv)
qed (rule resolve_path_of_components[OF resolve_plain])

section \<open>What the host calls may change\<close>

text \<open>Attributes are not contents: setting one leaves the nodes of the host as they are.\<close>

definition xattr_keeps_nodes :: "xattr_api \<Rightarrow> bool" where
  "xattr_keeps_nodes xa \<longleftrightarrow> (\<forall>h p k v. host_nodes (snd (xattr_set xa h p k v)) = host_nodes h)"

lemma xattr_ref_keeps_nodes: "xattr_keeps_nodes xattr_ref"
  by (simp add: xattr_keeps_nodes_def xattr_ref_def)

lemma mkdir_frame: "mkdir p h = (r, h') \<Longrightarrow> q \<noteq> p \<Longrightarrow> host_node h' q = host_node h q"
proof -
  obtain e h1 where e: "next_event h = (e, h1)" by fastforce
  assume "mkdir p h = (r, h')" "q \<noteq> p"
  then show ?thesis using e next_event_node[OF e]
    by (cases e) (auto simp: mkdir_def syscall_def split: if_splits)
qed

lemma unless_dir_frame: "unless_dir p k h = (r, h') \<Longrightarrow> host_node h' q = host_node h q"
proof -
  obtain e h1 where e: "next_event h = (e, h1)" by fastforce
  assume "unless_dir p k h = (r, h')"
  then show ?thesis using e next_event_node[OF e] by (cases e) (auto simp: unless_dir_def)
qed

lemma mkdir_all_frame:
  "mkdir_all cs h = (r, h') \<Longrightarrow> \<nexists>ys. rev cs = q @ ys \<Longrightarrow> host_node h' q = host_node h q"
proof (induction cs arbitrary: h r h')
  case Nil
  then have q: "q \<noteq> []" by auto
  obtain r1 h1 where m: "mkdir [] h = (r1, h1)" by fastforce
  show ?case using Nil.prems(1) m mkdir_frame[OF m q]
    by (auto dest: unless_dir_frame[where q = q] split: sum.splits if_splits)
next
  case (Cons c cs)
  have 1: "\<nexists>ys. rev cs = q @ ys" using Cons.prems(2) by auto
  have 2: "q \<noteq> rev (c # cs)" using Cons.prems(2) by auto
  obtain r1 h1 where m: "mkdir (rev (c # cs)) h = (r1, h1)" by fastforce
  obtain r2 h2 where p: "mkdir_all cs h1 = (r2, h2)" by fastforce
  obtain r3 h3 where n: "mkdir (rev (c # cs)) h2 = (r3, h3)" by fastforce
  have same: "host_node h1 q = host_node h q" "host_node h2 q = host_node h1 q" "host_node h3 q = host_node h2 q"
    using mkdir_frame[OF m 2] Cons.IH[OF p 1] mkdir_frame[OF n 2] by simp_all
  show ?case using Cons.prems(1) m p n same
    by (auto dest: unless_dir_frame[where q = q] split: sum.splits if_splits)
qed

lemma create_dir_all_frame:
  assumes "create_dir_all p h = (r, h')" "\<nexists>ys. resolve p = q @ ys"
  shows "host_node h' q = host_node h q"
  using mkdir_all_frame[of "rev (resolve p)"] assms by (simp add: create_dir_all_def)

lemma open_create_frame:
  assumes "open_create p h = (r, h')"
  shows "q \<noteq> resolve p \<Longrightarrow> host_node h' q = host_node h q" "r = Inr d \<Longrightarrow> fd_path d = resolve p"
proof -
  obtain e h1 where e: "next_event h = (e, h1)" by fastforce
  show "q \<noteq> resolve p \<Longrightarrow> host_node h' q = host_node h q" "r = Inr d \<Longrightarrow> fd_path d = resolve p"
    using assms e next_event_node[OF e]
    by (cases e; auto simp: open_create_def syscall_def Let_def split: if_splits)+
qed

text \<open>Calls that only look.\<close>


lemma syscall_looks:
  "(\<And>l h r h'. f l h = (r, h') \<Longrightarrow> h' = h) \<Longrightarrow> syscall f h = (r, h') \<Longrightarrow> host_nodes h' = host_nodes h"
  by (cases "next_event h"; cases "fst (next_event h)") (fastforce simp: syscall_def)+

lemma fs_read_dir_nodes: "fs_read_dir p h = (r, h') \<Longrightarrow> host_nodes h' = host_nodes h"
  unfolding fs_read_dir_def by (erule syscall_looks[rotated]) (auto split: if_splits)

lemma fs_metadata_nodes: "fs_metadata p h = (r, h') \<Longrightarrow> host_nodes h' = host_nodes h"
  unfolding fs_metadata_def by (erule syscall_looks[rotated]) auto

lemma fd_metadata_nodes: "fd_metadata p h = (r, h') \<Longrightarrow> host_nodes h' = host_nodes h"
  unfolding fd_metadata_def by (erule syscall_looks[rotated]) auto

lemma collect_entries_nodes:
  assumes "\<And>p ids h r h'. rec p ids h = (r, h') \<Longrightarrow> host_nodes h' = host_nodes h"
  shows "collect_entries rec xa path es ids h = (r, h') \<Longrightarrow> host_nodes h' = host_nodes h"
proof (induction es arbitrary: ids h)
  case (Cons e es)
  obtain name kind where e: "e = (name, kind)" by fastforce
  show ?case
    using Cons.prems Cons.IH assms by (fastforce simp: e Let_def split: if_splits prod.splits sum.splits)
qed simp

lemma collect_file_ids_nodes: "collect_file_ids fuel xa path ids h = (r, h') \<Longrightarrow> host_nodes h' = host_nodes h"
proof (induction fuel arbitrary: path ids h r h')
  case (Suc fuel)
  show ?case
    using Suc.prems collect_entries_nodes[of "collect_file_ids fuel xa", OF Suc.IH]
    by (auto split: sum.splits prod.splits dest!: fs_read_dir_nodes; metis)
qed simp

lemma allocate_file_id_facts:
  assumes "xattr_keeps_nodes xa" "allocate_file_id ne xa disk path dm h = (r, dm', h')"
  shows "host_nodes h' = host_nodes h \<and> dm_root_path dm' = dm_root_path dm"
proof -
  have x: "xattr_set xa h1 p k v = (r1, h2) \<Longrightarrow> host_nodes h2 = host_nodes h1" for h1 p k v r1 h2
    using assms(1) unfolding xattr_keeps_nodes_def by (metis snd_conv)
  show ?thesis
    using assms(2)
    by (auto simp: allocate_file_id_def Let_def split: sum.splits option.splits prod.splits
        dest!: x collect_file_ids_nodes)
qed

lemma file_id_facts:
  assumes "xattr_keeps_nodes xa"
  shows "file_id ne xa p dm h = (r, dm', h') \<Longrightarrow> host_nodes h' = host_nodes h \<and> dm_root_path dm' = dm_root_path dm"
    "parent_file_id ne xa p dm h = (r, dm', h') \<Longrightarrow> host_nodes h' = host_nodes h \<and> dm_root_path dm' = dm_root_path dm"
  using allocate_file_id_facts[OF assms]
  by (auto simp: file_id_def parent_file_id_def split: option.splits if_splits)

lemma gf_write_frame:
  assumes "gf_write buf f h = (r, f', h')" "q \<noteq> fd_path (gf_fd f)"
  shows "fd_path (gf_fd f') = fd_path (gf_fd f) \<and> host_node h' q = host_node h q"
  using gf_write_facts[OF assms(1)] assms(2)
  by (cases r) (auto simp: writes_behind_header_def host_node_def split: if_splits)

lemma gf_write_all_frame:
  "gf_write_all data f h = (r, f', h') \<Longrightarrow> q \<noteq> fd_path (gf_fd f) \<Longrightarrow>
     fd_path (gf_fd f') = fd_path (gf_fd f) \<and> host_node h' q = host_node h q"
proof (induction data f h arbitrary: r f' h' rule: gf_write_all.induct)
  case (1 data f h)
  obtain r1 f1 h1 where w: "gf_write data f h = (r1, f1, h1)" by (cases "gf_write data f h") auto
  note w' = gf_write_frame[OF w "1.prems"(2)]
  show ?case
  proof (cases "data = [] \<or> (\<exists>k. r1 = Inl k) \<or> r1 = Inr 0")
    case True
    then have "(f', h') = (f, h) \<or> (f', h') = (f1, h1)"
      using "1.prems"(1) w by (subst (asm) gf_write_all.simps) (auto split: if_splits)
    then show ?thesis using w' by auto
  next
    case False
    then obtain c where c: "r1 = Inr c" "0 < c" "data \<noteq> []" by (cases r1) auto
    then have "gf_write_all (drop c data) f1 h1 = (r, f', h')"
      using "1.prems"(1) w by (subst (asm) gf_write_all.simps) simp
    then show ?thesis using "1.IH" c w w' "1.prems"(2) by fastforce
  qed
qed

lemma gf_truncate_frame:
  assumes "gf_truncate f h = (r, f', h')"
  shows "f' = f" "q \<noteq> fd_path (gf_fd f) \<Longrightarrow> host_node h' q = host_node h q"
proof -
  obtain e h1 where e: "next_event h = (e, h1)" by fastforce
  show "f' = f" using assms by (auto simp: gf_truncate_def split: sum.splits prod.splits)
  show "q \<noteq> fd_path (gf_fd f) \<Longrightarrow> host_node h' q = host_node h q"
    using assms e next_event_node[OF e]
    by (cases e) (auto simp: gf_truncate_def fd_set_len_def syscall_def Let_def fd_put_def
        split: sum.splits prod.splits)
qed

text \<open>The root of the directory manager is a canonical path, and opening it changes no file.\<close>

lemma path_err_Inr: "path_err what r = (Inr x, h) \<longleftrightarrow> r = (Inr x, h)"
  by (cases r; cases "fst r") (auto simp: path_err_def)

lemma fs_canonicalize_facts:
  assumes "fs_canonicalize path h = (Inr p, h')"
  shows "p = path_of_components (resolve path)" "host_nodes h' = host_nodes h"
proof -
  obtain e h1 where e: "next_event h = (e, h1)" by fastforce
  show "p = path_of_components (resolve path)"
    using assms e by (cases e) (auto simp: fs_canonicalize_def syscall_def split: if_splits)
  show "host_nodes h' = host_nodes h"
    using assms unfolding fs_canonicalize_def by (rule syscall_looks[rotated]) (auto split: if_splits)
qed

lemma fs_open_read_nodes: "fs_open_read p h = (r, h') \<Longrightarrow> host_nodes h' = host_nodes h"
  unfolding fs_open_read_def by (erule syscall_looks[rotated]) (auto split: if_splits)

lemma fd_is_dir_nodes: "fd_is_dir d h = (r, h') \<Longrightarrow> host_nodes h' = host_nodes h"
  unfolding fd_is_dir_def by (erule syscall_looks[rotated]) auto

lemma is_xattr_supported_nodes:
  assumes "xattr_keeps_nodes xa" "is_xattr_supported xa p h = (r, h')"
  shows "host_nodes h' = host_nodes h"
proof -
  obtain r1 h1 where s: "xattr_set xa h p XATTR_SUPPORT_KEY SUPPORTED = (r1, h1)" by fastforce
  then have "h' = h1" using assms(2) by (cases r1) (simp_all add: is_xattr_supported_def)
  then show ?thesis using assms(1) s by (metis xattr_keeps_nodes_def snd_conv)
qed

lemma dir_manager_new_facts:
  assumes "dir_manager_new xa lock path h = (Inr dm, h')"
  shows "no_parent_dirs (dm_root_path dm) \<and> dm_root_path dm \<noteq> [] \<and> resolve (dm_root_path dm) = resolve path \<and>
    dm_file_ids dm = (\<lambda>_. None) \<and> (xattr_keeps_nodes xa \<longrightarrow> host_nodes h' = host_nodes h)"
proof -
  have lock: "lock = Locked"
    using assms by (cases lock) (auto simp: dir_manager_new_def st_then_Inr)
  let ?check = "\<lambda>p d h. st_then (path_err ''get dir metadata'' (fd_is_dir d h)) (\<lambda>dir h.
    if \<not> dir then (Inl NotADirectory, h)
    else st_then (path_err ''check xattr support'' (is_xattr_supported xa p h)) (\<lambda>_ h.
      (Inr \<lparr>dm_root_path = p, dm_file_ids = (\<lambda>_. None)\<rparr>, h)))"
  obtain p d h1 h2 where c: "fs_canonicalize path h = (Inr p, h1)" and o: "fs_open_read p h1 = (Inr d, h2)"
    and "?check p d h2 = (Inr dm, h')"
    using assms unfolding dir_manager_new_def lock lock_answer.case st_then_Inr path_err_Inr by blast
  then obtain dir h3 where m: "fd_is_dir d h2 = (Inr dir, h3)"
    and "(if \<not> dir then (Inl NotADirectory, h3)
      else st_then (path_err ''check xattr support'' (is_xattr_supported xa p h3)) (\<lambda>_ h.
        (Inr \<lparr>dm_root_path = p, dm_file_ids = (\<lambda>_. None)\<rparr>, h))) = (Inr dm, h')"
    unfolding st_then_Inr path_err_Inr by blast
  then have "st_then (path_err ''check xattr support'' (is_xattr_supported xa p h3)) (\<lambda>_ h.
      (Inr \<lparr>dm_root_path = p, dm_file_ids = (\<lambda>_. None)\<rparr>, h)) = (Inr dm, h')"
    by (cases dir) simp_all
  then have x: "is_xattr_supported xa p h3 = (Inr (), h')" and dm: "dm = \<lparr>dm_root_path = p, dm_file_ids = (\<lambda>_. None)\<rparr>"
    unfolding st_then_Inr path_err_Inr by simp_all
  have "host_nodes h' = host_nodes h" if "xattr_keeps_nodes xa"
    using is_xattr_supported_nodes[OF that x] fd_is_dir_nodes[OF m] fs_open_read_nodes[OF o] fs_canonicalize_facts(2)[OF c] by simp
  then show ?thesis using fs_canonicalize_facts(1)[OF c] dm canonical_path[of path] by simp
qed
section \<open>The file system backend is confined\<close>

definition disks_of :: "int \<Rightarrow> int \<Rightarrow> int \<Rightarrow> disk set" where
  "disks_of c g u = {MailDisk, SoftwareDisk, ServerDisk, SharedDisk, CompanyDisk c, GroupDisk c g, UserDisk c g u}"

lemma account_disks_of: "account_disks b = disks_of (fp_company_id b) (fp_group_id b) (fp_user_id b)"
  by (simp add: account_disks_def disks_of_def)

text \<open>A path of the account, and a place on the host the account may change: on one of its disks, or
  one of the directories that lead there.\<close>

definition own_path :: "int \<Rightarrow> int \<Rightarrow> int \<Rightarrow> path_buf \<Rightarrow> vfs_path \<Rightarrow> bool" where
  "own_path c g u root vp \<longleftrightarrow> no_parent_dirs (vp_path vp) \<and>
     (\<exists>d \<in> disks_of c g u. \<exists>cs. resolve (vp_path vp) = resolve root @ disk_components d @ cs)"

definition reach :: "int \<Rightarrow> int \<Rightarrow> int \<Rightarrow> path_buf \<Rightarrow> host_path \<Rightarrow> bool" where
  "reach c g u root q \<longleftrightarrow> (\<exists>d \<in> disks_of c g u. \<exists>xs.
     q @ xs = resolve root @ disk_components d \<or> q = resolve root @ disk_components d @ xs)"

definition own_backend :: "int \<Rightarrow> int \<Rightarrow> int \<Rightarrow> path_buf \<Rightarrow> fs_proxy \<Rightarrow> bool" where
  "own_backend c g u root b \<longleftrightarrow> fp_company_id b = c \<and> fp_group_id b = g \<and> fp_user_id b = u \<and>
     dm_root_path (fp_dirman b) = root \<and> root \<noteq> [] \<and> no_parent_dirs root"

definition own_change :: "int \<Rightarrow> int \<Rightarrow> int \<Rightarrow> path_buf \<Rightarrow> fs_proxy \<Rightarrow> fs_proxy \<Rightarrow> bool" where
  "own_change c g u root b b' \<longleftrightarrow> own_backend c g u root b' \<and>
     (\<forall>q. \<not> reach c g u root q \<longrightarrow> host_node (fp_host b') q = host_node (fp_host b) q)"

definition own_attachment :: "int \<Rightarrow> int \<Rightarrow> int \<Rightarrow> path_buf \<Rightarrow> fs_attachment \<Rightarrow> bool" where
  "own_attachment c g u root a \<longleftrightarrow> pred_option (own_path c g u root) (mapped_vfs_path (fa_target a))"

primrec own_handle :: "int \<Rightarrow> int \<Rightarrow> int \<Rightarrow> path_buf \<Rightarrow> fs_handle \<Rightarrow> bool" where
  "own_handle c g u root (HFile p f) \<longleftrightarrow> own_path c g u root p \<and> fd_path (gf_fd f) = resolve (vp_path p)"
| "own_handle c g u root (HDirectory p) \<longleftrightarrow> own_path c g u root p"

lemma own_prefix_reach:
  assumes "own_path c g u root vp" "resolve (vp_path vp) = q @ ys"
  shows "reach c g u root q"
proof -
  obtain d cs where d: "d \<in> disks_of c g u" "q @ ys = (resolve root @ disk_components d) @ cs"
    using assms by (auto simp: own_path_def)
  then show ?thesis by (auto simp: reach_def append_eq_append_conv2)
qed

lemma own_change_same:
  "own_backend c g u root b \<Longrightarrow> host_nodes h = host_nodes (fp_host b) \<Longrightarrow>
     own_change c g u root b (b\<lparr>fp_host := h\<rparr>)"
  by (simp add: own_change_def own_backend_def host_node_def)

lemma own_change_refl: "own_backend c g u root b \<Longrightarrow> own_change c g u root b b"
  by (simp add: own_change_def)

lemma own_change_ids:
  "own_backend c g u root b \<Longrightarrow> host_nodes h = host_nodes (fp_host b) \<Longrightarrow>
   dm_root_path dm = dm_root_path (fp_dirman b) \<Longrightarrow> own_change c g u root b (b\<lparr>fp_host := h, fp_dirman := dm\<rparr>)"
  by (simp add: own_change_def own_backend_def host_node_def)

lemma own_change_at:
  assumes "own_backend c g u root b" "own_path c g u root p"
    "\<And>q. q \<noteq> resolve (vp_path p) \<Longrightarrow> host_node h q = host_node (fp_host b) q"
  shows "own_change c g u root b (b\<lparr>fp_host := h\<rparr>)"
proof -
  have "reach c g u root (resolve (vp_path p))" using own_prefix_reach[OF assms(2), of _ "[]"] by simp
  then have "host_node h q = host_node (fp_host b) q" if "\<not> reach c g u root q" for q
    using assms(3) that by metis
  then show ?thesis using assms(1) by (simp add: own_change_def own_backend_def)
qed

lemma map_gridpath_own:
  assumes "own_backend c g u root b" "map_gridpath b path = Inr target"
  shows "pred_option (own_path c g u root) (mapped_vfs_path target)"
proof (cases "mapped_vfs_path target")
  case (Some vp)
  obtain d folder fle where d: "d \<in> account_disks b" "disk_file_path (fp_dirman b) d folder fle = Inr vp"
    using map_gridpath_disk[OF assms(2) Some] by blast
  from assms(1) have root: "dm_root_path (fp_dirman b) \<noteq> []" "no_parent_dirs (dm_root_path (fp_dirman b))"
    by (auto simp: own_backend_def)
  have "own_path c g u root vp"
    using disk_file_path_below[OF d(2) root(1)] no_parent_disk_file_path[OF d(2) root(2,1)] d(1) assms(1)
    by (auto simp: own_path_def account_disks_of own_backend_def)
  then show ?thesis by (simp add: Some)
qed simp

lemma attachable_own:
  assumes "own_backend c g u root b" "fs_is_attachable b path m ac = (r, b')"
  shows "own_change c g u root b b' \<and> (\<forall>a. r = Inr a \<longrightarrow> own_attachment c g u root a)"
proof (cases "map_gridpath b path")
  case (Inl e)
  then show ?thesis using assms own_change_refl by (auto simp: fs_is_attachable_def)
next
  case (Inr target)
  note own = map_gridpath_own[OF assms(1) Inr]
  have made: "own_change c g u root b (b\<lparr>fp_host := h\<rparr>)"
    if "own_path c g u root p" "create_dir_all x (fp_host b) = (rc, h)" "\<exists>ys. resolve (vp_path p) = resolve x @ ys"
    for p x rc h
  proof -
    have "host_node h q = host_node (fp_host b) q" if "\<not> reach c g u root q" for q
      using create_dir_all_frame[OF \<open>create_dir_all x (fp_host b) = (rc, h)\<close>, of q]
        own_prefix_reach[OF \<open>own_path c g u root p\<close>] that \<open>\<exists>ys. resolve (vp_path p) = resolve x @ ys\<close>
      by (metis append.assoc)
    then show ?thesis using assms(1) by (simp add: own_change_def own_backend_def)
  qed
  have here: "own_change c g u root b (b\<lparr>fp_host := fp_host b\<rparr>)" using own_change_refl[OF assms(1)] by simp
  have parent: "\<exists>ys. resolve (vp_path p) = resolve x @ ys" if "own_path c g u root p" "path_parent (vp_path p) = Some x" for p x
  proof -
    have "resolve x = butlast (resolve (vp_path p))" using resolve_parent that by (simp add: own_path_def)
    then show ?thesis by (metis append_butlast_last_id append_Nil2 butlast.simps(1))
  qed
  show ?thesis
    using assms(2) Inr own here made parent
    by (cases target; fastforce simp: fs_is_attachable_def own_attachment_def map_err_Inr
          split: option.splits prod.splits sum.splits)
qed

lemma open_own:
  assumes "own_backend c g u root b" "own_attachment c g u root a" "fs_open b a = (r, a', b')"
  shows "own_change c g u root b b' \<and> own_attachment c g u root a' \<and> (\<forall>h. r = Inr h \<longrightarrow> own_handle c g u root h)"
proof (cases "fa_target a")
  case (MFile p)
  then have own: "own_path c g u root p" using assms(2) by (simp add: own_attachment_def)
  obtain r1 h1 where o: "open_create (vp_path p) (fp_host b) = (r1, h1)" by fastforce
  have ch: "own_change c g u root b (b\<lparr>fp_host := h\<rparr>)" if "host_nodes h = host_nodes h1" for h
    using own_change_at[OF assms(1) own, of h] open_create_frame(1)[OF o] that by (simp add: host_node_def)
  show ?thesis
  proof (cases r1)
    case (Inl k)
    then show ?thesis using assms(2,3) MFile o ch by (auto simp: fs_open_def)
  next
    case (Inr d)
    note d = open_create_frame(2)[OF o Inr]
    show ?thesis
      using assms(2,3) MFile o ch own d Inr
      by (auto simp: fs_open_def split: sum.splits prod.splits
          dest: from_file_nodes(1) from_file_nodes(2)[OF _ refl])
  qed
next
  case (MDirectory p)
  then show ?thesis using assms own_change_refl by (auto simp: fs_open_def own_attachment_def)
next
  case MResources
  then show ?thesis using assms own_change_refl by (auto simp: fs_open_def own_attachment_def)
qed

text \<open>The operations on an open file change the host at the file they have open.\<close>

lemma file_result_own:
  assumes "own_backend c g u root b" "own_handle c g u root (HFile p f)"
    "file_result b p conv (r0, f', h) = (r, fh', b')"
    "fd_path (gf_fd f') = fd_path (gf_fd f)"
    "\<And>q. q \<noteq> fd_path (gf_fd f) \<Longrightarrow> host_node h q = host_node (fp_host b) q"
  shows "own_change c g u root b b' \<and> own_handle c g u root fh'"
  using assms own_change_at[OF assms(1), of p h] by (auto simp: file_result_def)

lemma read_own: "keeps_handle (own_backend c g u root) (own_change c g u root) (own_handle c g u root) (\<lambda>b h. fs_read b h n)"
  unfolding keeps_handle_def
proof (intro allI impI)
  fix b fh r fh' b' assume I: "own_backend c g u root b" "own_handle c g u root fh" and r: "fs_read b fh n = (r, fh', b')"
  show "own_change c g u root b b' \<and> own_handle c g u root fh'"
  proof (cases "n < BUFFER_SIZE \<and> (\<exists>p f. fh = HFile p f)")
    case True
    then obtain p f where fh: "fh = HFile p f" by blast
    obtain r0 f' h where g: "gf_read n f (fp_host b) = (r0, f', h)" by (cases "gf_read n f (fp_host b)") auto
    show ?thesis
      using file_result_own[OF I(1), of p f id r0 f' h r fh' b'] I(2) fh r True gf_read_facts[OF g] g
      by (simp add: fs_read_def host_node_def)
  next
    case False
    then show ?thesis using r I own_change_refl[OF I(1)] by (cases fh) (auto simp: fs_read_def split: if_splits)
  qed
qed

lemma write_own: "keeps_handle (own_backend c g u root) (own_change c g u root) (own_handle c g u root) (\<lambda>b h. fs_write b h d)"
  unfolding keeps_handle_def
proof (intro allI impI)
  fix b fh r fh' b' assume I: "own_backend c g u root b" "own_handle c g u root fh" and r: "fs_write b fh d = (r, fh', b')"
  show "own_change c g u root b b' \<and> own_handle c g u root fh'"
  proof (cases fh)
    case (HFile p f)
    obtain r0 f' h where w: "gf_write_all d f (fp_host b) = (r0, f', h)" by (cases "gf_write_all d f (fp_host b)") auto
    have "fd_path (gf_fd f') = fd_path (gf_fd f)"
      using gf_write_all_frame[OF w, of "fd_path (gf_fd f) @ [[]]"] by simp
    then show ?thesis
      using file_result_own[OF I(1), of p f id r0 f' h r fh' b'] I(2) HFile r w gf_write_all_frame[OF w]
      by (simp add: fs_write_def)
  next
    case (HDirectory p)
    then show ?thesis using r I own_change_refl[OF I(1)] by (auto simp: fs_write_def)
  qed
qed

lemma seek_own: "keeps_handle (own_backend c g u root) (own_change c g u root) (own_handle c g u root) (\<lambda>b h. fs_seek b h m pos)"
  unfolding keeps_handle_def
proof (intro allI impI)
  fix b fh r fh' b' assume I: "own_backend c g u root b" "own_handle c g u root fh" and r: "fs_seek b fh m pos = (r, fh', b')"
  show "own_change c g u root b b' \<and> own_handle c g u root fh'"
  proof (cases fh)
    case (HFile p f)
    obtain r0 f' h where w: "gf_seek (seek_from_mode m pos) f (fp_host b) = (r0, f', h)"
      by (cases "gf_seek (seek_from_mode m pos) f (fp_host b)") auto
    obtain r1 where fr: "file_result b p id (r0, f', h) = (r1, fh', b')"
      using r HFile w by (auto simp: fs_seek_def split: prod.splits)
    show ?thesis
      using file_result_own[OF I(1) _ fr, of f] I(2) HFile gf_seek_facts[OF w] by (simp add: host_node_def)
  next
    case (HDirectory p)
    then show ?thesis using r I own_change_refl[OF I(1)] by (auto simp: fs_seek_def)
  qed
qed

lemma truncate_own: "keeps_handle (own_backend c g u root) (own_change c g u root) (own_handle c g u root) fs_truncate"
  unfolding keeps_handle_def
proof (intro allI impI)
  fix b fh r fh' b' assume I: "own_backend c g u root b" "own_handle c g u root fh" and r: "fs_truncate b fh = (r, fh', b')"
  show "own_change c g u root b b' \<and> own_handle c g u root fh'"
  proof (cases fh)
    case (HFile p f)
    obtain r0 f' h where w: "gf_truncate f (fp_host b) = (r0, f', h)" by (cases "gf_truncate f (fp_host b)") auto
    show ?thesis
      using file_result_own[OF I(1), of p f io_error_from_grid r0 f' h r fh' b'] I(2) HFile r w gf_truncate_frame[OF w]
      by (simp add: fs_truncate_def)
  next
    case (HDirectory p)
    then show ?thesis using r I own_change_refl[OF I(1)] by (auto simp: fs_truncate_def)
  qed
qed

lemma idle_own:
  "keeps_handle (own_backend c g u root) (own_change c g u root) (own_handle c g u root) fs_flush"
  "keeps_handle (own_backend c g u root) (own_change c g u root) (own_handle c g u root) fs_close"
  "keeps_handle (own_backend c g u root) (own_change c g u root) (own_handle c g u root) (\<lambda>b h. fs_write_desc b h d)"
  using own_change_refl
  by (auto simp: keeps_handle_def fs_flush_def fs_close_def fs_write_desc_def split: fs_handle.splits)

lemma directory_entries_nodes: "directory_entries p h = (r, h') \<Longrightarrow> host_nodes h' = host_nodes h"
  by (auto simp: directory_entries_def split: prod.splits sum.splits dest!: fs_read_dir_nodes)

lemma read_desc_own:
  assumes "xattr_keeps_nodes xa"
  shows "keeps_handle (own_backend c g u root) (own_change c g u root) (own_handle c g u root)
    (\<lambda>b h. fs_read_desc ne xa zone b h n)"
  unfolding keeps_handle_def
proof (intro allI impI)
  fix b fh r fh' b' assume I: "own_backend c g u root b" "own_handle c g u root fh"
    and r: "fs_read_desc ne xa zone b fh n = (r, fh', b')"
  have f: "own_change c g u root b b1" if "file_descriptor ne xa zone b p f = (r1, b1)" for p f r1 b1
    using that
    by (auto simp: file_descriptor_def Let_def split: sum.splits prod.splits option.splits
        dest!: fd_metadata_nodes body_length_facts(1) file_id_facts(2)[OF assms]
        intro!: own_change_same[OF I(1)] own_change_ids[OF I(1)])
  have d: "own_change c g u root b b1" if "directory_descriptor ne xa zone b p = (r1, b1)" for p r1 b1
    using that
    by (auto simp: directory_descriptor_def Let_def split: sum.splits prod.splits option.splits
        dest!: fs_metadata_nodes directory_entries_nodes file_id_facts(1)[OF assms]
        intro!: own_change_same[OF I(1)] own_change_ids[OF I(1)])
  show "own_change c g u root b b' \<and> own_handle c g u root fh'"
    using r I(2) f d by (auto simp: fs_read_desc_def split: fs_handle.splits prod.splits)
qed

lemma get_status_own:
  assumes "own_backend c g u root b" "pred_option (own_handle c g u root) ho"
    "fs_get_status b a ho = (r, ho', b')"
  shows "own_change c g u root b b' \<and> pred_option (own_handle c g u root) ho'"
  using assms
  by (auto simp: fs_get_status_def Let_def split: option.splits fs_handle.splits prod.splits sum.splits
      dest!: body_length_facts(1) intro!: own_change_same own_change_refl)

lemma apply_status_target: "fa_target (fold apply_status_action acts a) = fa_target a"
proof (induction acts arbitrary: a)
  case (Cons x acts)
  then show ?case by (cases x) simp_all
qed simp

lemma read_dir_own:
  assumes "own_backend c g u root b" "own_attachment c g u root a" "fs_read_dir_page b a k n = (r, a', b')"
  shows "own_change c g u root b b' \<and> own_attachment c g u root a'"
  using assms
  by (auto simp: fs_read_dir_page_def Let_def own_attachment_def
      split: option.splits prod.splits sum.splits mapped_path.splits
      dest!: directory_entries_nodes intro!: own_change_same own_change_refl)

text \<open>What the \<open>xattr\<close> crate promises is part of the invariant, so the instance holds for every \<open>xa\<close>.\<close>

interpretation own: confined_backend "fs_backend ne xa zone"
  "\<lambda>b. xattr_keeps_nodes xa \<and> own_backend c g u root b" "own_change c g u root"
  "own_attachment c g u root" "own_handle c g u root" for ne xa zone c g u root
proof -
  have weaken: "keeps_handle (\<lambda>b. xattr_keeps_nodes xa \<and> own_backend c g u root b) (own_change c g u root) (own_handle c g u root) f"
    if "keeps_handle (own_backend c g u root) (own_change c g u root) (own_handle c g u root) f"
    for f :: "fs_proxy \<Rightarrow> fs_handle \<Rightarrow> 'r \<times> fs_handle \<times> fs_proxy"
    using that by (auto simp: keeps_handle_def)
  have desc: "keeps_handle (\<lambda>b. xattr_keeps_nodes xa \<and> own_backend c g u root b) (own_change c g u root) (own_handle c g u root)
      (\<lambda>b h. fs_read_desc ne xa zone b h n)" for n
    using read_desc_own[of xa c g u root] by (auto simp: keeps_handle_def)
  show "confined_backend (fs_backend ne xa zone) (\<lambda>b. xattr_keeps_nodes xa \<and> own_backend c g u root b)
      (own_change c g u root) (own_attachment c g u root) (own_handle c g u root)"
    by (unfold_locales; (simp add: fs_backend_def)?)
       (auto simp: own_change_def fs_set_status_def own_attachment_def apply_status_target
          intro: desc weaken read_own write_own seek_own truncate_own idle_own
          dest: attachable_own open_own get_status_own read_dir_own)
qed

end
