(* ===== verification/File_Ids.thy ===== *)
theory File_Ids
  imports Fs_Confinement
begin

text \<open>
  The file ids of vfs/dirmanager.rs: every file and folder of a disk carries a 16-bit id in an
  extended attribute, given out by \<^const>\<open>allocate_file_id\<close> from a map of the ids in use that
  \<^const>\<open>collect_file_ids\<close> builds by a walk over the disk. This theory states the laws of the
  operating system's extended attributes as \<open>xattr_spec\<close>, shows that the walk finds the id of
  everything below the disk, and that giving out an id keeps the ids of a disk pairwise distinct.
\<close>

section \<open>Attributes and the tree\<close>

text \<open>What a call may leave unchanged: the nodes of the host and their attributes.\<close>

definition same_store :: "host \<Rightarrow> host \<Rightarrow> bool" where
  "same_store h h' \<longleftrightarrow> host_nodes h' = host_nodes h \<and> host_xattrs h' = host_xattrs h"

text \<open>The laws of extended attributes: a value belongs to the object a path leads to and is read from the
  stored attributes alone; after a successful write it reads back, and no other attribute of any object differs.\<close>

definition xattr_spec :: "xattr_api \<Rightarrow> bool" where
  "xattr_spec xa \<longleftrightarrow>
     (\<forall>h h' p q k. resolve p = resolve q \<longrightarrow> same_store h h' \<longrightarrow> xattr_get xa h' q k = xattr_get xa h p k) \<and>
     (\<forall>h p k v u h'. xattr_set xa h p k v = (Inr u, h') \<longrightarrow> host_nodes h' = host_nodes h \<and> xattr_get xa h' p k = Inr (Some v) \<and>
       (\<forall>q k'. (resolve q, k') \<noteq> (resolve p, k) \<longrightarrow> xattr_get xa h' q k' = xattr_get xa h q k'))"

lemma xattr_ref_spec: "xattr_spec xattr_ref"
  unfolding xattr_spec_def by (auto simp: xattr_ref_def same_store_def host_node_def split: if_splits)

text \<open>A host tree as an operating system keeps it: every object once, under plain names, in a folder that is there.\<close>

definition tree_ok :: "host \<Rightarrow> bool" where
  "tree_ok h \<longleftrightarrow> distinct (map fst (host_nodes h)) \<and>
     (\<forall>(q, n) \<in> set (host_nodes h). q \<noteq> [] \<and> list_all plain_component q \<and> is_dir h (butlast q))"

text \<open>The id stored at an object, the objects of a disk (its root included), and a map that knows all their ids.\<close>

definition file_id_at :: "xattr_api \<Rightarrow> host \<Rightarrow> host_path \<Rightarrow> u16 \<Rightarrow> bool" where
  "file_id_at xa h q i \<longleftrightarrow> read_file_id xa h (path_of_components q) = Inr (Some i)"

definition on_disk :: "host \<Rightarrow> host_path \<Rightarrow> host_path \<Rightarrow> bool" where
  "on_disk h d q \<longleftrightarrow> (\<exists>xs. q = d @ xs \<and> (xs = [] \<or> host_node h q \<noteq> None))"

definition knows_ids :: "xattr_api \<Rightarrow> host \<Rightarrow> host_path \<Rightarrow> id_map \<Rightarrow> bool" where
  "knows_ids xa h d ids \<longleftrightarrow> (\<forall>q i. on_disk h d q \<longrightarrow> file_id_at xa h q i \<longrightarrow> i \<in> id_map_used ids)"

lemma same_store_refl [simp]: "same_store h h"
  by (simp add: same_store_def)

lemma same_store_trans: "same_store a b \<Longrightarrow> same_store b c \<Longrightarrow> same_store a c"
  by (simp add: same_store_def)

lemma read_file_id_at:
  assumes "xattr_spec xa" "same_store h h'"
  shows "read_file_id xa h' p = read_file_id xa h (path_of_components (resolve p))"
proof -
  have "xattr_get xa h' p XATTR_FILE_ID_KEY = xattr_get xa h (path_of_components (resolve p)) XATTR_FILE_ID_KEY"
    using assms canonical_path(3)[of p] unfolding xattr_spec_def by metis
  then show ?thesis by (simp add: read_file_id_def)
qed

lemma note_id_used:
  assumes "id_map_wf TYPE(16) ids" "\<And>i. oid = Some i \<Longrightarrow> i \<noteq> 0"
  shows "id_map_wf TYPE(16) (note_id oid ids)" "id_map_used (note_id oid ids) = id_map_used ids \<union> set_option oid"
  using assms by (auto simp: note_id_def used_set split: option.splits)

lemma read_file_id_nonzero:
  assumes "read_file_id xa h p = Inr (Some i)"
  shows "i \<noteq> 0"
proof -
  obtain raw where "xattr_get xa h p XATTR_FILE_ID_KEY = Inr raw"
    using assms by (cases "xattr_get xa h p XATTR_FILE_ID_KEY") (simp_all add: read_file_id_def)
  then show ?thesis
    using assms by (cases raw) (auto simp: read_file_id_def Let_def split: list.splits if_splits)
qed

lemma file_id_at_unique: "file_id_at xa h q i \<Longrightarrow> file_id_at xa h q j \<Longrightarrow> i = j"
  by (simp add: file_id_at_def)

section \<open>The walk over a disk\<close>

text \<open>The entries of a directory, as the walk over a disk sees them.\<close>

lemma next_event_store:
  assumes "next_event h = (e, h1)"
  shows "same_store h h1"
proof (cases "host_script h")
  case Nil
  then have "h1 = h" using assms by (simp add: next_event_def)
  then show ?thesis by simp
next
  case (Cons x xs)
  then have "h1 = h\<lparr>host_script := xs\<rparr>" using assms by (simp add: next_event_def)
  then show ?thesis by (simp add: same_store_def)
qed

lemma fs_read_dir_entries:
  assumes "fs_read_dir p h = (Inr es, h')"
  shows "same_store h h'"
    and "es = map (\<lambda>(q, n). (last q, nd_kind n)) (filter (\<lambda>(q, n). q \<noteq> [] \<and> butlast q = resolve p) (host_nodes h))"
proof -
  obtain e h1 where e: "next_event h = (e, h1)" by fastforce
  then have s: "same_store h h1" by (rule next_event_store)
  have dir: "fs_read_dir p h = (if is_dir h1 (resolve p)
      then (Inr (map (\<lambda>(q, n). (last q, nd_kind n)) (filter (\<lambda>(q, n). q \<noteq> [] \<and> butlast q = resolve p) (host_nodes h1))), h1)
      else (Inl (if host_node h1 (resolve p) = None then NotFound else OtherKind), h1))" if "\<nexists>k. e = Fail k"
    using e that unfolding fs_read_dir_def syscall_def by (cases e) simp_all
  have "\<nexists>k. e = Fail k" using assms e unfolding fs_read_dir_def syscall_def by auto
  from dir[OF this] have r: "h' = h1 \<and> es = map (\<lambda>(q, n). (last q, nd_kind n))
      (filter (\<lambda>(q, n). q \<noteq> [] \<and> butlast q = resolve p) (host_nodes h1))"
    using assms by (cases "is_dir h1 (resolve p)") simp_all
  show "same_store h h'" using r s by simp
  show "es = map (\<lambda>(q, n). (last q, nd_kind n)) (filter (\<lambda>(q, n). q \<noteq> [] \<and> butlast q = resolve p) (host_nodes h))"
    using r s by (simp add: same_store_def)
qed

text \<open>What one step of the walk promises: the map keeps its ids and gains all ids of a subtree.\<close>

definition gains :: "id_map \<Rightarrow> id_map \<Rightarrow> bool" where
  "gains ids ids' \<longleftrightarrow> id_map_wf TYPE(16) ids' \<and> (id_map_used ids :: u16 set) \<subseteq> id_map_used ids'"

lemma gains_trans: "gains a b \<Longrightarrow> gains b c \<Longrightarrow> gains a c"
  by (auto simp: gains_def)

lemma knows_ids_mono: "knows_ids xa h d ids \<Longrightarrow> gains ids ids' \<Longrightarrow> knows_ids xa h d ids'"
  by (auto simp: knows_ids_def gains_def)

definition entry_known :: "xattr_api \<Rightarrow> host \<Rightarrow> host_path \<Rightarrow> id_map \<Rightarrow> bytes \<times> node_kind \<Rightarrow> bool" where
  "entry_known xa h d ids = (\<lambda>(name, kind).
     if kind = DirNode then knows_ids xa h (d @ [name]) ids
     else \<forall>i. file_id_at xa h (d @ [name]) i \<longrightarrow> i \<in> id_map_used ids)"

lemma entry_known_mono: "entry_known xa h d ids e \<Longrightarrow> gains ids ids' \<Longrightarrow> entry_known xa h d ids' e"
  by (cases e) (auto simp: entry_known_def gains_def intro: knows_ids_mono split: if_splits)

lemma collect_entries_known:
  assumes spec: "xattr_spec xa" and path: "path \<noteq> []"
    and rec: "\<And>p ids h1 ids' h2. p \<noteq> [] \<Longrightarrow> same_store h h1 \<Longrightarrow> id_map_wf TYPE(16) ids \<Longrightarrow> rec p ids h1 = (Inr ids', h2) \<Longrightarrow>
      same_store h h2 \<and> gains ids ids' \<and> knows_ids xa h (resolve p) ids'"
  shows "collect_entries rec xa path es ids h1 = (Inr ids', h2) \<Longrightarrow> same_store h h1 \<Longrightarrow> id_map_wf TYPE(16) ids \<Longrightarrow>
    \<forall>(name, kind) \<in> set es. plain_component name \<Longrightarrow>
    same_store h h2 \<and> gains ids ids' \<and> (\<forall>e \<in> set es. entry_known xa h (resolve path) ids' e)"
proof (induction es arbitrary: ids h1)
  case Nil
  then show ?case by (simp add: gains_def)
next
  case (Cons e es)
  obtain name kind where e: "e = (name, kind)" by fastforce
  have plain: "plain_component name" using Cons.prems(4) e by simp
  have p: "path_push path name \<noteq> []" "resolve (path_push path name) = resolve path @ [name]"
    using resolve_push_plain[OF plain path] path by auto
  have "\<exists>ids1 h1'. collect_entries rec xa path es ids1 h1' = (Inr ids', h2) \<and> same_store h h1' \<and> gains ids ids1 \<and>
      entry_known xa h (resolve path) ids1 e"
  proof (cases "kind = DirNode")
    case True
    then obtain ids1 h1' where r: "rec (path_push path name) ids h1 = (Inr ids1, h1')"
      "collect_entries rec xa path es ids1 h1' = (Inr ids', h2)"
      using Cons.prems(1) e by (auto simp: Let_def split: prod.splits sum.splits)
    then show ?thesis using rec[OF p(1) Cons.prems(2,3) r(1)] True e p(2) by (auto simp: entry_known_def)
  next
    case False
    then obtain oid where o: "read_file_id xa h1 (path_push path name) = Inr oid"
      "collect_entries rec xa path es (note_id oid ids) h1 = (Inr ids', h2)"
      using Cons.prems(1) e by (auto simp: Let_def split: sum.splits)
    have at: "read_file_id xa h (path_of_components (resolve path @ [name])) = Inr oid"
      using read_file_id_at[OF spec Cons.prems(2), of "path_push path name"] o(1) p(2) by simp
    have n: "i \<noteq> 0" if "oid = Some i" for i using read_file_id_nonzero o(1) that by blast
    note used = note_id_used[OF Cons.prems(3) n]
    show ?thesis
      using o(2) Cons.prems(2) used at False e
      by (intro exI[of _ "note_id oid ids"] exI[of _ h1]) (auto simp: gains_def entry_known_def file_id_at_def)
  qed
  then obtain ids1 h1' where 1: "collect_entries rec xa path es ids1 h1' = (Inr ids', h2)" "same_store h h1'" "gains ids ids1"
    "entry_known xa h (resolve path) ids1 e" by blast
  have 2: "same_store h h2 \<and> gains ids1 ids' \<and> (\<forall>e \<in> set es. entry_known xa h (resolve path) ids' e)"
    using Cons.IH[OF 1(1,2)] 1(3) Cons.prems(4) by (simp add: gains_def)
  then show ?case using 1(3,4) gains_trans entry_known_mono by auto
qed

text \<open>The tree of the host.\<close>

lemma node_listed: "host_node h q = Some n \<Longrightarrow> (q, n) \<in> set (host_nodes h)"
  by (simp add: host_node_def map_of_SomeD)

lemma tree_prefix:
  assumes "tree_ok h" "host_node h (q @ xs) \<noteq> None" "xs \<noteq> []" "q \<noteq> []"
  shows "is_dir h q"
  using assms(2,3)
proof (induction xs rule: rev_induct)
  case (snoc x xs)
  then obtain n where "(q @ xs @ [x], n) \<in> set (host_nodes h)" using node_listed by fastforce
  then have d: "is_dir h (q @ xs)" using assms(1) by (auto simp: tree_ok_def butlast_append)
  show ?case
  proof (cases xs)
    case (Cons y ys)
    then have "host_node h (q @ xs) \<noteq> None" using d assms(4) by (auto simp: is_dir_def split: option.splits)
    then show ?thesis using snoc.IH Cons by simp
  qed (use d in simp)
qed simp

lemma collect_file_ids_known:
  assumes spec: "xattr_spec xa" and tree: "tree_ok h"
  shows "collect_file_ids fuel xa path ids h1 = (Inr ids', h2) \<Longrightarrow> path \<noteq> [] \<Longrightarrow> same_store h h1 \<Longrightarrow> id_map_wf TYPE(16) ids \<Longrightarrow>
    same_store h h2 \<and> gains ids ids' \<and> knows_ids xa h (resolve path) ids'"
proof (induction fuel arbitrary: path ids h1 ids' h2)
  case (Suc fuel)
  obtain oid where o: "read_file_id xa h1 path = Inr oid"
    using Suc.prems(1) by (auto split: sum.splits)
  obtain es h1' where d: "fs_read_dir path h1 = (Inr es, h1')"
    and c: "collect_entries (collect_file_ids fuel xa) xa path es (note_id oid ids) h1' = (Inr ids', h2)"
    using Suc.prems(1) o by (auto split: prod.splits sum.splits)
  have s1: "same_store h h1'" using same_store_trans[OF Suc.prems(3) fs_read_dir_entries(1)[OF d]] .
  have es: "es = map (\<lambda>(q, n). (last q, nd_kind n)) (filter (\<lambda>(q, n). q \<noteq> [] \<and> butlast q = resolve path) (host_nodes h))"
    using fs_read_dir_entries(2)[OF d] Suc.prems(3) by (simp add: same_store_def)
  have plain: "\<forall>(name, kind) \<in> set es. plain_component name"
    using tree unfolding es tree_ok_def by (auto simp: list_all_iff)
  have n: "i \<noteq> 0" if "oid = Some i" for i using read_file_id_nonzero o that by blast
  note used = note_id_used[OF Suc.prems(4) n]
  have known: "same_store h h2 \<and> gains (note_id oid ids) ids' \<and> (\<forall>e \<in> set es. entry_known xa h (resolve path) ids' e)"
    by (rule collect_entries_known[OF spec Suc.prems(2) _ c s1 used(1) plain]) (use Suc.IH in blast)
  have "knows_ids xa h (resolve path) ids'"
    unfolding knows_ids_def on_disk_def
  proof (intro allI impI, elim exE conjE)
    fix q i xs assume i: "file_id_at xa h q i" and q: "q = resolve path @ xs" and x: "xs = [] \<or> host_node h q \<noteq> None"
    show "i \<in> id_map_used ids'"
    proof (cases xs)
      case Nil
      then have "oid = Some i" using i q o read_file_id_at[OF spec Suc.prems(3), of path] by (simp add: file_id_at_def)
      then show ?thesis using known used(2) by (auto simp: gains_def)
    next
      case (Cons y ys)
      have "\<exists>n. host_node h (resolve path @ [y]) = Some n \<and> (ys \<noteq> [] \<longrightarrow> nd_kind n = DirNode)"
      proof (cases "ys = []")
        case False
        then have "is_dir h (resolve path @ [y])"
          using tree_prefix[OF tree, of "resolve path @ [y]" ys] x q Cons by simp
        then show ?thesis by (auto simp: is_dir_def split: option.splits)
      qed (use x q Cons in auto)
      then obtain n where n: "host_node h (resolve path @ [y]) = Some n" "ys \<noteq> [] \<Longrightarrow> nd_kind n = DirNode" by blast
      have "(y, nd_kind n) \<in> set es"
        unfolding es using node_listed[OF n(1)] by (force simp: image_iff)
      then have "entry_known xa h (resolve path) ids' (y, nd_kind n)" using known by blast
      then show ?thesis
        using i q x Cons n by (auto simp: entry_known_def knows_ids_def on_disk_def split: if_splits)
    qed
  qed
  then show ?case using known used by (auto simp: gains_def)
qed simp

section \<open>Allocation\<close>

text \<open>No two objects of a disk have the same id, and the id map of the disk, once built, knows them all.\<close>

definition ids_distinct :: "xattr_api \<Rightarrow> host \<Rightarrow> host_path \<Rightarrow> bool" where
  "ids_distinct xa h d \<longleftrightarrow>
     (\<forall>q q' i. on_disk h d q \<longrightarrow> on_disk h d q' \<longrightarrow> file_id_at xa h q i \<longrightarrow> file_id_at xa h q' i \<longrightarrow> q = q')"

definition map_known :: "xattr_api \<Rightarrow> host \<Rightarrow> path_buf \<Rightarrow> dir_manager \<Rightarrow> bool" where
  "map_known xa h disk dm \<longleftrightarrow>
     pred_option (\<lambda>ids. id_map_wf TYPE(16) ids \<and> knows_ids xa h (resolve disk) ids) (dm_file_ids dm disk)"

lemma same_store_facts:
  assumes "xattr_spec xa" "same_store h h'"
  shows "file_id_at xa h' q i = file_id_at xa h q i" "on_disk h' d q = on_disk h d q"
    "knows_ids xa h' d ids = knows_ids xa h d ids" "ids_distinct xa h' d = ids_distinct xa h d"
proof -
  have f: "file_id_at xa h' q i = file_id_at xa h q i" for q i
  proof -
    have "xattr_get xa h' (path_of_components q) XATTR_FILE_ID_KEY = xattr_get xa h (path_of_components q) XATTR_FILE_ID_KEY"
      using assms unfolding xattr_spec_def by metis
    then show ?thesis by (simp add: file_id_at_def read_file_id_def)
  qed
  have o: "on_disk h' d q = on_disk h d q" for d q
    using assms(2) by (simp add: on_disk_def same_store_def host_node_def)
  show "file_id_at xa h' q i = file_id_at xa h q i" "on_disk h' d q = on_disk h d q"
    "knows_ids xa h' d ids = knows_ids xa h d ids" "ids_distinct xa h' d = ids_distinct xa h d"
    by (simp_all add: f o knows_ids_def ids_distinct_def)
qed

text \<open>Writing an id changes the id of one object.\<close>

lemma set_id_facts:
  assumes "xattr_spec xa" "xattr_set xa h path XATTR_FILE_ID_KEY (u16_to_le i) = (Inr u, h')" "i \<noteq> 0"
  shows "host_nodes h' = host_nodes h" "file_id_at xa h' (resolve path) i"
    "list_all plain_component q \<Longrightarrow> q \<noteq> resolve path \<Longrightarrow> file_id_at xa h' q j = file_id_at xa h q j"
proof -
  have s: "host_nodes h' = host_nodes h" "xattr_get xa h' path XATTR_FILE_ID_KEY = Inr (Some (u16_to_le i))"
    "\<And>q k'. (resolve q, k') \<noteq> (resolve path, XATTR_FILE_ID_KEY) \<Longrightarrow> xattr_get xa h' q k' = xattr_get xa h q k'"
    using assms(1,2) unfolding xattr_spec_def by blast+
  show "host_nodes h' = host_nodes h" by (rule s(1))
  have "read_file_id xa h' path = Inr (Some i)"
    using s(2) assms(3) by (simp add: read_file_id_def u16_to_le_def Let_def)
  then show "file_id_at xa h' (resolve path) i"
    using read_file_id_at[OF assms(1) same_store_refl, of h' path] by (simp add: file_id_at_def)
  show "file_id_at xa h' q j = file_id_at xa h q j" if "list_all plain_component q" "q \<noteq> resolve path"
    using s(3)[of "path_of_components q"] that resolve_path_of_components[OF that(1)]
    by (simp add: file_id_at_def read_file_id_def)
qed

lemma on_disk_plain:
  assumes "tree_ok h" "on_disk h (resolve disk) q"
  shows "list_all plain_component q"
proof -
  obtain xs where q: "q = resolve disk @ xs" "xs = [] \<or> host_node h q \<noteq> None" using assms(2) by (auto simp: on_disk_def)
  show ?thesis
  proof (cases "xs = []")
    case True
    then show ?thesis using q resolve_plain by simp
  next
    case False
    then obtain n where "(q, n) \<in> set (host_nodes h)" using q(2) node_listed by fastforce
    then show ?thesis using assms(1) by (auto simp: tree_ok_def)
  qed
qed

text \<open>The map an allocation works with, read from the disk when there is none.\<close>

lemma disk_ids_known:
  assumes "xattr_spec xa" "tree_ok h" "disk \<noteq> []" "map_known xa h disk dm"
    "(case dm_file_ids dm disk of Some ids \<Rightarrow> (Inr ids, h)
      | None \<Rightarrow> collect_file_ids (walk_fuel h) xa disk (id_map_new TYPE(16)) h) = (Inr ids, h1)"
  shows "same_store h h1 \<and> id_map_wf TYPE(16) ids \<and> knows_ids xa h (resolve disk) ids"
proof (cases "dm_file_ids dm disk")
  case None
  have "id_map_wf TYPE(16) (id_map_new TYPE(16))" by (rule wf_new) simp
  then show ?thesis
    using collect_file_ids_known[OF assms(1,2) _ assms(3) same_store_refl] assms(5) None by (auto simp: gains_def)
qed (use assms(4,5) in \<open>auto simp: map_known_def\<close>)


lemma allocate_present:
  "read_file_id xa h path = Inr (Some i) \<Longrightarrow> allocate_file_id ne xa disk path dm h = (Inr i, dm, h)"
  by (simp add: allocate_file_id_def)

lemma allocate_unreadable:
  "read_file_id xa h path = Inl k \<Longrightarrow> allocate_file_id ne xa disk path dm h = (Inl (vfs_error_from_io k), dm, h)"
  by (simp add: allocate_file_id_def)

lemma allocate_fresh:
  assumes "read_file_id xa h path = Inr None"
    "(case dm_file_ids dm disk of Some ids \<Rightarrow> (Inr ids, h)
      | None \<Rightarrow> collect_file_ids (walk_fuel h) xa disk (id_map_new TYPE(16)) h) = (Inr ids, h1)"
    "read_file_id xa h1 path = Inr None" "allocate_file_id ne xa disk path dm h = (Inr i, dm', h')"
  shows "id_map_find_free ne ids = Some i" "\<exists>u. xattr_set xa h1 path XATTR_FILE_ID_KEY (u16_to_le i) = (Inr u, h')"
    "dm_file_ids dm' disk = Some (id_map_set ids i)"
proof -
  let ?dm = "dm\<lparr>dm_file_ids := (dm_file_ids dm)(disk \<mapsto> ids)\<rparr>"
  have eq: "(case id_map_find_free ne ids of
      None \<Rightarrow> (Inl VDeviceFull, ?dm, h1)
    | Some i \<Rightarrow>
        (case xattr_set xa h1 path XATTR_FILE_ID_KEY (u16_to_le i) of
           (Inl k, h) \<Rightarrow> (Inl (vfs_error_from_io k), ?dm, h)
         | (Inr _, h) \<Rightarrow> (Inr i, ?dm\<lparr>dm_file_ids := (dm_file_ids ?dm)(disk \<mapsto> id_map_set ids i)\<rparr>, h))) = (Inr i, dm', h')"
    using assms(4) unfolding allocate_file_id_def assms(1-3) Let_def sum.case option.case prod.case .
  obtain j :: u16 where j: "id_map_find_free ne ids = Some j" using eq by (cases "id_map_find_free ne ids :: u16 option") auto
  obtain r h2 where s: "xattr_set xa h1 path XATTR_FILE_ID_KEY (u16_to_le j) = (r, h2)" by fastforce
  obtain u where u: "r = Inr u" using eq unfolding j s option.case prod.case by (cases r) auto
  have e: "j = i" "h2 = h'" "dm' = ?dm\<lparr>dm_file_ids := (dm_file_ids ?dm)(disk \<mapsto> id_map_set ids j)\<rparr>"
    using eq unfolding j s u option.case prod.case sum.case by auto
  show "id_map_find_free ne ids = Some i" "\<exists>u. xattr_set xa h1 path XATTR_FILE_ID_KEY (u16_to_le i) = (Inr u, h')"
    "dm_file_ids dm' disk = Some (id_map_set ids i)"
    using j s u e by simp_all
qed

lemma allocate_cases:
  assumes "xattr_spec xa" "tree_ok h" "disk \<noteq> []" "map_known xa h disk dm"
    "allocate_file_id ne xa disk path dm h = (Inr i, dm', h')"
  obtains (present) "read_file_id xa h path = Inr (Some i)" "dm' = dm" "h' = h"
  | (fresh) ids h1 u where "same_store h h1" "id_map_wf TYPE(16) ids" "knows_ids xa h (resolve disk) ids"
      "id_map_find_free ne ids = Some i" "xattr_set xa h1 path XATTR_FILE_ID_KEY (u16_to_le i) = (Inr u, h')"
      "dm_file_ids dm' disk = Some (id_map_set ids i)"
proof -
  let ?p = "case dm_file_ids dm disk of Some ids \<Rightarrow> (Inr ids, h)
    | None \<Rightarrow> collect_file_ids (walk_fuel h) xa disk (id_map_new TYPE(16)) h"
  consider k where "read_file_id xa h path = Inl k" | j where "read_file_id xa h path = Inr (Some j)"
    | "read_file_id xa h path = Inr None"
    by (cases "read_file_id xa h path"; cases "projr (read_file_id xa h path)") auto
  then show thesis
  proof cases
    case 1
    then show thesis using assms(5) allocate_unreadable by simp
  next
    case (2 j)
    then show thesis using present assms(5) allocate_present[OF 2, of ne disk dm] by simp
  next
    case 3
    obtain r h1 where p: "?p = (r, h1)" by (cases ?p)
    have "\<exists>ids. r = Inr ids"
    proof (cases r)
      case (Inl k)
      then show ?thesis using assms(5) unfolding allocate_file_id_def 3 p sum.case option.case prod.case by simp
    qed blast
    then obtain ids where r: "?p = (Inr ids, h1)" using p by blast
    note known = disk_ids_known[OF assms(1-4) r]
    have none: "read_file_id xa h1 path = Inr None"
      using read_file_id_at[OF assms(1) conjunct1[OF known], of path] read_file_id_at[OF assms(1) same_store_refl, of h path] 3 by simp
    note f = allocate_fresh[OF 3 r none assms(5)]
    obtain u where "xattr_set xa h1 path XATTR_FILE_ID_KEY (u16_to_le i) = (Inr u, h')" using f(2) by blast
    then show thesis using fresh[of h1 ids u] known f(1,3) by blast
  qed
qed

text \<open>One object gets an id no other object has.\<close>

lemma ids_distinct_add:
  assumes "ids_distinct xa h d" "\<And>q. on_disk h' d q = on_disk h d q"
    and other: "\<And>q j. on_disk h d q \<Longrightarrow> q \<noteq> p \<Longrightarrow> file_id_at xa h' q j = file_id_at xa h q j"
    and new: "\<And>j. file_id_at xa h' p j \<Longrightarrow> j = i"
    and unused: "\<And>q. on_disk h d q \<Longrightarrow> \<not> file_id_at xa h q i"
  shows "ids_distinct xa h' d"
  unfolding ids_distinct_def assms(2)
proof (intro allI impI)
  fix q q' j
  assume a: "on_disk h d q" "on_disk h d q'" "file_id_at xa h' q j" "file_id_at xa h' q' j"
  show "q = q'"
  proof (cases "q = p \<or> q' = p")
    case True
    then have "j = i" using a new by auto
    then show ?thesis using a other unused True by metis
  next
    case False
    then show ?thesis using a other assms(1) unfolding ids_distinct_def by metis
  qed
qed

text \<open>C22: file ids are unique on their disk: on a host whose attributes read back what was written, when an object
  of a disk is asked for its id, it has that id afterwards, every other object keeps its own, and no two objects of the
  disk share one, whether the id was found, or allocated after the disk was walked for the ids of earlier runs.\<close>

theorem file_ids_unique:
  assumes "simd_ne_spec ne" "xattr_spec xa" "tree_ok h" "disk \<noteq> []" "on_disk h (resolve disk) (resolve path)"
    "map_known xa h disk dm" "ids_distinct xa h (resolve disk)"
    "allocate_file_id ne xa disk path dm h = (Inr i, dm', h')"
  shows "file_id_at xa h' (resolve path) i \<and> i \<noteq> 0 \<and> map_known xa h' disk dm' \<and> ids_distinct xa h' (resolve disk) \<and>
    (\<forall>q j. on_disk h (resolve disk) q \<longrightarrow> q \<noteq> resolve path \<longrightarrow> file_id_at xa h' q j = file_id_at xa h q j)"
  using assms(2-4,6,8)
proof (cases rule: allocate_cases)
  case present
  then have "file_id_at xa h (resolve path) i" "i \<noteq> 0"
    using read_file_id_at[OF assms(2) same_store_refl, of h path] read_file_id_nonzero by (auto simp: file_id_at_def)
  then show ?thesis using present assms(6,7) by simp
next
  case (fresh ids h1 u)
  note store = same_store_facts[OF assms(2) fresh(1)]
  have i: "i \<noteq> 0" "i \<notin> id_map_used ids" using find_free_Some[OF assms(1) fresh(2,4)] by auto
  note set_id = set_id_facts[OF assms(2) fresh(5) i(1)]
  have disk: "on_disk h' d q = on_disk h d q" for d q
    using set_id(1) fresh(1) by (simp add: on_disk_def same_store_def host_node_def)
  have other: "file_id_at xa h' q j = file_id_at xa h q j" if "on_disk h (resolve disk) q" "q \<noteq> resolve path" for q j
    using set_id(3)[OF on_disk_plain[OF assms(3) that(1)] that(2)] store(1) by simp
  have new: "j = i" if "file_id_at xa h' (resolve path) j" for j using file_id_at_unique[OF that set_id(2)] .
  have unused: "\<not> file_id_at xa h q i" if "on_disk h (resolve disk) q" for q
    using fresh(3) i(2) that by (auto simp: knows_ids_def)
  have "ids_distinct xa h' (resolve disk)" using ids_distinct_add[OF assms(7) disk other new unused] .
  moreover have "map_known xa h' disk dm'"
    unfolding map_known_def fresh(6) option.pred_inject knows_ids_def disk
  proof (intro conjI allI impI)
    show "id_map_wf TYPE(16) (id_map_set ids i)" using fresh(2) by simp
    fix q j assume a: "on_disk h (resolve disk) q" "file_id_at xa h' q j"
    then have "j = i \<or> j \<in> id_map_used ids"
      using new other fresh(3) unfolding knows_ids_def by (cases "q = resolve path") auto
    then show "j \<in> id_map_used (id_map_set ids i)" using used_set[OF fresh(2) i(1)] by auto
  qed
  ultimately show ?thesis using set_id(2) i(1) other by blast
qed

text \<open>A root with a folder that has no id yet.\<close>

lemma sample_tree: "tree_ok (fp_host sample_proxy)"
proof -
  have "plain_component (bstr ''r'')" "plain_component (bstr ''b'')" "plain_component (bstr ''a~T~'')"
    by (simp_all add: plain_component_def bstr_def SLASH_def)
  moreover have "bstr ''r'' \<noteq> bstr ''b''" "bstr ''b'' \<noteq> bstr ''a~T~''" by (simp_all add: bstr_def)
  ultimately show ?thesis by (simp add: tree_ok_def sample_proxy_def is_dir_def host_node_def)
qed

lemma sample_no_ids: "\<not> file_id_at xattr_ref (fp_host sample_proxy) q i"
  by (auto simp: file_id_at_def read_file_id_def xattr_ref_def sample_proxy_def)


lemma sample_dm: "dm_file_ids (fp_dirman sample_proxy) (bstr ''/r'') = None"
  by (simp add: sample_proxy_def)

lemma sample_read: "read_file_id xattr_ref (fp_host sample_proxy) (bstr ''/r/b'') = Inr None"
  by code_simp

lemma sample_fuel: "walk_fuel (fp_host sample_proxy) = 3"
  by code_simp

lemma sample_collect: "collect_file_ids 3 xattr_ref (bstr ''/r'') ids (fp_host sample_proxy) = (Inr ids, fp_host sample_proxy)"
  by code_simp

lemma sample_set: "\<exists>h'. xattr_set xattr_ref (fp_host sample_proxy) (bstr ''/r/b'') k v = (Inr (), h')"
proof -
  have r: "resolve (bstr ''/r/b'') = [bstr ''r'', bstr ''b'']" by code_simp
  show ?thesis by (simp add: xattr_ref_def r host_node_def sample_proxy_def)
qed

lemma sample_allocates:
  "\<exists>i dm' h'. allocate_file_id simd_ne_ref xattr_ref (bstr ''/r'') (bstr ''/r/b'') (fp_dirman sample_proxy) (fp_host sample_proxy) =
     (Inr i, dm', h')"
proof -
  have "(id_map_find_free simd_ne_ref (id_map_new TYPE(16)) :: u16 option) \<noteq> None"
  proof
    assume "(id_map_find_free simd_ne_ref (id_map_new TYPE(16)) :: u16 option) = None"
    moreover have "id_map_wf TYPE(16) (id_map_new TYPE(16))" by (rule wf_new) simp
    ultimately have "id_map_used (id_map_new TYPE(16)) = {i :: u16. i \<noteq> 0}"
      using find_free_None_iff[OF simd_ne_ref_spec] by blast
    then have "{i :: u16. i \<noteq> 0} = {}" by (simp add: used_new)
    moreover have "(1 :: u16) \<in> {i. i \<noteq> 0}" by simp
    ultimately show False by blast
  qed
  then obtain i :: u16 where i: "id_map_find_free simd_ne_ref (id_map_new TYPE(16)) = Some i" by blast
  obtain h' where "xattr_set xattr_ref (fp_host sample_proxy) (bstr ''/r/b'') XATTR_FILE_ID_KEY (u16_to_le i) = (Inr (), h')"
    using sample_set by blast
  then show ?thesis
    by (simp add: allocate_file_id_def sample_dm sample_read sample_fuel sample_collect i)
qed

theorem file_ids_unique_witness:
  "\<exists>i dm' h'. allocate_file_id simd_ne_ref xattr_ref (bstr ''/r'') (bstr ''/r/b'') (fp_dirman sample_proxy) (fp_host sample_proxy) =
       (Inr i, dm', h') \<and> file_id_at xattr_ref h' [bstr ''r'', bstr ''b''] i \<and> ids_distinct xattr_ref h' [bstr ''r'']"
proof -
  let ?h = "fp_host sample_proxy" and ?dm = "fp_dirman sample_proxy"
  obtain i dm' h' where a: "allocate_file_id simd_ne_ref xattr_ref (bstr ''/r'') (bstr ''/r/b'') ?dm ?h = (Inr i, dm', h')"
    using sample_allocates by blast
  have r: "resolve (bstr ''/r'') = [bstr ''r'']" "resolve (bstr ''/r/b'') = [bstr ''r'', bstr ''b'']" by code_simp+
  have d: "bstr ''/r'' \<noteq> []" by (simp add: bstr_def)
  have o: "on_disk ?h (resolve (bstr ''/r'')) (resolve (bstr ''/r/b''))"
    by (simp add: on_disk_def r host_node_def sample_proxy_def)
  have m: "map_known xattr_ref ?h (bstr ''/r'') ?dm" by (simp add: map_known_def sample_dm)
  have u: "ids_distinct xattr_ref ?h (resolve (bstr ''/r''))" by (simp add: ids_distinct_def sample_no_ids)
  from file_ids_unique[OF simd_ne_ref_spec xattr_ref_spec sample_tree d o m u a] a show ?thesis by (auto simp: r)
qed

end
