(* ===== verification/Mail_Protocol.thy ===== *)
theory Mail_Protocol
  imports Tlv_Records Rust_Text
begin

text \<open>
  \<^verbatim>\<open>Server/src/vipc/mail/protocol.rs\<close> and \<^verbatim>\<open>broadcast.rs\<close>: the records, identifiers and transport
  fragments of GRiDMail, and the broadcast handshake.
\<close>

definition RECORD_MARKER :: byte where "RECORD_MARKER = 0xFD"
definition SESSION_MARKER :: byte where "SESSION_MARKER = 0xFE"
definition TAG_TERMINATOR :: byte where "TAG_TERMINATOR = 0x7A"
definition SESSION_COMMAND :: byte where "SESSION_COMMAND = 0x61"
definition MAIL_SERVICE_ID :: u16 where "MAIL_SERVICE_ID = 11400"
definition BROADCAST_SERVICE_ID :: u16 where "BROADCAST_SERVICE_ID = 11500"
definition PROTOCOL_VERSION :: byte where "PROTOCOL_VERSION = 1"
definition MORE :: byte where "MORE = 1"
definition TRANSPORT_HEADER_LEN :: nat where "TRANSPORT_HEADER_LEN = 4"
definition TRANSPORT_SUCCESS :: u16 where "TRANSPORT_SUCCESS = 0"
definition RECORD_HEADER_LEN :: nat where "RECORD_HEADER_LEN = 3"
definition MAIL_ID_LEN :: nat where "MAIL_ID_LEN = 6"

lemmas mail_constants = RECORD_MARKER_def SESSION_MARKER_def TAG_TERMINATOR_def SESSION_COMMAND_def
  MAIL_SERVICE_ID_def BROADCAST_SERVICE_ID_def PROTOCOL_VERSION_def MORE_def TRANSPORT_HEADER_LEN_def
  TRANSPORT_SUCCESS_def RECORD_HEADER_LEN_def MAIL_ID_LEN_def

section \<open>Records\<close>

definition single_record :: "bytes \<Rightarrow> byte \<Rightarrow> byte \<Rightarrow> bytes option" where
  "single_record data marker tag =
     (case tlv_collect_all (tlv_marker_u16 data marker) of
        Inr [entry] \<Rightarrow> if entry_tag entry = tag then Some (entry_value entry) else None
      | _ \<Rightarrow> None)"

definition app_frame :: "byte \<Rightarrow> bytes \<Rightarrow> bytes" where
  "app_frame marker payload =
     (let payload = (if length payload > 65535 then take 65535 payload else payload);
          len = unwrap_or 65535 (u16_try_from (length payload))
      in [marker] @ u16_to_le len @ payload)"

definition transport :: "byte \<Rightarrow> byte \<Rightarrow> bytes \<Rightarrow> bytes" where
  "transport flags connection_id data = [flags, connection_id] @ u16_to_le TRANSPORT_SUCCESS @ data"

record session_initialize =
  si_service_id :: u16
  si_protocol_version :: byte

definition session_initialize_parse :: "bytes \<Rightarrow> session_initialize option" where
  "session_initialize_parse data =
     (case single_record data SESSION_MARKER SESSION_COMMAND of
        None \<Rightarrow> None
      | Some v \<Rightarrow>
          (case read_u16 v of
             Inl e \<Rightarrow> None
           | Inr (service_id, c) \<Rightarrow>
               (case read_u8 c of
                  Inl e \<Rightarrow> None
                | Inr (version, c) \<Rightarrow>
                    if fst (read_remainder c) = []
                    then Some \<lparr>si_service_id = service_id, si_protocol_version = version\<rparr> else None)))"

record transport_fragment =
  tf_flags :: byte
  tf_connection_id :: byte
  tf_error :: u16
  tf_data :: bytes

definition transport_fragment_parse :: "bytes \<Rightarrow> transport_fragment option" where
  "transport_fragment_parse data =
     ok (and_then (read_u8 data) (\<lambda>(flags, c).
         and_then (read_u8 c) (\<lambda>(connection_id, c).
         and_then (read_u16 c) (\<lambda>(err, c).
           Inr \<lparr>tf_flags = flags, tf_connection_id = connection_id, tf_error = err,
                tf_data = fst (read_remainder c)\<rparr>))))"

section \<open>Mail ids\<close>

definition mail_id_from_u32 :: "u32 \<Rightarrow> bytes" where
  "mail_id_from_u32 v = u32_to_le v @ replicate (MAIL_ID_LEN - 4) 0"

definition mail_id_value :: "bytes \<Rightarrow> u32 option" where
  "mail_id_value i =
     (case take 4 i of
        [a, b, c, d] \<Rightarrow> if list_all (\<lambda>x. x = 0) (drop 4 i) then Some (u32_of_le a b c d) else None
      | _ \<Rightarrow> None)"

section \<open>Broadcast\<close>

definition broadcast_process :: "bytes \<Rightarrow> bytes option" where
  "broadcast_process payload =
     (case payload of
        flags # connection_id # z1 # z2 # data \<Rightarrow>
          if z1 = 0 \<and> z2 = 0 then
            (let is_initialize = (session_initialize_parse data \<noteq>
                   Some \<lparr>si_service_id = BROADCAST_SERVICE_ID, si_protocol_version = PROTOCOL_VERSION\<rparr>) in
             if flags AND MORE \<noteq> 0 \<or> is_initialize then None
             else Some (transport 0 connection_id (app_frame SESSION_MARKER [TAG_TERMINATOR])))
          else None
      | _ \<Rightarrow> None)"

section \<open>Lemmas\<close>

lemma app_frame_short: "length p < 65536 \<Longrightarrow> app_frame m p = m # u16_to_le (of_nat (length p)) @ p"
  by (simp add: app_frame_def u16_try_from_def)

lemma app_frame_long: "65535 < length p \<Longrightarrow> app_frame m p = m # u16_to_le 65535 @ take 65535 p"
  by (simp add: app_frame_def u16_try_from_def)

lemma length_app_frame: "length (app_frame m p) = 3 + min (length p) 65535"
  by (cases "length p < 65536") (auto simp: app_frame_short app_frame_long)

lemma app_frame_take: "app_frame m p = app_frame m (take 65535 p)"
  by (cases "length p \<le> 65535") (auto simp: app_frame_short app_frame_long)

lemma app_frame_record:
  "length v < 65535 \<Longrightarrow> app_frame m (t # v) = marker_u16_record m t v"
  by (simp add: app_frame_short marker_u16_record_def)

lemma app_frame_single_record:
  assumes "length v < 65535"
  shows "single_record (app_frame m (t # v)) m tag = (if t = tag then Some v else None)"
proof -
  have "tlv_collect_all (tlv_new (marker_u16_record m t v) (MarkerU16 m)) = Inr [\<lparr>entry_tag = t, entry_value = v\<rparr>]"
    using marker_u16.collect_all_iff[of "marker_u16_record m t v" m "[\<lparr>entry_tag = t, entry_value = v\<rparr>]"] assms by (simp add: marker_u16.encode_all_def)
  then show ?thesis using assms by (simp add: single_record_def tlv_marker_u16_def app_frame_record)
qed

lemma single_record_Some:
  "single_record data m tag = Some v \<longleftrightarrow> length v < 65535 \<and> data = app_frame m (tag # v)"
proof
  assume "single_record data m tag = Some v"
  then have "tlv_collect_all (tlv_new data (MarkerU16 m)) = Inr [\<lparr>entry_tag = tag, entry_value = v\<rparr>]"
    by (auto simp: single_record_def tlv_marker_u16_def split: sum.splits list.splits if_splits)
  then show "length v < 65535 \<and> data = app_frame m (tag # v)"
    using marker_u16.collect_all_iff[of data m "[\<lparr>entry_tag = tag, entry_value = v\<rparr>]"]
    by (simp add: app_frame_record marker_u16.encode_all_def)
qed (simp add: app_frame_single_record)

lemma mail_id_value_from_u32: "mail_id_value (mail_id_from_u32 v) = Some v"
  by (simp add: mail_id_value_def mail_id_from_u32_def u32_to_le_def MAIL_ID_LEN_def numeral_2_eq_2)

lemma mail_id_value_Some:
  assumes "length i = 6"
  shows "mail_id_value i = Some v \<longleftrightarrow> i = mail_id_from_u32 v"
proof
  obtain a b c d e f where i: "i = [a, b, c, d, e, f]"
    using assms by (auto simp: numeral_eq_Suc length_Suc_conv)
  assume "mail_id_value i = Some v"
  with i have "e = 0" "f = 0" "v = u32_of_le a b c d"
    by (auto simp: mail_id_value_def split: if_splits)
  then show "i = mail_id_from_u32 v" using i u32_to_le_of_le[of a b c d]
    by (simp add: mail_id_from_u32_def MAIL_ID_LEN_def numeral_2_eq_2)
qed (simp add: mail_id_value_from_u32)

end
