(* ===== verification/Db_Users.thy ===== *)
theory Db_Users
  imports Rust_Text "HOL-Library.List_Lexorder" "HOL-Library.Product_Lexorder"
begin

text \<open>
  \<^verbatim>\<open>Server/src/db/users.rs\<close>: the account directory. The tables of the two migrations are lists of
  rows, every SQL statement of the sources is a function on them, written as the statement reads:
  joins are list comprehensions, the column constraints of the migrations (unique names, foreign
  keys with cascading deletes) are checked by the inserts and carried out by the deletes. SQLite
  itself is not part of the sources; beyond the meaning of the statements the model assumes nothing
  of it: any statement may fail (a busy or broken database), which the script \<open>db_faults\<close> decides.
  Text columns hold ASCII or UTF-8 bytes without embedded zero bytes, for which \<open>COLLATE NOCASE\<close> is
  equality up to ASCII case.
\<close>

section \<open>Tables\<close>

record company_row =
  co_id :: int
  co_name :: bytes
  co_quota :: u32
  co_used :: u32

record group_row =
  gr_id :: int
  gr_company_id :: int
  gr_name :: bytes
  gr_quota :: u32
  gr_used :: u32

record user_row =
  us_id :: int
  us_group_id :: int
  us_name :: bytes
  us_password :: bytes
  us_authority :: u16
  us_quota :: u32
  us_used :: u32

text \<open>The table of \<^verbatim>\<open>Server/src/db/mailbox.rs\<close>.\<close>

record message_row =
  ms_id :: int
  ms_sender_id :: int
  ms_recipient_id :: int
  ms_mail_id :: int
  ms_subject :: bytes
  ms_body :: bytes
  ms_attachment_path :: "bytes option"
  ms_is_read :: bool

record database =
  db_companies :: "company_row list"
  db_groups :: "group_row list"
  db_users :: "user_row list"
  db_messages :: "message_row list"
  db_faults :: "bool list"

datatype sql_error = ConstraintViolation | SqlFailure | ValueOutOfRange

type_synonym 'a sql_result = "(sql_error + 'a) \<times> database"

definition initial_database :: database where
  "initial_database =
     \<lparr>db_companies = [\<lparr>co_id = 1, co_name = bstr ''GRiD Systems'', co_quota = 4294967295, co_used = 0\<rparr>],
      db_groups = [\<lparr>gr_id = 1, gr_company_id = 1, gr_name = bstr ''Default Group'',
                    gr_quota = 4294967295, gr_used = 0\<rparr>],
      db_users = [\<lparr>us_id = 1, us_group_id = 1, us_name = bstr ''Sysuser'', us_password = bstr ''Sysuser'',
                   us_authority = 40, us_quota = 4294967295, us_used = 0\<rparr>],
      db_messages = [], db_faults = []\<rparr>"

section \<open>Statements\<close>

definition nocase :: "bytes \<Rightarrow> bytes" where
  "nocase s = map to_ascii_lowercase s"

abbreviation nocase_eq :: "bytes \<Rightarrow> bytes \<Rightarrow> bool" where
  "nocase_eq a b \<equiv> nocase a = nocase b"

text \<open>One statement: it may fail without having had any effect.\<close>

definition sql :: "(database \<Rightarrow> 'a sql_result) \<Rightarrow> database \<Rightarrow> 'a sql_result" where
  "sql run db =
     (case db_faults db of
        [] \<Rightarrow> run db
      | fault # rest \<Rightarrow> if fault then (Inl SqlFailure, db\<lparr>db_faults := rest\<rparr>)
                        else run (db\<lparr>db_faults := rest\<rparr>))"

definition first_row :: "'a list \<Rightarrow> 'a option" where
  "first_row rows = (case rows of [] \<Rightarrow> None | r # _ \<Rightarrow> Some r)"

text \<open>The id SQLite gives to a new row of an \<open>INTEGER PRIMARY KEY\<close> table: one above the largest.\<close>

definition next_rowid :: "int list \<Rightarrow> int" where
  "next_rowid ids = (if ids = [] then 1 else Max (set ids) + 1)"

subsection \<open>Queries\<close>

record account =
  ac_id :: int
  ac_company_id :: int
  ac_group_id :: int
  ac_level :: nat
  ac_company :: bytes
  ac_group :: bytes
  ac_user :: bytes
  ac_password :: bytes
  ac_authority :: u16
  ac_quota :: u32
  ac_used :: u32

definition LEVEL_COMPANY :: nat where "LEVEL_COMPANY = 0"
definition LEVEL_GROUP :: nat where "LEVEL_GROUP = 1"
definition LEVEL_USER :: nat where "LEVEL_USER = 2"

definition joined_groups :: "database \<Rightarrow> (group_row \<times> company_row) list" where
  "joined_groups db = [(g, c). g \<leftarrow> db_groups db, c \<leftarrow> db_companies db, co_id c = gr_company_id g]"

definition joined_users :: "database \<Rightarrow> (user_row \<times> group_row \<times> company_row) list" where
  "joined_users db = [(u, g, c). u \<leftarrow> db_users db, (g, c) \<leftarrow> joined_groups db, gr_id g = us_group_id u]"

definition company_account :: "company_row \<Rightarrow> account" where
  "company_account c =
     \<lparr>ac_id = co_id c, ac_company_id = co_id c, ac_group_id = 0, ac_level = LEVEL_COMPANY,
      ac_company = co_name c, ac_group = [], ac_user = [], ac_password = [], ac_authority = 30,
      ac_quota = co_quota c, ac_used = co_used c\<rparr>"

definition group_account :: "group_row \<times> company_row \<Rightarrow> account" where
  "group_account = (\<lambda>(g, c).
     \<lparr>ac_id = gr_id g, ac_company_id = co_id c, ac_group_id = gr_id g, ac_level = LEVEL_GROUP,
      ac_company = co_name c, ac_group = gr_name g, ac_user = [], ac_password = [], ac_authority = 20,
      ac_quota = gr_quota g, ac_used = gr_used g\<rparr>)"

definition user_account :: "user_row \<times> group_row \<times> company_row \<Rightarrow> account" where
  "user_account = (\<lambda>(u, g, c).
     \<lparr>ac_id = us_id u, ac_company_id = co_id c, ac_group_id = gr_id g, ac_level = LEVEL_USER,
      ac_company = co_name c, ac_group = gr_name g, ac_user = us_name u, ac_password = us_password u,
      ac_authority = us_authority u, ac_quota = us_quota u, ac_used = us_used u\<rparr>)"

definition all_accounts :: "database \<Rightarrow> account list" where
  "all_accounts db = map company_account (db_companies db) @ map group_account (joined_groups db)
     @ map user_account (joined_users db)"

definition load_order :: "account \<Rightarrow> bytes \<times> bytes \<times> nat \<times> bytes" where
  "load_order a = (nocase (ac_company a), nocase (ac_group a), ac_level a, nocase (ac_user a))"

definition age_order :: "account \<Rightarrow> int \<times> int \<times> nat \<times> int" where
  "age_order a = (ac_company_id a, ac_group_id a, ac_level a,
                  if ac_level a = LEVEL_USER then ac_id a else 0)"

definition load :: "database \<Rightarrow> account list sql_result" where
  "load = sql (\<lambda>db. (Inr (sort_key load_order (all_accounts db)), db))"

definition load_by_age :: "database \<Rightarrow> account list sql_result" where
  "load_by_age = sql (\<lambda>db. (Inr (sort_key age_order (all_accounts db)), db))"

definition named_groups :: "database \<Rightarrow> bytes \<Rightarrow> bytes \<Rightarrow> (group_row \<times> company_row) list" where
  "named_groups db company grp =
     filter (\<lambda>(g, c). nocase_eq (co_name c) company \<and> nocase_eq (gr_name g) grp) (joined_groups db)"

definition named_users :: "database \<Rightarrow> bytes \<Rightarrow> bytes \<Rightarrow> bytes \<Rightarrow> (user_row \<times> group_row \<times> company_row) list" where
  "named_users db company grp user =
     filter (\<lambda>(u, g, c). nocase_eq (co_name c) company \<and> nocase_eq (gr_name g) grp \<and> nocase_eq (us_name u) user)
       (joined_users db)"

definition find_user :: "bytes \<Rightarrow> bytes \<Rightarrow> bytes \<Rightarrow> database \<Rightarrow> account option sql_result" where
  "find_user company grp user =
     sql (\<lambda>db. (Inr (map_option user_account (first_row (named_users db company grp user))), db))"

definition find_company :: "bytes \<Rightarrow> database \<Rightarrow> int option sql_result" where
  "find_company company =
     sql (\<lambda>db. (Inr (map_option co_id (first_row (filter (\<lambda>c. nocase_eq (co_name c) company) (db_companies db)))), db))"

text \<open>The subqueries \<open>GROUP_ID\<close> and \<open>USER_ID\<close>.\<close>

definition GROUP_ID :: "database \<Rightarrow> bytes \<Rightarrow> bytes \<Rightarrow> int option" where
  "GROUP_ID db company grp = map_option (\<lambda>(g, c). gr_id g) (first_row (named_groups db company grp))"

definition USER_ID :: "database \<Rightarrow> bytes \<Rightarrow> bytes \<Rightarrow> bytes \<Rightarrow> int option" where
  "USER_ID db company grp user =
     map_option (\<lambda>(u, g, c). us_id u) (first_row (named_users db company grp user))"

definition find_group :: "bytes \<Rightarrow> bytes \<Rightarrow> database \<Rightarrow> int option sql_result" where
  "find_group company grp = sql (\<lambda>db. (Inr (GROUP_ID db company grp), db))"

subsection \<open>Inserts\<close>

definition insert_company :: "bytes \<Rightarrow> u32 \<Rightarrow> database \<Rightarrow> unit sql_result" where
  "insert_company name quota = sql (\<lambda>db.
     if \<exists>c \<in> set (db_companies db). nocase_eq (co_name c) name then (Inl ConstraintViolation, db)
     else (Inr (), db\<lparr>db_companies := db_companies db @
       [\<lparr>co_id = next_rowid (map co_id (db_companies db)), co_name = name, co_quota = quota, co_used = 0\<rparr>]\<rparr>))"

definition insert_group :: "int \<Rightarrow> bytes \<Rightarrow> u32 \<Rightarrow> database \<Rightarrow> unit sql_result" where
  "insert_group company_id name quota = sql (\<lambda>db.
     if (\<exists>g \<in> set (db_groups db). nocase_eq (gr_name g) name) \<or> company_id \<notin> co_id ` set (db_companies db)
     then (Inl ConstraintViolation, db)
     else (Inr (), db\<lparr>db_groups := db_groups db @
       [\<lparr>gr_id = next_rowid (map gr_id (db_groups db)), gr_company_id = company_id, gr_name = name,
         gr_quota = quota, gr_used = 0\<rparr>]\<rparr>))"

definition insert_user ::
  "int \<Rightarrow> bytes \<Rightarrow> bytes \<Rightarrow> u16 \<Rightarrow> u32 \<Rightarrow> database \<Rightarrow> unit sql_result" where
  "insert_user group_id name password authority quota = sql (\<lambda>db.
     if (\<exists>u \<in> set (db_users db). us_group_id u = group_id \<and> nocase_eq (us_name u) name)
        \<or> group_id \<notin> gr_id ` set (db_groups db)
     then (Inl ConstraintViolation, db)
     else (Inr (), db\<lparr>db_users := db_users db @
       [\<lparr>us_id = next_rowid (map us_id (db_users db)), us_group_id = group_id, us_name = name,
         us_password = password, us_authority = authority, us_quota = quota, us_used = 0\<rparr>]\<rparr>))"

subsection \<open>Updates\<close>

definition update_company :: "bytes \<Rightarrow> u32 \<Rightarrow> database \<Rightarrow> nat sql_result" where
  "update_company company quota = sql (\<lambda>db.
     (Inr (length (filter (\<lambda>c. nocase_eq (co_name c) company) (db_companies db))),
      db\<lparr>db_companies := map (\<lambda>c. if nocase_eq (co_name c) company then c\<lparr>co_quota := quota\<rparr> else c)
                          (db_companies db)\<rparr>))"

definition update_group :: "bytes \<Rightarrow> bytes \<Rightarrow> u32 \<Rightarrow> database \<Rightarrow> nat sql_result" where
  "update_group company grp quota = sql (\<lambda>db.
     (Inr (length (filter (\<lambda>g. Some (gr_id g) = GROUP_ID db company grp) (db_groups db))),
      db\<lparr>db_groups := map (\<lambda>g. if Some (gr_id g) = GROUP_ID db company grp then g\<lparr>gr_quota := quota\<rparr> else g)
                       (db_groups db)\<rparr>))"

text \<open>The shape the two user updates share: the row the subquery names is replaced by \<open>f\<close> of it.\<close>

definition update_named_user ::
  "(user_row \<Rightarrow> user_row) \<Rightarrow> bytes \<Rightarrow> bytes \<Rightarrow> bytes \<Rightarrow> database \<Rightarrow> nat sql_result" where
  "update_named_user f company grp user = sql (\<lambda>db.
     (Inr (length (filter (\<lambda>u. Some (us_id u) = USER_ID db company grp user) (db_users db))),
      db\<lparr>db_users := map (\<lambda>u. if Some (us_id u) = USER_ID db company grp user then f u else u) (db_users db)\<rparr>))"

definition update_user :: "bytes \<Rightarrow> bytes \<Rightarrow> bytes \<Rightarrow> u16 \<Rightarrow> u32 \<Rightarrow> database \<Rightarrow> nat sql_result" where
  "update_user company grp user authority quota =
     update_named_user (\<lambda>u. u\<lparr>us_authority := authority, us_quota := quota\<rparr>) company grp user"

definition set_password :: "bytes \<Rightarrow> bytes \<Rightarrow> bytes \<Rightarrow> bytes \<Rightarrow> database \<Rightarrow> nat sql_result" where
  "set_password company grp user password =
     update_named_user (\<lambda>u. u\<lparr>us_password := password\<rparr>) company grp user"

subsection \<open>Deletes\<close>

text \<open>\<open>DELETE\<close> with the cascades of the foreign keys, which the connection has enabled.\<close>

definition drop_users :: "(user_row \<Rightarrow> bool) \<Rightarrow> database \<Rightarrow> database" where
  "drop_users P db =
     (let gone = set (map us_id (filter P (db_users db))) in
      db\<lparr>db_users := filter (\<lambda>u. \<not> P u) (db_users db),
         db_messages := filter (\<lambda>m. ms_sender_id m \<notin> gone \<and> ms_recipient_id m \<notin> gone) (db_messages db)\<rparr>)"

definition drop_groups :: "(group_row \<Rightarrow> bool) \<Rightarrow> database \<Rightarrow> database" where
  "drop_groups P db =
     (let gone = set (map gr_id (filter P (db_groups db))) in
      drop_users (\<lambda>u. us_group_id u \<in> gone) (db\<lparr>db_groups := filter (\<lambda>g. \<not> P g) (db_groups db)\<rparr>))"

definition drop_companies :: "(company_row \<Rightarrow> bool) \<Rightarrow> database \<Rightarrow> database" where
  "drop_companies P db =
     (let gone = set (map co_id (filter P (db_companies db))) in
      drop_groups (\<lambda>g. gr_company_id g \<in> gone) (db\<lparr>db_companies := filter (\<lambda>c. \<not> P c) (db_companies db)\<rparr>))"

definition delete_users_where :: "(database \<Rightarrow> user_row \<Rightarrow> bool) \<Rightarrow> database \<Rightarrow> nat sql_result" where
  "delete_users_where P = sql (\<lambda>db. (Inr (length (filter (P db) (db_users db))), drop_users (P db) db))"

definition delete_groups_where :: "(database \<Rightarrow> group_row \<Rightarrow> bool) \<Rightarrow> database \<Rightarrow> nat sql_result" where
  "delete_groups_where P = sql (\<lambda>db. (Inr (length (filter (P db) (db_groups db))), drop_groups (P db) db))"

definition delete_companies_where :: "(database \<Rightarrow> company_row \<Rightarrow> bool) \<Rightarrow> database \<Rightarrow> nat sql_result" where
  "delete_companies_where P =
     sql (\<lambda>db. (Inr (length (filter (P db) (db_companies db))), drop_companies (P db) db))"

definition delete_company :: "bytes \<Rightarrow> database \<Rightarrow> nat sql_result" where
  "delete_company company db =
     st_then (delete_users_where (\<lambda>db u. us_group_id u \<in> set (map (\<lambda>(g, c). gr_id g)
                (filter (\<lambda>(g, c). nocase_eq (co_name c) company) (joined_groups db)))) db) (\<lambda>_.
     \<lambda>db. st_then (delete_groups_where (\<lambda>db g. gr_company_id g \<in> set (map co_id
                (filter (\<lambda>c. nocase_eq (co_name c) company) (db_companies db)))) db) (\<lambda>_.
     delete_companies_where (\<lambda>db c. nocase_eq (co_name c) company)))"

definition delete_group :: "bytes \<Rightarrow> bytes \<Rightarrow> database \<Rightarrow> nat sql_result" where
  "delete_group company grp db =
     st_then (delete_users_where (\<lambda>db u. Some (us_group_id u) = GROUP_ID db company grp) db) (\<lambda>_.
     delete_groups_where (\<lambda>db g. Some (gr_id g) = GROUP_ID db company grp))"

definition delete_user :: "bytes \<Rightarrow> bytes \<Rightarrow> bytes \<Rightarrow> database \<Rightarrow> nat sql_result" where
  "delete_user company grp user =
     delete_users_where (\<lambda>db u. Some (us_id u) = USER_ID db company grp user)"

section \<open>The schema\<close>

text \<open>What the migrations demand of the tables.\<close>

definition companies_wf :: "company_row list \<Rightarrow> bool" where
  "companies_wf cs \<longleftrightarrow> distinct (map co_id cs) \<and> distinct (map (\<lambda>c. nocase (co_name c)) cs)"

definition groups_wf :: "company_row list \<Rightarrow> group_row list \<Rightarrow> bool" where
  "groups_wf cs gs \<longleftrightarrow> distinct (map gr_id gs) \<and> distinct (map (\<lambda>g. nocase (gr_name g)) gs) \<and>
     gr_company_id ` set gs \<subseteq> co_id ` set cs"

definition users_wf :: "group_row list \<Rightarrow> user_row list \<Rightarrow> bool" where
  "users_wf gs us \<longleftrightarrow> distinct (map us_id us) \<and> distinct (map (\<lambda>u. (us_group_id u, nocase (us_name u))) us) \<and>
     us_group_id ` set us \<subseteq> gr_id ` set gs"

definition messages_wf :: "user_row list \<Rightarrow> message_row list \<Rightarrow> bool" where
  "messages_wf us ms \<longleftrightarrow> distinct (map ms_id ms) \<and> distinct (map (\<lambda>m. (ms_recipient_id m, ms_mail_id m)) ms) \<and>
     ms_sender_id ` set ms \<subseteq> us_id ` set us \<and> ms_recipient_id ` set ms \<subseteq> us_id ` set us"

definition db_wf :: "database \<Rightarrow> bool" where
  "db_wf db \<longleftrightarrow> companies_wf (db_companies db) \<and> groups_wf (db_companies db) (db_groups db) \<and>
     users_wf (db_groups db) (db_users db) \<and> messages_wf (db_users db) (db_messages db)"

lemmas wf_defs = db_wf_def companies_wf_def groups_wf_def users_wf_def messages_wf_def

section \<open>Lemmas\<close>

lemma sql_ind:
  assumes "\<And>fs. P (run (db\<lparr>db_faults := fs\<rparr>))" "\<And>fs. P (Inl SqlFailure, db\<lparr>db_faults := fs\<rparr>)"
  shows "P (sql run db)"
  using assms(1)[of "db_faults db"] assms by (auto simp: sql_def split: list.splits)

lemma sql_no_fault [simp]: "db_faults db = [] \<Longrightarrow> sql run db = run db"
  by (simp add: sql_def)

lemma sql_snd:
  assumes "\<And>fs. Q (snd (run (db\<lparr>db_faults := fs\<rparr>)))" "\<And>fs. Q (db\<lparr>db_faults := fs\<rparr>)"
  shows "Q (snd (sql run db))"
  by (rule sql_ind[where P="\<lambda>r. Q (snd r)"]) (use assms in auto)

lemma sqlE:
  assumes "sql run db = (r, db')"
  obtains fs where "run (db\<lparr>db_faults := fs\<rparr>) = (r, db')"
  | fs where "r = Inl SqlFailure" "db' = db\<lparr>db_faults := fs\<rparr>"
proof -
  have "(\<exists>fs. run (db\<lparr>db_faults := fs\<rparr>) = sql run db) \<or> (\<exists>fs. sql run db = (Inl SqlFailure, db\<lparr>db_faults := fs\<rparr>))"
    by (rule sql_ind) auto
  with assms that show thesis by auto
qed

lemma joined_groups_faults [simp]: "joined_groups (db\<lparr>db_faults := fs\<rparr>) = joined_groups db"
  by (simp add: joined_groups_def)

lemma joined_users_faults [simp]: "joined_users (db\<lparr>db_faults := fs\<rparr>) = joined_users db"
  by (simp add: joined_users_def)

lemma named_faults [simp]:
  "named_groups (db\<lparr>db_faults := fs\<rparr>) = named_groups db" "named_users (db\<lparr>db_faults := fs\<rparr>) = named_users db"
  "GROUP_ID (db\<lparr>db_faults := fs\<rparr>) = GROUP_ID db" "USER_ID (db\<lparr>db_faults := fs\<rparr>) = USER_ID db"
  by (auto simp: named_groups_def named_users_def GROUP_ID_def USER_ID_def fun_eq_iff)

lemma db_wf_faults [simp]: "db_wf (db\<lparr>db_faults := fs\<rparr>) = db_wf db"
  by (simp add: db_wf_def)

lemma next_rowid_fresh: "next_rowid ids \<notin> set ids"
proof
  assume a: "next_rowid ids \<in> set ids"
  then have "next_rowid ids \<le> Max (set ids)" by simp
  with a show False by (cases "ids = []") (auto simp: next_rowid_def)
qed

text \<open>A reference that does not point to a dropped row points to a kept one.\<close>

lemma reference_survives:
  "k ` A \<subseteq> i ` set xs \<Longrightarrow> (\<And>a. a \<in> A \<Longrightarrow> k a \<notin> i ` {x \<in> set xs. P x}) \<Longrightarrow> k ` A \<subseteq> i ` {x \<in> set xs. \<not> P x}"
  by blast

lemma first_row_unique:
  assumes "\<And>x y. x \<in> set xs \<Longrightarrow> y \<in> set xs \<Longrightarrow> x = y"
  shows "first_row xs = Some x \<longleftrightarrow> x \<in> set xs"
  using assms by (cases xs) (auto simp: first_row_def)

lemma first_row_None [simp]: "first_row xs = None \<longleftrightarrow> xs = []"
  by (cases xs) (auto simp: first_row_def)

lemma first_row_in: "first_row xs = Some x \<Longrightarrow> x \<in> set xs"
  by (cases xs) (auto simp: first_row_def)

lemma set_joined_groups:
  "(g, c) \<in> set (joined_groups db) \<longleftrightarrow>
     g \<in> set (db_groups db) \<and> c \<in> set (db_companies db) \<and> co_id c = gr_company_id g"
  by (auto simp: joined_groups_def)

lemma set_joined_users:
  "(u, g, c) \<in> set (joined_users db) \<longleftrightarrow>
     u \<in> set (db_users db) \<and> g \<in> set (db_groups db) \<and> c \<in> set (db_companies db) \<and>
     gr_id g = us_group_id u \<and> co_id c = gr_company_id g"
  by (auto simp: joined_users_def set_joined_groups split: prod.splits)

lemma set_named_groups:
  "(g, c) \<in> set (named_groups db company grp) \<longleftrightarrow>
     g \<in> set (db_groups db) \<and> c \<in> set (db_companies db) \<and> co_id c = gr_company_id g \<and>
     nocase_eq (co_name c) company \<and> nocase_eq (gr_name g) grp"
  by (auto simp: named_groups_def set_joined_groups)

lemma set_named_users:
  "(u, g, c) \<in> set (named_users db company grp user) \<longleftrightarrow>
     u \<in> set (db_users db) \<and> g \<in> set (db_groups db) \<and> c \<in> set (db_companies db) \<and>
     gr_id g = us_group_id u \<and> co_id c = gr_company_id g \<and>
     nocase_eq (co_name c) company \<and> nocase_eq (gr_name g) grp \<and> nocase_eq (us_name u) user"
  by (auto simp: named_users_def set_joined_users)

lemma distinct_map_unique: "distinct (map f xs) \<Longrightarrow> x \<in> set xs \<Longrightarrow> y \<in> set xs \<Longrightarrow> f x = f y \<Longrightarrow> x = y"
  by (meson distinct_map inj_onD)

text \<open>Every row is determined by its id, and by its name within its parent.\<close>

lemma wf_unique:
  assumes "db_wf db"
  shows company_by_id: "c \<in> set (db_companies db) \<Longrightarrow> c' \<in> set (db_companies db) \<Longrightarrow> co_id c = co_id c' \<Longrightarrow> c = c'"
    and company_by_name: "c \<in> set (db_companies db) \<Longrightarrow> c' \<in> set (db_companies db) \<Longrightarrow>
      nocase_eq (co_name c) (co_name c') \<Longrightarrow> c = c'"
    and group_by_id: "g \<in> set (db_groups db) \<Longrightarrow> g' \<in> set (db_groups db) \<Longrightarrow> gr_id g = gr_id g' \<Longrightarrow> g = g'"
    and group_by_name: "g \<in> set (db_groups db) \<Longrightarrow> g' \<in> set (db_groups db) \<Longrightarrow>
      nocase_eq (gr_name g) (gr_name g') \<Longrightarrow> g = g'"
    and user_by_id: "u \<in> set (db_users db) \<Longrightarrow> u' \<in> set (db_users db) \<Longrightarrow> us_id u = us_id u' \<Longrightarrow> u = u'"
    and user_by_name: "u \<in> set (db_users db) \<Longrightarrow> u' \<in> set (db_users db) \<Longrightarrow> us_group_id u = us_group_id u' \<Longrightarrow>
      nocase_eq (us_name u) (us_name u') \<Longrightarrow> u = u'"
  using assms unfolding wf_defs by (metis (mono_tags, lifting) distinct_map_unique)+

lemma named_groups_unique:
  assumes "db_wf db" "x \<in> set (named_groups db company grp)" "y \<in> set (named_groups db company grp)"
  shows "x = y"
proof -
  obtain g c g' c' where [simp]: "x = (g, c)" "y = (g', c')" by (cases x, cases y)
  from assms show ?thesis
    by (simp add: set_named_groups) (metis company_by_id group_by_name)
qed

lemma named_users_unique:
  assumes "db_wf db" "x \<in> set (named_users db company grp user)" "y \<in> set (named_users db company grp user)"
  shows "x = y"
proof -
  obtain u g c u' g' c' where [simp]: "x = (u, g, c)" "y = (u', g', c')" by (cases x, cases y)
  from assms have "g = g'" "c = c'" "u = u'"
    by (simp_all add: set_named_users) (metis company_by_id group_by_name user_by_name)+
  then show ?thesis by simp
qed

lemma GROUP_ID_Some:
  assumes "db_wf db"
  shows "GROUP_ID db company grp = Some i \<longleftrightarrow> (\<exists>g c. (g, c) \<in> set (named_groups db company grp) \<and> gr_id g = i)"
  by (auto simp: GROUP_ID_def first_row_unique[OF named_groups_unique[OF assms]])

lemma USER_ID_Some:
  assumes "db_wf db"
  shows "USER_ID db company grp user = Some i \<longleftrightarrow>
    (\<exists>u g c. (u, g, c) \<in> set (named_users db company grp user) \<and> us_id u = i)"
  by (force simp: USER_ID_def first_row_unique[OF named_users_unique[OF assms]])

subsection \<open>The schema is kept\<close>

lemma db_wf_initial: "db_wf initial_database"
  by (simp add: wf_defs initial_database_def)

lemma drop_users_wf:
  assumes "companies_wf (db_companies db)" "groups_wf (db_companies db) (db_groups db)"
    "distinct (map us_id (db_users db))" "distinct (map (\<lambda>u. (us_group_id u, nocase (us_name u))) (db_users db))"
    "\<And>u. u \<in> set (db_users db) \<Longrightarrow> \<not> P u \<Longrightarrow> us_group_id u \<in> gr_id ` set (db_groups db)"
    "messages_wf (db_users db) (db_messages db)"
  shows "db_wf (drop_users P db)"
  unfolding db_wf_def
proof (intro conjI)
  show "companies_wf (db_companies (drop_users P db))"
    "groups_wf (db_companies (drop_users P db)) (db_groups (drop_users P db))"
    using assms(1,2) by (simp_all add: drop_users_def Let_def)
  show "users_wf (db_groups (drop_users P db)) (db_users (drop_users P db))"
    using assms(3-5) by (auto simp: drop_users_def Let_def users_wf_def distinct_map_filter)
  have s: "ms_sender_id ` {m \<in> set (db_messages db). ms_sender_id m \<notin> us_id ` {u \<in> set (db_users db). P u} \<and> Q m}
      \<subseteq> us_id ` {u \<in> set (db_users db). \<not> P u}" for Q
    by (rule reference_survives) (use assms(6) in \<open>auto simp: messages_wf_def\<close>)
  have r: "ms_recipient_id ` {m \<in> set (db_messages db). Q m \<and> ms_recipient_id m \<notin> us_id ` {u \<in> set (db_users db). P u}}
      \<subseteq> us_id ` {u \<in> set (db_users db). \<not> P u}" for Q
    by (rule reference_survives) (use assms(6) in \<open>auto simp: messages_wf_def\<close>)
  show "messages_wf (db_users (drop_users P db)) (db_messages (drop_users P db))"
    using assms(6) s r by (simp add: drop_users_def Let_def messages_wf_def distinct_map_filter)
qed

lemma drop_groups_wf:
  assumes "companies_wf (db_companies db)" "distinct (map gr_id (db_groups db))"
    "distinct (map (\<lambda>g. nocase (gr_name g)) (db_groups db))"
    "\<And>g. g \<in> set (db_groups db) \<Longrightarrow> \<not> P g \<Longrightarrow> gr_company_id g \<in> co_id ` set (db_companies db)"
    "users_wf (db_groups db) (db_users db)" "messages_wf (db_users db) (db_messages db)"
  shows "db_wf (drop_groups P db)"
  unfolding drop_groups_def Let_def
proof (rule drop_users_wf)
  fix u assume u: "u \<in> set (db_users (db\<lparr>db_groups := filter (\<lambda>g. \<not> P g) (db_groups db)\<rparr>))"
    "us_group_id u \<notin> set (map gr_id (filter P (db_groups db)))"
  have "us_group_id ` {u} \<subseteq> gr_id ` {g \<in> set (db_groups db). \<not> P g}"
    by (rule reference_survives) (use u assms(5) in \<open>auto simp: users_wf_def\<close>)
  then show "us_group_id u \<in> gr_id ` set (db_groups (db\<lparr>db_groups := filter (\<lambda>g. \<not> P g) (db_groups db)\<rparr>))"
    by simp
qed (use assms in \<open>auto simp: groups_wf_def users_wf_def distinct_map_filter\<close>)

lemma drop_companies_wf:
  assumes "db_wf db"
  shows "db_wf (drop_companies P db)"
  unfolding drop_companies_def Let_def
proof (rule drop_groups_wf)
  fix g assume g: "g \<in> set (db_groups (db\<lparr>db_companies := filter (\<lambda>c. \<not> P c) (db_companies db)\<rparr>))"
    "gr_company_id g \<notin> set (map co_id (filter P (db_companies db)))"
  have "gr_company_id ` {g} \<subseteq> co_id ` {c \<in> set (db_companies db). \<not> P c}"
    by (rule reference_survives) (use g assms in \<open>auto simp: wf_defs\<close>)
  then show "gr_company_id g \<in> co_id ` set (db_companies (db\<lparr>db_companies := filter (\<lambda>c. \<not> P c) (db_companies db)\<rparr>))"
    by simp
qed (use assms in \<open>auto simp: wf_defs distinct_map_filter\<close>)

lemma drop_users_keeps_wf: "db_wf db \<Longrightarrow> db_wf (drop_users P db)"
  by (rule drop_users_wf) (auto simp: db_wf_def users_wf_def)

lemma drop_groups_keeps_wf: "db_wf db \<Longrightarrow> db_wf (drop_groups P db)"
  by (rule drop_groups_wf) (auto simp: db_wf_def groups_wf_def)

lemma delete_users_where_wf: "db_wf db \<Longrightarrow> db_wf (snd (delete_users_where P db))"
  unfolding delete_users_where_def
  by (rule sql_ind[where P="\<lambda>r. db_wf (snd r)"]) (auto intro!: drop_users_keeps_wf)

lemma delete_groups_where_wf: "db_wf db \<Longrightarrow> db_wf (snd (delete_groups_where P db))"
  unfolding delete_groups_where_def
  by (rule sql_ind[where P="\<lambda>r. db_wf (snd r)"]) (auto intro!: drop_groups_keeps_wf)

lemma delete_companies_where_wf: "db_wf db \<Longrightarrow> db_wf (snd (delete_companies_where P db))"
  unfolding delete_companies_where_def
  by (rule sql_ind[where P="\<lambda>r. db_wf (snd r)"]) (auto intro!: drop_companies_wf)

lemma st_then_keeps:
  assumes "I (snd p)" "\<And>x s. p = (Inr x, s) \<Longrightarrow> I s \<Longrightarrow> I (snd (f x s))"
  shows "I (snd (st_then p f))"
  using assms by (cases "(p, f)" rule: st_then.cases) auto

lemma delete_company_wf: "db_wf db \<Longrightarrow> db_wf (snd (delete_company company db))"
  unfolding delete_company_def
  by (intro st_then_keeps[where I=db_wf] delete_users_where_wf delete_groups_where_wf delete_companies_where_wf)

lemma delete_group_wf: "db_wf db \<Longrightarrow> db_wf (snd (delete_group company grp db))"
  unfolding delete_group_def
  by (intro st_then_keeps[where I=db_wf] delete_users_where_wf delete_groups_where_wf)

lemma delete_user_wf: "db_wf db \<Longrightarrow> db_wf (snd (delete_user company grp user db))"
  by (simp add: delete_user_def delete_users_where_wf)

lemma insert_company_wf: "db_wf db \<Longrightarrow> db_wf (snd (insert_company name quota db))"
  unfolding insert_company_def
  by (rule sql_ind[where P="\<lambda>r. db_wf (snd r)"])
    (use next_rowid_fresh[of "map co_id (db_companies db)"] in \<open>auto simp: wf_defs image_iff\<close>)

lemma insert_group_wf: "db_wf db \<Longrightarrow> db_wf (snd (insert_group company_id name quota db))"
  unfolding insert_group_def
  by (rule sql_ind[where P="\<lambda>r. db_wf (snd r)"])
    (use next_rowid_fresh[of "map gr_id (db_groups db)"] in \<open>auto simp: wf_defs image_iff\<close>)

lemma insert_user_wf: "db_wf db \<Longrightarrow> db_wf (snd (insert_user group_id name password authority quota db))"
  unfolding insert_user_def
  by (rule sql_ind[where P="\<lambda>r. db_wf (snd r)"])
    (use next_rowid_fresh[of "map us_id (db_users db)"] in \<open>auto simp: wf_defs image_iff\<close>)

text \<open>The schema constrains only the key columns, which no update changes.\<close>

lemma db_wf_keys:
  assumes "db_wf db"
    "map co_id (db_companies db') = map co_id (db_companies db)"
    "map (\<lambda>c. nocase (co_name c)) (db_companies db') = map (\<lambda>c. nocase (co_name c)) (db_companies db)"
    "map gr_id (db_groups db') = map gr_id (db_groups db)"
    "map (\<lambda>g. nocase (gr_name g)) (db_groups db') = map (\<lambda>g. nocase (gr_name g)) (db_groups db)"
    "map gr_company_id (db_groups db') = map gr_company_id (db_groups db)"
    "map us_id (db_users db') = map us_id (db_users db)"
    "map (\<lambda>u. (us_group_id u, nocase (us_name u))) (db_users db') =
     map (\<lambda>u. (us_group_id u, nocase (us_name u))) (db_users db)"
    "map us_group_id (db_users db') = map us_group_id (db_users db)"
    "db_messages db' = db_messages db"
  shows "db_wf db'"
  using assms(1) unfolding wf_defs set_map[symmetric] assms(2-) by simp

lemma update_company_wf: "db_wf db \<Longrightarrow> db_wf (snd (update_company company quota db))"
  unfolding update_company_def
  by (rule sql_ind[where P="\<lambda>r. db_wf (snd r)"]) (auto elim!: db_wf_keys)

lemma update_group_wf: "db_wf db \<Longrightarrow> db_wf (snd (update_group company grp quota db))"
  unfolding update_group_def
  by (rule sql_ind[where P="\<lambda>r. db_wf (snd r)"]) (auto elim!: db_wf_keys)

lemma update_named_user_wf:
  assumes "db_wf db" "\<And>u. us_id (f u) = us_id u \<and> us_group_id (f u) = us_group_id u \<and> us_name (f u) = us_name u"
  shows "db_wf (snd (update_named_user f company grp user db))"
  unfolding update_named_user_def
  by (rule sql_ind[where P="\<lambda>r. db_wf (snd r)"]) (use assms in \<open>auto elim!: db_wf_keys\<close>)

lemma update_user_wf: "db_wf db \<Longrightarrow> db_wf (snd (update_user company grp user authority quota db))"
  by (simp add: update_user_def update_named_user_wf)

lemma set_password_wf: "db_wf db \<Longrightarrow> db_wf (snd (set_password company grp user password db))"
  by (simp add: set_password_def update_named_user_wf)

lemmas statement_wf = insert_company_wf insert_group_wf insert_user_wf update_company_wf update_group_wf
  update_user_wf set_password_wf delete_company_wf delete_group_wf delete_user_wf

subsection \<open>Joins\<close>

text \<open>Under the schema every row has exactly one parent, so a join adds it to each row.\<close>

lemma concat_if_map: "concat (map (\<lambda>x. if P x then [f x] else []) xs) = map f (filter P xs)"
  by (induction xs) auto

lemma filter_key_single: "distinct (map k xs) \<Longrightarrow> x \<in> set xs \<Longrightarrow> filter (\<lambda>y. k y = k x) xs = [x]"
proof (induction xs)
  case (Cons y ys)
  show ?case
  proof (cases "x = y")
    case True
    with Cons.prems(1) have "filter (\<lambda>z. k z = k x) ys = []"
      by (metis (mono_tags, lifting) distinct.simps(2) filter_False image_eqI list.set_map list.simps(9))
    with True show ?thesis by simp
  next
    case False
    with Cons show ?thesis by (auto simp: image_iff)
  qed
qed simp

definition the_company :: "database \<Rightarrow> group_row \<Rightarrow> company_row" where
  "the_company db g = hd (filter (\<lambda>c. co_id c = gr_company_id g) (db_companies db))"

definition the_group :: "database \<Rightarrow> user_row \<Rightarrow> group_row" where
  "the_group db u = hd (filter (\<lambda>g. gr_id g = us_group_id u) (db_groups db))"

definition chain_of :: "database \<Rightarrow> user_row \<Rightarrow> user_row \<times> group_row \<times> company_row" where
  "chain_of db u = (u, the_group db u, the_company db (the_group db u))"

lemma company_of_group:
  assumes "db_wf db" "g \<in> set (db_groups db)"
  shows "filter (\<lambda>c. co_id c = gr_company_id g) (db_companies db) = [the_company db g]"
proof -
  have "gr_company_id g \<in> co_id ` set (db_companies db)" using assms by (auto simp: wf_defs)
  then obtain c where c: "c \<in> set (db_companies db)" "gr_company_id g = co_id c" by auto
  then have "filter (\<lambda>d. co_id d = gr_company_id g) (db_companies db) = [c]"
    using filter_key_single[of co_id "db_companies db" c] assms(1) by (simp add: wf_defs)
  then show ?thesis by (simp add: the_company_def)
qed

lemma group_of_user:
  assumes "db_wf db" "u \<in> set (db_users db)"
  shows "filter (\<lambda>g. gr_id g = us_group_id u) (db_groups db) = [the_group db u]"
proof -
  have "us_group_id u \<in> gr_id ` set (db_groups db)" using assms by (auto simp: wf_defs)
  then obtain g where g: "g \<in> set (db_groups db)" "us_group_id u = gr_id g" by auto
  then have "filter (\<lambda>d. gr_id d = us_group_id u) (db_groups db) = [g]"
    using filter_key_single[of gr_id "db_groups db" g] assms(1) by (simp add: wf_defs)
  then show ?thesis by (simp add: the_group_def)
qed

lemma the_company_in: "db_wf db \<Longrightarrow> g \<in> set (db_groups db) \<Longrightarrow>
    the_company db g \<in> set (db_companies db) \<and> co_id (the_company db g) = gr_company_id g"
  using company_of_group[of db g] by (auto simp: filter_eq_Cons_iff)

lemma the_group_in: "db_wf db \<Longrightarrow> u \<in> set (db_users db) \<Longrightarrow>
    the_group db u \<in> set (db_groups db) \<and> gr_id (the_group db u) = us_group_id u"
  using group_of_user[of db u] by (auto simp: filter_eq_Cons_iff)

lemma joined_groups_map:
  assumes "db_wf db"
  shows "joined_groups db = map (\<lambda>g. (g, the_company db g)) (db_groups db)"
proof -
  have "concat (map (\<lambda>c. if co_id c = gr_company_id g then [(g, c)] else []) (db_companies db)) = [(g, the_company db g)]"
    if "g \<in> set (db_groups db)" for g
    using company_of_group[OF assms that] by (simp add: concat_if_map)
  then show ?thesis by (simp add: joined_groups_def cong: map_cong)
qed

lemma joined_users_map:
  assumes "db_wf db"
  shows "joined_users db = map (chain_of db) (db_users db)"
proof -
  have "concat (map (\<lambda>g. if gr_id g = us_group_id u then [(u, g, the_company db g)] else []) (db_groups db)) = [chain_of db u]"
    if "u \<in> set (db_users db)" for u
    using group_of_user[OF assms that] by (simp add: concat_if_map chain_of_def)
  then show ?thesis by (simp add: joined_users_def joined_groups_map[OF assms] o_def cong: map_cong)
qed

end
