(* ===== verification/Db_Mailbox.thy ===== *)
theory Db_Mailbox
  imports Db_Users
begin

text \<open>
  \<^verbatim>\<open>Server/src/db/mailbox.rs\<close>: the stored mail. The statements are functions on the tables of the
  account directory, which hold the messages table too.
\<close>

section \<open>Data\<close>

record correspondent =
  cr_company :: bytes
  cr_group :: bytes
  cr_name :: bytes

definition correspondent_path :: "correspondent \<Rightarrow> bytes" where
  "correspondent_path c = cr_company c @ [0x2F] @ cr_group c @ [0x2F] @ cr_name c"

record message =
  me_id :: int
  me_mail_id :: u32
  me_sender :: correspondent
  me_recipient :: correspondent
  me_subject :: bytes
  me_body :: bytes
  me_attachment_path :: "bytes option"
  me_is_read :: bool

record mailbox_filter =
  mf_company :: bytes
  mf_group :: bytes
  mf_user :: bytes

record new_message =
  nm_sender_id :: int
  nm_recipient_id :: int
  nm_subject :: bytes
  nm_body :: bytes
  nm_attachment_path :: "bytes option"

section \<open>Statements\<close>

type_synonym user_chain = "user_row \<times> group_row \<times> company_row"

definition joined_messages :: "database \<Rightarrow> (message_row \<times> user_chain \<times> user_chain) list" where
  "joined_messages db =
     [(m, s, r). m \<leftarrow> db_messages db, s \<leftarrow> joined_users db, us_id (fst s) = ms_sender_id m,
                 r \<leftarrow> joined_users db, us_id (fst r) = ms_recipient_id m]"

definition correspondent_of :: "user_chain \<Rightarrow> correspondent" where
  "correspondent_of = (\<lambda>(u, g, c). \<lparr>cr_company = co_name c, cr_group = gr_name g, cr_name = us_name u\<rparr>)"

text \<open>Reading a row fails when the mail id does not fit the 32 bits of the program's field.\<close>

definition read_message :: "message_row \<times> user_chain \<times> user_chain \<Rightarrow> sql_error + message" where
  "read_message = (\<lambda>(m, s, r).
     if 0 \<le> ms_mail_id m \<and> ms_mail_id m < 2 ^ 32
     then Inr \<lparr>me_id = ms_id m, me_mail_id = of_int (ms_mail_id m), me_sender = correspondent_of s,
               me_recipient = correspondent_of r, me_subject = ms_subject m, me_body = ms_body m,
               me_attachment_path = ms_attachment_path m, me_is_read = ms_is_read m\<rparr>
     else Inl ValueOutOfRange)"

text \<open>\<open>query_row(..).optional()\<close>.\<close>

definition optional_row :: "('r \<Rightarrow> 'e + 'a) \<Rightarrow> 'r list \<Rightarrow> 'e + 'a option" where
  "optional_row read rows =
     (case first_row rows of None \<Rightarrow> Inr None | Some r \<Rightarrow> and_then (read r) (\<lambda>x. Inr (Some x)))"

definition find_recipient :: "int \<Rightarrow> bytes \<Rightarrow> database \<Rightarrow> int option sql_result" where
  "find_recipient sender_id recipient = sql (\<lambda>db.
     let own = map_option us_group_id (first_row (filter (\<lambda>u. us_id u = sender_id) (db_users db))) in
     (Inr (map_option us_id (first_row
        (filter (\<lambda>u. nocase_eq (us_name u) recipient \<and> Some (us_group_id u) = own) (db_users db)))), db))"

definition next_mail_id :: "database \<Rightarrow> int \<Rightarrow> int" where
  "next_mail_id db recipient =
     (let ids = map ms_mail_id (filter (\<lambda>m. ms_recipient_id m = recipient) (db_messages db)) in
      (if ids = [] then 0 else Max (set ids)) + 1)"

definition mailbox_insert :: "new_message \<Rightarrow> database \<Rightarrow> u32 sql_result" where
  "mailbox_insert message = sql (\<lambda>db.
     if nm_sender_id message \<notin> us_id ` set (db_users db) \<or> nm_recipient_id message \<notin> us_id ` set (db_users db)
     then (Inl ConstraintViolation, db)
     else
       let mail_id = next_mail_id db (nm_recipient_id message);
           row = \<lparr>ms_id = next_rowid (map ms_id (db_messages db)), ms_sender_id = nm_sender_id message,
                  ms_recipient_id = nm_recipient_id message, ms_mail_id = mail_id,
                  ms_subject = nm_subject message, ms_body = nm_body message,
                  ms_attachment_path = nm_attachment_path message, ms_is_read = False\<rparr>
       in (if 0 \<le> mail_id \<and> mail_id < 2 ^ 32 then Inr (of_int mail_id) else Inl ValueOutOfRange,
           db\<lparr>db_messages := db_messages db @ [row]\<rparr>))"

definition list_mail :: "int \<Rightarrow> database \<Rightarrow> message list sql_result" where
  "list_mail recipient_id = sql (\<lambda>db.
     (collect_results (map read_message (sort_key (\<lambda>(m, s, r). ms_mail_id m)
        (filter (\<lambda>(m, s, r). ms_recipient_id m = recipient_id) (joined_messages db)))), db))"

definition mailbox_search :: "mailbox_filter \<Rightarrow> database \<Rightarrow> message list sql_result" where
  "mailbox_search f = sql (\<lambda>db.
     (collect_results (map read_message (sort_key
        (\<lambda>(m, s, (r, rg, rc)). (nocase (co_name rc), nocase (gr_name rg), nocase (us_name r), ms_mail_id m))
        (filter (\<lambda>(m, s, (r, rg, rc)).
            (mf_company f = [] \<or> nocase_eq (co_name rc) (mf_company f)) \<and>
            (mf_group f = [] \<or> nocase_eq (gr_name rg) (mf_group f)) \<and>
            (mf_user f = [] \<or> nocase_eq (us_name r) (mf_user f))) (joined_messages db)))), db))"

definition mailbox_find :: "int \<Rightarrow> u32 \<Rightarrow> database \<Rightarrow> message option sql_result" where
  "mailbox_find recipient_id mail_id = sql (\<lambda>db.
     (optional_row read_message
        (filter (\<lambda>(m, s, r). ms_recipient_id m = recipient_id \<and> ms_mail_id m = uint mail_id) (joined_messages db)), db))"

definition first_unread :: "int \<Rightarrow> database \<Rightarrow> message option sql_result" where
  "first_unread recipient_id = sql (\<lambda>db.
     (optional_row read_message (sort_key (\<lambda>(m, s, r). ms_mail_id m)
        (filter (\<lambda>(m, s, r). ms_recipient_id m = recipient_id \<and> \<not> ms_is_read m) (joined_messages db))), db))"

definition mark_read :: "int \<Rightarrow> database \<Rightarrow> nat sql_result" where
  "mark_read i = sql (\<lambda>db.
     (Inr (length (filter (\<lambda>m. ms_id m = i) (db_messages db))),
      db\<lparr>db_messages := map (\<lambda>m. if ms_id m = i then m\<lparr>ms_is_read := True\<rparr> else m) (db_messages db)\<rparr>))"

section \<open>Lemmas\<close>

lemma insort_key_map: "insort_key k (f x) (map f xs) = map f (insort_key (\<lambda>x. k (f x)) x xs)"
  by (induction xs) auto

lemma sort_key_map: "sort_key k (map f xs) = map f (sort_key (\<lambda>x. k (f x)) xs)"
  by (induction xs) (auto simp: insort_key_map)

lemma insort_key_last: "(\<And>y. y \<in> set xs \<Longrightarrow> k y < k x) \<Longrightarrow> insort_key k x xs = xs @ [x]"
  by (induction xs) (auto simp: less_le_not_le)

lemma sort_key_snoc:
  fixes k :: "'a \<Rightarrow> 'b::linorder"
  assumes "\<And>y. y \<in> set xs \<Longrightarrow> k y < k x"
  shows "sort_key k (xs @ [x]) = sort_key k xs @ [x]"
  using assms
proof (induction xs)
  case (Cons y ys)
  have ins: "insort_key k y (zs @ [x]) = insort_key k y zs @ [x]" if "k y < k x" for zs
    using that by (induction zs) auto
  show ?case using Cons by (simp add: ins)
qed simp

lemma collect_results_all: "(\<And>x. x \<in> set xs \<Longrightarrow> f x = Inr (g x)) \<Longrightarrow> collect_results (map f xs) = Inr (map g xs)"
  by (induction xs) auto

lemma first_row_map: "first_row (map f xs) = map_option f (first_row xs)"
  by (cases xs) (auto simp: first_row_def)

lemma joined_messages_faults [simp]: "joined_messages (db\<lparr>db_faults := fs\<rparr>) = joined_messages db"
  by (simp add: joined_messages_def cong: if_cong)

subsection \<open>Mailboxes\<close>

definition the_user :: "database \<Rightarrow> int \<Rightarrow> user_row" where
  "the_user db i = hd (filter (\<lambda>u. us_id u = i) (db_users db))"

lemma user_with_id:
  assumes "db_wf db" "i \<in> us_id ` set (db_users db)"
  shows "filter (\<lambda>u. us_id u = i) (db_users db) = [the_user db i]"
    and "the_user db i \<in> set (db_users db)" "us_id (the_user db i) = i"
proof -
  obtain u where u: "u \<in> set (db_users db)" "i = us_id u" using assms(2) by auto
  then have f: "filter (\<lambda>d. us_id d = i) (db_users db) = [u]"
    using filter_key_single[of us_id "db_users db" u] assms(1) by (simp add: wf_defs)
  then show "filter (\<lambda>u. us_id u = i) (db_users db) = [the_user db i]" by (simp add: the_user_def)
  from f u show "the_user db i \<in> set (db_users db)" "us_id (the_user db i) = i"
    by (auto simp: the_user_def)
qed

lemma the_user_eq:
  assumes "db_wf db" "u \<in> set (db_users db)"
  shows "the_user db (us_id u) = u"
  using filter_key_single[of us_id "db_users db" u] assms by (simp add: the_user_def wf_defs)

definition with_correspondents :: "database \<Rightarrow> message_row \<Rightarrow> message_row \<times> user_chain \<times> user_chain" where
  "with_correspondents db m =
     (m, chain_of db (the_user db (ms_sender_id m)), chain_of db (the_user db (ms_recipient_id m)))"

lemma joined_messages_map:
  assumes "db_wf db"
  shows "joined_messages db = map (with_correspondents db) (db_messages db)"
proof -
  have sel: "concat (map (\<lambda>s. if us_id (fst s) = i then f s else []) (joined_users db)) = f (chain_of db (the_user db i))"
    if "i \<in> us_id ` set (db_users db)" for i and f :: "user_chain \<Rightarrow> 'x list"
  proof -
    have "concat (map (\<lambda>x. if P x then h x else []) us) = concat (map h (filter P us))" for P us and h :: "user_row \<Rightarrow> 'x list"
      by (induction us) auto
    from this[of "\<lambda>u. us_id u = i" "\<lambda>u. f (chain_of db u)" "db_users db"] user_with_id(1)[OF assms that]
    show ?thesis by (simp add: joined_users_map[OF assms] o_def chain_of_def)
  qed
  have ids: "ms_sender_id m \<in> us_id ` set (db_users db)" "ms_recipient_id m \<in> us_id ` set (db_users db)"
    if "m \<in> set (db_messages db)" for m
    using assms that by (auto simp: wf_defs)
  show ?thesis
    unfolding joined_messages_def
    by (simp add: sel ids with_correspondents_def cong: map_cong)
qed

text \<open>The rows of one mailbox, oldest first, and a row as the program reads it.\<close>

definition mailbox_rows :: "database \<Rightarrow> int \<Rightarrow> message_row list" where
  "mailbox_rows db i = sort_key ms_mail_id (filter (\<lambda>m. ms_recipient_id m = i) (db_messages db))"

definition mail_ids_ok :: "database \<Rightarrow> bool" where
  "mail_ids_ok db \<longleftrightarrow> (\<forall>m \<in> set (db_messages db). 1 \<le> ms_mail_id m \<and> ms_mail_id m < 2 ^ 32)"

definition message_view :: "database \<Rightarrow> message_row \<Rightarrow> message" where
  "message_view db m =
     \<lparr>me_id = ms_id m, me_mail_id = of_int (ms_mail_id m),
      me_sender = correspondent_of (chain_of db (the_user db (ms_sender_id m))),
      me_recipient = correspondent_of (chain_of db (the_user db (ms_recipient_id m))),
      me_subject = ms_subject m, me_body = ms_body m, me_attachment_path = ms_attachment_path m,
      me_is_read = ms_is_read m\<rparr>"

lemma read_message_view:
  "mail_ids_ok db \<Longrightarrow> m \<in> set (db_messages db) \<Longrightarrow> read_message (with_correspondents db m) = Inr (message_view db m)"
  by (auto simp: read_message_def with_correspondents_def message_view_def mail_ids_ok_def)

lemma set_mailbox_rows: "m \<in> set (mailbox_rows db i) \<longleftrightarrow> m \<in> set (db_messages db) \<and> ms_recipient_id m = i"
  by (auto simp: mailbox_rows_def)

lemma list_mail_spec:
  assumes "db_wf db" "mail_ids_ok db" "db_faults db = []"
  shows "list_mail i db = (Inr (map (message_view db) (mailbox_rows db i)), db)"
  using assms(3)
  by (simp add: list_mail_def joined_messages_map[OF assms(1)] filter_map o_def with_correspondents_def
      sort_key_map mailbox_rows_def[symmetric])
    (rule collect_results_all, use read_message_view[OF assms(2), unfolded with_correspondents_def] in
      \<open>auto simp: set_mailbox_rows\<close>)

lemma first_unread_spec:
  assumes "db_wf db" "mail_ids_ok db" "db_faults db = []"
  shows "first_unread i db =
    (Inr (map_option (message_view db) (first_row (filter (\<lambda>m. \<not> ms_is_read m) (mailbox_rows db i)))), db)"
proof -
  have e: "filter (\<lambda>m. \<not> ms_is_read m) (mailbox_rows db i) =
      sort_key ms_mail_id (filter (\<lambda>m. ms_recipient_id m = i \<and> \<not> ms_is_read m) (db_messages db))" (is "_ = ?rows")
    by (simp add: mailbox_rows_def filter_sort conj_commute)
  have "first_row ?rows = Some m \<Longrightarrow> m \<in> set (db_messages db)" for m by (auto dest: first_row_in)
  then show ?thesis
    using assms(3) unfolding e
    by (auto simp: first_unread_def joined_messages_map[OF assms(1)] filter_map o_def with_correspondents_def
        sort_key_map optional_row_def first_row_map read_message_view[OF assms(2), unfolded with_correspondents_def]
        split: option.splits)
qed

lemma next_mail_id_above:
  assumes "m \<in> set (db_messages db)" "ms_recipient_id m = i"
  shows "ms_mail_id m < next_mail_id db i"
proof -
  let ?ids = "map ms_mail_id (filter (\<lambda>m. ms_recipient_id m = i) (db_messages db))"
  have "ms_mail_id m \<in> set ?ids" using assms by auto
  then have "ms_mail_id m \<le> Max (set ?ids)" "?ids \<noteq> []" by (simp, auto simp: filter_empty_conv)
  then show ?thesis by (simp add: next_mail_id_def Let_def del: set_map)
qed

lemma mailbox_append_wf:
  assumes "db_wf db" "ms_sender_id m \<in> us_id ` set (db_users db)" "ms_recipient_id m \<in> us_id ` set (db_users db)"
    "ms_id m = next_rowid (map ms_id (db_messages db))" "ms_mail_id m = next_mail_id db (ms_recipient_id m)"
  shows "db_wf (db\<lparr>db_messages := db_messages db @ [m]\<rparr>)"
proof -
  have "ms_id m \<notin> ms_id ` set (db_messages db)"
    using next_rowid_fresh[of "map ms_id (db_messages db)"] assms(4) by simp
  moreover have "(ms_recipient_id m, ms_mail_id m) \<notin> (\<lambda>m. (ms_recipient_id m, ms_mail_id m)) ` set (db_messages db)"
    using next_mail_id_above[of _ db "ms_recipient_id m"] assms(5) by force
  ultimately show ?thesis using assms(1-3) by (simp add: db_wf_def messages_wf_def)
qed

lemma next_mail_id_faults [simp]: "next_mail_id (db\<lparr>db_faults := fs\<rparr>) i = next_mail_id db i"
  by (simp add: next_mail_id_def)

lemma mailbox_insert_wf: "db_wf db \<Longrightarrow> db_wf (snd (mailbox_insert m db))"
  unfolding mailbox_insert_def
  by (rule sql_ind[where P="\<lambda>r. db_wf (snd r)"]) (auto simp: Let_def intro!: mailbox_append_wf[where db="_\<lparr>db_faults := _\<rparr>", simplified])

lemma mark_read_wf: "db_wf db \<Longrightarrow> db_wf (snd (mark_read i db))"
  unfolding mark_read_def
  by (rule sql_ind[where P="\<lambda>r. db_wf (snd r)"]) (auto simp: wf_defs o_def if_distrib cong: if_cong)

lemma mailbox_find_spec:
  assumes "db_wf db" "mail_ids_ok db" "db_faults db = []"
  shows "mailbox_find i v db =
    (Inr (map_option (message_view db) (first_row (filter (\<lambda>m. ms_mail_id m = uint v) (mailbox_rows db i)))), db)"
proof -
  have "filter (\<lambda>m. ms_mail_id m = uint v) (mailbox_rows db i) =
      filter (\<lambda>m. ms_recipient_id m = i \<and> ms_mail_id m = uint v) (db_messages db)" (is "_ = ?rows")
    by (simp add: mailbox_rows_def sort_key_stable conj_commute)
  moreover have "first_row ?rows = Some m \<Longrightarrow> m \<in> set (db_messages db)" for m by (auto dest: first_row_in)
  ultimately show ?thesis
    using assms(3)
    by (auto simp: mailbox_find_def joined_messages_map[OF assms(1)] filter_map o_def with_correspondents_def
        optional_row_def first_row_map read_message_view[OF assms(2), unfolded with_correspondents_def]
        split: option.splits)
qed

subsection \<open>Marking a message read\<close>

definition set_read :: "int \<Rightarrow> message_row \<Rightarrow> message_row" where
  "set_read i m = (if ms_id m = i then m\<lparr>ms_is_read := True\<rparr> else m)"

lemma set_read_fields [simp]:
  "ms_id (set_read i m) = ms_id m" "ms_sender_id (set_read i m) = ms_sender_id m"
  "ms_recipient_id (set_read i m) = ms_recipient_id m" "ms_mail_id (set_read i m) = ms_mail_id m"
  "ms_subject (set_read i m) = ms_subject m" "ms_body (set_read i m) = ms_body m"
  "ms_is_read (set_read i m) \<longleftrightarrow> ms_id m = i \<or> ms_is_read m"
  by (auto simp: set_read_def)

definition mark_db :: "int \<Rightarrow> database \<Rightarrow> database" where
  "mark_db i db = db\<lparr>db_messages := map (set_read i) (db_messages db)\<rparr>"

lemma mark_read_no_fault: "db_faults db = [] \<Longrightarrow> \<exists>n. mark_read i db = (Inr n, mark_db i db)"
  by (simp add: mark_read_def mark_db_def set_read_def[abs_def])

lemma mark_db_tables [simp]:
  "db_companies (mark_db i db) = db_companies db" "db_groups (mark_db i db) = db_groups db"
  "db_users (mark_db i db) = db_users db" "db_faults (mark_db i db) = db_faults db"
  "mail_ids_ok (mark_db i db) = mail_ids_ok db"
  by (auto simp: mark_db_def mail_ids_ok_def)

lemma mark_db_wf [simp]: "db_wf (mark_db i db) = db_wf db"
  by (simp add: db_wf_def messages_wf_def mark_db_def o_def image_image)

lemma mark_db_rows: "mailbox_rows (mark_db i db) j = map (set_read i) (mailbox_rows db j)"
  by (simp add: mailbox_rows_def mark_db_def filter_map o_def sort_key_map)

lemma message_view_tables:
  "db_companies db' = db_companies db \<Longrightarrow> db_groups db' = db_groups db \<Longrightarrow> db_users db' = db_users db \<Longrightarrow>
   message_view db' m = message_view db m"
  by (simp add: message_view_def chain_of_def the_user_def the_group_def the_company_def)

lemma mark_db_other_rows:
  assumes "db_wf db" "m \<in> set (db_messages db)" "ms_recipient_id m \<noteq> j"
  shows "mailbox_rows (mark_db (ms_id m) db) j = mailbox_rows db j"
proof -
  have "set_read (ms_id m) x = x" if "x \<in> set (mailbox_rows db j)" for x
    using that assms distinct_map_unique[of ms_id "db_messages db" x m]
    by (auto simp: set_mailbox_rows set_read_def wf_defs)
  then show ?thesis by (simp add: mark_db_rows map_idI)
qed

lemma unread_after_mark:
  assumes "db_wf db" "filter (\<lambda>m. \<not> ms_is_read m) (mailbox_rows db j) = m # ms"
  shows "filter (\<lambda>m. \<not> ms_is_read m) (mailbox_rows (mark_db (ms_id m) db) j) = ms"
proof -
  have sub: "set (m # ms) \<subseteq> set (db_messages db)" "distinct (m # ms)"
  proof -
    show "set (m # ms) \<subseteq> set (db_messages db)"
      unfolding assms(2)[symmetric] by (auto simp: set_mailbox_rows)
    have "distinct (db_messages db)" using assms(1) by (auto simp: wf_defs distinct_map)
    then show "distinct (m # ms)" unfolding assms(2)[symmetric] by (simp add: mailbox_rows_def)
  qed
  have other: "ms_id x \<noteq> ms_id m" if "x \<in> set ms" for x
    using that sub distinct_map_unique[of ms_id "db_messages db" x m] assms(1) by (auto simp: wf_defs)
  have same: "set_read (ms_id m) x = x" if "x \<in> set ms" for x
    using other[OF that] by (simp add: set_read_def)
  have "filter (\<lambda>x. \<not> ms_is_read x) (map (set_read (ms_id m)) xs) =
      map (set_read (ms_id m)) (filter (\<lambda>x. ms_id x \<noteq> ms_id m) (filter (\<lambda>x. \<not> ms_is_read x) xs))" for xs
    by (induction xs) auto
  then have "filter (\<lambda>x. \<not> ms_is_read x) (mailbox_rows (mark_db (ms_id m) db) j) =
      map (set_read (ms_id m)) (filter (\<lambda>x. ms_id x \<noteq> ms_id m) (m # ms))"
    unfolding mark_db_rows assms(2)[symmetric] .
  also have "filter (\<lambda>x. ms_id x \<noteq> ms_id m) (m # ms) = ms" using other by (simp add: filter_id_conv)
  finally show ?thesis using same by (simp add: map_idI)
qed

end
