(* ===== verification/Post_Office.thy ===== *)
theory Post_Office
  imports Mail_Protocol Db_Mailbox
begin

text \<open>
  \<^verbatim>\<open>Server/src/vipc/mail/postoffice.rs\<close>: the mail server of one session. Its own state are the
  fragments collected per channel and the account it belongs to; the database is shared with the
  other sessions and passed explicitly.
\<close>

definition TAG_HEADER :: byte where "TAG_HEADER = 0x62"
definition TAG_RECIPIENT :: byte where "TAG_RECIPIENT = 0x74"
definition TAG_SENDER :: byte where "TAG_SENDER = 0x66"
definition TAG_DISPLAY_SENDER :: byte where "TAG_DISPLAY_SENDER = 0x6B"
definition TAG_SUBJECT :: byte where "TAG_SUBJECT = 0x73"
definition TAG_BODY :: byte where "TAG_BODY = 0x6E"
definition TAG_SELECT :: byte where "TAG_SELECT = 0x53"
definition TAG_INITIALIZE :: byte where "TAG_INITIALIZE = 0x49"
definition TAG_REQUEST_ACCEPTED :: byte where "TAG_REQUEST_ACCEPTED = 0x54"

definition CHANNEL_SESSION :: u16 where "CHANNEL_SESSION = 0"
definition CHANNEL_CLOSE :: u16 where "CHANNEL_CLOSE = 4"
definition CHANNEL_TAGGED_REQUEST :: u16 where "CHANNEL_TAGGED_REQUEST = 6"
definition CHANNEL_SELECT :: u16 where "CHANNEL_SELECT = 7"
definition CHANNEL_FLUSH :: u16 where "CHANNEL_FLUSH = 8"
definition CHANNEL_INITIALIZE :: u16 where "CHANNEL_INITIALIZE = 0x0D"
definition CHANNEL_FINALIZE :: u16 where "CHANNEL_FINALIZE = 0x0E"
definition CHANNEL_DRAIN :: u16 where "CHANNEL_DRAIN = 0x10"
definition CHANNEL_COUNT :: nat where "CHANNEL_COUNT = unat CHANNEL_DRAIN + 1"

definition SESSION_INITIALIZE_RESPONSE :: bytes where "SESSION_INITIALIZE_RESPONSE = [0x7A]"
definition MAIL_HEADER_RESERVED_LEN :: nat where "MAIL_HEADER_RESERVED_LEN = 4"
definition TAG_LEN :: nat where "TAG_LEN = 1"
definition STATUS_WIRE_LEN :: nat where "STATUS_WIRE_LEN = 1"
definition MAIL_HEADER_VALUE_LEN :: nat where
  "MAIL_HEADER_VALUE_LEN = TAG_LEN + MAIL_ID_LEN + MAIL_HEADER_RESERVED_LEN + STATUS_WIRE_LEN"
definition MAX_REQUEST :: nat where "MAX_REQUEST = 64 * 1024"
definition MAX_TAG_VALUE :: nat where "MAX_TAG_VALUE = 65535 - TAG_LEN"
definition INITIALIZE_VALUE_LEN :: nat where "INITIALIZE_VALUE_LEN = 2"

section \<open>Data\<close>

record pending =
  pe_connection_id :: byte
  pe_data :: bytes

definition pending_default :: pending where
  "pending_default = \<lparr>pe_connection_id = 0, pe_data = []\<rparr>"

record mail_server =
  mv_fragments :: "pending list"
  mv_owner_id :: int
  mv_owner_name :: bytes

record mail_response =
  mr_note :: u16
  mr_payload :: bytes

record channel_response =
  cn_flags :: byte
  cn_data :: bytes

definition final_message :: "bytes \<Rightarrow> channel_response" where
  "final_message data = \<lparr>cn_flags = 0, cn_data = data\<rparr>"

datatype mail_status = MailNew | MailRead | MailSent

fun mail_status_repr :: "mail_status \<Rightarrow> nat" where
  "mail_status_repr MailNew = 0"
| "mail_status_repr MailRead = 1"
| "mail_status_repr MailSent = 2"

definition NEW_MAIL_FILTER :: byte where "NEW_MAIL_FILTER = push_bit (mail_status_repr MailNew) 1"
definition ALL_MAIL_FILTER :: byte where
  "ALL_MAIL_FILTER = NEW_MAIL_FILTER OR push_bit (mail_status_repr MailRead) 1 OR push_bit (mail_status_repr MailSent) 1"
definition READ_NEW_OPERATION :: byte where "READ_NEW_OPERATION = 1"

datatype mail_status_filter = NewOnly | AllMail | OtherFilter
datatype mail_order = OldestFirst | NewestFirst | OtherOrder

record select_control =
  sc_status_filter :: mail_status_filter
  sc_order :: mail_order
  sc_operation :: byte

datatype s_request = SList | SDetail bytes | SReadNew

record outgoing =
  og_recipient :: bytes
  og_subject :: bytes
  og_body :: bytes

record mail_header_rec =
  mh_id :: bytes
  mh_status :: mail_status

definition mail_server_new :: "int \<Rightarrow> bytes \<Rightarrow> mail_server" where
  "mail_server_new owner_id owner_name =
     \<lparr>mv_fragments = replicate CHANNEL_COUNT pending_default, mv_owner_id = owner_id, mv_owner_name = owner_name\<rparr>"

section \<open>Requests\<close>

definition select_control_parse :: "byte \<Rightarrow> byte \<Rightarrow> byte \<Rightarrow> select_control" where
  "select_control_parse status_filter order operation =
     \<lparr>sc_status_filter = (if status_filter = NEW_MAIL_FILTER then NewOnly
                          else if status_filter = ALL_MAIL_FILTER then AllMail else OtherFilter),
      sc_order = (if order = 0 then OldestFirst else if order = 1 then NewestFirst else OtherOrder),
      sc_operation = operation\<rparr>"

definition reads_new_mail :: "select_control \<Rightarrow> bool" where
  "reads_new_mail c \<longleftrightarrow>
     sc_status_filter c = NewOnly \<and> sc_order c = OldestFirst \<and> sc_operation c = READ_NEW_OPERATION"

definition s_request_parse :: "bytes \<Rightarrow> s_request option" where
  "s_request_parse data =
     (case single_record data RECORD_MARKER TAG_SELECT of
        None \<Rightarrow> None
      | Some v \<Rightarrow>
          ok (and_then (read_array 3 v) (\<lambda>(ctl, c).
              and_then (read_array MAIL_ID_LEN c) (\<lambda>(i, c).
                let control = select_control_parse (ctl ! 0) (ctl ! 1) (ctl ! 2);
                    requested_tags = fst (read_remainder c) in
                Inr (if TAG_BODY \<notin> set requested_tags then SList
                     else if reads_new_mail control then SReadNew else SDetail i)))))"

definition valid_i_request :: "bytes \<Rightarrow> bool" where
  "valid_i_request data =
     (case single_record data RECORD_MARKER TAG_INITIALIZE of
        None \<Rightarrow> False | Some v \<Rightarrow> length v = INITIALIZE_VALUE_LEN)"

definition mail_text :: "bytes \<Rightarrow> bytes option" where
  "mail_text v = (if is_ascii v then from_utf8 v else None)"

fun body_before_terminator :: "tlv_entry list \<Rightarrow> bytes option" where
  "body_before_terminator (b # t # es) =
     (if entry_tag b = TAG_BODY \<and> entry_tag t = TAG_TERMINATOR \<and> entry_value t = []
      then Some (entry_value b) else body_before_terminator (t # es))"
| "body_before_terminator _ = None"

definition outgoing_body :: "bytes \<Rightarrow> bytes option" where
  "outgoing_body data = body_before_terminator (tlv_well_formed_prefix (tlv_marker_u16 data RECORD_MARKER))"

definition outgoing_parse :: "bytes \<Rightarrow> outgoing option" where
  "outgoing_parse original =
     Option.bind (Option.bind (tlv_find_tag (tlv_marker_u16 original RECORD_MARKER) TAG_RECIPIENT) mail_text) (\<lambda>recipient.
     Option.bind (Option.bind (tlv_find_tag (tlv_marker_u16 original RECORD_MARKER) TAG_SUBJECT) mail_text) (\<lambda>subject.
     Option.bind (Option.bind (outgoing_body original) mail_text) (\<lambda>body.
     Some \<lparr>og_recipient = recipient, og_subject = subject, og_body = body\<rparr>)))"

definition as_new_message :: "outgoing \<Rightarrow> int \<Rightarrow> int \<Rightarrow> new_message" where
  "as_new_message o' sender_id recipient_id =
     \<lparr>nm_sender_id = sender_id, nm_recipient_id = recipient_id, nm_subject = og_subject o',
      nm_body = og_body o', nm_attachment_path = None\<rparr>"

text \<open>The sums stay far below the 64 bits of \<open>usize\<close>, so the checked additions never fail.\<close>

definition fits_vipc_payload :: "outgoing \<Rightarrow> bytes \<Rightarrow> bool" where
  "fits_vipc_payload o' sender =
     (let fields = [og_recipient o', sender, sender, og_subject o', og_body o'];
          record_overhead = length fields * (RECORD_HEADER_LEN + TAG_LEN);
          fixed_length = MAIL_HEADER_VALUE_LEN + RECORD_HEADER_LEN + RECORD_HEADER_LEN + TAG_LEN + TRANSPORT_HEADER_LEN
      in list_all (\<lambda>f. length f \<le> MAX_TAG_VALUE) fields \<and>
         foldl (\<lambda>total f. total + length f) (fixed_length + record_overhead + length (og_body o')) fields \<le> 65535)"

section \<open>Responses\<close>

definition mail_header_encode :: "mail_header_rec \<Rightarrow> bytes" where
  "mail_header_encode h =
     app_frame RECORD_MARKER ([TAG_HEADER] @ mh_id h @ replicate MAIL_HEADER_RESERVED_LEN 0
       @ [of_nat (mail_status_repr (mh_status h))])"

definition mail_header :: "message \<Rightarrow> bytes" where
  "mail_header m = mail_header_encode \<lparr>mh_id = mail_id_from_u32 (me_mail_id m), mh_status = MailRead\<rparr>"

definition tagged_record :: "byte \<Rightarrow> bytes \<Rightarrow> bytes" where
  "tagged_record tag v = app_frame RECORD_MARKER (tag # v)"

definition empty_mail_result :: bytes where
  "empty_mail_result = app_frame RECORD_MARKER [TAG_TERMINATOR]"

definition list_line :: "message \<Rightarrow> bytes" where
  "list_line m = mail_header m @ tagged_record TAG_DISPLAY_SENDER (cr_name (me_sender m))
     @ tagged_record TAG_SUBJECT (me_subject m) @ app_frame RECORD_MARKER [TAG_TERMINATOR]"

definition mailbox_list :: "message list \<Rightarrow> channel_response list" where
  "mailbox_list messages =
     (if messages = [] then [final_message empty_mail_result]
      else
        let l = length messages - 1 in
        map (\<lambda>(index, m). \<lparr>cn_flags = (if index = l then 0 else MORE), cn_data = list_line m\<rparr>)
          (enumerate 0 messages))"

definition mail_detail :: "message \<Rightarrow> bytes" where
  "mail_detail m =
     mail_header m
     @ tagged_record TAG_RECIPIENT (cr_name (me_recipient m))
     @ tagged_record TAG_SENDER (cr_name (me_sender m))
     @ tagged_record TAG_DISPLAY_SENDER (cr_name (me_sender m))
     @ tagged_record TAG_SUBJECT (me_subject m)
     @ tagged_record TAG_BODY (me_body m)
     @ app_frame RECORD_MARKER [TAG_TERMINATOR]
     @ me_body m"

section \<open>The server\<close>

definition accept_outgoing :: "bytes \<Rightarrow> mail_server \<Rightarrow> database \<Rightarrow> bool \<times> database" where
  "accept_outgoing data s db =
     (case outgoing_parse data of
        None \<Rightarrow> (False, db)
      | Some o' \<Rightarrow>
          if \<not> fits_vipc_payload o' (mv_owner_name s) then (False, db)
          else
            (case find_recipient (mv_owner_id s) (og_recipient o') db of
               (Inr (Some recipient_id), db) \<Rightarrow>
                 (case mailbox_insert (as_new_message o' (mv_owner_id s) recipient_id) db of
                    (Inr mail_id, db) \<Rightarrow> (True, db)
                  | (Inl e, db) \<Rightarrow> (False, db))
             | (Inr None, db) \<Rightarrow> (False, db)
             | (Inl e, db) \<Rightarrow> (False, db)))"

definition mail_read :: "(int \<Rightarrow> database \<Rightarrow> 'a sql_result) \<Rightarrow> mail_server \<Rightarrow> database \<Rightarrow> 'a option \<times> database" where
  "mail_read query s db = (case query (mv_owner_id s) db of (r, db) \<Rightarrow> (ok r, db))"

definition detail_or_empty :: "message option \<Rightarrow> channel_response list" where
  "detail_or_empty m = [final_message (case m of None \<Rightarrow> empty_mail_result | Some m \<Rightarrow> mail_detail m)]"

fun mail_select :: "s_request \<Rightarrow> mail_server \<Rightarrow> database \<Rightarrow> channel_response list option \<times> database" where
  "mail_select SList s db =
     (case mail_read list_mail s db of (m, db) \<Rightarrow> (map_option mailbox_list m, db))"
| "mail_select (SDetail i) s db =
     (case mail_id_value i of
        None \<Rightarrow> (Some (detail_or_empty None), db)
      | Some v \<Rightarrow> (case mail_read (\<lambda>owner. mailbox_find owner v) s db of
                    (m, db) \<Rightarrow> (map_option detail_or_empty m, db)))"
| "mail_select SReadNew s db =
     (case mail_read first_unread s db of
        (None, db) \<Rightarrow> (None, db)
      | (Some None, db) \<Rightarrow> (Some (detail_or_empty None), db)
      | (Some (Some m), db) \<Rightarrow>
          (case mark_read (me_id m) db of
             (Inl e, db) \<Rightarrow> (None, db)
           | (Inr _, db) \<Rightarrow> (Some (detail_or_empty (Some m)), db)))"

text \<open>The answer to a complete request, by channel.\<close>

definition channel_answer ::
  "u16 \<Rightarrow> bytes \<Rightarrow> mail_server \<Rightarrow> database \<Rightarrow> channel_response list option \<times> database" where
  "channel_answer note data s db =
     (if note = CHANNEL_SESSION \<and> session_initialize_parse data =
           Some \<lparr>si_service_id = MAIL_SERVICE_ID, si_protocol_version = PROTOCOL_VERSION\<rparr>
      then (Some [final_message (app_frame SESSION_MARKER SESSION_INITIALIZE_RESPONSE)], db)
      else if note = CHANNEL_CLOSE \<and> data = [] then (Some [final_message empty_mail_result], db)
      else if note = CHANNEL_TAGGED_REQUEST \<and> tlv_all_records_valid (tlv_marker_u16 data RECORD_MARKER)
      then (Some [final_message (app_frame RECORD_MARKER [TAG_REQUEST_ACCEPTED])], db)
      else if note = CHANNEL_SELECT then
        (case s_request_parse data of None \<Rightarrow> (None, db) | Some r \<Rightarrow> mail_select r s db)
      else if note = CHANNEL_FLUSH \<and> data = [] then (Some [final_message empty_mail_result], db)
      else if note = CHANNEL_INITIALIZE \<and> valid_i_request data then (Some [final_message empty_mail_result], db)
      else if (note = CHANNEL_FINALIZE \<or> note = CHANNEL_DRAIN) \<and> data = []
      then (Some [final_message empty_mail_result], db)
      else (None, db))"

definition set_pending :: "u16 \<Rightarrow> pending \<Rightarrow> mail_server \<Rightarrow> mail_server" where
  "set_pending note p s = s\<lparr>mv_fragments := (mv_fragments s)[unat note := p]\<rparr>"

definition mail_process ::
  "u16 \<Rightarrow> bytes \<Rightarrow> mail_server \<Rightarrow> database \<Rightarrow> mail_response list option \<times> mail_server \<times> database" where
  "mail_process note payload s db =
     (if \<not> unat note < length (mv_fragments s) then (None, s, db)
      else
        let pend = mv_fragments s ! unat note in
        case transport_fragment_parse payload of
          None \<Rightarrow> (None, set_pending note pending_default s, db)
        | Some fragment \<Rightarrow>
            if tf_error fragment \<noteq> 0 then (None, set_pending note pending_default s, db)
            else
              let pend = (if pe_data pend \<noteq> [] \<and> pe_connection_id pend \<noteq> tf_connection_id fragment
                          then pending_default else pend);
                  pend = pend\<lparr>pe_connection_id := tf_connection_id fragment\<rparr> in
              if length (pe_data pend) + length (tf_data fragment) > MAX_REQUEST
              then (None, set_pending note pending_default s, db)
              else
                let pend = pend\<lparr>pe_data := pe_data pend @ tf_data fragment\<rparr> in
                if tf_flags fragment AND MORE \<noteq> 0 then (None, set_pending note pend s, db)
                else
                  let s = set_pending note pending_default s in
                  case channel_answer note (pe_data pend) s db of
                    (None, db) \<Rightarrow> (None, s, db)
                  | (Some responses, db) \<Rightarrow>
                      (Some (map (\<lambda>r. \<lparr>mr_note = note,
                                       mr_payload = transport (cn_flags r) (pe_connection_id pend) (cn_data r)\<rparr>)
                               responses), s, db))"

section \<open>Lemmas\<close>

lemmas mail_sizes = MAIL_HEADER_VALUE_LEN_def TAG_LEN_def MAIL_ID_LEN_def MAIL_HEADER_RESERVED_LEN_def
  STATUS_WIRE_LEN_def RECORD_HEADER_LEN_def TRANSPORT_HEADER_LEN_def MAX_TAG_VALUE_def

subsection \<open>Sizes\<close>

text \<open>The length of the detail answer about a message, transport header included.\<close>

definition detail_length :: "bytes \<Rightarrow> bytes \<Rightarrow> bytes \<Rightarrow> bytes \<Rightarrow> nat" where
  "detail_length recipient sender subject body =
     43 + length recipient + 2 * length sender + length subject + 2 * length body"

lemma fits_vipc_payload_iff:
  "fits_vipc_payload o' sender \<longleftrightarrow> detail_length (og_recipient o') sender (og_subject o') (og_body o') \<le> 65535"
  by (auto simp: fits_vipc_payload_def detail_length_def mail_sizes Let_def)

lemma length_mail_header [simp]: "length (mail_header m) = 15"
  by (simp add: mail_header_def mail_header_encode_def length_app_frame mail_id_from_u32_def mail_sizes)

lemma length_tagged_record: "length (tagged_record t v) \<le> 4 + length v"
  by (simp add: tagged_record_def length_app_frame)

lemma length_transport [simp]: "length (transport f c d) = 4 + length d"
  by (simp add: transport_def)

lemma length_empty_mail_result [simp]: "length empty_mail_result = 4"
  by (simp add: empty_mail_result_def length_app_frame)

lemma length_mail_detail:
  "4 + length (mail_detail m) \<le>
     detail_length (cr_name (me_recipient m)) (cr_name (me_sender m)) (me_subject m) (me_body m)"
  using length_tagged_record[of TAG_RECIPIENT "cr_name (me_recipient m)"] length_tagged_record[of TAG_SENDER "cr_name (me_sender m)"]
    length_tagged_record[of TAG_DISPLAY_SENDER "cr_name (me_sender m)"] length_tagged_record[of TAG_SUBJECT "me_subject m"]
    length_tagged_record[of TAG_BODY "me_body m"]
  by (simp add: mail_detail_def detail_length_def length_app_frame)

lemma length_list_line:
  "4 + length (list_line m) \<le>
     detail_length (cr_name (me_recipient m)) (cr_name (me_sender m)) (me_subject m) (me_body m)"
  using length_tagged_record[of TAG_DISPLAY_SENDER "cr_name (me_sender m)"] length_tagged_record[of TAG_SUBJECT "me_subject m"]
  by (simp add: list_line_def detail_length_def length_app_frame)

text \<open>Every stored message can be answered within one VIPC payload.\<close>

definition row_fits :: "message_row \<times> user_chain \<times> user_chain \<Rightarrow> bool" where
  "row_fits = (\<lambda>(m, (s, _), (r, _)). detail_length (us_name r) (us_name s) (ms_subject m) (ms_body m) \<le> 65535)"

definition mail_fits :: "database \<Rightarrow> bool" where
  "mail_fits db \<longleftrightarrow> list_all row_fits (joined_messages db)"

definition message_fits :: "message \<Rightarrow> bool" where
  "message_fits m \<longleftrightarrow>
     detail_length (cr_name (me_recipient m)) (cr_name (me_sender m)) (me_subject m) (me_body m) \<le> 65535"

lemma read_message_fits: "read_message row = Inr m \<Longrightarrow> row_fits row \<Longrightarrow> message_fits m"
  by (auto simp: read_message_def row_fits_def message_fits_def correspondent_of_def split: if_splits prod.splits)

lemma collect_results_fits:
  "collect_results (map read_message rows) = Inr ms \<Longrightarrow> list_all row_fits rows \<Longrightarrow> list_all message_fits ms"
proof (induction rows arbitrary: ms)
  case (Cons r rows)
  then show ?case by (cases "read_message r") (auto simp: result_simps dest: read_message_fits)
qed simp

lemma optional_row_fits:
  "optional_row read_message rows = Inr (Some m) \<Longrightarrow> list_all row_fits rows \<Longrightarrow> message_fits m"
  by (auto simp: optional_row_def result_simps list_all_iff dest!: first_row_in read_message_fits split: option.splits)

lemma mail_fits_faults [simp]: "mail_fits (db\<lparr>db_faults := fs\<rparr>) = mail_fits db"
  by (simp add: mail_fits_def)

lemma list_all_filter: "list_all P xs \<Longrightarrow> list_all P (filter Q xs)"
  by (auto simp: list_all_iff)

lemma list_mail_fits: "list_mail i db = (Inr ms, db') \<Longrightarrow> mail_fits db \<Longrightarrow> list_all message_fits ms"
  by (auto simp: list_mail_def mail_fits_def list_all_iff elim!: sqlE dest!: collect_results_fits)

lemma mailbox_find_fits: "mailbox_find i v db = (Inr (Some m), db') \<Longrightarrow> mail_fits db \<Longrightarrow> message_fits m"
  by (auto simp: mailbox_find_def mail_fits_def list_all_iff elim!: sqlE dest!: optional_row_fits)

lemma first_unread_fits: "first_unread i db = (Inr (Some m), db') \<Longrightarrow> mail_fits db \<Longrightarrow> message_fits m"
  by (auto simp: first_unread_def mail_fits_def list_all_iff elim!: sqlE dest!: optional_row_fits)

definition response_fits :: "channel_response \<Rightarrow> bool" where
  "response_fits r \<longleftrightarrow> 4 + length (cn_data r) \<le> 65535"

lemma detail_or_empty_fits:
  "(\<And>x. m = Some x \<Longrightarrow> message_fits x) \<Longrightarrow> list_all response_fits (detail_or_empty m)"
  using length_mail_detail[of "the m"]
  by (auto simp: detail_or_empty_def response_fits_def final_message_def message_fits_def split: option.splits)

lemma mailbox_list_fits: "list_all message_fits ms \<Longrightarrow> list_all response_fits (mailbox_list ms)"
proof -
  assume a: "list_all message_fits ms"
  have "4 + length (list_line m) \<le> 65535" if "m \<in> set ms" for m
    using a that length_list_line[of m] by (auto simp: list_all_iff message_fits_def)
  then show ?thesis
    by (auto simp: mailbox_list_def response_fits_def final_message_def list_all_iff Let_def
        dest!: in_set_enumerate_eq[THEN iffD1])
qed

lemma mail_select_fits:
  assumes "mail_select r s db = (Some rs, db')" "mail_fits db"
  shows "list_all response_fits rs"
  using assms
  by (cases r)
    (auto simp: mail_read_def result_simps split: prod.splits option.splits sum.splits
      intro!: mailbox_list_fits detail_or_empty_fits dest: list_mail_fits mailbox_find_fits first_unread_fits)

lemma channel_answer_fits:
  assumes "channel_answer note data s db = (Some rs, db')" "mail_fits db"
  shows "list_all response_fits rs"
  using assms
  by (auto simp: channel_answer_def response_fits_def final_message_def length_app_frame SESSION_INITIALIZE_RESPONSE_def
      split: if_splits option.splits dest: mail_select_fits)

lemma mail_process_fits:
  assumes "mail_process note payload s db = (Some rs, s', db')" "mail_fits db"
  shows "list_all (\<lambda>r. length (mr_payload r) \<le> 65535) rs"
  using assms
  by (auto simp: mail_process_def Let_def response_fits_def list_all_iff split: if_splits option.splits prod.splits
      dest!: channel_answer_fits)

subsection \<open>Delivery\<close>

lemma find_recipient_Some:
  assumes "find_recipient i name db = (Inr (Some j), db')" "db_wf db"
  shows "\<exists>fs u r. db' = db\<lparr>db_faults := fs\<rparr> \<and> u \<in> set (db_users db) \<and> us_id u = i \<and>
    r \<in> set (db_users db) \<and> us_id r = j \<and> us_group_id r = us_group_id u \<and> nocase_eq (us_name r) name"
proof -
  define own where "own = map_option us_group_id (first_row (filter (\<lambda>u. us_id u = i) (db_users db)))"
  from assms(1) obtain fs r where db': "db' = db\<lparr>db_faults := fs\<rparr>" and "us_id r = j" and
    sel: "first_row (filter (\<lambda>u. nocase_eq (us_name u) name \<and> Some (us_group_id u) = own) (db_users db)) = Some r"
    by (auto simp: find_recipient_def Let_def own_def elim!: sqlE)
  from first_row_in[OF sel] have r: "r \<in> set (db_users db)" "nocase_eq (us_name r) name" and g: "own = Some (us_group_id r)"
    by auto
  from g obtain u where "first_row (filter (\<lambda>u. us_id u = i) (db_users db)) = Some u" "us_group_id u = us_group_id r"
    by (auto simp: own_def)
  with first_row_in have "u \<in> set (db_users db)" "us_id u = i" "us_group_id r = us_group_id u" by fastforce+
  with r db' \<open>us_id r = j\<close> show ?thesis by blast
qed

lemma mailbox_rows_faults [simp]: "mailbox_rows (db\<lparr>db_faults := fs\<rparr>) i = mailbox_rows db i"
  by (simp add: mailbox_rows_def)

text \<open>The row an insert stores, and the database with one more row.\<close>

definition new_row :: "new_message \<Rightarrow> database \<Rightarrow> message_row" where
  "new_row m db =
     \<lparr>ms_id = next_rowid (map ms_id (db_messages db)), ms_sender_id = nm_sender_id m,
      ms_recipient_id = nm_recipient_id m, ms_mail_id = next_mail_id db (nm_recipient_id m),
      ms_subject = nm_subject m, ms_body = nm_body m, ms_attachment_path = nm_attachment_path m, ms_is_read = False\<rparr>"

definition add_row :: "message_row \<Rightarrow> database \<Rightarrow> database" where
  "add_row row db = db\<lparr>db_messages := db_messages db @ [row]\<rparr>"

lemma new_row_fields [simp]:
  "ms_id (new_row m db) = next_rowid (map ms_id (db_messages db))" "ms_sender_id (new_row m db) = nm_sender_id m"
  "ms_recipient_id (new_row m db) = nm_recipient_id m" "ms_mail_id (new_row m db) = next_mail_id db (nm_recipient_id m)"
  "ms_subject (new_row m db) = nm_subject m" "ms_body (new_row m db) = nm_body m" "ms_is_read (new_row m db) = False"
  by (simp_all add: new_row_def)

lemma new_row_faults [simp]: "new_row m (db\<lparr>db_faults := fs\<rparr>) = new_row m db"
  by (simp add: new_row_def)

lemma add_row_faults: "add_row row (db\<lparr>db_faults := fs\<rparr>) = (add_row row db)\<lparr>db_faults := fs\<rparr>"
  by (simp add: add_row_def)

lemma add_row_tables [simp]:
  "db_companies (add_row row db) = db_companies db" "db_groups (add_row row db) = db_groups db"
  "db_users (add_row row db) = db_users db" "db_messages (add_row row db) = db_messages db @ [row]"
  by (simp_all add: add_row_def)

lemma mailbox_insert_eq:
  "mailbox_insert m = sql (\<lambda>db.
     if nm_sender_id m \<notin> us_id ` set (db_users db) \<or> nm_recipient_id m \<notin> us_id ` set (db_users db)
     then (Inl ConstraintViolation, db)
     else (let i = next_mail_id db (nm_recipient_id m) in
           if 0 \<le> i \<and> i < 2 ^ 32 then Inr (of_int i) else Inl ValueOutOfRange, add_row (new_row m db) db))"
  unfolding mailbox_insert_def Let_def new_row_def add_row_def ..

lemma mailbox_insert_cases:
  assumes "mailbox_insert m db = (r, db')"
  obtains (unchanged) fs e where "db' = db\<lparr>db_faults := fs\<rparr>" "r = Inl e"
  | (inserted) fs where "nm_sender_id m \<in> us_id ` set (db_users db)" "nm_recipient_id m \<in> us_id ` set (db_users db)"
    "db' = (add_row (new_row m db) db)\<lparr>db_faults := fs\<rparr>"
  using assms unfolding mailbox_insert_eq
  by (elim sqlE) (auto simp: add_row_faults Let_def split: if_splits)

lemma mailbox_rows_append:
  assumes "ms_mail_id row = next_mail_id db (ms_recipient_id row)"
  shows "mailbox_rows (add_row row db) i =
    (if i = ms_recipient_id row then mailbox_rows db i @ [row] else mailbox_rows db i)"
  using next_mail_id_above[of _ db i] assms
  by (auto simp: mailbox_rows_def add_row_def intro!: sort_key_snoc)

definition owns_account :: "mail_server \<Rightarrow> database \<Rightarrow> bool" where
  "owns_account s db \<longleftrightarrow> (\<forall>u \<in> set (db_users db). us_id u = mv_owner_id s \<longrightarrow> us_name u = mv_owner_name s)"

text \<open>
  What an outgoing message does to the database: nothing, or one new row, from the session's account
  to the account of that name in the same group.
\<close>

definition outgoing_stored :: "bytes \<Rightarrow> mail_server \<Rightarrow> database \<Rightarrow> outgoing \<Rightarrow> user_row \<Rightarrow> user_row \<Rightarrow> bool" where
  "outgoing_stored data s db o' u r \<longleftrightarrow>
     outgoing_parse data = Some o' \<and> fits_vipc_payload o' (mv_owner_name s) \<and>
     u \<in> set (db_users db) \<and> us_id u = mv_owner_id s \<and>
     r \<in> set (db_users db) \<and> us_group_id r = us_group_id u \<and> nocase_eq (us_name r) (og_recipient o')"

abbreviation stored_row :: "outgoing \<Rightarrow> user_row \<Rightarrow> user_row \<Rightarrow> database \<Rightarrow> message_row" where
  "stored_row o' u r db \<equiv> new_row (as_new_message o' (us_id u) (us_id r)) db"

lemma accept_outgoing_cases:
  assumes "accept_outgoing data s db = (accepted, db')" "db_wf db"
  obtains (unchanged) fs where "db' = db\<lparr>db_faults := fs\<rparr>" "\<not> accepted"
  | (stored) fs o' u r where "outgoing_stored data s db o' u r"
      "db' = (add_row (stored_row o' u r db) db)\<lparr>db_faults := fs\<rparr>"
proof (cases "\<exists>o'. outgoing_parse data = Some o' \<and> fits_vipc_payload o' (mv_owner_name s)")
  case False
  with assms(1) unchanged[of "db_faults db"] show thesis
    by (auto simp: accept_outgoing_def split: option.splits)
next
  case True
  then obtain o' where o': "outgoing_parse data = Some o'" "fits_vipc_payload o' (mv_owner_name s)" by blast
  obtain j db1 where fr: "find_recipient (mv_owner_id s) (og_recipient o') db = (j, db1)" by fastforce
  show thesis
  proof (cases "\<exists>i. j = Inr (Some i)")
    case False
    from fr have "\<exists>fs. db1 = db\<lparr>db_faults := fs\<rparr>" by (auto simp: find_recipient_def Let_def elim!: sqlE)
    moreover have "db' = db1" "\<not> accepted"
      using assms(1) False o' fr by (auto simp: accept_outgoing_def split: sum.splits option.splits)
    ultimately show thesis using unchanged by blast
  next
    case True
    then obtain i where i: "find_recipient (mv_owner_id s) (og_recipient o') db = (Inr (Some i), db1)" using fr by auto
    obtain v db2 where ins: "mailbox_insert (as_new_message o' (mv_owner_id s) i) db1 = (v, db2)" by fastforce
    have acc: "db' = db2" "accepted \<Longrightarrow> is_ok v"
      using assms(1) o' i ins by (auto simp: accept_outgoing_def split: sum.splits)
    from find_recipient_Some[OF i assms(2)] obtain fs u r where db1: "db1 = db\<lparr>db_faults := fs\<rparr>" and
      u: "u \<in> set (db_users db)" "us_id u = mv_owner_id s" and
      r: "r \<in> set (db_users db)" "us_id r = i" "us_group_id r = us_group_id u" "nocase_eq (us_name r) (og_recipient o')" by blast
    from ins show thesis
    proof (cases rule: mailbox_insert_cases)
      case (unchanged fs' e)
      then show thesis using that(1)[of fs'] acc db1 by auto
    next
      case (inserted fs')
      have "outgoing_stored data s db o' u r" using o' u r by (simp add: outgoing_stored_def)
      then show thesis using that(2)[of o' u r fs'] inserted(3) acc(1) db1 u r by (simp add: add_row_faults)
    qed
  qed
qed

lemma add_row_wf:
  assumes "db_wf db" "nm_sender_id m \<in> us_id ` set (db_users db)" "nm_recipient_id m \<in> us_id ` set (db_users db)"
  shows "db_wf (add_row (new_row m db) db)"
  unfolding add_row_def by (rule mailbox_append_wf) (use assms in simp_all)

lemma mail_fits_append:
  assumes "db_wf (add_row row db)" "db_wf db" "mail_fits db"
    "u \<in> set (db_users db)" "us_id u = ms_sender_id row" "r \<in> set (db_users db)" "us_id r = ms_recipient_id row"
    "detail_length (us_name r) (us_name u) (ms_subject row) (ms_body row) \<le> 65535"
  shows "mail_fits (add_row row db)"
proof -
  have same: "with_correspondents (add_row row db) = with_correspondents db"
    by (rule ext) (simp add: with_correspondents_def chain_of_def the_group_def the_company_def the_user_def)
  have "the_user db (ms_sender_id row) = u" "the_user db (ms_recipient_id row) = r"
    using the_user_eq[OF assms(2)] assms(4-7) by metis+
  with assms(3,8) show ?thesis
    by (simp add: mail_fits_def joined_messages_map[OF assms(1)] joined_messages_map[OF assms(2)] same)
       (simp add: row_fits_def with_correspondents_def chain_of_def)
qed

lemma stored_keeps:
  assumes "outgoing_stored data s db o' u r" "db_wf db" "owns_account s db" "mail_fits db"
  shows "db_wf (add_row (stored_row o' u r db) db)" "mail_fits (add_row (stored_row o' u r db) db)"
proof -
  have m: "u \<in> set (db_users db)" "r \<in> set (db_users db)" using assms(1) by (auto simp: outgoing_stored_def)
  show wf: "db_wf (add_row (stored_row o' u r db) db)"
    by (rule add_row_wf) (use assms(2) m in \<open>simp_all add: as_new_message_def\<close>)
  have "length (us_name r) = length (og_recipient o')"
    using assms(1) by (auto simp: outgoing_stored_def nocase_def dest: map_eq_imp_length_eq)
  moreover have "us_name u = mv_owner_name s" using assms(1,3) by (auto simp: owns_account_def outgoing_stored_def)
  ultimately have "detail_length (us_name r) (us_name u) (og_subject o') (og_body o') \<le> 65535"
    using assms(1) by (simp add: outgoing_stored_def fits_vipc_payload_iff detail_length_def)
  then show "mail_fits (add_row (stored_row o' u r db) db)"
    by (intro mail_fits_append[OF wf assms(2,4) m(1) _ m(2)]) (simp_all add: as_new_message_def)
qed

lemma accept_outgoing_keeps:
  assumes "accept_outgoing data s db = (accepted, db')" "db_wf db" "owns_account s db" "mail_fits db"
  shows "db_wf db' \<and> mail_fits db'"
  using assms(1,2)
proof (cases rule: accept_outgoing_cases)
  case (unchanged fs)
  then show ?thesis using assms by simp
next
  case (stored fs o' u r)
  then show ?thesis using stored_keeps[OF stored(1) assms(2-4)] by simp
qed

subsection \<open>Reassembly\<close>

text \<open>A run of fragments on one channel, with everything that is answered.\<close>

fun mail_feed ::
  "u16 \<Rightarrow> bytes list \<Rightarrow> mail_server \<Rightarrow> database \<Rightarrow> mail_response list \<times> mail_server \<times> database" where
  "mail_feed note [] s db = ([], s, db)"
| "mail_feed note (p # ps) s db =
     (case mail_process note p s db of
        (r, s, db) \<Rightarrow> (case mail_feed note ps s db of (rs, s, db) \<Rightarrow> (unwrap_or [] r @ rs, s, db)))"

definition mail_finish ::
  "u16 \<Rightarrow> byte \<Rightarrow> bytes \<Rightarrow> mail_server \<Rightarrow> database \<Rightarrow> mail_response list option \<times> mail_server \<times> database" where
  "mail_finish note cid data s db =
     (let s = set_pending note pending_default s in
      case channel_answer note data s db of
        (None, db) \<Rightarrow> (None, s, db)
      | (Some rs, db) \<Rightarrow>
          (Some (map (\<lambda>r. \<lparr>mr_note = note, mr_payload = transport (cn_flags r) cid (cn_data r)\<rparr>) rs), s, db))"

lemma transport_fragment_parse_transport [simp]:
  "transport_fragment_parse (transport f c d) = Some \<lparr>tf_flags = f, tf_connection_id = c, tf_error = 0, tf_data = d\<rparr>"
  by (simp add: transport_fragment_parse_def transport_def TRANSPORT_SUCCESS_def read_u16_write read_remainder_def)

definition collecting :: "u16 \<Rightarrow> byte \<Rightarrow> bytes \<Rightarrow> mail_server \<Rightarrow> bool" where
  "collecting note cid acc s \<longleftrightarrow> unat note < length (mv_fragments s) \<and>
     pe_data (mv_fragments s ! unat note) = acc \<and> (acc \<noteq> [] \<longrightarrow> pe_connection_id (mv_fragments s ! unat note) = cid)"

lemma mail_process_more:
  assumes "collecting note cid acc s" "length (acc @ d) \<le> MAX_REQUEST"
  shows "mail_process note (transport MORE cid d) s db =
    (None, set_pending note \<lparr>pe_connection_id = cid, pe_data = acc @ d\<rparr> s, db)"
  using assms by (cases "mv_fragments s ! unat note") (auto simp: mail_process_def collecting_def Let_def MORE_def)

lemma mail_process_last:
  assumes "collecting note cid acc s" "length (acc @ d) \<le> MAX_REQUEST"
  shows "mail_process note (transport 0 cid d) s db = mail_finish note cid (acc @ d) s db"
  using assms by (auto simp: mail_process_def mail_finish_def collecting_def Let_def split: prod.splits option.splits)

lemma collecting_more:
  "collecting note cid acc s \<Longrightarrow> collecting note cid (acc @ d) (set_pending note \<lparr>pe_connection_id = cid, pe_data = acc @ d\<rparr> s)"
  by (simp add: collecting_def set_pending_def)

lemma set_pending_twice [simp]: "set_pending note p (set_pending note q s) = set_pending note p s"
  by (simp add: set_pending_def)

lemma mail_finish_set_pending [simp]: "mail_finish note cid data (set_pending note p s) db = mail_finish note cid data s db"
  by (simp add: mail_finish_def)

lemma mail_feed_finish:
  assumes "collecting note cid acc s" "length (acc @ concat ds @ d) \<le> MAX_REQUEST"
  shows "mail_feed note (map (transport MORE cid) ds @ [transport 0 cid d]) s db =
    (case mail_finish note cid (acc @ concat ds @ d) s db of (r, s', db') \<Rightarrow> (unwrap_or [] r, s', db'))"
  using assms
proof (induction ds arbitrary: acc s)
  case Nil
  then show ?case using mail_process_last[of "note" cid acc s d db] by (auto split: prod.splits)
next
  case (Cons x ds)
  have "mail_process note (transport MORE cid x) s db =
      (None, set_pending note \<lparr>pe_connection_id = cid, pe_data = acc @ x\<rparr> s, db)"
    using Cons.prems by (intro mail_process_more) auto
  moreover note Cons.IH[OF collecting_more[OF Cons.prems(1), of x]] Cons.prems(2)
  ultimately show ?case by (auto split: prod.splits)
qed

subsection \<open>Reading new mail\<close>

fun read_new_times :: "nat \<Rightarrow> mail_server \<Rightarrow> database \<Rightarrow> channel_response list option list \<times> database" where
  "read_new_times 0 s db = ([], db)"
| "read_new_times (Suc n) s db =
     (case mail_select SReadNew s db of
        (r, db) \<Rightarrow> (case read_new_times n s db of (rs, db) \<Rightarrow> (r # rs, db)))"

definition unread :: "database \<Rightarrow> int \<Rightarrow> message_row list" where
  "unread db i = filter (\<lambda>m. \<not> ms_is_read m) (mailbox_rows db i)"

lemma unread_row: "unread db i = m # ms \<Longrightarrow> m \<in> set (db_messages db) \<and> ms_recipient_id m = i"
  by (auto simp: unread_def filter_eq_Cons_iff set_mailbox_rows[symmetric])

lemma read_new_step:
  assumes "db_wf db" "mail_ids_ok db" "db_faults db = []"
  shows "mail_select SReadNew s db =
    (case unread db (mv_owner_id s) of
       [] \<Rightarrow> (Some (detail_or_empty None), db)
     | m # ms \<Rightarrow> (Some (detail_or_empty (Some (message_view db m))), mark_db (ms_id m) db))"
proof (cases "unread db (mv_owner_id s)")
  case Nil
  then show ?thesis using first_unread_spec[OF assms, of "mv_owner_id s"]
    by (simp add: mail_read_def unread_def first_row_def)
next
  case (Cons m ms)
  obtain n where "mark_read (ms_id m) db = (Inr n, mark_db (ms_id m) db)" using mark_read_no_fault[OF assms(3)] by blast
  moreover have "me_id (message_view db m) = ms_id m" by (simp add: message_view_def)
  ultimately show ?thesis using Cons first_unread_spec[OF assms, of "mv_owner_id s"]
    by (simp add: mail_read_def unread_def first_row_def)
qed

lemma read_new_times_spec:
  assumes "db_wf db" "mail_ids_ok db" "db_faults db = []"
  shows "fst (read_new_times n s db) =
    map (\<lambda>m. Some (detail_or_empty (Some (message_view db m)))) (take n (unread db (mv_owner_id s)))
    @ replicate (n - length (unread db (mv_owner_id s))) (Some (detail_or_empty None))"
  using assms
proof (induction n arbitrary: db)
  case (Suc n)
  show ?case
  proof (cases "unread db (mv_owner_id s)")
    case Nil
    then show ?thesis using Suc.IH[of db] Suc.prems
      by (auto simp: read_new_step simp del: mail_select.simps split: prod.splits)
  next
    case (Cons m ms)
    have "unread (mark_db (ms_id m) db) (mv_owner_id s) = ms"
      using unread_after_mark[OF Suc.prems(1)] Cons by (simp add: unread_def)
    moreover have "message_view (mark_db (ms_id m) db) = message_view db"
      by (rule ext, rule message_view_tables) simp_all
    ultimately show ?thesis
      using Suc.IH[of "mark_db (ms_id m) db"] Suc.prems Cons
      by (auto simp: read_new_step simp del: mail_select.simps split: prod.splits)
  qed
qed simp

subsection \<open>Privacy\<close>

text \<open>What a session can see of the mail: the messages of its own mailbox.\<close>

definition mailbox_view :: "database \<Rightarrow> int \<Rightarrow> message list" where
  "mailbox_view db i = map (message_view db) (mailbox_rows db i)"

definition steady :: "database \<Rightarrow> bool" where
  "steady db \<longleftrightarrow> db_wf db \<and> mail_ids_ok db \<and> db_faults db = []"

lemma mailbox_find_view:
  assumes "steady db"
  shows "fst (mailbox_find i v db) = Inr (first_row (filter (\<lambda>m. me_mail_id m = v) (mailbox_view db i)))"
proof -
  have r: "(ms_mail_id m = uint v) = (me_mail_id (message_view db m) = v)" if "m \<in> set (mailbox_rows db i)" for m
    using that assms
    by (auto simp: set_mailbox_rows steady_def mail_ids_ok_def message_view_def word_of_int_eq_iff
        take_bit_int_eq_self word_eq_iff_unsigned unsigned_of_int)
  then have "filter (\<lambda>m. ms_mail_id m = uint v) (mailbox_rows db i) =
      filter (\<lambda>m. me_mail_id (message_view db m) = v) (mailbox_rows db i)" by (rule filter_cong[OF refl])
  then show ?thesis using mailbox_find_spec[of db i v] assms
    by (simp add: steady_def mailbox_view_def filter_map o_def first_row_map)
qed

lemma list_mail_view: "steady db \<Longrightarrow> list_mail i db = (Inr (mailbox_view db i), db)"
  by (simp add: steady_def list_mail_spec mailbox_view_def)

lemma first_unread_view:
  assumes "steady db"
  shows "first_unread i db = (Inr (first_row (filter (\<lambda>m. \<not> me_is_read m) (mailbox_view db i))), db)"
proof -
  have "(\<lambda>m. \<not> me_is_read (message_view db m)) = (\<lambda>m. \<not> ms_is_read m)" by (simp add: message_view_def fun_eq_iff)
  then show ?thesis using assms
    by (simp add: steady_def first_unread_spec mailbox_view_def filter_map o_def first_row_map)
qed

lemma mark_read_ok: "steady db \<Longrightarrow> is_ok (fst (mark_read i db))"
  using mark_read_no_fault[of db i] by (auto simp: steady_def)

lemma mail_select_view:
  assumes "steady db1" "steady db2" "mailbox_view db1 (mv_owner_id s) = mailbox_view db2 (mv_owner_id s)"
  shows "fst (mail_select r s db1) = fst (mail_select r s db2)"
proof (cases r)
  case SList
  then show ?thesis using assms by (simp add: mail_read_def list_mail_view)
next
  case (SDetail i)
  then show ?thesis using assms mailbox_find_view[OF assms(1)] mailbox_find_view[OF assms(2)]
    by (auto simp: mail_read_def split: option.splits prod.splits) (metis fst_conv)
next
  case SReadNew
  have marked: "fst (case mark_read (me_id m) db of (Inl e, db) \<Rightarrow> (None, db) | (Inr _, db) \<Rightarrow> (Some x, db)) = Some x"
    if "steady db" for m :: message and db and x :: "channel_response list"
    using mark_read_ok[OF that, of "me_id m"] by (auto split: prod.splits sum.splits)
  show ?thesis
  proof (cases "first_row (filter (\<lambda>m. \<not> me_is_read m) (mailbox_view db2 (mv_owner_id s)))")
    case None
    then show ?thesis using SReadNew assms by (simp add: mail_read_def first_unread_view first_row_def)
  next
    case (Some m)
    then show ?thesis using SReadNew assms marked by (simp add: mail_read_def first_unread_view)
  qed
qed

lemma channel_answer_view:
  assumes "steady db1" "steady db2" "mailbox_view db1 (mv_owner_id s) = mailbox_view db2 (mv_owner_id s)"
  shows "fst (channel_answer note data s db1) = fst (channel_answer note data s db2)"
  using mail_select_view[OF assms]
  by (cases "s_request_parse data") (simp_all add: channel_answer_def if_distrib[of fst] cong: if_cong)

text \<open>A fragment either only changes the fragments, or completes a request.\<close>

lemma mail_process_shape:
  "(\<exists>s'. \<forall>db. mail_process note payload s db = (None, s', db)) \<or>
   (\<exists>cid data. \<forall>db. mail_process note payload s db = mail_finish note cid data s db)"
proof (cases "transport_fragment_parse payload")
  case None
  then show ?thesis by (auto simp: mail_process_def)
next
  case (Some f)
  define q where "q = (let p = mv_fragments s ! unat note in
    if pe_data p \<noteq> [] \<and> pe_connection_id p \<noteq> tf_connection_id f then pending_default else p)"
  have eq: "mail_process note payload s db =
     (if \<not> unat note < length (mv_fragments s) then (None, s, db)
      else if tf_error f \<noteq> 0 then (None, set_pending note pending_default s, db)
      else if length (pe_data q) + length (tf_data f) > MAX_REQUEST
      then (None, set_pending note pending_default s, db)
      else if tf_flags f AND MORE \<noteq> 0
      then (None, set_pending note (q\<lparr>pe_connection_id := tf_connection_id f, pe_data := pe_data q @ tf_data f\<rparr>) s, db)
      else mail_finish note (tf_connection_id f) (pe_data q @ tf_data f) s db)" for db
    using Some unfolding mail_process_def mail_finish_def Let_def q_def by (simp cong: option.case_cong prod.case_cong)
  show ?thesis
    by (cases "unat note < length (mv_fragments s)"; cases "tf_error f = 0";
        cases "length (pe_data q) + length (tf_data f) > MAX_REQUEST"; cases "tf_flags f AND MORE = 0")
       (simp_all add: eq, blast+)
qed

lemma mail_process_view:
  assumes "steady db1" "steady db2" "mailbox_view db1 (mv_owner_id s) = mailbox_view db2 (mv_owner_id s)"
  shows "fst (mail_process note payload s db1) = fst (mail_process note payload s db2)"
proof -
  have "fst (channel_answer note data (set_pending note p s) db1) = fst (channel_answer note data (set_pending note p s) db2)"
    for data p
    by (rule channel_answer_view) (use assms in \<open>simp_all add: set_pending_def\<close>)
  moreover have "fst (mail_finish note cid data s db) =
      map_option (map (\<lambda>r. \<lparr>mr_note = note, mr_payload = transport (cn_flags r) cid (cn_data r)\<rparr>))
        (fst (channel_answer note data (set_pending note pending_default s) db))" for cid data db
    by (simp add: mail_finish_def Let_def split: prod.split option.split)
  ultimately have "fst (mail_finish note cid data s db1) = fst (mail_finish note cid data s db2)" for cid data
    by simp
  then show ?thesis using mail_process_shape[of "note" payload s] by auto
qed

lemma mail_select_others:
  assumes "steady db" "mail_select r s db = (x, db')"
  shows "db_companies db' = db_companies db \<and> db_groups db' = db_groups db \<and> db_users db' = db_users db \<and>
    (\<forall>j. j \<noteq> mv_owner_id s \<longrightarrow> mailbox_rows db' j = mailbox_rows db j)"
proof (cases r)
  case SList
  then show ?thesis using assms by (auto simp: mail_read_def list_mail_view)
next
  case (SDetail i)
  then have "db' = db" using assms mailbox_find_spec[of db]
    by (auto simp: steady_def mail_read_def split: option.splits)
  then show ?thesis by simp
next
  case SReadNew
  have st: "db_wf db" "mail_ids_ok db" "db_faults db = []" using assms(1) by (auto simp: steady_def)
  show ?thesis
  proof (cases "unread db (mv_owner_id s)")
    case Nil
    then show ?thesis using assms(2) SReadNew by (simp add: read_new_step[OF st] del: mail_select.simps)
  next
    case (Cons m ms)
    then have "db' = mark_db (ms_id m) db"
      using assms(2) SReadNew by (simp add: read_new_step[OF st] del: mail_select.simps)
    then show ?thesis using unread_row[OF Cons] mark_db_other_rows[OF st(1), of m] by simp
  qed
qed

lemma mail_finish_db:
  assumes "mail_finish note cid data s db = (x, s', db')"
  shows "db' = db \<or> (\<exists>r y p. mail_select r (set_pending note p s) db = (y, db'))"
  using assms
  by (auto simp: mail_finish_def channel_answer_def Let_def split: if_splits option.splits prod.splits)

lemma mail_process_others:
  assumes "steady db" "mail_process note payload s db = (x, s', db')"
  shows "db_companies db' = db_companies db \<and> db_groups db' = db_groups db \<and> db_users db' = db_users db \<and>
    (\<forall>j. j \<noteq> mv_owner_id s \<longrightarrow> mailbox_view db' j = mailbox_view db j)"
proof -
  have "db_companies db' = db_companies db \<and> db_groups db' = db_groups db \<and> db_users db' = db_users db \<and>
    (\<forall>j. j \<noteq> mv_owner_id s \<longrightarrow> mailbox_rows db' j = mailbox_rows db j)"
    using mail_process_shape[of "note" payload s]
  proof (elim disjE exE)
    fix cid data assume "\<forall>db. mail_process note payload s db = mail_finish note cid data s db"
    with assms(2) have "mail_finish note cid data s db = (x, s', db')" by simp
    from mail_finish_db[OF this] show ?thesis
      using mail_select_others[OF assms(1)] by (fastforce simp: set_pending_def)
  qed (use assms(2) in simp)
  then show ?thesis using message_view_tables[of db' db] by (simp add: mailbox_view_def cong: map_cong)
qed

section \<open>Samples\<close>

text \<open>Two accounts in one group and an outgoing message, for the witnesses.\<close>

definition two_accounts :: database where
  "two_accounts = initial_database\<lparr>
     db_users := db_users initial_database @
       [\<lparr>us_id = 2, us_group_id = 1, us_name = bstr ''Bob'', us_password = bstr ''B'', us_authority = 0,
         us_quota = 0, us_used = 0\<rparr>]\<rparr>"

definition hello_bob :: bytes where
  "hello_bob = tagged_record TAG_RECIPIENT (bstr ''BOB'') @ tagged_record TAG_SUBJECT (bstr ''Hi'')
     @ tagged_record TAG_BODY (bstr ''Yo'') @ empty_mail_result"

lemma hello_bob_items:
  "tlv_items (tlv_marker_u16 hello_bob RECORD_MARKER) =
      [Inr \<lparr>entry_tag = TAG_RECIPIENT, entry_value = bstr ''BOB''\<rparr>, Inr \<lparr>entry_tag = TAG_SUBJECT, entry_value = bstr ''Hi''\<rparr>,
       Inr \<lparr>entry_tag = TAG_BODY, entry_value = bstr ''Yo''\<rparr>, Inr \<lparr>entry_tag = TAG_TERMINATOR, entry_value = []\<rparr>]"
  using marker_u16_items[of "[]" RECORD_MARKER TAG_TERMINATOR "[]"]
  by (simp add: hello_bob_def tlv_marker_u16_def tagged_record_def empty_mail_result_def app_frame_record marker_u16_items)

lemma hello_bob_parse:
  "outgoing_parse hello_bob = Some \<lparr>og_recipient = bstr ''BOB'', og_subject = bstr ''Hi'', og_body = bstr ''Yo''\<rparr>"
proof -
  have tags: "TAG_RECIPIENT \<noteq> TAG_SUBJECT" "TAG_RECIPIENT \<noteq> TAG_BODY" "TAG_SUBJECT \<noteq> TAG_BODY" "TAG_BODY \<noteq> TAG_RECIPIENT"
    by (simp_all add: TAG_RECIPIENT_def TAG_SUBJECT_def TAG_BODY_def)
  have plain: "mail_text (bstr x) = Some (bstr x)" if "is_ascii (bstr x)" for x
    using that ascii_utf8 by (simp add: mail_text_def from_utf8_def)
  have "is_ascii (bstr ''BOB'')" "is_ascii (bstr ''Hi'')" "is_ascii (bstr ''Yo'')"
    by (simp_all add: is_ascii_def bstr_def)
  with tags plain show ?thesis
    by (simp add: outgoing_parse_def tlv_find_tag_def outgoing_body_def tlv_well_formed_prefix_def hello_bob_items
        List.map_filter_simps(1))
qed

lemma two_accounts_wf: "db_wf two_accounts"
  by (simp add: two_accounts_def initial_database_def wf_defs bstr_def nocase_def to_ascii_lowercase_def)

abbreviation sysuser_mail :: mail_server where
  "sysuser_mail \<equiv> mail_server_new 1 (bstr ''Sysuser'')"

lemma hello_bob_recipient: "find_recipient 1 (bstr ''BOB'') two_accounts = (Inr (Some 2), two_accounts)"
  by (simp add: find_recipient_def two_accounts_def initial_database_def first_row_def nocase_def bstr_def
      to_ascii_lowercase_def)

lemma hello_bob_accepted: "\<exists>db'. accept_outgoing hello_bob sysuser_mail two_accounts = (True, db')"
proof -
  let ?o = "\<lparr>og_recipient = bstr ''BOB'', og_subject = bstr ''Hi'', og_body = bstr ''Yo''\<rparr> :: outgoing"
  have "fits_vipc_payload ?o (bstr ''Sysuser'')" by (simp add: fits_vipc_payload_iff detail_length_def)
  moreover have "\<exists>v db'. mailbox_insert (as_new_message ?o 1 2) two_accounts = (Inr v, db')"
    by (simp add: mailbox_insert_eq Let_def two_accounts_def initial_database_def as_new_message_def next_mail_id_def)
  ultimately show ?thesis using hello_bob_parse hello_bob_recipient
    by (auto simp: accept_outgoing_def mail_server_new_def)
qed

text \<open>Bob's mailbox with two unread messages.\<close>

definition bobs_mail :: database where
  "bobs_mail = two_accounts\<lparr>db_messages :=
     [\<lparr>ms_id = 1, ms_sender_id = 1, ms_recipient_id = 2, ms_mail_id = 1, ms_subject = bstr ''A'', ms_body = [],
       ms_attachment_path = None, ms_is_read = False\<rparr>,
      \<lparr>ms_id = 2, ms_sender_id = 1, ms_recipient_id = 2, ms_mail_id = 2, ms_subject = bstr ''B'', ms_body = [],
       ms_attachment_path = None, ms_is_read = False\<rparr>]\<rparr>"

lemma bobs_mail_steady: "steady bobs_mail"
  using two_accounts_wf
  by (simp add: steady_def bobs_mail_def wf_defs mail_ids_ok_def two_accounts_def initial_database_def)

section \<open>Properties\<close>

text \<open>C29: a request sent in fragments is answered exactly like the same request sent whole: as long as
  the data is at most 64 KiB, the fragments before the last are answered with nothing, and the last
  with the responses, the server state and the database the single fragment gives.\<close>

theorem mail_fragments_reassemble:
  assumes "unat note < length (mv_fragments s)" "mv_fragments s ! unat note = pending_default"
    "length (concat ds @ d) \<le> MAX_REQUEST"
  shows "mail_feed note (map (transport MORE cid) ds @ [transport 0 cid d]) s db =
    mail_feed note [transport 0 cid (concat ds @ d)] s db"
proof -
  have "collecting note cid [] s" using assms(1,2) by (simp add: collecting_def pending_default_def)
  then show ?thesis
    using mail_feed_finish[of "note" cid "[]" s ds d db] mail_feed_finish[of "note" cid "[]" s "[]" "concat ds @ d" db] assms(3)
    by simp
qed

theorem mail_fragments_reassemble_witness:
  "mail_feed 4 (map (transport MORE 5) [[0x10, 0x20], [], [0x30]] @ [transport 0 5 [0x40]]) (mail_server_new 1 [0x41]) initial_database =
    mail_feed 4 [transport 0 5 (concat [[0x10, 0x20], [], [0x30]] @ [0x40])] (mail_server_new 1 [0x41]) initial_database"
  by (rule mail_fragments_reassemble) (simp_all add: mail_server_new_def CHANNEL_COUNT_def CHANNEL_DRAIN_def MAX_REQUEST_def)

text \<open>No stored message is too large to be read back: as long as every stored message fits one VIPC
  payload, every response to any request can be written as one VIPC message, and a message accepted
  from a session signed on under the account's name leaves only messages that fit.\<close>

lemma mail_responses_fit:
  assumes "db_wf db" "mail_fits db" "owns_account s db"
    "mail_process note payload s db = (Some rs, s', db')" "accept_outgoing data s db = (accepted, db'')"
  shows "list_all (\<lambda>r. length (mr_payload r) \<le> 65535) rs \<and> db_wf db'' \<and> mail_fits db''"
  using mail_process_fits[OF assms(4,2)] accept_outgoing_keeps[OF assms(5,1,3,2)] by simp

lemma mail_responses_fit_witness:
  "list_all (\<lambda>r. length (mr_payload r) \<le> 65535) [\<lparr>mr_note = 4, mr_payload = transport 0 5 empty_mail_result\<rparr>] \<and>
   db_wf initial_database \<and> mail_fits initial_database"
proof -
  let ?s = "mail_server_new 1 (bstr ''Sysuser'')"
  have p: "mail_process 4 (transport 0 5 []) ?s initial_database =
      (Some [\<lparr>mr_note = 4, mr_payload = transport 0 5 empty_mail_result\<rparr>], ?s, initial_database)"
    by (simp add: mail_process_def mail_server_new_def CHANNEL_COUNT_def CHANNEL_DRAIN_def channel_answer_def
        set_pending_def pending_default_def CHANNEL_SESSION_def CHANNEL_CLOSE_def MAX_REQUEST_def MORE_def final_message_def
        Let_def list_update_same_conv nth_replicate)
  have a: "accept_outgoing [] ?s initial_database = (False, initial_database)"
    by (simp add: accept_outgoing_def outgoing_parse_def tlv_find_tag_def tlv_marker_u16_def)
  have "mail_fits initial_database" "owns_account ?s initial_database"
    by (simp_all add: mail_fits_def joined_messages_def initial_database_def owns_account_def mail_server_new_def)
  from mail_responses_fit[OF db_wf_initial this p a] show ?thesis .
qed

text \<open>C28: delivery: when a message is accepted, it is the last and unread message of the mailbox of the
  account with that name in the sender's own group, from the sender, with the subject and body sent;
  every other mailbox is as before.\<close>

theorem mail_delivery:
  assumes "accept_outgoing data s db = (True, db')" "db_wf db"
  shows "\<exists>o' u r row. outgoing_stored data s db o' u r \<and>
    ms_sender_id row = us_id u \<and> ms_recipient_id row = us_id r \<and> \<not> ms_is_read row \<and>
    ms_subject row = og_subject o' \<and> ms_body row = og_body o' \<and>
    mailbox_rows db' (us_id r) = mailbox_rows db (us_id r) @ [row] \<and>
    (\<forall>j. j \<noteq> us_id r \<longrightarrow> mailbox_rows db' j = mailbox_rows db j)"
  using assms
proof (cases rule: accept_outgoing_cases)
  case (stored fs o' u r)
  have "mailbox_rows db' j = (if j = us_id r then mailbox_rows db j @ [stored_row o' u r db] else mailbox_rows db j)" for j
    using stored(2) mailbox_rows_append[of "stored_row o' u r db" db j] by (simp add: as_new_message_def)
  with stored(1) show ?thesis
    by (intro exI[of _ o'] exI[of _ u] exI[of _ r] exI[of _ "stored_row o' u r db"]) (simp add: as_new_message_def)
qed simp

theorem mail_delivery_witness:
  "\<exists>o' u r row. outgoing_stored hello_bob sysuser_mail two_accounts o' u r \<and>
    ms_sender_id row = us_id u \<and> ms_recipient_id row = us_id r \<and> \<not> ms_is_read row \<and>
    ms_subject row = og_subject o' \<and> ms_body row = og_body o' \<and>
    mailbox_rows (snd (accept_outgoing hello_bob sysuser_mail two_accounts)) (us_id r) =
      mailbox_rows two_accounts (us_id r) @ [row]"
proof -
  obtain db' where a: "accept_outgoing hello_bob sysuser_mail two_accounts = (True, db')" using hello_bob_accepted by blast
  from mail_delivery[OF a two_accounts_wf] a show ?thesis by auto
qed

text \<open>C30: reading new mail delivers every unread message of the mailbox exactly once, oldest first,
  and then reports an empty mailbox, on a database whose statements succeed.\<close>

theorem mail_read_new_once:
  assumes "db_wf db" "mail_ids_ok db" "db_faults db = []"
  shows "fst (read_new_times n s db) =
    map (\<lambda>m. Some (detail_or_empty (Some (message_view db m)))) (take n (unread db (mv_owner_id s)))
    @ replicate (n - length (unread db (mv_owner_id s))) (Some (detail_or_empty None))"
  using assms by (rule read_new_times_spec)

theorem mail_read_new_once_witness:
  "length (unread bobs_mail 2) = 2 \<and>
   fst (read_new_times 3 (mail_server_new 2 (bstr ''Bob'')) bobs_mail) =
    map (\<lambda>m. Some (detail_or_empty (Some (message_view bobs_mail m)))) (unread bobs_mail 2)
    @ [Some (detail_or_empty None)]"
proof -
  have u: "length (unread bobs_mail 2) = 2" by (simp add: unread_def mailbox_rows_def bobs_mail_def)
  have "steady bobs_mail" by (rule bobs_mail_steady)
  then show ?thesis using mail_read_new_once[of bobs_mail 3 "mail_server_new 2 (bstr ''Bob'')"] u
    by (simp add: steady_def mail_server_new_def)
qed

text \<open>C27: a session sees and touches its own mailbox only: its answers are the same on any two
  databases that agree on it, and a request leaves the accounts and every other mailbox as they were.\<close>

theorem mailbox_private:
  assumes "steady db1" "steady db2" "mailbox_view db1 (mv_owner_id s) = mailbox_view db2 (mv_owner_id s)"
    "mail_process note payload s db1 = (x, s', db')"
  shows "fst (mail_process note payload s db2) = x \<and>
    db_companies db' = db_companies db1 \<and> db_groups db' = db_groups db1 \<and> db_users db' = db_users db1 \<and>
    (\<forall>j. j \<noteq> mv_owner_id s \<longrightarrow> mailbox_view db' j = mailbox_view db1 j)"
  using mail_process_view[OF assms(1-3), of "note" payload] mail_process_others[OF assms(1,4)] assms(4) by simp

theorem mailbox_private_witness:
  "fst (mail_process 4 (transport 0 5 []) sysuser_mail bobs_mail) =
   fst (mail_process 4 (transport 0 5 []) sysuser_mail two_accounts) \<and>
   mailbox_view (snd (snd (mail_process 4 (transport 0 5 []) sysuser_mail two_accounts))) 2 = mailbox_view two_accounts 2"
proof -
  have "steady two_accounts" using two_accounts_wf by (simp add: steady_def mail_ids_ok_def two_accounts_def initial_database_def)
  moreover have "mailbox_view two_accounts (mv_owner_id sysuser_mail) = mailbox_view bobs_mail (mv_owner_id sysuser_mail)"
    by (simp add: mailbox_view_def mailbox_rows_def bobs_mail_def two_accounts_def initial_database_def mail_server_new_def)
  moreover obtain x s' db' where p: "mail_process 4 (transport 0 5 []) sysuser_mail two_accounts = (x, s', db')"
    by (cases "mail_process 4 (transport 0 5 []) sysuser_mail two_accounts")
  ultimately show ?thesis using mailbox_private[of two_accounts bobs_mail sysuser_mail 4 "transport 0 5 []" x s' db'] bobs_mail_steady
    by (simp add: mail_server_new_def)
qed

end
