(* ===== verification/Sentry.thy ===== *)
theory Sentry
  imports Tlv_Records Db_Users
begin

text \<open>
  \<^verbatim>\<open>Server/src/vipc/sentry.rs\<close>: the account administration a signed-on session offers. The server's
  own state is the account it signed on as, carried whole from sign-on; the database is shared and
  passed explicitly. The log messages are left out; a debug line never decides anything.
\<close>

section \<open>Constants\<close>

definition COMMAND_ACK :: byte where "COMMAND_ACK = 0x01"
definition COMMAND_STATUS :: byte where "COMMAND_STATUS = 0x02"
definition COMMAND_REPLY :: byte where "COMMAND_REPLY = 0x03"
definition COMMAND_VARIANT_QUERY :: byte where "COMMAND_VARIANT_QUERY = 0x04"
definition COMMAND_CHANGE_PASSWORD :: byte where "COMMAND_CHANGE_PASSWORD = 0x05"
definition COMMAND_ADD_USER :: byte where "COMMAND_ADD_USER = 0x06"
definition COMMAND_QUERY :: byte where "COMMAND_QUERY = 0x0E"
definition COMMAND_DELETE :: byte where "COMMAND_DELETE = 0x12"
definition COMMAND_UPDATE :: byte where "COMMAND_UPDATE = 0x16"
definition COMMAND_ADD_GROUP :: byte where "COMMAND_ADD_GROUP = 0x09"
definition COMMAND_ADD_COMPANY :: byte where "COMMAND_ADD_COMPANY = 0x0A"
definition COMMAND_LIST_FIRST :: byte where "COMMAND_LIST_FIRST = 0x1E"
definition COMMAND_LIST_NEXT :: byte where "COMMAND_LIST_NEXT = 0x1F"

lemmas command_codes = COMMAND_ACK_def COMMAND_STATUS_def COMMAND_REPLY_def COMMAND_VARIANT_QUERY_def
  COMMAND_CHANGE_PASSWORD_def COMMAND_ADD_USER_def COMMAND_QUERY_def COMMAND_DELETE_def COMMAND_UPDATE_def
  COMMAND_ADD_GROUP_def COMMAND_ADD_COMPANY_def COMMAND_LIST_FIRST_def COMMAND_LIST_NEXT_def

definition TAG_AUTHORITY :: byte where "TAG_AUTHORITY = 0x1A"
definition TAG_VARIANT :: byte where "TAG_VARIANT = 0x25"
definition TAG_QUOTA :: byte where "TAG_QUOTA = 0x26"
definition TAG_CURSOR :: byte where "TAG_CURSOR = 0x27"
definition TAG_DEVICE :: byte where "TAG_DEVICE = 0x28"
definition TAG_DISK_USED :: byte where "TAG_DISK_USED = 0x29"
definition TAG_CREATED :: byte where "TAG_CREATED = 0x2A"
definition TAG_MODIFIED :: byte where "TAG_MODIFIED = 0x2B"
definition TAG_LOCKED :: byte where "TAG_LOCKED = 0x2C"
definition TAG_QUERY_LEVEL :: byte where "TAG_QUERY_LEVEL = 0x34"

definition QUERY_COMPANY :: byte where "QUERY_COMPANY = 1"
definition QUERY_GROUP :: byte where "QUERY_GROUP = 2"
definition QUERY_USER :: byte where "QUERY_USER = 3"

definition PROPERTY_COMPANY :: byte where "PROPERTY_COMPANY = 0x07"
definition PROPERTY_GROUP :: byte where "PROPERTY_GROUP = 0x08"
definition PROPERTY_USER :: byte where "PROPERTY_USER = 0x09"
definition PROPERTY_PASSWORD :: byte where "PROPERTY_PASSWORD = 0x0A"

definition STATUS_OK :: u16 where "STATUS_OK = 0"
definition STATUS_PROPERTY_MISSING :: u16 where "STATUS_PROPERTY_MISSING = 1001"
definition STATUS_AUTHORIZATION_FILE :: u16 where "STATUS_AUTHORIZATION_FILE = 1004"
definition STATUS_END_OF_LISTING :: u16 where "STATUS_END_OF_LISTING = 1005"
definition STATUS_INVALID_AUTHORITY :: u16 where "STATUS_INVALID_AUTHORITY = 1006"
definition STATUS_COMPANY_NOT_DEFINED :: u16 where "STATUS_COMPANY_NOT_DEFINED = 1015"
definition STATUS_ACCOUNT_NOT_DEFINED :: u16 where "STATUS_ACCOUNT_NOT_DEFINED = 1016"
definition STATUS_ALREADY_DEFINED :: u16 where "STATUS_ALREADY_DEFINED = 1017"
definition STATUS_INSUFFICIENT_AUTHORITY :: u16 where "STATUS_INSUFFICIENT_AUTHORITY = 1030"
definition STATUS_INVALID_NAME :: u16 where "STATUS_INVALID_NAME = 1034"

definition VARIANT :: byte where "VARIANT = 0x33"
definition VARIANT_UNSUPPORTED :: byte where "VARIANT_UNSUPPORTED = 0x31"
definition FILTER_SKIP :: byte where "FILTER_SKIP = 0xFF"
definition DEVICE :: bytes where "DEVICE = bstr ''Hard Disk''"
definition CREATED :: bytes where "CREATED = bstr ''82/03/28 09:00:00''"
definition MODIFIED :: bytes where "MODIFIED = bstr ''86/03/01 09:15:00''"
definition UNLOCKED :: bytes where "UNLOCKED = [0, 0]"

section \<open>Authority\<close>

type_synonym authority = u16

definition NORMAL :: authority where "NORMAL = 0"
definition GROUP_ADMIN :: authority where "GROUP_ADMIN = 20"
definition COMPANY_ADMIN :: authority where "COMPANY_ADMIN = 30"
definition SYSTEM_ADMIN :: authority where "SYSTEM_ADMIN = 40"
definition LEVELS :: "authority list" where "LEVELS = [NORMAL, GROUP_ADMIN, COMPANY_ADMIN, SYSTEM_ADMIN]"

lemmas authority_levels = NORMAL_def GROUP_ADMIN_def COMPANY_ADMIN_def SYSTEM_ADMIN_def LEVELS_def

definition authority_is_defined :: "authority \<Rightarrow> bool" where
  "authority_is_defined a \<longleftrightarrow> a \<in> set LEVELS"

text \<open>Requests carry the authority big endian, listing rows little endian.\<close>

definition authority_read :: "bytes \<Rightarrow> authority option" where
  "authority_read v = (case v of [hi, lo] \<Rightarrow> Some (u16_of_le lo hi) | _ \<Rightarrow> None)"

definition authority_write :: "authority \<Rightarrow> bytes" where
  "authority_write a = u16_to_le a"

section \<open>Rows\<close>

record row =
  rw_company :: bytes
  rw_group :: bytes
  rw_user :: bytes
  rw_authority :: authority
  rw_quota :: u32
  rw_used :: u32

datatype level = LCompany | LGroup | LUser

fun level_required :: "level \<Rightarrow> authority" where
  "level_required LCompany = SYSTEM_ADMIN"
| "level_required LGroup = COMPANY_ADMIN"
| "level_required LUser = GROUP_ADMIN"

definition row_from_account :: "account \<Rightarrow> row" where
  "row_from_account a =
     (let company = ac_company a;
          grp = (if ac_level a = LEVEL_COMPANY then company else ac_group a);
          user = (if ac_level a = LEVEL_USER then ac_user a else grp)
      in \<lparr>rw_company = company, rw_group = grp, rw_user = user, rw_authority = ac_authority a,
          rw_quota = ac_quota a, rw_used = ac_used a\<rparr>)"

definition row_names :: "row \<Rightarrow> bytes list" where
  "row_names r = [rw_company r, rw_group r, rw_user r]"

definition row_matches :: "row \<Rightarrow> bytes list \<Rightarrow> bool" where
  "row_matches r pre = list_all (\<lambda>(name, wanted). eq_ignore_ascii_case name wanted) (zip (row_names r) pre)"

definition row_level :: "row \<Rightarrow> level" where
  "row_level r =
     (if rw_company r = rw_group r \<and> rw_group r = rw_user r then LCompany
      else if rw_group r = rw_user r then LGroup else LUser)"

type_synonym directory = "row list"

definition directory_load :: "database \<Rightarrow> directory sql_result" where
  "directory_load db = (case load db of (Inl e, db) \<Rightarrow> (Inl e, db) | (Inr as, db) \<Rightarrow> (Inr (map row_from_account as), db))"

definition rposition :: "('a \<Rightarrow> bool) \<Rightarrow> 'a list \<Rightarrow> nat option" where
  "rposition P xs =
     (case filter (\<lambda>i. P (xs ! i)) [0..<length xs] of [] \<Rightarrow> None | is \<Rightarrow> Some (last is))"

definition directory_find :: "directory \<Rightarrow> bytes list \<Rightarrow> nat option" where
  "directory_find d pre = rposition (\<lambda>r. row_matches r pre) d"

definition directory_get :: "directory \<Rightarrow> nat \<Rightarrow> row option" where
  "directory_get d i = (if i < length d then Some (d ! i) else None)"

section \<open>Records and fields\<close>

definition sentry_records :: "bytes \<Rightarrow> tlv_entry list option" where
  "sentry_records data = ok (tlv_collect_all (tlv_tag_u8 data))"

definition record_value :: "tlv_entry list \<Rightarrow> byte \<Rightarrow> bytes option" where
  "record_value recs wanted = map_option entry_value (find (\<lambda>e. entry_tag e = wanted) recs)"

definition write_tagged :: "bytes \<Rightarrow> byte \<Rightarrow> bytes \<Rightarrow> frame_error + bytes" where
  "write_tagged dst tag v = write_u8_slice v (write_u8 tag dst)"

definition ascii_name :: "bytes \<Rightarrow> u16 + bytes" where
  "ascii_name field =
     (if field = [] then Inl STATUS_PROPERTY_MISSING
      else case from_utf8 field of
             None \<Rightarrow> Inl STATUS_INVALID_NAME
           | Some name \<Rightarrow> if is_ascii name then Inr name else Inl STATUS_INVALID_NAME)"

definition ascii_names :: "bytes list \<Rightarrow> u16 + bytes list" where
  "ascii_names vs = collect_results (map ascii_name vs)"

definition stored_names :: "bytes list \<Rightarrow> bytes list option" where
  "stored_names names = those (map from_utf8 names)"

definition status_response :: "u16 \<Rightarrow> bytes" where
  "status_response status = [COMMAND_STATUS] @ u16_to_le status"

definition variant_response :: "authority \<Rightarrow> frame_error + bytes" where
  "variant_response actor =
     write_tagged [COMMAND_REPLY] TAG_VARIANT [if actor > NORMAL then VARIANT else VARIANT_UNSUPPORTED]"

definition names_depth :: "bytes list \<Rightarrow> nat" where
  "names_depth names =
     (if eq_ignore_ascii_case (names ! 0) (names ! 1) then 1
      else if eq_ignore_ascii_case (names ! 1) (names ! 2) then 2 else 3)"

definition cursor_field :: "tlv_entry list \<Rightarrow> nat option" where
  "cursor_field recs =
     Option.bind (Option.bind (record_value recs TAG_CURSOR) from_utf8) parse_usize"

datatype name_filter = FilterStart | FilterSkip | FilterName bytes

definition name_filter_of :: "tlv_entry list \<Rightarrow> byte \<Rightarrow> name_filter" where
  "name_filter_of recs tag =
     (case record_value recs tag of
        None \<Rightarrow> FilterStart
      | Some v \<Rightarrow>
          if list_all (\<lambda>b. b = FILTER_SKIP) v \<and> v \<noteq> [] then FilterSkip
          else
            let name = (case rposition (\<lambda>b. b \<noteq> 0) v of None \<Rightarrow> [] | Some e \<Rightarrow> take (e + 1) v) in
            if name = [] then FilterStart else FilterName name)"

definition quota_field :: "tlv_entry list \<Rightarrow> u32 option" where
  "quota_field recs =
     (case record_value recs TAG_QUOTA of Some [a, b, c, d] \<Rightarrow> Some (u32_of_le a b c d) | _ \<Rightarrow> None)"

definition quota_or_zero :: "tlv_entry list \<Rightarrow> u32" where
  "quota_or_zero recs = unwrap_or 0 (quota_field recs)"

definition resume :: "tlv_entry list \<Rightarrow> nat option" where
  "resume recs =
     (case cursor_field recs of
        None \<Rightarrow> None
      | Some index \<Rightarrow> if index + 1 < 2 ^ 64 then Some (index + 1) else None)"

definition seek :: "directory \<Rightarrow> tlv_entry list \<Rightarrow> nat option" where
  "seek d recs =
     (case (name_filter_of recs PROPERTY_COMPANY, name_filter_of recs PROPERTY_GROUP, name_filter_of recs PROPERTY_USER) of
        (FilterStart, _, _) \<Rightarrow> Some 0
      | (FilterSkip, _, _) \<Rightarrow> None
      | (FilterName company, FilterName grp, FilterName user) \<Rightarrow>
          map_option (\<lambda>i. i + 1) (directory_find d [company, grp, user])
      | (FilterName company, FilterName grp, _) \<Rightarrow> map_option (\<lambda>i. i + 1) (directory_find d [company, grp])
      | (FilterName company, _, _) \<Rightarrow> map_option (\<lambda>i. i + 1) (directory_find d [company]))"

definition row_response :: "directory \<Rightarrow> nat \<Rightarrow> frame_error + bytes" where
  "row_response d index =
     (case directory_get d index of
        None \<Rightarrow> Inr (status_response STATUS_END_OF_LISTING)
      | Some r \<Rightarrow>
          and_then (write_tagged [COMMAND_REPLY] TAG_CURSOR (digits index)) (\<lambda>p.
          and_then (write_tagged p PROPERTY_COMPANY (rw_company r)) (\<lambda>p.
          and_then (write_tagged p PROPERTY_GROUP (rw_group r)) (\<lambda>p.
          and_then (write_tagged p PROPERTY_USER (rw_user r)) (\<lambda>p.
          and_then (write_tagged p TAG_AUTHORITY (authority_write (rw_authority r))) (\<lambda>p.
          and_then (write_tagged p TAG_DEVICE DEVICE) (\<lambda>p.
          and_then (write_tagged p TAG_QUOTA (u32_to_le (rw_quota r))) (\<lambda>p.
          and_then (write_tagged p TAG_DISK_USED (u32_to_le (rw_used r))) (\<lambda>p.
          and_then (write_tagged p TAG_CREATED CREATED) (\<lambda>p.
          and_then (write_tagged p TAG_MODIFIED MODIFIED) (\<lambda>p.
          write_tagged p TAG_LOCKED UNLOCKED)))))))))))"

definition listing_response :: "directory \<Rightarrow> nat option \<Rightarrow> frame_error + bytes" where
  "listing_response d index =
     (case index of
        None \<Rightarrow> Inr (status_response STATUS_END_OF_LISTING)
      | Some i \<Rightarrow>
          (case directory_get d i of
             None \<Rightarrow> Inr (status_response STATUS_END_OF_LISTING)
           | Some r \<Rightarrow> row_response d i))"

section \<open>Guards\<close>

definition actor_names :: "account \<Rightarrow> bytes list" where
  "actor_names actor = [ac_company actor, ac_group actor, ac_user actor]"

definition outside :: "account \<Rightarrow> bytes list \<Rightarrow> bool" where
  "outside actor names =
     (let scope = (if ac_authority actor = SYSTEM_ADMIN then Some 0
                   else if ac_authority actor = COMPANY_ADMIN then Some 1
                   else if ac_authority actor = GROUP_ADMIN then Some 2 else None);
          depth = (case scope of None \<Rightarrow> 3 | Some n \<Rightarrow> min (names_depth names) n)
      in \<not> list_all (\<lambda>(name, own). eq_ignore_ascii_case name own) (take depth (zip names (actor_names actor))))"

definition deny_outside :: "account \<Rightarrow> bytes list \<Rightarrow> bytes option" where
  "deny_outside actor names =
     (if \<not> outside actor names then None else Some (status_response STATUS_INSUFFICIENT_AUTHORITY))"

definition deny_below :: "account \<Rightarrow> authority \<Rightarrow> bytes option" where
  "deny_below actor required =
     (if ac_authority actor \<ge> required then None else Some (status_response STATUS_INSUFFICIENT_AUTHORITY))"

definition deny_write :: "account \<Rightarrow> row \<Rightarrow> bytes option" where
  "deny_write actor r =
     (if ac_authority actor < level_required (row_level r)
      then Some (status_response STATUS_INSUFFICIENT_AUTHORITY)
      else deny_outside actor (row_names r))"

definition name_or_own :: "tlv_entry list \<Rightarrow> byte \<Rightarrow> bytes \<Rightarrow> bytes" where
  "name_or_own recs tag own =
     (case record_value recs tag of None \<Rightarrow> own | Some name \<Rightarrow> if name = [] then own else name)"

section \<open>Commands\<close>

definition sentry_directory :: "database \<Rightarrow> (bytes + directory) \<times> database" where
  "sentry_directory db =
     (case directory_load db of
        (Inl e, db) \<Rightarrow> (Inl (status_response STATUS_AUTHORIZATION_FILE), db)
      | (Inr d, db) \<Rightarrow> (Inr d, db))"

definition sentry_write :: "(database \<Rightarrow> nat sql_result) \<Rightarrow> database \<Rightarrow> bytes \<times> database" where
  "sentry_write apply_stmt db =
     (case apply_stmt db of
        (Inl e, db) \<Rightarrow> (status_response STATUS_AUTHORIZATION_FILE, db)
      | (Inr n, db) \<Rightarrow> (if n = 0 then status_response STATUS_ACCOUNT_NOT_DEFINED else [COMMAND_ACK], db))"

definition is_constraint_violation :: "sql_error \<Rightarrow> bool" where
  "is_constraint_violation e \<longleftrightarrow> e = ConstraintViolation"

definition sentry_store :: "(database \<Rightarrow> unit sql_result) \<Rightarrow> database \<Rightarrow> bytes \<times> database" where
  "sentry_store insert_stmt db =
     (case insert_stmt db of
        (Inr _, db) \<Rightarrow> (status_response STATUS_OK, db)
      | (Inl e, db) \<Rightarrow>
          (status_response (if is_constraint_violation e then STATUS_ALREADY_DEFINED else STATUS_AUTHORIZATION_FILE), db))"

definition read_failed :: bytes where
  "read_failed = status_response STATUS_AUTHORIZATION_FILE"

definition sentry_query :: "account \<Rightarrow> tlv_entry list \<Rightarrow> database \<Rightarrow> (frame_error + bytes) \<times> database" where
  "sentry_query actor recs db =
     (let level = (case record_value recs TAG_QUERY_LEVEL of Some [l] \<Rightarrow> l | _ \<Rightarrow> QUERY_USER);
          company = name_or_own recs PROPERTY_COMPANY (ac_company actor);
          grp = name_or_own recs PROPERTY_GROUP (ac_group actor);
          user = name_or_own recs PROPERTY_USER (ac_user actor);
          names = (if level = QUERY_COMPANY then Some [company, company, company]
                   else if level = QUERY_GROUP then Some [company, grp, grp]
                   else if level = QUERY_USER then Some [company, grp, user] else None)
      in case names of
           None \<Rightarrow> (Inr (status_response STATUS_ACCOUNT_NOT_DEFINED), db)
         | Some names \<Rightarrow>
             (case sentry_directory db of
                (Inl response, db) \<Rightarrow> (Inr response, db)
              | (Inr d, db) \<Rightarrow>
                  (case directory_find d names of
                     None \<Rightarrow> (Inr (status_response (if level = QUERY_COMPANY then STATUS_COMPANY_NOT_DEFINED
                                                     else STATUS_ACCOUNT_NOT_DEFINED)), db)
                   | Some index \<Rightarrow>
                       (case deny_outside actor names of
                          Some denied \<Rightarrow> (Inr denied, db)
                        | None \<Rightarrow> (row_response d index, db)))))"

definition find_in_scope :: "account \<Rightarrow> directory \<Rightarrow> nat \<Rightarrow> nat option" where
  "find_in_scope actor d from_index =
     find (\<lambda>i. case directory_get d i of None \<Rightarrow> False | Some r \<Rightarrow> \<not> outside actor (row_names r))
       [from_index..<length d]"

definition sentry_list ::
  "account \<Rightarrow> tlv_entry list \<Rightarrow> (directory \<Rightarrow> tlv_entry list \<Rightarrow> nat option) \<Rightarrow> database \<Rightarrow>
   (frame_error + bytes) \<times> database" where
  "sentry_list actor recs start db =
     (case deny_below actor GROUP_ADMIN of
        Some denied \<Rightarrow> (Inr denied, db)
      | None \<Rightarrow>
          (case sentry_directory db of
             (Inl response, db) \<Rightarrow> (Inr response, db)
           | (Inr d, db) \<Rightarrow>
               (listing_response d (Option.bind (start d recs) (find_in_scope actor d)), db)))"

definition sentry_update :: "account \<Rightarrow> tlv_entry list \<Rightarrow> database \<Rightarrow> bytes \<times> database" where
  "sentry_update actor recs db =
     (case sentry_directory db of
        (Inl response, db) \<Rightarrow> (response, db)
      | (Inr d, db) \<Rightarrow>
          (case Option.bind (cursor_field recs) (directory_get d) of
             None \<Rightarrow> (status_response STATUS_ACCOUNT_NOT_DEFINED, db)
           | Some r \<Rightarrow>
               (let auth = unwrap_or (rw_authority r) (Option.bind (record_value recs TAG_AUTHORITY) authority_read);
                    quota = unwrap_or (rw_quota r) (quota_field recs)
                in case deny_write actor r of
                     Some denied \<Rightarrow> (denied, db)
                   | None \<Rightarrow>
                       if \<not> authority_is_defined auth then (status_response STATUS_INVALID_AUTHORITY, db)
                       else if auth > ac_authority actor then (status_response STATUS_INSUFFICIENT_AUTHORITY, db)
                       else
                         (case stored_names (row_names r) of
                            Some [company, grp, user] \<Rightarrow>
                              sentry_write (case row_level r of
                                  LCompany \<Rightarrow> update_company company quota
                                | LGroup \<Rightarrow> update_group company grp quota
                                | LUser \<Rightarrow> update_user company grp user auth quota) db
                          | _ \<Rightarrow> (status_response STATUS_AUTHORIZATION_FILE, db)))))"

definition sentry_delete :: "account \<Rightarrow> tlv_entry list \<Rightarrow> database \<Rightarrow> bytes \<times> database" where
  "sentry_delete actor recs db =
     (case sentry_directory db of
        (Inl response, db) \<Rightarrow> (response, db)
      | (Inr d, db) \<Rightarrow>
          (case Option.bind (cursor_field recs) (directory_get d) of
             None \<Rightarrow> (status_response STATUS_ACCOUNT_NOT_DEFINED, db)
           | Some r \<Rightarrow>
               (case deny_write actor r of
                  Some denied \<Rightarrow> (denied, db)
                | None \<Rightarrow>
                    if row_names r = actor_names actor then (status_response STATUS_INSUFFICIENT_AUTHORITY, db)
                    else
                      (case stored_names (row_names r) of
                         Some [company, grp, user] \<Rightarrow>
                           sentry_write (case row_level r of
                               LCompany \<Rightarrow> delete_company company
                             | LGroup \<Rightarrow> delete_group company grp
                             | LUser \<Rightarrow> delete_user company grp user) db
                       | _ \<Rightarrow> (status_response STATUS_AUTHORIZATION_FILE, db)))))"

definition sentry_change_password :: "account \<Rightarrow> tlv_entry list \<Rightarrow> database \<Rightarrow> bytes \<times> database" where
  "sentry_change_password actor recs db =
     (let company = name_or_own recs PROPERTY_COMPANY (ac_company actor);
          grp = name_or_own recs PROPERTY_GROUP (ac_group actor);
          user = name_or_own recs PROPERTY_USER (ac_user actor);
          password = unwrap_or [] (record_value recs PROPERTY_PASSWORD)
      in case ascii_names [company, grp, user, password] of
           Inl status \<Rightarrow> (status_response status, db)
         | Inr _ \<Rightarrow>
             (case (if [company, grp, user] \<noteq> actor_names actor
                    then (case deny_below actor GROUP_ADMIN of
                            Some denied \<Rightarrow> Some denied
                          | None \<Rightarrow> deny_outside actor [company, grp, user])
                    else None) of
                Some denied \<Rightarrow> (denied, db)
              | None \<Rightarrow>
                  (case set_password company grp user password db of
                     (Inr n, db) \<Rightarrow>
                       (if n = 0 then status_response STATUS_ACCOUNT_NOT_DEFINED else status_response STATUS_OK, db)
                   | (Inl e, db) \<Rightarrow> (status_response STATUS_AUTHORIZATION_FILE, db))))"

definition sentry_add_company :: "account \<Rightarrow> tlv_entry list \<Rightarrow> database \<Rightarrow> bytes \<times> database" where
  "sentry_add_company actor recs db =
     (let company = unwrap_or [] (record_value recs PROPERTY_COMPANY);
          quota = quota_or_zero recs
      in case deny_below actor SYSTEM_ADMIN of
           Some denied \<Rightarrow> (denied, db)
         | None \<Rightarrow>
             (case ascii_name company of
                Inl status \<Rightarrow> (status_response status, db)
              | Inr company \<Rightarrow> sentry_store (insert_company company quota) db))"

definition sentry_add_group :: "account \<Rightarrow> tlv_entry list \<Rightarrow> database \<Rightarrow> bytes \<times> database" where
  "sentry_add_group actor recs db =
     (let company = unwrap_or [] (record_value recs PROPERTY_COMPANY);
          grp = unwrap_or [] (record_value recs PROPERTY_GROUP);
          quota = quota_or_zero recs
      in case deny_below actor COMPANY_ADMIN of
           Some denied \<Rightarrow> (denied, db)
         | None \<Rightarrow>
             (case ascii_names [company, grp] of
                Inl status \<Rightarrow> (status_response status, db)
              | Inr _ \<Rightarrow>
                  (case find_company company db of
                     (Inl e, db) \<Rightarrow> (read_failed, db)
                   | (Inr None, db) \<Rightarrow> (status_response STATUS_COMPANY_NOT_DEFINED, db)
                   | (Inr (Some company_id), db) \<Rightarrow> sentry_store (insert_group company_id grp quota) db)))"

definition sentry_add_user :: "account \<Rightarrow> tlv_entry list \<Rightarrow> database \<Rightarrow> bytes \<times> database" where
  "sentry_add_user actor recs db =
     (let company = unwrap_or [] (record_value recs PROPERTY_COMPANY);
          grp = unwrap_or [] (record_value recs PROPERTY_GROUP);
          user = unwrap_or [] (record_value recs PROPERTY_USER);
          password = unwrap_or [] (record_value recs PROPERTY_PASSWORD);
          quota = quota_or_zero recs;
          auth = unwrap_or NORMAL (Option.bind (record_value recs TAG_AUTHORITY) authority_read)
      in case deny_below actor GROUP_ADMIN of
           Some denied \<Rightarrow> (denied, db)
         | None \<Rightarrow>
             if \<not> authority_is_defined auth then (status_response STATUS_INVALID_AUTHORITY, db)
             else if auth > ac_authority actor then (status_response STATUS_INSUFFICIENT_AUTHORITY, db)
             else
               (case ascii_names [company, grp, user, password] of
                  Inl status \<Rightarrow> (status_response status, db)
                | Inr _ \<Rightarrow>
                    (case find_group company grp db of
                       (Inl e, db) \<Rightarrow> (read_failed, db)
                     | (Inr None, db) \<Rightarrow> (status_response STATUS_ACCOUNT_NOT_DEFINED, db)
                     | (Inr (Some group_id), db) \<Rightarrow> sentry_store (insert_user group_id user password auth quota) db)))"

section \<open>Dispatch\<close>

definition sentry_try_process ::
  "account \<Rightarrow> bytes \<Rightarrow> database \<Rightarrow> (frame_error + bytes option) \<times> database" where
  "sentry_try_process actor payload db =
     (case payload of
        [] \<Rightarrow> (Inr None, db)
      | command # body \<Rightarrow>
          (case sentry_records body of
             None \<Rightarrow> (Inr None, db)
           | Some recs \<Rightarrow>
               (let reply = (\<lambda>(r, db). (and_then r (\<lambda>p. Inr (Some p)), db));
                    always = (\<lambda>(p, db). (Inr (Some p), db))
                in if command = COMMAND_VARIANT_QUERY then reply (variant_response (ac_authority actor), db)
                   else if command = COMMAND_ADD_USER then always (sentry_add_user actor recs db)
                   else if command = COMMAND_ADD_GROUP then always (sentry_add_group actor recs db)
                   else if command = COMMAND_ADD_COMPANY then always (sentry_add_company actor recs db)
                   else if command = COMMAND_LIST_FIRST then reply (sentry_list actor recs seek db)
                   else if command = COMMAND_LIST_NEXT then reply (sentry_list actor recs (\<lambda>_. resume) db)
                   else if command = COMMAND_QUERY then reply (sentry_query actor recs db)
                   else if command = COMMAND_UPDATE then always (sentry_update actor recs db)
                   else if command = COMMAND_DELETE then always (sentry_delete actor recs db)
                   else if command = COMMAND_CHANGE_PASSWORD then always (sentry_change_password actor recs db)
                   else (Inr None, db))))"

definition sentry_process :: "account \<Rightarrow> bytes \<Rightarrow> database \<Rightarrow> bytes option \<times> database" where
  "sentry_process actor payload db =
     (case sentry_try_process actor payload db of
        (Inl e, db) \<Rightarrow> (None, db)
      | (Inr response, db) \<Rightarrow> (response, db))"

section \<open>The policy\<close>

text \<open>
  What the commands of one account may do to the database: the contract the command handlers
  implement, each rule with the authority and the scope it requires. Any statement may fail at the
  database; the fault script a command has consumed before its statement is the \<open>fs\<close> of each rule.
\<close>

inductive sentry_edit :: "account \<Rightarrow> database \<Rightarrow> database \<Rightarrow> bool" for actor :: account and db :: database where
  unchanged: "sentry_edit actor db (db\<lparr>db_faults := fs\<rparr>)"
| change_company: "SYSTEM_ADMIN \<le> ac_authority actor \<Longrightarrow> \<not> outside actor [company, company, company] \<Longrightarrow>
    sentry_edit actor db (snd (update_company company quota (db\<lparr>db_faults := fs\<rparr>)))"
| change_group: "COMPANY_ADMIN \<le> ac_authority actor \<Longrightarrow> \<not> outside actor [company, grp, grp] \<Longrightarrow>
    sentry_edit actor db (snd (update_group company grp quota (db\<lparr>db_faults := fs\<rparr>)))"
| change_user: "GROUP_ADMIN \<le> ac_authority actor \<Longrightarrow> \<not> outside actor [company, grp, user] \<Longrightarrow>
    authority_is_defined auth \<Longrightarrow> auth \<le> ac_authority actor \<Longrightarrow>
    sentry_edit actor db (snd (update_user company grp user auth quota (db\<lparr>db_faults := fs\<rparr>)))"
| remove_company: "SYSTEM_ADMIN \<le> ac_authority actor \<Longrightarrow> \<not> outside actor [company, company, company] \<Longrightarrow>
    sentry_edit actor db (snd (delete_company company (db\<lparr>db_faults := fs\<rparr>)))"
| remove_group: "COMPANY_ADMIN \<le> ac_authority actor \<Longrightarrow> \<not> outside actor [company, grp, grp] \<Longrightarrow>
    sentry_edit actor db (snd (delete_group company grp (db\<lparr>db_faults := fs\<rparr>)))"
| remove_user: "GROUP_ADMIN \<le> ac_authority actor \<Longrightarrow> \<not> outside actor [company, grp, user] \<Longrightarrow>
    [company, grp, user] \<noteq> actor_names actor \<Longrightarrow>
    sentry_edit actor db (snd (delete_user company grp user (db\<lparr>db_faults := fs\<rparr>)))"
| own_password: "[company, grp, user] = actor_names actor \<Longrightarrow>
    sentry_edit actor db (snd (set_password company grp user password (db\<lparr>db_faults := fs\<rparr>)))"
| other_password: "GROUP_ADMIN \<le> ac_authority actor \<Longrightarrow> \<not> outside actor [company, grp, user] \<Longrightarrow>
    sentry_edit actor db (snd (set_password company grp user password (db\<lparr>db_faults := fs\<rparr>)))"

text \<open>Adding checks the authority, and that a new user gets at most the actor's own.\<close>

inductive sentry_add :: "account \<Rightarrow> database \<Rightarrow> database \<Rightarrow> bool" for actor :: account and db :: database where
  refused: "sentry_add actor db (db\<lparr>db_faults := fs\<rparr>)"
| add_company: "SYSTEM_ADMIN \<le> ac_authority actor \<Longrightarrow> company \<noteq> [] \<Longrightarrow> is_ascii company \<Longrightarrow>
    sentry_add actor db (snd (insert_company company quota (db\<lparr>db_faults := fs\<rparr>)))"
| add_group: "COMPANY_ADMIN \<le> ac_authority actor \<Longrightarrow> grp \<noteq> [] \<Longrightarrow> is_ascii grp \<Longrightarrow>
    sentry_add actor db (snd (insert_group company_id grp quota (db\<lparr>db_faults := fs\<rparr>)))"
| add_user: "GROUP_ADMIN \<le> ac_authority actor \<Longrightarrow> user \<noteq> [] \<Longrightarrow> is_ascii user \<Longrightarrow>
    authority_is_defined auth \<Longrightarrow> auth \<le> ac_authority actor \<Longrightarrow>
    sentry_add actor db (snd (insert_user group_id user password auth quota (db\<lparr>db_faults := fs\<rparr>)))"

definition is_add_command :: "bytes \<Rightarrow> bool" where
  "is_add_command payload =
     (case payload of [] \<Rightarrow> False
      | c # _ \<Rightarrow> c = COMMAND_ADD_USER \<or> c = COMMAND_ADD_GROUP \<or> c = COMMAND_ADD_COMPANY)"

section \<open>Lemmas\<close>

lemma edit_refl [simp]: "sentry_edit actor db db"
  using unchanged[of actor db "db_faults db"] by simp

lemma add_refl [simp]: "sentry_add actor db db"
  using refused[of actor db "db_faults db"] by simp

lemma sql_read_db: "sql (\<lambda>db. (f db, db)) db = (r, db') \<Longrightarrow> \<exists>fs. db' = db\<lparr>db_faults := fs\<rparr>"
  by (auto elim!: sqlE)

lemma sentry_directory_db: "sentry_directory db = (r, db') \<Longrightarrow> \<exists>fs. db' = db\<lparr>db_faults := fs\<rparr>"
  by (auto simp: sentry_directory_def directory_load_def load_def split: prod.splits sum.splits dest!: sql_read_db)

lemma deny_below_None [simp]: "deny_below actor a = None \<longleftrightarrow> a \<le> ac_authority actor"
  by (auto simp: deny_below_def)

lemma deny_outside_None [simp]: "deny_outside actor names = None \<longleftrightarrow> \<not> outside actor names"
  by (auto simp: deny_outside_def)

lemma deny_write_None [simp]:
  "deny_write actor r = None \<longleftrightarrow>
     level_required (row_level r) \<le> ac_authority actor \<and> \<not> outside actor (row_names r)"
  by (auto simp: deny_write_def not_less)

lemma ascii_name_Inr: "ascii_name v = Inr n \<longleftrightarrow> n = v \<and> v \<noteq> [] \<and> is_ascii v"
  by (auto simp: ascii_name_def from_utf8_def ascii_utf8 split: option.splits if_splits)

lemma ascii_names_Inr: "ascii_names vs = Inr ns \<longleftrightarrow> ns = vs \<and> list_all (\<lambda>v. v \<noteq> [] \<and> is_ascii v) vs"
proof -
  have "collect_results (map ascii_name vs) = Inr ns \<longleftrightarrow> ns = vs \<and> list_all (\<lambda>v. v \<noteq> [] \<and> is_ascii v) vs"
  proof (induction vs arbitrary: ns)
    case (Cons v vs)
    show ?case
    proof (cases "ascii_name v")
      case (Inl e)
      then have "\<not> (v \<noteq> [] \<and> is_ascii v)" using ascii_name_Inr[of v v] by auto
      then show ?thesis using Inl by auto
    next
      case (Inr n)
      then have "n = v \<and> v \<noteq> [] \<and> is_ascii v" by (simp add: ascii_name_Inr)
      then show ?thesis using Inr by (auto simp: Cons.IH result_simps)
    qed
  qed auto
  then show ?thesis by (simp add: ascii_names_def)
qed

lemma stored_names_Some: "stored_names [a, b, c] = Some ns \<Longrightarrow> ns = [a, b, c]"
  by (auto simp: stored_names_def from_utf8_def split: if_splits)

lemma row_level_names:
  "row_level r = LCompany \<Longrightarrow> row_names r = [rw_company r, rw_company r, rw_company r]"
  "row_level r = LGroup \<Longrightarrow> row_names r = [rw_company r, rw_group r, rw_group r]"
  by (auto simp: row_level_def row_names_def split: if_splits)

lemma sentry_write_snd [simp]: "snd (sentry_write f db) = snd (f db)"
  by (simp add: sentry_write_def split: prod.splits sum.splits)

lemma sentry_store_snd [simp]: "snd (sentry_store f db) = snd (f db)"
  by (simp add: sentry_store_def split: prod.splits sum.splits)

subsection \<open>The commands keep to the policy\<close>

lemma update_effect: "sentry_edit actor db (snd (sentry_update actor recs db))"
proof -
  obtain x db1 where d: "sentry_directory db = (x, db1)" by fastforce
  from sentry_directory_db[OF d] obtain fs where db1: "db1 = db\<lparr>db_faults := fs\<rparr>" by blast
  have go: "sentry_edit actor db (snd ((case row_level r of
        LCompany \<Rightarrow> update_company (rw_company r) q | LGroup \<Rightarrow> update_group (rw_company r) (rw_group r) q
      | LUser \<Rightarrow> update_user (rw_company r) (rw_group r) (rw_user r) a q) db1))"
    if "deny_write actor r = None" "authority_is_defined a" "a \<le> ac_authority actor" for r a q
    using that row_level_names[of r] unfolding db1
    by (cases "row_level r") (auto simp: row_names_def intro: change_company change_group change_user)
  show ?thesis
    using d go
    by (auto simp: sentry_update_def Let_def db1 row_names_def not_less unchanged dest!: stored_names_Some
        split: sum.splits option.splits list.splits)
qed

lemma delete_effect: "sentry_edit actor db (snd (sentry_delete actor recs db))"
proof -
  obtain x db1 where d: "sentry_directory db = (x, db1)" by fastforce
  from sentry_directory_db[OF d] obtain fs where db1: "db1 = db\<lparr>db_faults := fs\<rparr>" by blast
  have go: "sentry_edit actor db (snd ((case row_level r of
        LCompany \<Rightarrow> delete_company (rw_company r) | LGroup \<Rightarrow> delete_group (rw_company r) (rw_group r)
      | LUser \<Rightarrow> delete_user (rw_company r) (rw_group r) (rw_user r)) db1))"
    if "deny_write actor r = None" "row_names r \<noteq> actor_names actor" for r
    using that row_level_names[of r] unfolding db1
    by (cases "row_level r") (auto simp: row_names_def intro: remove_company remove_group remove_user)
  show ?thesis
    using d go
    by (auto simp: sentry_delete_def Let_def db1 row_names_def unchanged dest!: stored_names_Some
        split: sum.splits option.splits list.splits)
qed

lemma change_password_effect: "sentry_edit actor db (snd (sentry_change_password actor recs db))"
proof -
  have snd_eq: "snd (case set_password c g u p db of
      (Inr n, db) \<Rightarrow> (if n = 0 then a else b, db) | (Inl e, db) \<Rightarrow> (d, db)) = snd (set_password c g u p db)"
    for c g u p and a b d :: bytes
    by (simp split: prod.splits sum.splits)
  have own: "[c, g, u] = actor_names actor \<Longrightarrow> sentry_edit actor db (snd (set_password c g u p db))" for c g u p
    using own_password[of c g u actor db p "db_faults db"] by simp
  have other: "GROUP_ADMIN \<le> ac_authority actor \<Longrightarrow> \<not> outside actor [c, g, u] \<Longrightarrow>
      sentry_edit actor db (snd (set_password c g u p db))" for c g u p
    using other_password[of actor c g u db p "db_faults db"] by simp
  show ?thesis
    by (auto simp: sentry_change_password_def Let_def snd_eq intro: own other
        split: sum.splits option.splits if_splits)
qed

lemma add_company_effect: "sentry_add actor db (snd (sentry_add_company actor recs db))"
  using add_company[of actor _ db _ "db_faults db"]
  by (auto simp: sentry_add_company_def Let_def ascii_name_Inr split: sum.splits option.splits)

lemma add_group_effect: "sentry_add actor db (snd (sentry_add_group actor recs db))"
proof -
  let ?c = "unwrap_or [] (record_value recs PROPERTY_COMPANY)"
  obtain x db1 where f: "find_company ?c db = (x, db1)" by fastforce
  then obtain fs where db1: "db1 = db\<lparr>db_faults := fs\<rparr>" by (auto simp: find_company_def elim!: sqlE)
  show ?thesis
    unfolding sentry_add_group_def Let_def f
    by (auto simp: ascii_names_Inr db1 refused add_group split: sum.split option.split)
qed

lemma add_user_effect: "sentry_add actor db (snd (sentry_add_user actor recs db))"
proof -
  let ?c = "unwrap_or [] (record_value recs PROPERTY_COMPANY)"
  let ?g = "unwrap_or [] (record_value recs PROPERTY_GROUP)"
  obtain x db1 where f: "find_group ?c ?g db = (x, db1)" by fastforce
  then obtain fs where db1: "db1 = db\<lparr>db_faults := fs\<rparr>" by (auto simp: find_group_def elim!: sqlE)
  show ?thesis
    unfolding sentry_add_user_def Let_def f
    by (auto simp: ascii_names_Inr db1 not_less refused add_user split: sum.split option.split)
qed

lemma sentry_list_edit: "sentry_edit actor db (snd (sentry_list actor recs start db))"
  by (auto simp: sentry_list_def unchanged split: option.splits prod.splits sum.splits dest!: sentry_directory_db)

lemma sentry_query_edit: "sentry_edit actor db (snd (sentry_query actor recs db))"
  by (auto simp: sentry_query_def Let_def unchanged split: option.splits prod.splits sum.splits dest!: sentry_directory_db)

lemma sentry_process_snd: "snd (sentry_process actor payload db) = snd (sentry_try_process actor payload db)"
  by (simp add: sentry_process_def split: prod.splits sum.splits)

lemma snd_reply [simp]: "snd (case p of (r, db) \<Rightarrow> (f r, db)) = snd p"
  by (simp add: case_prod_beta)

lemma sentry_process_edit:
  assumes "\<not> is_add_command payload"
  shows "sentry_edit actor db (snd (sentry_process actor payload db))"
proof (cases payload)
  case (Cons c body)
  with assms have "c \<noteq> COMMAND_ADD_USER" "c \<noteq> COMMAND_ADD_GROUP" "c \<noteq> COMMAND_ADD_COMPANY"
    by (auto simp: is_add_command_def)
  then show ?thesis unfolding sentry_process_snd Cons sentry_try_process_def
    by (simp add: Let_def update_effect delete_effect change_password_effect sentry_list_edit sentry_query_edit
        split: option.split)
qed (simp add: sentry_process_snd sentry_try_process_def)

lemma sentry_process_add:
  assumes "is_add_command payload"
  shows "sentry_add actor db (snd (sentry_process actor payload db))"
proof -
  obtain c body where Cons: "payload = c # body"
    and "c = COMMAND_ADD_USER \<or> c = COMMAND_ADD_GROUP \<or> c = COMMAND_ADD_COMPANY"
    using assms by (auto simp: is_add_command_def split: list.splits)
  then show ?thesis unfolding sentry_process_snd Cons sentry_try_process_def
    by (auto simp: Let_def add_user_effect add_group_effect add_company_effect command_codes split: option.split)
qed

subsection \<open>The schema and the authorities\<close>

lemma sentry_edit_wf: "sentry_edit actor db db' \<Longrightarrow> db_wf db \<Longrightarrow> db_wf db'"
  by (induction rule: sentry_edit.induct) (simp_all add: statement_wf)

lemma sentry_add_wf: "sentry_add actor db db' \<Longrightarrow> db_wf db \<Longrightarrow> db_wf db'"
  by (induction rule: sentry_add.induct) (simp_all add: statement_wf)

text \<open>What a statement leaves of the users: their ids and authorities.\<close>

definition credentials :: "user_row \<Rightarrow> int \<times> authority" where
  "credentials u = (us_id u, us_authority u)"

abbreviation users_creds :: "database \<Rightarrow> (int \<times> authority) set" where
  "users_creds db \<equiv> credentials ` set (db_users db)"

lemma drop_users_creds [simp]: "users_creds (drop_users P db) \<subseteq> users_creds db"
  by (auto simp: drop_users_def Let_def)

lemma drop_groups_creds: "users_creds (drop_groups P db) \<subseteq> users_creds db"
  using drop_users_creds[of _ "db\<lparr>db_groups := _\<rparr>"] by (force simp: drop_groups_def Let_def)

lemma drop_companies_creds: "users_creds (drop_companies P db) \<subseteq> users_creds db"
  using drop_groups_creds[of _ "db\<lparr>db_companies := _\<rparr>"] by (force simp: drop_companies_def Let_def)

lemma delete_users_where_creds: "users_creds (snd (delete_users_where P db)) \<subseteq> users_creds db"
  unfolding delete_users_where_def
  by (rule sql_snd[where Q="\<lambda>s. users_creds s \<subseteq> users_creds db"])
    (use drop_users_creds[of _ "db\<lparr>db_faults := _\<rparr>"] in simp_all)

lemma delete_groups_where_creds: "users_creds (snd (delete_groups_where P db)) \<subseteq> users_creds db"
  unfolding delete_groups_where_def
  by (rule sql_snd[where Q="\<lambda>s. users_creds s \<subseteq> users_creds db"])
    (use drop_groups_creds[of _ "db\<lparr>db_faults := _\<rparr>"] in simp_all)

lemma delete_companies_where_creds: "users_creds (snd (delete_companies_where P db)) \<subseteq> users_creds db"
  unfolding delete_companies_where_def
  by (rule sql_snd[where Q="\<lambda>s. users_creds s \<subseteq> users_creds db"])
    (use drop_companies_creds[of _ "db\<lparr>db_faults := _\<rparr>"] in simp_all)

lemmas delete_where_creds = delete_users_where_creds delete_groups_where_creds delete_companies_where_creds

lemma delete_creds:
  "users_creds (snd (delete_company c db)) \<subseteq> users_creds db"
  "users_creds (snd (delete_group c g db)) \<subseteq> users_creds db"
  "users_creds (snd (delete_user c g u db)) \<subseteq> users_creds db"
proof -
  have step: "users_creds (snd (st_then p f)) \<subseteq> A"
    if "users_creds (snd p) \<subseteq> A" "\<And>x s. users_creds s \<subseteq> A \<Longrightarrow> users_creds (snd (f x s)) \<subseteq> A"
    for p :: "nat sql_result" and f :: "nat \<Rightarrow> database \<Rightarrow> nat sql_result" and A
    by (rule st_then_keeps[where I="\<lambda>s. users_creds s \<subseteq> A"]) (use that in auto)
  show "users_creds (snd (delete_company c db)) \<subseteq> users_creds db"
    unfolding delete_company_def by (intro step delete_where_creds) (meson delete_where_creds order_trans step)+
  show "users_creds (snd (delete_group c g db)) \<subseteq> users_creds db"
    unfolding delete_group_def by (intro step delete_where_creds) (meson delete_where_creds order_trans)
  show "users_creds (snd (delete_user c g u db)) \<subseteq> users_creds db"
    by (simp add: delete_user_def delete_where_creds)
qed

lemma update_company_creds: "users_creds (snd (update_company c q db)) = users_creds db"
  unfolding update_company_def by (rule sql_snd[where Q="\<lambda>s. users_creds s = users_creds db"]) simp_all

lemma update_group_creds: "users_creds (snd (update_group c g q db)) = users_creds db"
  unfolding update_group_def by (rule sql_snd[where Q="\<lambda>s. users_creds s = users_creds db"]) simp_all

lemma image_map_same:
  assumes "\<And>x. k (f x) = k x"
  shows "k ` set (map (\<lambda>x. if P x then f x else x) xs) = k ` set xs"
proof -
  have "map k (map (\<lambda>x. if P x then f x else x) xs) = map k xs" using assms by simp
  then show ?thesis by (metis list.set_map)
qed

lemma set_password_creds: "users_creds (snd (set_password c g u p db)) = users_creds db"
  unfolding set_password_def update_named_user_def
  by (rule sql_snd[where Q="\<lambda>s. users_creds s = users_creds db"])
    (simp_all add: image_map_same credentials_def del: set_map)

lemmas update_creds = update_company_creds update_group_creds set_password_creds

lemma update_user_creds: "users_creds (snd (update_user c g u a q db)) \<subseteq> users_creds db \<union> {x. snd x = a}"
  unfolding update_user_def update_named_user_def
  by (rule sql_snd[where Q="\<lambda>s. users_creds s \<subseteq> users_creds db \<union> {x. snd x = a}"]) (auto simp: credentials_def)

lemma insert_company_creds: "users_creds (snd (insert_company c q db)) = users_creds db"
  unfolding insert_company_def by (rule sql_snd[where Q="\<lambda>s. users_creds s = users_creds db"]) simp_all

lemma insert_group_creds: "users_creds (snd (insert_group i g q db)) = users_creds db"
  unfolding insert_group_def by (rule sql_snd[where Q="\<lambda>s. users_creds s = users_creds db"]) simp_all

lemma insert_user_creds: "users_creds (snd (insert_user i n p a q db)) \<subseteq> users_creds db \<union> {x. snd x = a}"
  unfolding insert_user_def
  by (rule sql_snd[where Q="\<lambda>s. users_creds s \<subseteq> users_creds db \<union> {x. snd x = a}"]) (auto simp: credentials_def)

lemmas insert_creds = insert_company_creds insert_group_creds insert_user_creds

text \<open>The authorities a command can create or raise: defined ones, up to the actor's own.\<close>

abbreviation grantable :: "account \<Rightarrow> (int \<times> authority) set" where
  "grantable actor \<equiv> {x. snd x \<le> ac_authority actor \<and> authority_is_defined (snd x)}"

lemma sentry_edit_creds: "sentry_edit actor db db' \<Longrightarrow> users_creds db' \<subseteq> users_creds db \<union> grantable actor"
proof (induction rule: sentry_edit.induct)
  case (change_user company grp user auth quota fs)
  then show ?case using update_user_creds[of company grp user auth quota "db\<lparr>db_faults := fs\<rparr>"] by auto
next
  case (remove_company company fs)
  then show ?case using delete_creds(1)[of company "db\<lparr>db_faults := fs\<rparr>"] by auto
next
  case (remove_group company grp fs)
  then show ?case using delete_creds(2)[of company grp "db\<lparr>db_faults := fs\<rparr>"] by auto
next
  case (remove_user company grp user fs)
  then show ?case using delete_creds(3)[of company grp user "db\<lparr>db_faults := fs\<rparr>"] by auto
qed (simp_all add: update_creds)

lemma sentry_add_creds: "sentry_add actor db db' \<Longrightarrow> users_creds db' \<subseteq> users_creds db \<union> grantable actor"
proof (induction rule: sentry_add.induct)
  case (add_user user auth group_id password quota fs)
  then show ?case using insert_creds(3)[of group_id user password auth quota "db\<lparr>db_faults := fs\<rparr>"] by auto
qed (simp_all add: insert_creds)

lemma sentry_process_creds:
  "users_creds (snd (sentry_process actor payload db)) \<subseteq> users_creds db \<union> grantable actor"
  using sentry_edit_creds[OF sentry_process_edit] sentry_add_creds[OF sentry_process_add] by blast

lemma sentry_process_wf: "db_wf db \<Longrightarrow> db_wf (snd (sentry_process actor payload db))"
  using sentry_edit_wf[OF sentry_process_edit] sentry_add_wf[OF sentry_process_add] by blast

subsection \<open>Scope\<close>

lemma filter_map_same:
  "(\<And>x. x \<in> set xs \<Longrightarrow> Q x \<Longrightarrow> \<not> P x \<and> \<not> P (f x)) \<Longrightarrow>
   filter P (map (\<lambda>x. if Q x then f x else x) xs) = filter P xs"
  by (induction xs) auto

lemma filter_filter_same:
  "(\<And>x. x \<in> set xs \<Longrightarrow> Q x \<Longrightarrow> \<not> P x) \<Longrightarrow> filter (\<lambda>x. \<not> Q x \<and> P x) xs = filter P xs"
  by (induction xs) auto

text \<open>Two databases agree on the selected rows of the account tables.\<close>

definition agree ::
  "(company_row \<Rightarrow> bool) \<Rightarrow> (group_row \<Rightarrow> bool) \<Rightarrow> (user_row \<Rightarrow> bool) \<Rightarrow> database \<Rightarrow> database \<Rightarrow> bool" where
  "agree Pc Pg Pu db db' \<longleftrightarrow>
     filter Pc (db_companies db') = filter Pc (db_companies db) \<and>
     filter Pg (db_groups db') = filter Pg (db_groups db) \<and>
     filter Pu (db_users db') = filter Pu (db_users db)"

lemma agree_faults [simp]: "agree Pc Pg Pu db (db\<lparr>db_faults := fs\<rparr>)"
  by (simp add: agree_def)

lemma agree_trans: "agree Pc Pg Pu db1 db2 \<Longrightarrow> agree Pc Pg Pu db2 db3 \<Longrightarrow> agree Pc Pg Pu db1 db3"
  by (simp add: agree_def)

lemma agree_update_group:
  assumes "\<And>g. g \<in> set (db_groups db) \<Longrightarrow> Some (gr_id g) = GROUP_ID db c grp \<Longrightarrow> \<not> Pg g \<and> \<not> Pg (g\<lparr>gr_quota := q\<rparr>)"
  shows "agree Pc Pg Pu db (snd (update_group c grp q db))"
  unfolding update_group_def
  by (rule sql_snd[where Q="agree Pc Pg Pu db"]) (use assms in \<open>auto simp: agree_def intro!: filter_map_same\<close>)

lemma agree_update_named_user:
  assumes "\<And>u. u \<in> set (db_users db) \<Longrightarrow> Some (us_id u) = USER_ID db c grp usr \<Longrightarrow> \<not> Pu u \<and> \<not> Pu (f u)"
  shows "agree Pc Pg Pu db (snd (update_named_user f c grp usr db))"
  unfolding update_named_user_def
  by (rule sql_snd[where Q="agree Pc Pg Pu db"]) (use assms in \<open>auto simp: agree_def intro!: filter_map_same\<close>)

lemma agree_drop_users:
  "(\<And>u. u \<in> set (db_users db) \<Longrightarrow> P u \<Longrightarrow> \<not> Pu u) \<Longrightarrow> agree Pc Pg Pu db (drop_users P db)"
  by (auto simp: agree_def drop_users_def Let_def intro!: filter_filter_same)

lemma agree_drop_groups:
  assumes "\<And>g. g \<in> set (db_groups db) \<Longrightarrow> P g \<Longrightarrow> \<not> Pg g"
    "\<And>u g. u \<in> set (db_users db) \<Longrightarrow> g \<in> set (db_groups db) \<Longrightarrow> P g \<Longrightarrow> us_group_id u = gr_id g \<Longrightarrow> \<not> Pu u"
  shows "agree Pc Pg Pu db (drop_groups P db)"
proof (rule agree_trans)
  show "agree Pc Pg Pu db (db\<lparr>db_groups := filter (\<lambda>g. \<not> P g) (db_groups db)\<rparr>)"
    using assms(1) by (auto simp: agree_def intro!: filter_filter_same)
  show "agree Pc Pg Pu (db\<lparr>db_groups := filter (\<lambda>g. \<not> P g) (db_groups db)\<rparr>) (drop_groups P db)"
    unfolding drop_groups_def Let_def by (rule agree_drop_users) (use assms(2) in auto)
qed

lemma agree_delete_users_where:
  assumes "\<And>fs u. u \<in> set (db_users db) \<Longrightarrow> P (db\<lparr>db_faults := fs\<rparr>) u \<Longrightarrow> \<not> Pu u"
  shows "agree Pc Pg Pu db (snd (delete_users_where P db))"
  unfolding delete_users_where_def
  by (rule sql_snd[where Q="agree Pc Pg Pu db"])
    (use assms in \<open>auto intro: agree_trans[OF agree_faults agree_drop_users]\<close>)

lemma agree_delete_groups_where:
  assumes "\<And>fs g. g \<in> set (db_groups db) \<Longrightarrow> P (db\<lparr>db_faults := fs\<rparr>) g \<Longrightarrow> \<not> Pg g"
    "\<And>fs u g. u \<in> set (db_users db) \<Longrightarrow> g \<in> set (db_groups db) \<Longrightarrow> P (db\<lparr>db_faults := fs\<rparr>) g \<Longrightarrow>
       us_group_id u = gr_id g \<Longrightarrow> \<not> Pu u"
  shows "agree Pc Pg Pu db (snd (delete_groups_where P db))"
  unfolding delete_groups_where_def
  by (rule sql_snd[where Q="agree Pc Pg Pu db"])
    (use assms in \<open>auto intro: agree_trans[OF agree_faults agree_drop_groups]\<close>)

lemma delete_users_where_tables:
  "db_companies (snd (delete_users_where P db)) = db_companies db \<and> db_groups (snd (delete_users_where P db)) = db_groups db
   \<and> set (db_users (snd (delete_users_where P db))) \<subseteq> set (db_users db)"
  unfolding delete_users_where_def
  by (rule sql_snd[where Q="\<lambda>s. db_companies s = db_companies db \<and> db_groups s = db_groups db \<and>
        set (db_users s) \<subseteq> set (db_users db)"]) (auto simp: drop_users_def Let_def)

lemma GROUP_ID_tables:
  "db_companies db' = db_companies db \<Longrightarrow> db_groups db' = db_groups db \<Longrightarrow> GROUP_ID db' c g = GROUP_ID db c g"
  by (simp add: GROUP_ID_def named_groups_def joined_groups_def)

lemma agree_delete_group:
  assumes "\<And>g. g \<in> set (db_groups db) \<Longrightarrow> Some (gr_id g) = GROUP_ID db c grp \<Longrightarrow> \<not> Pg g"
    "\<And>u. u \<in> set (db_users db) \<Longrightarrow> Some (us_group_id u) = GROUP_ID db c grp \<Longrightarrow> \<not> Pu u"
  shows "agree Pc Pg Pu db (snd (delete_group c grp db))"
  unfolding delete_group_def
proof (rule st_then_keeps[where I="agree Pc Pg Pu db"])
  let ?P = "\<lambda>db u. Some (us_group_id u) = GROUP_ID db c grp"
  show "agree Pc Pg Pu db (snd (delete_users_where ?P db))"
    by (rule agree_delete_users_where) (use assms(2) in auto)
  fix n db1 assume e: "delete_users_where ?P db = (Inr n, db1)" and a: "agree Pc Pg Pu db db1"
  have t: "db_companies db1 = db_companies db" "db_groups db1 = db_groups db" "set (db_users db1) \<subseteq> set (db_users db)"
    using delete_users_where_tables[of ?P db] e by auto
  have "agree Pc Pg Pu db1 (snd (delete_groups_where (\<lambda>db g. Some (gr_id g) = GROUP_ID db c grp) db1))"
    by (rule agree_delete_groups_where) (use assms t GROUP_ID_tables[OF t(1,2), of c grp] in \<open>auto simp: subset_iff\<close>)
  with a show "agree Pc Pg Pu db (snd (delete_groups_where (\<lambda>db g. Some (gr_id g) = GROUP_ID db c grp) db1))"
    by (rule agree_trans)
qed

lemma agree_delete_user:
  assumes "\<And>u. u \<in> set (db_users db) \<Longrightarrow> Some (us_id u) = USER_ID db c grp usr \<Longrightarrow> \<not> Pu u"
  shows "agree Pc Pg Pu db (snd (delete_user c grp usr db))"
  unfolding delete_user_def by (rule agree_delete_users_where) (use assms in auto)

text \<open>The rows of one company, and of one group.\<close>

definition company_ids :: "database \<Rightarrow> bytes \<Rightarrow> int set" where
  "company_ids db company = co_id ` {c \<in> set (db_companies db). nocase_eq (co_name c) company}"

definition company_group_ids :: "database \<Rightarrow> bytes \<Rightarrow> int set" where
  "company_group_ids db company = gr_id ` {g \<in> set (db_groups db). gr_company_id g \<in> company_ids db company}"

definition group_ids :: "database \<Rightarrow> bytes \<Rightarrow> bytes \<Rightarrow> int set" where
  "group_ids db company grp = gr_id ` {g \<in> set (db_groups db). gr_company_id g \<in> company_ids db company \<and> nocase_eq (gr_name g) grp}"

lemma company_ids_faults [simp]: "company_ids (db\<lparr>db_faults := fs\<rparr>) = company_ids db"
  by (simp add: company_ids_def fun_eq_iff)

lemma group_ids_faults [simp]:
  "company_group_ids (db\<lparr>db_faults := fs\<rparr>) = company_group_ids db" "group_ids (db\<lparr>db_faults := fs\<rparr>) = group_ids db"
  by (simp_all add: company_group_ids_def group_ids_def fun_eq_iff)

lemma GROUP_ID_in:
  assumes "db_wf db" "g \<in> set (db_groups db)" "Some (gr_id g) = GROUP_ID db c grp"
  shows "gr_company_id g \<in> company_ids db c \<and> nocase_eq (gr_name g) grp"
proof -
  obtain g' c' where n: "(g', c') \<in> set (named_groups db c grp)" "gr_id g' = gr_id g"
    using assms(3)[symmetric] by (auto simp: GROUP_ID_Some[OF assms(1)])
  then have "g' = g" using group_by_id[OF assms(1), of g' g] assms(2) by (auto simp: set_named_groups)
  with n show ?thesis by (auto simp: set_named_groups company_ids_def image_iff)
qed

lemma GROUP_ID_ids:
  assumes "db_wf db" "GROUP_ID db c grp = Some i"
  shows "i \<in> group_ids db c grp"
proof -
  obtain g c' where "(g, c') \<in> set (named_groups db c grp)" "gr_id g = i"
    using assms(2) by (auto simp: GROUP_ID_Some[OF assms(1)])
  then show ?thesis by (auto simp: set_named_groups group_ids_def company_ids_def image_iff) metis
qed

lemma USER_ID_in:
  assumes "db_wf db" "u \<in> set (db_users db)" "Some (us_id u) = USER_ID db c grp usr"
  shows "us_group_id u \<in> group_ids db c grp"
proof -
  obtain u' g' c' where "(u', g', c') \<in> set (named_users db c grp usr)" "us_id u' = us_id u"
    using assms(3)[symmetric] by (auto simp: USER_ID_Some[OF assms(1)])
  moreover from this have "u' = u" using user_by_id[OF assms(1), of u' u] assms(2) by (auto simp: set_named_users)
  ultimately show ?thesis by (auto simp: set_named_users group_ids_def company_ids_def image_iff) metis
qed

lemma group_ids_company: "group_ids db c grp \<subseteq> company_group_ids db c"
  by (auto simp: group_ids_def company_group_ids_def)

lemma company_ids_nocase: "nocase_eq c c' \<Longrightarrow> company_ids db c = company_ids db c'"
  by (simp add: company_ids_def)

lemma group_ids_nocase: "nocase_eq c c' \<Longrightarrow> nocase_eq g g' \<Longrightarrow> group_ids db c g = group_ids db c' g'"
  by (simp add: company_ids_def group_ids_def)

lemma company_group_ids_nocase: "nocase_eq c c' \<Longrightarrow> company_group_ids db c = company_group_ids db c'"
  by (simp add: company_ids_def company_group_ids_def)

lemma eq_ignore_nocase: "eq_ignore_ascii_case a b = nocase_eq a b"
  by (simp add: eq_ignore_ascii_case_def nocase_def)

lemma outside_company:
  "\<not> outside actor [c, g, u] \<Longrightarrow> ac_authority actor \<noteq> SYSTEM_ADMIN \<Longrightarrow> nocase_eq c (ac_company actor)"
  by (auto simp: outside_def Let_def actor_names_def names_depth_def eq_ignore_nocase min_def authority_levels
      take_Cons' numeral_eq_Suc split: if_splits)

lemma outside_group:
  assumes "\<not> outside actor [c, g, u]" "ac_authority actor < COMPANY_ADMIN" "\<not> nocase_eq c g"
  shows "nocase_eq c (ac_company actor) \<and> nocase_eq g (ac_group actor)"
proof -
  have "ac_authority actor \<noteq> SYSTEM_ADMIN" "ac_authority actor \<noteq> COMPANY_ADMIN"
    using assms(2) by (auto simp: authority_levels)
  with assms(1,3) show ?thesis
    by (auto simp: outside_def Let_def actor_names_def names_depth_def eq_ignore_nocase min_def
        take_Cons' split: if_splits)
qed

text \<open>Rows that lie outside the actor's company, or outside its group.\<close>

definition elsewhere :: "database \<Rightarrow> bytes \<Rightarrow> database \<Rightarrow> bool" where
  "elsewhere db company =
     agree (\<lambda>c. co_id c \<notin> company_ids db company) (\<lambda>g. gr_company_id g \<notin> company_ids db company)
       (\<lambda>u. us_group_id u \<notin> company_group_ids db company) db"

lemma sentry_edit_company_scope:
  assumes "sentry_edit actor db db'" "db_wf db" "ac_authority actor < SYSTEM_ADMIN"
  shows "elsewhere db (ac_company actor) db'"
proof -
  have ne: "ac_authority actor \<noteq> SYSTEM_ADMIN" using assms(3) by auto
  let ?Pc = "\<lambda>c. co_id c \<notin> company_ids db (ac_company actor)"
  let ?Pg = "\<lambda>g. gr_company_id g \<notin> company_ids db (ac_company actor)"
  let ?Pu = "\<lambda>u. us_group_id u \<notin> company_group_ids db (ac_company actor)"
  have grp: "\<not> ?Pg g" if "nocase_eq c (ac_company actor)" "g \<in> set (db_groups db)" "Some (gr_id g) = GROUP_ID db c gn" for c gn g
    using GROUP_ID_in[OF assms(2) that(2,3)] company_ids_nocase[OF that(1), of db] by simp
  have in_grp: "\<not> ?Pu u" if "nocase_eq c (ac_company actor)" "Some (us_group_id u) = GROUP_ID db c gn" for c gn u
    using GROUP_ID_ids[OF assms(2) that(2)[symmetric]] group_ids_company[of db c gn] company_group_ids_nocase[OF that(1), of db] by auto
  have usr: "\<not> ?Pu u" if "nocase_eq c (ac_company actor)" "u \<in> set (db_users db)" "Some (us_id u) = USER_ID db c gn un" for c gn un u
    using USER_ID_in[OF assms(2) that(2,3)] group_ids_company[of db c gn] company_group_ids_nocase[OF that(1), of db] by auto
  have faults: "agree ?Pc ?Pg ?Pu (db\<lparr>db_faults := fs\<rparr>) x \<Longrightarrow> agree ?Pc ?Pg ?Pu db x" for fs x
    by (rule agree_trans[OF agree_faults])
  have pw: "agree ?Pc ?Pg ?Pu db (snd (set_password c g u p (db\<lparr>db_faults := fs\<rparr>)))"
    if "nocase_eq c (ac_company actor)" for c g u p fs
    unfolding set_password_def by (rule faults, rule agree_update_named_user) (use usr[OF that] in auto)
  from assms(1) have "agree ?Pc ?Pg ?Pu db db'" (is ?ag)
  proof (cases rule: sentry_edit.cases)
    case (change_group company grp quota fs)
    show ?ag unfolding change_group(1)
      by (rule faults, rule agree_update_group) (use grp[OF outside_company[OF change_group(3) ne]] in auto)
  next
    case (change_user company grp user auth quota fs)
    show ?ag unfolding change_user(1) update_user_def
      by (rule faults, rule agree_update_named_user) (use usr[OF outside_company[OF change_user(3) ne]] in auto)
  next
    case (remove_group company grp fs)
    show ?ag unfolding remove_group(1)
      by (rule faults, rule agree_delete_group)
        (use grp[OF outside_company[OF remove_group(3) ne]] in_grp[OF outside_company[OF remove_group(3) ne]] in auto)
  next
    case (remove_user company grp user fs)
    show ?ag unfolding remove_user(1)
      by (rule faults, rule agree_delete_user) (use usr[OF outside_company[OF remove_user(3) ne]] in auto)
  next
    case (own_password company grp user password fs)
    then show ?ag using pw[of company] by (simp add: actor_names_def)
  next
    case (other_password company grp user password fs)
    then show ?ag using pw[OF outside_company[OF other_password(3) ne]] by simp
  qed (use assms(3) in auto)
  then show ?thesis by (simp add: elsewhere_def)
qed

definition no_homonyms :: "database \<Rightarrow> bool" where
  "no_homonyms db \<longleftrightarrow> list_all (\<lambda>(g, c). \<not> nocase_eq (co_name c) (gr_name g)) (joined_groups db)"

lemma USER_ID_no_homonym:
  assumes "db_wf db" "no_homonyms db" "USER_ID db c grp usr = Some i"
  shows "\<not> nocase_eq c grp"
proof -
  obtain u g c' where "(u, g, c') \<in> set (named_users db c grp usr)"
    using assms(3) by (auto simp: USER_ID_Some[OF assms(1)])
  then have "(g, c') \<in> set (joined_groups db)" "nocase_eq (co_name c') c" "nocase_eq (gr_name g) grp"
    by (auto simp: set_named_users set_joined_groups)
  with assms(2) show ?thesis by (auto simp: no_homonyms_def list_all_iff)
qed

lemma sentry_edit_group_scope:
  assumes "sentry_edit actor db db'" "db_wf db" "ac_authority actor < COMPANY_ADMIN" "no_homonyms db"
  shows "agree (\<lambda>_. True) (\<lambda>_. True) (\<lambda>u. us_group_id u \<notin> group_ids db (ac_company actor) (ac_group actor)) db db'"
    (is "agree ?Pc ?Pg ?Pu db db'")
proof -
  have lt: "ac_authority actor < SYSTEM_ADMIN" using assms(3) by (simp add: authority_levels word_less_nat_alt)
  have usr: "\<not> ?Pu u" if "\<not> outside actor [c, gn, un] \<or> [c, gn, un] = actor_names actor"
    "u \<in> set (db_users db)" "Some (us_id u) = USER_ID db c gn un" for c gn un u
  proof -
    have "\<not> nocase_eq c gn" using USER_ID_no_homonym[OF assms(2,4) that(3)[symmetric]] .
    then have "nocase_eq c (ac_company actor)" "nocase_eq gn (ac_group actor)"
      using that(1) outside_group[of actor c gn un] assms(3) by (auto simp: actor_names_def)
    with USER_ID_in[OF assms(2) that(2,3)] group_ids_nocase[of c "ac_company actor" gn "ac_group actor" db]
    show ?thesis by simp
  qed
  have faults: "agree ?Pc ?Pg ?Pu (db\<lparr>db_faults := fs\<rparr>) x \<Longrightarrow> agree ?Pc ?Pg ?Pu db x" for fs x
    by (rule agree_trans[OF agree_faults])
  have pw: "agree ?Pc ?Pg ?Pu db (snd (set_password c g u p (db\<lparr>db_faults := fs\<rparr>)))"
    if "\<not> outside actor [c, g, u] \<or> [c, g, u] = actor_names actor" for c g u p fs
    unfolding set_password_def by (rule faults, rule agree_update_named_user) (use usr[OF that] in auto)
  from assms(1) show ?thesis
  proof (cases rule: sentry_edit.cases)
    case (change_user company grp user auth quota fs)
    show ?thesis unfolding change_user(1) update_user_def
      by (rule faults, rule agree_update_named_user) (use usr[of company grp user] change_user(3) in auto)
  next
    case (remove_user company grp user fs)
    show ?thesis unfolding remove_user(1)
      by (rule faults, rule agree_delete_user) (use usr[of company grp user] remove_user(3) in auto)
  next
    case (own_password company grp user password fs)
    then show ?thesis using pw[of company grp user] by simp
  next
    case (other_password company grp user password fs)
    then show ?thesis using pw[of company grp user] by simp
  qed (use assms(3) lt in auto)
qed

text \<open>An account without administrative authority can only change its own password.\<close>

lemma sentry_normal_user:
  assumes "sentry_edit actor db db' \<or> sentry_add actor db db'" "ac_authority actor < GROUP_ADMIN"
  shows "db_companies db' = db_companies db \<and> db_groups db' = db_groups db \<and> db_messages db' = db_messages db \<and>
    (\<exists>p. db_users db' = map (\<lambda>u. if Some (us_id u) = USER_ID db (ac_company actor) (ac_group actor) (ac_user actor)
                                 then u\<lparr>us_password := p\<rparr> else u) (db_users db) \<or> db_users db' = db_users db)"
proof -
  have lt: "ac_authority actor < COMPANY_ADMIN" "ac_authority actor < SYSTEM_ADMIN"
    using assms(2) by (simp_all add: authority_levels word_less_nat_alt)
  from assms(1) consider fs where "db' = db\<lparr>db_faults := fs\<rparr>"
    | p fs where "db' = snd (set_password (ac_company actor) (ac_group actor) (ac_user actor) p (db\<lparr>db_faults := fs\<rparr>))"
    using assms(2) lt by (auto elim!: sentry_edit.cases sentry_add.cases simp: actor_names_def)
  then show ?thesis
  proof cases
    case (2 p fs)
    show ?thesis unfolding 2 set_password_def update_named_user_def
      by (rule sql_snd) auto
  qed auto
qed

subsection \<open>Listing\<close>































subsection \<open>Whole histories\<close>

text \<open>Commands of any accounts, one after the other.\<close>

definition sentry_run :: "(account \<times> bytes) list \<Rightarrow> database \<Rightarrow> database" where
  "sentry_run cmds db = fold (\<lambda>(actor, payload) db. snd (sentry_process actor payload db)) cmds db"

definition authorities_defined :: "database \<Rightarrow> bool" where
  "authorities_defined db \<longleftrightarrow> list_all (\<lambda>u. authority_is_defined (us_authority u)) (db_users db)"

lemma authorities_defined_creds: "authorities_defined db \<longleftrightarrow> users_creds db \<subseteq> {x. authority_is_defined (snd x)}"
  by (auto simp: authorities_defined_def list_all_iff credentials_def)

lemma sentry_run_keeps:
  "db_wf db \<Longrightarrow> authorities_defined db \<Longrightarrow> db_wf (sentry_run cmds db) \<and> authorities_defined (sentry_run cmds db)"
proof (induction cmds arbitrary: db)
  case (Cons cmd cmds)
  obtain actor payload where [simp]: "cmd = (actor, payload)" by fastforce
  have "authorities_defined (snd (sentry_process actor payload db))"
    using sentry_process_creds[of actor payload db] Cons.prems(2) by (auto simp: authorities_defined_creds)
  then show ?case using Cons.IH[OF sentry_process_wf[OF Cons.prems(1)]] by (simp add: sentry_run_def)
qed (simp add: sentry_run_def)

lemma authorities_defined_initial: "authorities_defined initial_database"
  by (simp add: authorities_defined_def initial_database_def authority_is_defined_def authority_levels)

subsection \<open>Successful additions and password changes\<close>

definition entry :: "byte \<Rightarrow> bytes \<Rightarrow> tlv_entry" where
  "entry t v = \<lparr>entry_tag = t, entry_value = v\<rparr>"

lemmas property_tags = PROPERTY_COMPANY_def PROPERTY_GROUP_def PROPERTY_USER_def PROPERTY_PASSWORD_def
  TAG_AUTHORITY_def TAG_QUOTA_def

definition plain_name :: "bytes \<Rightarrow> bool" where
  "plain_name v \<longleftrightarrow> v \<noteq> [] \<and> is_ascii v"

lemma GROUP_ID_of_joined:
  assumes "db_wf db" "(g, c) \<in> set (joined_groups db)"
  shows "GROUP_ID db (co_name c) (gr_name g) = Some (gr_id g)"
  using assms by (auto simp: GROUP_ID_Some set_named_groups set_joined_groups)

lemma USER_ID_of_joined:
  assumes "db_wf db" "(u, g, c) \<in> set (joined_users db)" "nocase_eq (co_name c) cn" "nocase_eq (gr_name g) gn"
  shows "USER_ID db cn gn (us_name u) = Some (us_id u)"
  using assms by (auto simp: USER_ID_Some set_named_users set_joined_users)

lemma add_user_succeeds:
  assumes "db_wf db" "db_faults db = []" "GROUP_ADMIN \<le> ac_authority actor" "(g, c) \<in> set (joined_groups db)"
    "plain_name (co_name c)" "plain_name (gr_name g)" "plain_name user" "plain_name password"
    "\<not> (\<exists>u \<in> set (db_users db). us_group_id u = gr_id g \<and> nocase_eq (us_name u) user)"
  shows "\<exists>u. sentry_add_user actor [entry PROPERTY_COMPANY (co_name c), entry PROPERTY_GROUP (gr_name g),
      entry PROPERTY_USER user, entry PROPERTY_PASSWORD password] db =
    (status_response STATUS_OK, db\<lparr>db_users := db_users db @ [u]\<rparr>) \<and>
    us_group_id u = gr_id g \<and> us_name u = user \<and> us_password u = password \<and> us_authority u = NORMAL"
proof -
  let ?recs = "[entry PROPERTY_COMPANY (co_name c), entry PROPERTY_GROUP (gr_name g),
      entry PROPERTY_USER user, entry PROPERTY_PASSWORD password]"
  have vals: "record_value ?recs PROPERTY_COMPANY = Some (co_name c)" "record_value ?recs PROPERTY_GROUP = Some (gr_name g)"
    "record_value ?recs PROPERTY_USER = Some user" "record_value ?recs PROPERTY_PASSWORD = Some password"
    "record_value ?recs TAG_AUTHORITY = None" "quota_or_zero ?recs = 0"
    by (simp_all add: record_value_def entry_def property_tags quota_or_zero_def quota_field_def)
  have names: "ascii_names [co_name c, gr_name g, user, password] = Inr [co_name c, gr_name g, user, password]"
    using assms(5-8) by (simp add: ascii_names_Inr plain_name_def)
  have level: "authority_is_defined NORMAL" "\<not> ac_authority actor < NORMAL"
    by (simp_all add: authority_is_defined_def LEVELS_def NORMAL_def)
  let ?new = "\<lparr>us_id = next_rowid (map us_id (db_users db)), us_group_id = gr_id g, us_name = user,
    us_password = password, us_authority = NORMAL, us_quota = 0, us_used = 0\<rparr> :: user_row"
  have "gr_id g \<in> gr_id ` set (db_groups db)" using assms(4) by (auto simp: set_joined_groups)
  then have ins: "insert_user (gr_id g) user password NORMAL 0 db = (Inr (), db\<lparr>db_users := db_users db @ [?new]\<rparr>)"
    using assms(2,9) by (auto simp: insert_user_def)
  have "sentry_add_user actor ?recs db = (status_response STATUS_OK, db\<lparr>db_users := db_users db @ [?new]\<rparr>)"
    using assms(2,3) GROUP_ID_of_joined[OF assms(1,4)]
    by (simp add: sentry_add_user_def vals names level find_group_def ins sentry_store_def deny_below_def)
  then show ?thesis by (intro exI[of _ ?new]) simp
qed

lemma change_password_succeeds:
  assumes "db_wf db" "db_faults db = []" "ac_authority actor = GROUP_ADMIN" "(u, g, c) \<in> set (joined_users db)"
    "nocase_eq (co_name c) (ac_company actor)" "nocase_eq (gr_name g) (ac_group actor)"
    "plain_name (ac_company actor)" "plain_name (ac_group actor)" "plain_name (us_name u)" "plain_name password"
  shows "\<exists>db'. sentry_change_password actor [entry PROPERTY_USER (us_name u), entry PROPERTY_PASSWORD password] db =
      (status_response STATUS_OK, db') \<and> u\<lparr>us_password := password\<rparr> \<in> set (db_users db')"
proof -
  let ?recs = "[entry PROPERTY_USER (us_name u), entry PROPERTY_PASSWORD password]"
  have vals: "name_or_own ?recs PROPERTY_COMPANY (ac_company actor) = ac_company actor"
    "name_or_own ?recs PROPERTY_GROUP (ac_group actor) = ac_group actor"
    "name_or_own ?recs PROPERTY_USER (ac_user actor) = us_name u"
    "record_value ?recs PROPERTY_PASSWORD = Some password"
    using assms(9) by (simp_all add: name_or_own_def record_value_def entry_def property_tags plain_name_def)
  have names: "ascii_names [ac_company actor, ac_group actor, us_name u, password] =
      Inr [ac_company actor, ac_group actor, us_name u, password]"
    using assms(7-10) by (simp add: ascii_names_Inr plain_name_def)
  have guard: "deny_below actor GROUP_ADMIN = None" "deny_outside actor [ac_company actor, ac_group actor, us_name u] = None"
    using assms(3)
    by (simp_all add: deny_below_def outside_def actor_names_def authority_levels min_def names_depth_def take_Cons')
  have i: "USER_ID db (ac_company actor) (ac_group actor) (us_name u) = Some (us_id u)"
    by (rule USER_ID_of_joined[OF assms(1,4)]) (use assms(5,6) in auto)
  have m: "u \<in> set (db_users db)" using assms(4) by (simp add: set_joined_users)
  then have "filter (\<lambda>x. us_id x = us_id u) (db_users db) \<noteq> []" by (auto simp: filter_empty_conv)
  then have "\<exists>n db'. set_password (ac_company actor) (ac_group actor) (us_name u) password db = (Inr (Suc n), db') \<and>
      u\<lparr>us_password := password\<rparr> \<in> set (db_users db')"
    using m assms(2) by (auto simp: set_password_def update_named_user_def i image_iff gr0_conv_Suc[symmetric])
  then show ?thesis by (auto simp: sentry_change_password_def Let_def vals names guard)
qed

section \<open>Samples\<close>

text \<open>Two companies with a group each; \<open>boss\<close> administers the group \<open>Ops\<close> of \<open>Acme\<close>, whose other
  account is a system administrator.\<close>

definition sample_directory :: database where
  "sample_directory =
     \<lparr>db_companies = [\<lparr>co_id = 1, co_name = bstr ''Acme'', co_quota = 0, co_used = 0\<rparr>,
                      \<lparr>co_id = 2, co_name = bstr ''Bolt'', co_quota = 0, co_used = 0\<rparr>],
      db_groups = [\<lparr>gr_id = 1, gr_company_id = 1, gr_name = bstr ''Ops'', gr_quota = 0, gr_used = 0\<rparr>,
                   \<lparr>gr_id = 2, gr_company_id = 2, gr_name = bstr ''Lab'', gr_quota = 0, gr_used = 0\<rparr>],
      db_users = [\<lparr>us_id = 1, us_group_id = 1, us_name = bstr ''root'', us_password = bstr ''r'', us_authority = 40,
                   us_quota = 0, us_used = 0\<rparr>,
                  \<lparr>us_id = 2, us_group_id = 1, us_name = bstr ''boss'', us_password = bstr ''b'', us_authority = 20,
                   us_quota = 0, us_used = 0\<rparr>],
      db_messages = [], db_faults = []\<rparr>"

definition boss :: account where
  "boss = \<lparr>ac_id = 2, ac_company_id = 1, ac_group_id = 1, ac_level = LEVEL_USER, ac_company = bstr ''Acme'',
     ac_group = bstr ''Ops'', ac_user = bstr ''boss'', ac_password = bstr ''b'', ac_authority = 20, ac_quota = 0, ac_used = 0\<rparr>"

lemma sample_wf: "db_wf sample_directory"
  by (simp add: sample_directory_def wf_defs bstr_def nocase_def to_ascii_lowercase_def)

lemma sample_faults: "db_faults sample_directory = []"
  by (simp add: sample_directory_def)

lemma sample_ascii:
  "plain_name (bstr ''Acme'')" "plain_name (bstr ''Ops'')" "plain_name (bstr ''Bolt'')" "plain_name (bstr ''Lab'')"
  "plain_name (bstr ''root'')" "plain_name (bstr ''x'')"
  by (simp_all add: plain_name_def is_ascii_def bstr_def)

section \<open>Properties\<close>

text \<open>C6: the account administration implements its permission policy: whatever bytes a client sends,
  an add command has an effect the adding rules allow, and any other command one the editing rules
  allow, each with the authority and the scope it requires.\<close>

theorem sentry_refines_policy:
  "if is_add_command payload then sentry_add actor db (snd (sentry_process actor payload db))
   else sentry_edit actor db (snd (sentry_process actor payload db))"
  by (simp add: sentry_process_edit sentry_process_add)

text \<open>C13: no command raises authority: every account afterwards carries the authority it had before, or
  a defined one that is at most the actor's own, as it was at its sign-on.\<close>

theorem sentry_no_escalation:
  "(\<lambda>u. (us_id u, us_authority u)) ` set (db_users (snd (sentry_process actor payload db))) \<subseteq>
   (\<lambda>u. (us_id u, us_authority u)) ` set (db_users db) \<union>
   {(i, a). a \<le> ac_authority actor \<and> authority_is_defined a}"
proof -
  have eq: "credentials = (\<lambda>u. (us_id u, us_authority u))" by (rule ext) (simp add: credentials_def)
  have "grantable actor = {(i, a). a \<le> ac_authority actor \<and> authority_is_defined a}" by auto
  then show ?thesis using sentry_process_creds[of actor payload db] unfolding eq by simp
qed

text \<open>From the database a fresh installation starts with, whatever commands any accounts send and
  whatever statements fail on the way, the tables keep the schema (unique ids and names, every user in
  a group, every group in a company, every message between users) and every stored authority is one of
  the four defined levels.\<close>

lemma directory_stays_well_formed:
  "db_wf (sentry_run cmds (initial_database\<lparr>db_faults := fs\<rparr>)) \<and>
   authorities_defined (sentry_run cmds (initial_database\<lparr>db_faults := fs\<rparr>))"
  using db_wf_initial authorities_defined_initial
  by (intro sentry_run_keeps) (simp_all add: authorities_defined_def)

text \<open>C25: an account below the level of a group administrator can change nothing but its own password:
  after any command the companies, the groups and the mail are the same and so are the users, except
  possibly the password of the account itself.\<close>

theorem sentry_normal_user_harmless:
  assumes "ac_authority actor < GROUP_ADMIN" "sentry_process actor payload db = (response, db')"
  shows "db_companies db' = db_companies db \<and> db_groups db' = db_groups db \<and> db_messages db' = db_messages db \<and>
    (\<exists>p. db_users db' = map (\<lambda>u. if Some (us_id u) = USER_ID db (ac_company actor) (ac_group actor) (ac_user actor)
                                 then u\<lparr>us_password := p\<rparr> else u) (db_users db) \<or> db_users db' = db_users db)"
proof (rule sentry_normal_user[OF _ assms(1)])
  show "sentry_edit actor db db' \<or> sentry_add actor db db'"
    using sentry_process_edit[of payload actor db] sentry_process_add[of payload actor db] assms(2) by auto
qed

theorem sentry_normal_user_harmless_witness:
  "\<exists>response db'. sentry_process (boss\<lparr>ac_authority := 0\<rparr>) (COMMAND_DELETE # tag_u8_record TAG_CURSOR (bstr ''2'')) sample_directory =
     (response, db') \<and>
   db_companies db' = db_companies sample_directory \<and> db_groups db' = db_groups sample_directory \<and>
   db_messages db' = db_messages sample_directory \<and> map us_id (db_users db') = [1, 2]"
proof -
  let ?actor = "boss\<lparr>ac_authority := 0\<rparr>" and ?payload = "COMMAND_DELETE # tag_u8_record TAG_CURSOR (bstr ''2'')"
  obtain response db' where p: "sentry_process ?actor ?payload sample_directory = (response, db')" by fastforce
  have below: "ac_authority ?actor < GROUP_ADMIN" by (simp add: GROUP_ADMIN_def)
  note kept = sentry_normal_user_harmless[OF below p]
  then have "map us_id (db_users db') = map us_id (db_users sample_directory)" by auto
  then have "map us_id (db_users db') = [1, 2]" by (simp add: sample_directory_def)
  with p kept show ?thesis by (intro exI[of _ response] exI[of _ db'] conjI) simp_all
qed

text \<open>C26: below the system administrator, no command other than an addition touches another company:
  its rows and the rows of its groups and users are exactly as before. Below the company administrator
  the companies and groups are untouched altogether and so are the users of every other group, provided
  no group carries the name of its own company.\<close>

theorem sentry_stays_in_scope:
  assumes "db_wf db" "ac_authority actor < SYSTEM_ADMIN" "\<not> is_add_command payload"
    "sentry_process actor payload db = (response, db')"
  shows "elsewhere db (ac_company actor) db' \<and>
    (ac_authority actor < COMPANY_ADMIN \<longrightarrow> no_homonyms db \<longrightarrow>
       agree (\<lambda>_. True) (\<lambda>_. True) (\<lambda>u. us_group_id u \<notin> group_ids db (ac_company actor) (ac_group actor)) db db')"
proof -
  have "sentry_edit actor db db'" using sentry_process_edit[OF assms(3), of actor db] assms(4) by simp
  with assms(1,2) show ?thesis using sentry_edit_company_scope sentry_edit_group_scope by blast
qed

theorem sentry_stays_in_scope_witness:
  "elsewhere sample_directory (bstr ''Acme'') (snd (sentry_process boss [COMMAND_DELETE, TAG_CURSOR, 1, 0x30] sample_directory)) \<and>
   agree (\<lambda>_. True) (\<lambda>_. True) (\<lambda>u. us_group_id u \<notin> group_ids sample_directory (bstr ''Acme'') (bstr ''Ops''))
     sample_directory (snd (sentry_process boss [COMMAND_DELETE, TAG_CURSOR, 1, 0x30] sample_directory))"
proof -
  have "no_homonyms sample_directory"
    by (simp add: no_homonyms_def joined_groups_def sample_directory_def bstr_def nocase_def to_ascii_lowercase_def)
  then show ?thesis
    using sentry_stays_in_scope[OF sample_wf, of boss "[COMMAND_DELETE, TAG_CURSOR, 1, 0x30]"
        "fst (sentry_process boss [COMMAND_DELETE, TAG_CURSOR, 1, 0x30] sample_directory)"
        "snd (sentry_process boss [COMMAND_DELETE, TAG_CURSOR, 1, 0x30] sample_directory)"]
    by (simp add: boss_def authority_levels is_add_command_def command_codes)
qed




text \<open>C38: adding a user checks the actor's level only: any group administrator can add an account to any
  group of any company, within its scope or not.\<close>

theorem add_user_ignores_scope:
  assumes "db_wf db" "db_faults db = []" "GROUP_ADMIN \<le> ac_authority actor" "(g, c) \<in> set (joined_groups db)"
    "plain_name (co_name c)" "plain_name (gr_name g)" "plain_name user" "plain_name password"
    "\<not> (\<exists>u \<in> set (db_users db). us_group_id u = gr_id g \<and> nocase_eq (us_name u) user)"
  shows "\<exists>u. sentry_add_user actor [entry PROPERTY_COMPANY (co_name c), entry PROPERTY_GROUP (gr_name g),
      entry PROPERTY_USER user, entry PROPERTY_PASSWORD password] db =
    (status_response STATUS_OK, db\<lparr>db_users := db_users db @ [u]\<rparr>) \<and>
    us_group_id u = gr_id g \<and> us_name u = user \<and> us_password u = password \<and> us_authority u = NORMAL"
  using assms by (rule add_user_succeeds)

theorem add_user_ignores_scope_witness:
  "\<exists>u. sentry_add_user boss [entry PROPERTY_COMPANY (bstr ''Bolt''), entry PROPERTY_GROUP (bstr ''Lab''),
      entry PROPERTY_USER (bstr ''x''), entry PROPERTY_PASSWORD (bstr ''x'')] sample_directory =
    (status_response STATUS_OK, sample_directory\<lparr>db_users := db_users sample_directory @ [u]\<rparr>) \<and> us_group_id u = 2"
proof -
  let ?g = "\<lparr>gr_id = 2, gr_company_id = 2, gr_name = bstr ''Lab'', gr_quota = 0, gr_used = 0\<rparr> :: group_row"
  let ?c = "\<lparr>co_id = 2, co_name = bstr ''Bolt'', co_quota = 0, co_used = 0\<rparr> :: company_row"
  have "(?g, ?c) \<in> set (joined_groups sample_directory)" by (simp add: set_joined_groups sample_directory_def)
  moreover have "\<not> (\<exists>u \<in> set (db_users sample_directory). us_group_id u = 2 \<and> nocase_eq (us_name u) (bstr ''x''))"
    by (simp add: sample_directory_def)
  ultimately show ?thesis
    using add_user_ignores_scope[OF sample_wf sample_faults, of boss ?g ?c "bstr ''x''" "bstr ''x''"] sample_ascii
    by (auto simp: boss_def authority_levels)
qed

text \<open>C39: a group administrator can set the password of every account of its own group with an ASCII name,
  whatever the authority of that account, a system administrator's included.\<close>

theorem group_admin_resets_any_password:
  assumes "db_wf db" "db_faults db = []" "ac_authority actor = GROUP_ADMIN" "(u, g, c) \<in> set (joined_users db)"
    "nocase_eq (co_name c) (ac_company actor)" "nocase_eq (gr_name g) (ac_group actor)"
    "plain_name (ac_company actor)" "plain_name (ac_group actor)" "plain_name (us_name u)" "plain_name password"
  shows "\<exists>db'. sentry_change_password actor [entry PROPERTY_USER (us_name u), entry PROPERTY_PASSWORD password] db =
      (status_response STATUS_OK, db') \<and> u\<lparr>us_password := password\<rparr> \<in> set (db_users db')"
  using assms by (rule change_password_succeeds)

theorem group_admin_resets_any_password_witness:
  "\<exists>db'. sentry_change_password boss [entry PROPERTY_USER (bstr ''root''), entry PROPERTY_PASSWORD (bstr ''x'')] sample_directory =
      (status_response STATUS_OK, db') \<and> (hd (db_users sample_directory))\<lparr>us_password := bstr ''x''\<rparr> \<in> set (db_users db') \<and>
      us_authority (hd (db_users sample_directory)) = SYSTEM_ADMIN"
proof -
  let ?u = "hd (db_users sample_directory)"
  have "(?u, hd (db_groups sample_directory), hd (db_companies sample_directory)) \<in> set (joined_users sample_directory)"
    by (simp add: set_joined_users sample_directory_def)
  moreover have "us_name ?u = bstr ''root''" "co_name (hd (db_companies sample_directory)) = bstr ''Acme''"
    "gr_name (hd (db_groups sample_directory)) = bstr ''Ops''" "us_authority ?u = SYSTEM_ADMIN"
    by (simp_all add: sample_directory_def SYSTEM_ADMIN_def)
  ultimately show ?thesis
    using group_admin_resets_any_password[OF sample_wf sample_faults, of boss ?u _ _ "bstr ''x''"] sample_ascii
    by (auto simp: boss_def GROUP_ADMIN_def)
qed

end
