(* ===== verification/Vipc.thy ===== *)
theory Vipc
  imports Vipc_Message Fs_Confinement Post_Office Sentry
begin

text \<open>
  \<^verbatim>\<open>Server/src/vipc/mod.rs\<close>: the services of a signed-on session and the dispatch of a message to
  one of them by its class. The database, the directory manager and the host file system are shared
  by all sessions (\<open>Arc\<close> in the sources), so they are a state of their own, \<open>shared\<close>, that every
  message reads and leaves behind; the copy of the directory manager and the host inside the state of
  the file system backend is brought up to date before each file request. The third-party calls are the
  parameter \<open>pl\<close>.
\<close>

definition CLASS_VFS :: message_type where "CLASS_VFS = 83"
definition CLASS_MAIL :: message_type where "CLASS_MAIL = 0x7444"
definition CLASS_BROADCAST :: message_type where "CLASS_BROADCAST = 0x7000"
definition CLASS_SENTRY :: message_type where "CLASS_SENTRY = 0xffff"

record platform =
  pl_ne :: simd_ne
  pl_xattr :: xattr_api
  pl_zone :: "nat \<Rightarrow> zoned option"

record shared =
  sh_db :: database
  sh_dirman :: dir_manager
  sh_host :: host

type_synonym fs_vfs = "(fs_proxy, fs_attachment, fs_handle) vfs"

record vipc =
  vc_vfs :: fs_vfs
  vc_mail :: mail_server
  vc_sentry :: account

definition fs_proxy_new :: "account \<Rightarrow> dir_manager \<Rightarrow> host \<Rightarrow> fs_proxy" where
  "fs_proxy_new account dirman h =
     \<lparr>fp_company_id = ac_company_id account, fp_group_id = ac_group_id account, fp_user_id = ac_id account,
      fp_dirman = dirman, fp_host = h\<rparr>"

text \<open>Neither constructor has a failing branch, so neither has the result type of \<open>Vipc::new\<close>.\<close>

definition vipc_new :: "account \<Rightarrow> shared \<Rightarrow> vipc" where
  "vipc_new actor sh =
     \<lparr>vc_vfs = vfs_new (fs_proxy_new actor (sh_dirman sh) (sh_host sh)),
      vc_mail = mail_server_new (ac_id actor) (ac_user actor), vc_sentry = actor\<rparr>"

definition pl_backend :: "platform \<Rightarrow> (fs_proxy, fs_attachment, fs_handle) backend" where
  "pl_backend pl = fs_backend (pl_ne pl) (pl_xattr pl) (pl_zone pl)"

definition sync_backend :: "shared \<Rightarrow> fs_proxy \<Rightarrow> fs_proxy" where
  "sync_backend sh b = b\<lparr>fp_dirman := sh_dirman sh, fp_host := sh_host sh\<rparr>"

definition vipc_vfs_request :: "platform \<Rightarrow> vfs_request \<Rightarrow> vipc \<Rightarrow> shared \<Rightarrow> vfs_response \<times> vipc \<times> shared" where
  "vipc_vfs_request pl request v sh =
     (case vfs_process_request (pl_ne pl) (pl_backend pl)
             ((vc_vfs v)\<lparr>vfs_backend := sync_backend sh (vfs_backend (vc_vfs v))\<rparr>) request of
        (response, s) \<Rightarrow>
          (response, v\<lparr>vc_vfs := s\<rparr>,
           sh\<lparr>sh_dirman := fp_dirman (vfs_backend s), sh_host := fp_host (vfs_backend s)\<rparr>))"

definition vipc_process_message ::
  "platform \<Rightarrow> bytes \<Rightarrow> vipc \<Rightarrow> shared \<Rightarrow> (frame_error + outgoing_message list) \<times> vipc \<times> shared" where
  "vipc_process_message pl payload v sh =
     (case incoming_message_try_from_slice payload of
        Inl e \<Rightarrow> (Inl e, v, sh)
      | Inr m \<Rightarrow>
          if in_ty m = CLASS_VFS then
            (case vfs_request_try_from_slice (in_payload m) of
               Inl e \<Rightarrow> (Inl e, v, sh)
             | Inr request \<Rightarrow>
                 (case vipc_vfs_request pl request v sh of
                    (response, v, sh) \<Rightarrow>
                      (and_then (vfs_response_write_into response []) (\<lambda>response.
                         Inr [\<lparr>out_note = in_note m, out_ty = CLASS_VFS, out_payload = response\<rparr>]), v, sh)))
          else if in_ty m = CLASS_MAIL then
            (case mail_process (in_note m) (in_payload m) (vc_mail v) (sh_db sh) of
               (responses, mail, db) \<Rightarrow>
                 (Inr (map (\<lambda>r. \<lparr>out_note = 0x8000 OR mr_note r, out_ty = CLASS_MAIL, out_payload = mr_payload r\<rparr>)
                         (unwrap_or [] responses)),
                  v\<lparr>vc_mail := mail\<rparr>, sh\<lparr>sh_db := db\<rparr>))
          else if in_ty m = CLASS_SENTRY then
            (case sentry_process (vc_sentry v) (in_payload m) (sh_db sh) of
               (response, db) \<Rightarrow>
                 (Inr (case response of None \<Rightarrow> []
                       | Some payload \<Rightarrow>
                           [\<lparr>out_note = in_note m, out_ty = CLASS_SENTRY, out_payload = payload\<rparr>]),
                  v, sh\<lparr>sh_db := db\<rparr>))
          else if in_ty m = CLASS_BROADCAST then
            (Inr (case broadcast_process (in_payload m) of None \<Rightarrow> []
                  | Some payload \<Rightarrow>
                      [\<lparr>out_note = 0x8000 OR in_note m, out_ty = CLASS_BROADCAST, out_payload = payload\<rparr>]), v, sh)
          else (Inr [], v, sh))"

section \<open>Lemmas: the mail service\<close>

text \<open>All a session does to the database through the mail service is to mark a message as read.\<close>

definition marks_only :: "database \<Rightarrow> database \<Rightarrow> bool" where
  "marks_only db db' \<longleftrightarrow> (\<exists>fs. db' = db\<lparr>db_faults := fs\<rparr> \<or> (\<exists>i. db' = (mark_db i db)\<lparr>db_faults := fs\<rparr>))"

lemma marks_only_refl: "marks_only db db"
  unfolding marks_only_def by (rule exI[of _ "db_faults db"]) simp

lemma read_statement:
  assumes "sql (\<lambda>db. (f db, db)) db = (r, db')"
  shows "\<exists>fs. db' = db\<lparr>db_faults := fs\<rparr>"
  using assms by (auto elim!: sqlE)

lemma mail_read_db:
  assumes "mail_read q s db = (m, db1)" "\<And>i. \<exists>f. q i = sql (\<lambda>db. (f db, db))"
  shows "\<exists>fs. db1 = db\<lparr>db_faults := fs\<rparr>"
proof -
  obtain f where "q (mv_owner_id s) = sql (\<lambda>db. (f db, db))" using assms(2) by blast
  then show ?thesis using assms(1) read_statement[of f db] by (auto simp: mail_read_def split: prod.splits)
qed

lemma mail_statements:
  "\<exists>f. list_mail i = sql (\<lambda>db. (f db, db))" "\<exists>f. mailbox_find i v = sql (\<lambda>db. (f db, db))"
  "\<exists>f. first_unread i = sql (\<lambda>db. (f db, db))"
  unfolding list_mail_def mailbox_find_def first_unread_def by (rule exI, rule refl)+

lemma mark_read_db: "mark_read i db = (r, db') \<Longrightarrow> \<exists>fs. db' = db\<lparr>db_faults := fs\<rparr> \<or> db' = (mark_db i db)\<lparr>db_faults := fs\<rparr>"
proof -
  assume "mark_read i db = (r, db')"
  then show ?thesis
    unfolding mark_read_def
  proof (rule sqlE)
    fix fs
    let ?ms = "map (\<lambda>m. if ms_id m = i then m\<lparr>ms_is_read := True\<rparr> else m) (db_messages (db\<lparr>db_faults := fs\<rparr>))"
    assume "(Inr (length (filter (\<lambda>m. ms_id m = i) (db_messages (db\<lparr>db_faults := fs\<rparr>)))), db\<lparr>db_faults := fs, db_messages := ?ms\<rparr>) = (r, db')"
    then have "db' = (mark_db i db)\<lparr>db_faults := fs\<rparr>" by (auto simp: mark_db_def set_read_def[abs_def])
    then show ?thesis by blast
  qed blast
qed

lemma mail_select_marks:
  assumes "mail_select r s db = (x, db')"
  shows "marks_only db db'"
proof (cases r)
  case SList
  then show ?thesis
    using assms mail_read_db[of list_mail s db] mail_statements(1) by (auto simp: marks_only_def split: prod.splits)
next
  case (SDetail i)
  then show ?thesis
    using assms mail_read_db[of "\<lambda>owner. mailbox_find owner v" s db for v] mail_statements(2) marks_only_refl[of db]
    by (auto simp: marks_only_def split: option.splits prod.splits; blast)
next
  case SReadNew
  obtain m db1 where m: "mail_read first_unread s db = (m, db1)" by fastforce
  obtain fs where db1: "db1 = db\<lparr>db_faults := fs\<rparr>" using mail_read_db[OF m mail_statements(3)] by blast
  show ?thesis
  proof (cases "m = None \<or> m = Some None")
    case True
    then show ?thesis using assms SReadNew m db1 by (auto simp: marks_only_def)
  next
    case False
    then obtain x' where "m = Some (Some x')" by (cases m) auto
    moreover obtain r2 db2 where r2: "mark_read (me_id x') db1 = (r2, db2)" by fastforce
    ultimately have "db' = db2" using assms SReadNew m by (auto split: sum.splits)
    moreover have "(mark_db i (db\<lparr>db_faults := fs\<rparr>))\<lparr>db_faults := fs'\<rparr> = (mark_db i db)\<lparr>db_faults := fs'\<rparr>" for i fs'
      by (simp add: mark_db_def)
    ultimately show ?thesis using mark_read_db[OF r2] db1 by (auto simp: marks_only_def)
  qed
qed

lemma mail_finish_owner: "mail_finish note cid data s db = (x, s', db') \<Longrightarrow> mv_owner_id s' = mv_owner_id s \<and> mv_owner_name s' = mv_owner_name s"
  by (auto simp: mail_finish_def set_pending_def Let_def split: prod.splits option.splits)

lemma mail_process_marks:
  assumes "mail_process note payload s db = (x, s', db')"
  shows "marks_only db db'"
  using mail_process_shape[of "note" payload s]
proof (elim disjE exE)
  fix cid data assume "\<forall>db. mail_process note payload s db = mail_finish note cid data s db"
  with assms have "mail_finish note cid data s db = (x, s', db')" by simp
  from mail_finish_db[OF this] show ?thesis using mail_select_marks marks_only_refl by blast
qed (use assms marks_only_refl in simp)

lemma mail_process_owner:
  "mail_process note payload s db = (x, s', db') \<Longrightarrow> mv_owner_id s' = mv_owner_id s \<and> mv_owner_name s' = mv_owner_name s"
  by (auto simp: mail_process_def set_pending_def Let_def split: if_splits prod.splits option.splits)

section \<open>Lemmas: whom the services act for\<close>

text \<open>The shared directory manager has a canonical root, which \<open>VfsDirManager::new\<close> makes it.\<close>

definition shared_ok :: "path_buf \<Rightarrow> shared \<Rightarrow> bool" where
  "shared_ok root sh \<longleftrightarrow> dm_root_path (sh_dirman sh) = root \<and> root \<noteq> [] \<and> no_parent_dirs root"

text \<open>All services of a session act for one account: the sentry with its authority, the mail server on
  its mailbox, and the file service on its disks only, with every attachment and every open file.\<close>

definition own_file :: "path_buf \<Rightarrow> account \<Rightarrow> (fs_attachment, fs_handle) vfs_file_descriptor \<Rightarrow> bool" where
  "own_file root a f \<longleftrightarrow>
     own_attachment (ac_company_id a) (ac_group_id a) (ac_id a) root (vf_attachment f) \<and>
     pred_option (own_handle (ac_company_id a) (ac_group_id a) (ac_id a) root) (vf_handle f)"

definition acts_for :: "path_buf \<Rightarrow> account \<Rightarrow> vipc \<Rightarrow> bool" where
  "acts_for root a v \<longleftrightarrow> vc_sentry v = a \<and>
     mv_owner_id (vc_mail v) = ac_id a \<and> mv_owner_name (vc_mail v) = ac_user a \<and>
     fp_company_id (vfs_backend (vc_vfs v)) = ac_company_id a \<and> fp_group_id (vfs_backend (vc_vfs v)) = ac_group_id a \<and>
     fp_user_id (vfs_backend (vc_vfs v)) = ac_id a \<and>
     (\<forall>i f. vfs_files (vc_vfs v) i = Some f \<longrightarrow> own_file root a f \<and> fs_att_ok (vf_attachment f))"

lemma acts_for_account: "acts_for root a v \<Longrightarrow> vc_sentry v = a"
  by (simp add: acts_for_def)

lemma acts_for_new: "acts_for root a (vipc_new a sh)"
  by (simp add: acts_for_def vipc_new_def mail_server_new_def vfs_new_def fs_proxy_new_def)

definition synced :: "shared \<Rightarrow> vipc \<Rightarrow> fs_vfs" where
  "synced sh v = (vc_vfs v)\<lparr>vfs_backend := sync_backend sh (vfs_backend (vc_vfs v))\<rparr>"

abbreviation account_reach :: "path_buf \<Rightarrow> account \<Rightarrow> host_path \<Rightarrow> bool" where
  "account_reach root a \<equiv> reach (ac_company_id a) (ac_group_id a) (ac_id a) root"

lemma synced_files [simp]: "vfs_files (synced sh v) = vfs_files (vc_vfs v)"
  by (simp add: synced_def)

lemma vfs_request_acts_for:
  assumes "xattr_keeps_nodes (pl_xattr pl)" "shared_ok root sh" "acts_for root a v"
    "vipc_vfs_request pl request v sh = (response, v', sh')"
  shows "acts_for root a v' \<and> shared_ok root sh' \<and> sh_db sh' = sh_db sh \<and>
    (\<forall>q. \<not> account_reach root a q \<longrightarrow> host_node (sh_host sh') q = host_node (sh_host sh) q) \<and>
    (\<forall>dst. is_ok (vfs_response_write_into response dst))"
proof -
  let ?c = "ac_company_id a" and ?g = "ac_group_id a" and ?u = "ac_id a"
  let ?xa = "pl_xattr pl"
  obtain s' where step: "vfs_process_request (pl_ne pl) (pl_backend pl) (synced sh v) request = (response, s')"
    and v': "v' = v\<lparr>vc_vfs := s'\<rparr>"
    and sh': "sh' = sh\<lparr>sh_dirman := fp_dirman (vfs_backend s'), sh_host := fp_host (vfs_backend s')\<rparr>"
    using assms(4) by (auto simp: vipc_vfs_request_def synced_def split: prod.splits)
  have ok: "own.ok_vfs ?xa ?c ?g ?u root (synced sh v)"
    unfolding own.ok_vfs_def own.ok_file_def
    using assms(1-3) by (auto simp: acts_for_def own_file_def shared_ok_def own_backend_def synced_def sync_backend_def)
  have st: "own.step ?xa ?c ?g ?u root (synced sh v) s'"
    using own.step_request[OF ok, of "pl_ne pl" "pl_ne pl" "pl_zone pl" request] step by (simp add: pl_backend_def)
  then have st': "own_backend ?c ?g ?u root (vfs_backend s')" "own_change ?c ?g ?u root (vfs_backend (synced sh v)) (vfs_backend s')"
    "\<And>i f. vfs_files s' i = Some f \<Longrightarrow> own_file root a f"
    unfolding own.step_def own.ok_vfs_def own.ok_file_def own_file_def by auto
  have att: "fs.atts_ok (synced sh v)" using assms(3) by (auto simp: fs.atts_ok_def acts_for_def)
  have att': "fs.atts_ok s'"
    using fs.atts_ok_step[OF att, of "pl_ne pl" "pl_ne pl" ?xa "pl_zone pl" request] step by (simp add: pl_backend_def)
  have "is_ok (vfs_response_write_into response dst)" for dst
    using fs.process_request_fits[OF att, of "pl_ne pl" "pl_ne pl" ?xa "pl_zone pl" request] step
    by (simp add: pl_backend_def fs.answer_fits_def)
  moreover have "acts_for root a v'"
    using st' att' assms(3) by (auto simp: v' acts_for_def own_backend_def fs.atts_ok_def)
  moreover have "shared_ok root sh'" using st'(1) by (auto simp: sh' shared_ok_def own_backend_def)
  moreover have "host_node (sh_host sh') q = host_node (sh_host sh) q" if "\<not> account_reach root a q" for q
    using st'(2) that by (auto simp: sh' own_change_def synced_def sync_backend_def)
  ultimately show ?thesis by (simp add: sh')
qed

text \<open>The effect of a message, by the service it reaches.\<close>

lemma message_cases:
  assumes "vipc_process_message pl payload v sh = (r, v', sh')"
  obtains (idle) "v' = v" "sh' = sh"
  | (fileservice) request response where "vipc_vfs_request pl request v sh = (response, v', sh')"
  | (mail) n body x m db where "mail_process n body (vc_mail v) (sh_db sh) = (x, m, db)"
      "v' = v\<lparr>vc_mail := m\<rparr>" "sh' = sh\<lparr>sh_db := db\<rparr>"
  | (sentry) body where "v' = v" "sh' = sh\<lparr>sh_db := snd (sentry_process (vc_sentry v) body (sh_db sh))\<rparr>"
proof (cases "incoming_message_try_from_slice payload")
  case (Inl e)
  then show thesis using assms idle by (simp add: vipc_process_message_def)
next
  case (Inr m)
  note a = assms[unfolded vipc_process_message_def Inr sum.case]
  consider "in_ty m = CLASS_VFS" | "in_ty m \<noteq> CLASS_VFS" "in_ty m = CLASS_MAIL"
    | "in_ty m \<noteq> CLASS_VFS" "in_ty m \<noteq> CLASS_MAIL" "in_ty m = CLASS_SENTRY"
    | "in_ty m \<noteq> CLASS_VFS" "in_ty m \<noteq> CLASS_MAIL" "in_ty m \<noteq> CLASS_SENTRY" by blast
  then show thesis
  proof cases
    case 1
    then show thesis
      using a idle that(2) by (cases "vfs_request_try_from_slice (in_payload m)") (auto split: prod.splits)
  next
    case 2
    then show thesis using a mail by (auto split: prod.splits)
  next
    case 3
    then show thesis using a sentry[of "in_payload m"] by (auto split: prod.splits)
  next
    case 4
    then show thesis using a idle by (auto split: if_splits)
  qed
qed

lemma message_acts_for:
  assumes "xattr_keeps_nodes (pl_xattr pl)" "shared_ok root sh" "acts_for root a v"
    "vipc_process_message pl payload v sh = (r, v', sh')"
  shows "acts_for root a v' \<and> shared_ok root sh' \<and>
    (\<forall>q. \<not> account_reach root a q \<longrightarrow> host_node (sh_host sh') q = host_node (sh_host sh) q)"
  using assms(4)
proof (cases rule: message_cases)
  case (fileservice request response)
  then show ?thesis using vfs_request_acts_for[OF assms(1-3)] by blast
next
  case (mail n body x m db)
  then show ?thesis using assms(2,3) mail_process_owner[OF mail(1)] by (simp add: acts_for_def shared_ok_def)
qed (use assms(2,3) in \<open>simp_all add: shared_ok_def\<close>)

lemma marks_only_keeps: "marks_only db db' \<Longrightarrow> (db_wf db' \<longleftrightarrow> db_wf db) \<and> db_users db' = db_users db"
  by (auto simp: marks_only_def)

definition db_ok :: "database \<Rightarrow> bool" where
  "db_ok db \<longleftrightarrow> db_wf db \<and> authorities_defined db"

lemma db_ok_initial: "db_ok (initial_database\<lparr>db_faults := fs\<rparr>)"
  using db_wf_initial authorities_defined_initial by (simp add: db_ok_def authorities_defined_def)

lemma message_db_ok:
  assumes "vipc_process_message pl payload v sh = (r, v', sh')" "db_ok (sh_db sh)"
  shows "db_ok (sh_db sh')"
  using assms(1)
proof (cases rule: message_cases)
  case (fileservice request response)
  then have "sh_db sh' = sh_db sh" by (auto simp: vipc_vfs_request_def split: prod.splits)
  with assms(2) show ?thesis by simp
next
  case (mail n body x m db)
  then show ?thesis
    using assms(2) marks_only_keeps[OF mail_process_marks[OF mail(1)]] by (simp add: db_ok_def authorities_defined_def)
next
  case (sentry body)
  then show ?thesis
    using assms(2) sentry_run_keeps[of "sh_db sh" "[(vc_sentry v, body)]"] by (simp add: db_ok_def sentry_run_def)
qed (use assms(2) in simp)

end
