(* ===== verification/Session.thy ===== *)
theory Session
  imports Link_Frame Data_Frame Vipc
begin

text \<open>
  \<^verbatim>\<open>Server/src/server/mod.rs\<close>: the sessions of the server. A session is the stop-and-wait data link to
  one client, the sign-on that builds the services of an account, and the loop that reads frames until
  the client leaves. The socket is split: \<open>ss_client\<close> is the half written to, the half read from is an
  argument of the loop. The scratch buffers are cleared before each use and have no state of their own.
\<close>

section \<open>Connection ids\<close>

text \<open>\<open>ConnectionId::acquire\<close> and its drop, each one critical section on the pool.\<close>

definition connection_id_acquire :: "simd_ne \<Rightarrow> id_map \<Rightarrow> (byte \<times> id_map) option" where
  "connection_id_acquire ne pool =
     (case id_map_find_free ne pool of None \<Rightarrow> None | Some i \<Rightarrow> Some (i, id_map_set pool i))"

definition connection_id_drop :: "byte \<Rightarrow> id_map \<Rightarrow> id_map" where
  "connection_id_drop i pool = id_map_clear pool i"

section \<open>Initial sequence numbers\<close>

definition INITIAL_SEQ_STATE :: u16 where "INITIAL_SEQ_STATE = 5"

definition next_initial_seq_number :: "u16 \<Rightarrow> byte \<times> u16" where
  "next_initial_seq_number state = (let state = state * 2005 + 4227 in (ucast state, state))"

section \<open>State\<close>

definition STATUS_INVALID_PASSWORD :: u16 where "STATUS_INVALID_PASSWORD = 1003"
definition STATUS_UNKNOWN_USER :: u16 where "STATUS_UNKNOWN_USER = 1005"
definition STATUS_NOT_SIGNED_ON :: u16 where "STATUS_NOT_SIGNED_ON = 801"

datatype process_frame_result = Continue | Disconnect

record session =
  ss_client :: out_stream
  ss_connection_id :: byte
  ss_last_seq_number :: byte
  ss_recv_sequence :: byte
  ss_vipc :: "vipc option"

type_synonym session_state = "session \<times> shared"
type_synonym 'a session_result = "(frame_error + 'a) \<times> session_state"

section \<open>Writing\<close>

definition write_frame :: "frame \<Rightarrow> session_state \<Rightarrow> unit session_result" where
  "write_frame f st =
     (case st of (s, sh) \<Rightarrow>
        case write_data_to_io (frame_write_into f []) (ss_client s) of
          (r, client) \<Rightarrow> (r, s\<lparr>ss_client := client\<rparr>, sh))"

definition write_response :: "bytes \<Rightarrow> session_state \<Rightarrow> unit session_result" where
  "write_response body st =
     (case st of (s, sh) \<Rightarrow>
        let s = s\<lparr>ss_last_seq_number := ss_last_seq_number s + 1\<rparr> in
        case write_data_to_io (frame_write_into (frame_data EOM_FLAG_ON (ss_last_seq_number s) body) []) (ss_client s) of
          (r, client) \<Rightarrow> (r, s\<lparr>ss_client := client\<rparr>, sh))"

text \<open>Serialise a response into the body buffer and send it.\<close>

definition respond :: "data_frame_response \<Rightarrow> session_state \<Rightarrow> unit session_result" where
  "respond r st =
     (case data_frame_response_write_into r [] of
        Inl e \<Rightarrow> (Inl e, st)
      | Inr body \<Rightarrow> write_response body st)"

section \<open>Sign-on\<close>

definition property_of :: "sign_on_property list \<Rightarrow> byte \<Rightarrow> bytes" where
  "property_of properties ty =
     (case find (\<lambda>p. property_ty p = ty) properties of None \<Rightarrow> [] | Some p \<Rightarrow> property_value p)"

definition authenticate :: "sign_on_property list \<Rightarrow> database \<Rightarrow> (u16 + account) \<times> database" where
  "authenticate properties db =
     (let company = property_of properties PROPERTY_COMPANY; grp = property_of properties PROPERTY_GROUP;
          user = property_of properties PROPERTY_USER; password = property_of properties PROPERTY_PASSWORD in
      if company = [] \<or> grp = [] \<or> user = [] then (Inl STATUS_PROPERTY_MISSING, db)
      else
        case (from_utf8 company, from_utf8 grp, from_utf8 user) of
          (Some company, Some grp, Some user) \<Rightarrow>
            (case find_user company grp user db of
               (Inl e, db) \<Rightarrow> (Inl STATUS_AUTHORIZATION_FILE, db)
             | (Inr None, db) \<Rightarrow> (Inl STATUS_UNKNOWN_USER, db)
             | (Inr (Some account), db) \<Rightarrow>
                 if ac_password account \<noteq> password then (Inl STATUS_INVALID_PASSWORD, db)
                 else (Inr account, db))
        | _ \<Rightarrow> (Inl STATUS_UNKNOWN_USER, db))"

definition SERVER_NAME :: bytes where "SERVER_NAME = bstr ''vklachkov server''"

definition sign_on :: "sign_on_property list \<Rightarrow> session_state \<Rightarrow> unit session_result" where
  "sign_on properties st =
     (case st of (s, sh) \<Rightarrow>
        case authenticate properties (sh_db sh) of
          (r, db) \<Rightarrow>
            let sh = sh\<lparr>sh_db := db\<rparr> in
            case r of
              Inr account \<Rightarrow>
                respond (RespSignOn STATUS_OK SERVER_NAME) (s\<lparr>ss_vipc := Some (vipc_new account sh)\<rparr>, sh)
            | Inl status \<Rightarrow> respond (RespSignOn status SERVER_NAME) (s, sh))"

definition sign_off :: "session_state \<Rightarrow> unit session_result" where
  "sign_off st = (case st of (s, sh) \<Rightarrow> (Inr (), s\<lparr>ss_vipc := None\<rparr>, sh))"

section \<open>Requests\<close>

definition connect :: "u16 \<Rightarrow> bytes \<Rightarrow> session_state \<Rightarrow> unit session_result" where
  "connect remote path st =
     (let status = (if ss_vipc (fst st) \<noteq> None then STATUS_OK else STATUS_NOT_SIGNED_ON) in
      respond (RespConnect \<lparr>local_path_id = 1, remote_path_id = remote\<rparr> status) st)"

definition disconnect :: "u16 \<Rightarrow> u16 \<Rightarrow> session_state \<Rightarrow> unit session_result" where
  "disconnect remote reason st = respond (RespDisconnect \<lparr>local_path_id = 1, remote_path_id = remote\<rparr>) st"

text \<open>The loop that sends the answers of one message, up to the first that fails.\<close>

fun send_messages :: "connect_header \<Rightarrow> outgoing_message list \<Rightarrow> session_state \<Rightarrow> unit session_result" where
  "send_messages header [] st = (Inr (), st)"
| "send_messages header (m # ms) st =
     (case outgoing_message_write_into m [] of
        Inl e \<Rightarrow> (Inl e, st)
      | Inr message \<Rightarrow>
          st_then (respond (RespMsg \<lparr>local_path_id = remote_path_id header, remote_path_id = local_path_id header\<rparr>
                              message) st)
            (\<lambda>_. send_messages header ms))"

definition process_msg :: "platform \<Rightarrow> connect_header \<Rightarrow> bytes \<Rightarrow> session_state \<Rightarrow> unit session_result" where
  "process_msg pl header payload st =
     (case st of (s, sh) \<Rightarrow>
        case ss_vipc s of
          None \<Rightarrow> (Inr (), st)
        | Some v \<Rightarrow>
            (case vipc_process_message pl payload v sh of
               (r, v, sh) \<Rightarrow>
                 let st = (s\<lparr>ss_vipc := Some v\<rparr>, sh) in
                 case r of Inl e \<Rightarrow> (Inl e, st) | Inr responses \<Rightarrow> send_messages header responses st))"

definition process_data_frame :: "platform \<Rightarrow> bytes \<Rightarrow> session_state \<Rightarrow> unit session_result" where
  "process_data_frame pl data st =
     (case data_frame_request_try_from_slice data of
        Inl e \<Rightarrow> (Inl e, st)
      | Inr (ReqConnect header path) \<Rightarrow> connect (local_path_id header) path st
      | Inr (ReqDisconnect header reason) \<Rightarrow> disconnect (local_path_id header) reason st
      | Inr (ReqSignOn properties) \<Rightarrow> sign_on properties st
      | Inr ReqSignOff \<Rightarrow> sign_off st
      | Inr (ReqMsg header payload) \<Rightarrow> process_msg pl header payload st)"

section \<open>The data link\<close>

definition set_recv :: "byte \<Rightarrow> session_state \<Rightarrow> session_state" where
  "set_recv seq st = (case st of (s, sh) \<Rightarrow> (s\<lparr>ss_recv_sequence := seq\<rparr>, sh))"

definition write_ack :: "session_state \<Rightarrow> unit session_result" where
  "write_ack st = write_frame (frame_ack (ss_connection_id (fst st)) (ss_recv_sequence (fst st))) st"

definition process_frame_inner :: "platform \<Rightarrow> raw_frame \<Rightarrow> session_state \<Rightarrow> process_frame_result session_result" where
  "process_frame_inner pl raw st =
     (case frame_try_from_raw raw of
        Inl e \<Rightarrow> (Inl e, st)
      | Inr f \<Rightarrow>
          (case frame_body f of
             Rfc b \<Rightarrow>
               let st = set_recv (ss_last_seq_number (fst st)) st in
               st_then (write_frame (frame_rfc (ss_connection_id (fst st)) (ss_last_seq_number (fst st))) st)
                 (\<lambda>_ st. (Inr Continue, st))
           | Ack b \<Rightarrow> (Inr Continue, st)
           | Disc b \<Rightarrow> (Inr Disconnect, st)
           | Ping b \<Rightarrow> st_then (write_ack st) (\<lambda>_ st. (Inr Continue, st))
           | Data data \<Rightarrow>
               let expected = ss_recv_sequence (fst st) + 1 in
               if frame_seq_number f = ss_recv_sequence (fst st) then (Inr Continue, st)
               else if frame_seq_number f \<noteq> expected
               then st_then (write_ack st) (\<lambda>_ st. (Inr Continue, st))
               else
                 st_then (write_ack (set_recv (frame_seq_number f) st)) (\<lambda>_ st.
                 st_then (process_data_frame pl data st) (\<lambda>_ st. (Inr Continue, st)))))"

text \<open>The frame error a session ends with, as the \<open>io::Error\<close> its thread reports.\<close>

fun io_kind_of_frame_error :: "frame_error \<Rightarrow> io_kind" where
  "io_kind_of_frame_error (Io k) = k"
| "io_kind_of_frame_error _ = OtherKind"

definition process_frame :: "platform \<Rightarrow> raw_frame \<Rightarrow> session_state \<Rightarrow> (io_kind + process_frame_result) \<times> session_state" where
  "process_frame pl raw st =
     (case process_frame_inner pl raw st of (r, st) \<Rightarrow> (map_err io_kind_of_frame_error r, st))"

section \<open>The loop of a session\<close>

lemma read_unstuffed_takes:
  "read_unstuffed buffer src = Inr (b, src') \<Longrightarrow> length (in_bytes src') + 2 \<le> length (in_bytes src)"
proof (induction buffer src rule: read_unstuffed.induct)
  case (1 buffer src)
  obtain x src1 where x: "stream_read_u8 src = Inr (x, src1)"
    using "1.prems" by (subst (asm) read_unstuffed.simps) (auto simp: result_simps)
  note s1 = stream_read_u8_shrinks[OF x]
  show ?case
  proof (cases "x = DLE")
    case False
    then obtain b1 where b1: "push_unstuffed buffer x = Inr b1" "read_unstuffed b1 src1 = Inr (b, src')"
      using "1.prems" x by (subst (asm) read_unstuffed.simps) (auto simp: result_simps)
    from "1.IH"(1)[OF x refl False b1] s1 show ?thesis by simp
  next
    case True
    obtain y src2 where y: "stream_read_u8 src1 = Inr (y, src2)"
      using "1.prems" x True by (subst (asm) read_unstuffed.simps) (auto simp: result_simps)
    note s2 = stream_read_u8_shrinks[OF y]
    show ?thesis
      using "1.prems" "1.IH"(2,3)[OF x refl _ y refl] x y True s1 s2
      by (subst (asm) read_unstuffed.simps) (fastforce simp: result_simps split: if_splits)
  qed
qed

lemma stream_read_u16_takes:
  "stream_read_u16 src = Inr (c, src') \<Longrightarrow> length (in_bytes src') + 2 \<le> length (in_bytes src)"
  by (auto simp: stream_read_u16_def split: list.splits)

lemma read_from_io_takes:
  "read_from_io src = Inr (raw, src') \<Longrightarrow> length (in_bytes src') + 4 \<le> length (in_bytes src)"
  using read_unstuffed_takes stream_read_u16_takes
  by (fastforce simp: read_from_io_def Let_def result_simps split: if_splits)

lemma read_from_io_shrinks:
  "read_from_io src = Inr (raw, src') \<Longrightarrow> length (in_bytes src') < length (in_bytes src)"
  using read_from_io_takes by fastforce

function session_loop :: "platform \<Rightarrow> in_stream \<Rightarrow> session_state \<Rightarrow> (io_kind + unit) \<times> session_state" where
  "session_loop pl client st =
     (case read_from_io client of
        Inr (raw, client) \<Rightarrow>
          (case process_frame pl raw st of
             (Inl k, st) \<Rightarrow> (Inl k, st)
           | (Inr Disconnect, st) \<Rightarrow> (Inr (), st)
           | (Inr Continue, st) \<Rightarrow> session_loop pl client st)
      | Inl UnexpectedEof \<Rightarrow> (Inr (), st)
      | Inl e \<Rightarrow> (Inl (io_kind_of_frame_error e), st))"
  by pat_completeness auto
termination
  by (relation "measure (\<lambda>(pl, client, st). length (in_bytes client))") (auto dest: read_from_io_shrinks)

declare session_loop.simps [simp del]

definition session_new :: "out_stream \<Rightarrow> byte \<Rightarrow> byte \<Rightarrow> session" where
  "session_new client connection_id initial_seq_number =
     \<lparr>ss_client = client, ss_connection_id = connection_id, ss_last_seq_number = initial_seq_number,
      ss_recv_sequence = initial_seq_number, ss_vipc = None\<rparr>"

definition try_worker ::
  "platform \<Rightarrow> in_stream \<Rightarrow> out_stream \<Rightarrow> byte \<Rightarrow> u16 \<Rightarrow> shared \<Rightarrow> (io_kind + unit) \<times> session_state \<times> u16" where
  "try_worker pl client_in client_out connection_id seq_state sh =
     (case next_initial_seq_number seq_state of
        (initial_seq_number, seq_state) \<Rightarrow>
          (case session_loop pl client_in (session_new client_out connection_id initial_seq_number, sh) of
             (r, st) \<Rightarrow> (r, st, seq_state)))"

section \<open>What a session may do\<close>

text \<open>Writing changes the client's half of the socket and the sequence number, nothing else.\<close>

definition core :: "session_state \<Rightarrow> vipc option \<times> shared" where
  "core st = (ss_vipc (fst st), snd st)"

definition link_only :: "session_state \<Rightarrow> session_state \<Rightarrow> bool" where
  "link_only st st' \<longleftrightarrow> core st' = core st \<and> ss_connection_id (fst st') = ss_connection_id (fst st)"

lemma link_only_refl [simp]: "link_only st st"
  by (simp add: link_only_def)

lemma link_only_trans: "link_only a b \<Longrightarrow> link_only b c \<Longrightarrow> link_only a c"
  by (simp add: link_only_def)

lemma write_frame_link: "link_only st (snd (write_frame f st))"
  by (simp add: link_only_def core_def write_frame_def split: prod.splits)

lemma write_response_link: "link_only st (snd (write_response body st))"
  by (simp add: link_only_def core_def write_response_def Let_def split: prod.splits)

lemma respond_link: "link_only st (snd (respond r st))"
  by (auto simp: respond_def write_response_link split: sum.splits)

lemma write_ack_link: "link_only st (snd (write_ack st))"
  by (simp add: write_ack_def write_frame_link)

lemma set_recv_link [simp]: "link_only st (set_recv q st)"
  by (simp add: link_only_def core_def set_recv_def split: prod.splits)

lemma st_then_link: "link_only a (snd p) \<Longrightarrow> (\<And>x st. link_only a st \<Longrightarrow> link_only a (snd (f x st))) \<Longrightarrow> link_only a (snd (st_then p f))"
  by (cases p; cases "fst p") auto

lemma send_messages_link: "link_only st (snd (send_messages header ms st))"
proof (induction ms arbitrary: st)
  case (Cons m ms)
  show ?case
    using Cons.IH
    by (auto split: sum.splits intro!: st_then_link respond_link intro: link_only_trans)
qed simp

text \<open>
  The effect of a session on its services and on the shared state, whatever frames arrive: it is made
  of authenticated and refused sign-ons, sign-offs and messages handled by the services.
\<close>

locale session_effect =
  fixes pl :: platform and R :: "vipc option \<times> shared \<Rightarrow> vipc option \<times> shared \<Rightarrow> bool"
  assumes effect_refl: "R x x"
    and effect_trans: "R x y \<Longrightarrow> R y z \<Longrightarrow> R x z"
    and authenticated: "authenticate ps (sh_db sh) = (Inr a, db) \<Longrightarrow>
      R (v, sh) (Some (vipc_new a (sh\<lparr>sh_db := db\<rparr>)), sh\<lparr>sh_db := db\<rparr>)"
    and refused: "authenticate ps (sh_db sh) = (Inl status, db) \<Longrightarrow> R (v, sh) (v, sh\<lparr>sh_db := db\<rparr>)"
    and signed_off: "R (v, sh) (None, sh)"
    and message: "vipc_process_message pl payload w sh = (rm, w', sh') \<Longrightarrow> R (Some w, sh) (Some w', sh')"
begin

lemma link_effect: "link_only st st' \<Longrightarrow> R (core st) (core st')"
  by (simp add: link_only_def effect_refl)

lemma sign_on_effect: "R (core st) (core (snd (sign_on ps st)))"
proof -
  obtain s sh where st: "st = (s, sh)" by fastforce
  obtain r db where a: "authenticate ps (sh_db sh) = (r, db)" by fastforce
  show ?thesis
  proof (cases r)
    case (Inl status)
    have "R (core st) (core (s, sh\<lparr>sh_db := db\<rparr>))" using refused a Inl by (simp add: st core_def)
    moreover have "R (core (s, sh\<lparr>sh_db := db\<rparr>)) (core (snd (sign_on ps st)))"
      using link_effect[OF respond_link] a Inl by (simp add: sign_on_def st Let_def)
    ultimately show ?thesis by (rule effect_trans)
  next
    case (Inr acc)
    let ?st = "(s\<lparr>ss_vipc := Some (vipc_new acc (sh\<lparr>sh_db := db\<rparr>))\<rparr>, sh\<lparr>sh_db := db\<rparr>)"
    have "R (core st) (core ?st)" using authenticated a Inr by (simp add: st core_def)
    moreover have "R (core ?st) (core (snd (sign_on ps st)))"
      using link_effect[OF respond_link] a Inr by (simp add: sign_on_def st Let_def)
    ultimately show ?thesis by (rule effect_trans)
  qed
qed

lemma process_msg_effect: "R (core st) (core (snd (process_msg pl header payload st)))"
proof -
  obtain s sh where st: "st = (s, sh)" by fastforce
  show ?thesis
  proof (cases "ss_vipc s")
    case None
    then show ?thesis by (simp add: process_msg_def st effect_refl)
  next
    case (Some v)
    obtain r v' sh' where m: "vipc_process_message pl payload v sh = (r, v', sh')"
      by (cases "vipc_process_message pl payload v sh") auto
    let ?st = "(s\<lparr>ss_vipc := Some v'\<rparr>, sh')"
    have "R (core st) (core ?st)" using message[OF m] Some by (simp add: st core_def)
    moreover have "R (core ?st) (core (snd (process_msg pl header payload st)))"
      using link_effect[OF send_messages_link] Some m
      by (cases r) (simp_all add: process_msg_def st effect_refl)
    ultimately show ?thesis by (rule effect_trans)
  qed
qed

lemma data_frame_effect: "R (core st) (core (snd (process_data_frame pl data st)))"
proof -
  have off: "R (core st) (core (snd (sign_off st)))" using signed_off by (simp add: sign_off_def core_def split: prod.splits)
  show ?thesis
    using off sign_on_effect process_msg_effect link_effect[OF respond_link]
    by (auto simp: process_data_frame_def connect_def disconnect_def Let_def effect_refl
        split: sum.splits data_frame_request.splits)
qed

lemma st_then_effect:
  "R a (core (snd p)) \<Longrightarrow> (\<And>x. fst p = Inr x \<Longrightarrow> R (core (snd p)) (core (snd (f x (snd p))))) \<Longrightarrow>
     R a (core (snd (st_then p f)))"
  by (cases p; cases "fst p") (auto intro: effect_trans)

lemma frame_inner_effect: "R (core st) (core (snd (process_frame_inner pl raw st)))"
proof (cases "frame_try_from_raw raw")
  case (Inl e)
  then show ?thesis by (simp add: process_frame_inner_def effect_refl)
next
  case (Inr f)
  have w: "R (core st) (core (snd (write_frame g st')))" "R (core st) (core (snd (write_ack st')))"
    if "link_only st st'" for g st'
    using that link_only_trans write_frame_link write_ack_link link_effect by metis+
  show ?thesis
  proof (cases "frame_body f")
    case (Data data)
    then show ?thesis
      using Inr by (auto simp: process_frame_inner_def Let_def effect_refl intro!: st_then_effect w data_frame_effect)
  qed (use Inr in \<open>auto simp: process_frame_inner_def Let_def effect_refl intro!: st_then_effect w\<close>)
qed

lemma frame_effect: "process_frame pl raw st = (r, st') \<Longrightarrow> R (core st) (core st')"
  using frame_inner_effect[of st raw] by (auto simp: process_frame_def split: prod.splits)

lemma loop_effect: "R (core st) (core (snd (session_loop pl client st)))"
proof (induction pl'\<equiv>pl client st rule: session_loop.induct)
  case (1 client st)
  show ?case
  proof (cases "read_from_io client")
    case (Inl e)
    then show ?thesis by (subst session_loop.simps) (simp add: effect_refl split: frame_error.split)
  next
    case (Inr p)
    obtain raw client' where p: "p = (raw, client')" by fastforce
    obtain r st' where f: "process_frame pl raw st = (r, st')" by (cases "process_frame pl raw st")
    note e = frame_effect[OF f]
    show ?thesis
    proof (cases "r = Inr Continue")
      case True
      then have "R (core st') (core (snd (session_loop pl client' st')))"
        using "1.hyps"(1)[OF Inr[unfolded p] refl f[symmetric]] by simp
      then show ?thesis
        using effect_trans[OF e] Inr p f True by (subst session_loop.simps) simp
    next
      case False
      then show ?thesis
        using e Inr p f
        by (subst session_loop.simps) (auto split: sum.splits process_frame_result.splits)
    qed
  qed
qed

end

section \<open>Lemmas: sign-on\<close>

definition sign_on_names :: "sign_on_property list \<Rightarrow> bytes list" where
  "sign_on_names ps = map (property_of ps) [PROPERTY_COMPANY, PROPERTY_GROUP, PROPERTY_USER]"

text \<open>The rows a sign-on names, up to the case of the names.\<close>

definition signing_users :: "sign_on_property list \<Rightarrow> database \<Rightarrow> (user_row \<times> group_row \<times> company_row) set" where
  "signing_users ps db =
     set (named_users db (property_of ps PROPERTY_COMPANY) (property_of ps PROPERTY_GROUP) (property_of ps PROPERTY_USER))"

lemma from_utf8_Some: "from_utf8 b = Some x \<longleftrightarrow> utf8_valid b \<and> x = b"
  by (auto simp: from_utf8_def)

lemma authenticate_plain:
  assumes "list_all (\<lambda>n. n \<noteq> [] \<and> utf8_valid n) (sign_on_names ps)"
  shows "authenticate ps db =
    (case find_user (property_of ps PROPERTY_COMPANY) (property_of ps PROPERTY_GROUP) (property_of ps PROPERTY_USER) db of
       (Inl e, db) \<Rightarrow> (Inl STATUS_AUTHORIZATION_FILE, db)
     | (Inr None, db) \<Rightarrow> (Inl STATUS_UNKNOWN_USER, db)
     | (Inr (Some account), db) \<Rightarrow>
         if ac_password account \<noteq> property_of ps PROPERTY_PASSWORD then (Inl STATUS_INVALID_PASSWORD, db)
         else (Inr account, db))"
  using assms by (simp add: authenticate_def Let_def sign_on_names_def from_utf8_def)

lemma authenticate_other:
  assumes "\<not> list_all (\<lambda>n. n \<noteq> [] \<and> utf8_valid n) (sign_on_names ps)"
  shows "authenticate ps db =
    (Inl (if [] \<in> set (sign_on_names ps) then STATUS_PROPERTY_MISSING else STATUS_UNKNOWN_USER), db)"
  using assms by (auto simp: authenticate_def Let_def sign_on_names_def from_utf8_def split: option.splits)

lemma find_user_faults: "find_user c g u db = (r, db') \<Longrightarrow> \<exists>fs. db' = db\<lparr>db_faults := fs\<rparr>"
  by (auto simp: find_user_def elim!: sqlE)

lemma find_user_Some:
  "find_user c g u db = (Inr (Some a), db') \<Longrightarrow> \<exists>x \<in> set (named_users db c g u). a = user_account x"
  by (auto simp: find_user_def elim!: sqlE dest!: first_row_in)

lemma authenticate_sound:
  assumes "authenticate ps db = (r, db')"
  shows "(\<exists>fs. db' = db\<lparr>db_faults := fs\<rparr>) \<and>
    (\<forall>a. r = Inr a \<longrightarrow> [] \<notin> set (sign_on_names ps) \<and>
      (\<exists>x \<in> signing_users ps db. a = user_account x \<and> us_password (fst x) = property_of ps PROPERTY_PASSWORD))"
proof (cases "list_all (\<lambda>n. n \<noteq> [] \<and> utf8_valid n) (sign_on_names ps)")
  case False
  have "\<exists>fs. db = db\<lparr>db_faults := fs\<rparr>" by (rule exI[of _ "db_faults db"]) simp
  then show ?thesis using authenticate_other[OF False] assms by auto
next
  case True
  obtain q db1 where q: "find_user (property_of ps PROPERTY_COMPANY) (property_of ps PROPERTY_GROUP) (property_of ps PROPERTY_USER) db
    = (q, db1)" by fastforce
  have db1: "db' = db1" using assms q by (auto simp: authenticate_plain[OF True] split: sum.splits option.splits if_splits)
  have "\<exists>x \<in> signing_users ps db. a = user_account x \<and> us_password (fst x) = property_of ps PROPERTY_PASSWORD"
    if "r = Inr a" for a
    using assms q that find_user_Some[of _ _ _ db a db1]
    by (fastforce simp: authenticate_plain[OF True] signing_users_def user_account_def split: sum.splits option.splits if_splits)
  moreover have "[] \<notin> set (sign_on_names ps)" using True by (auto simp: list_all_iff)
  ultimately show ?thesis using find_user_faults[OF q] db1 by blast
qed

lemma authenticate_complete:
  assumes "db_wf db" "db_faults db = []" "list_all (\<lambda>n. n \<noteq> [] \<and> utf8_valid n) (sign_on_names ps)"
    "x \<in> signing_users ps db"
  shows "authenticate ps db =
    (if us_password (fst x) = property_of ps PROPERTY_PASSWORD then Inr (user_account x) else Inl STATUS_INVALID_PASSWORD, db)"
proof -
  have "first_row (named_users db (property_of ps PROPERTY_COMPANY) (property_of ps PROPERTY_GROUP) (property_of ps PROPERTY_USER)) = Some x"
    using first_row_unique[OF named_users_unique[OF assms(1)]] assms(4) by (auto simp: signing_users_def)
  then show ?thesis
    by (cases x) (simp add: authenticate_plain[OF assms(3)] find_user_def assms(2) user_account_def)
qed

lemma authenticate_unknown:
  assumes "db_faults db = []" "list_all (\<lambda>n. n \<noteq> [] \<and> utf8_valid n) (sign_on_names ps)" "signing_users ps db = {}"
  shows "authenticate ps db = (Inl STATUS_UNKNOWN_USER, db)"
  using assms(3) by (simp add: authenticate_plain[OF assms(2)] find_user_def assms(1) signing_users_def first_row_def)

section \<open>Lemmas: the link\<close>

text \<open>Handling a request never touches the receive sequence, which only the link layer advances, nor
  the connection id.\<close>

definition same_recv :: "session_state \<Rightarrow> session_state \<Rightarrow> bool" where
  "same_recv st st' \<longleftrightarrow> ss_recv_sequence (fst st') = ss_recv_sequence (fst st) \<and>
     ss_connection_id (fst st') = ss_connection_id (fst st)"

lemma same_recv_trans: "same_recv a b \<Longrightarrow> same_recv b c \<Longrightarrow> same_recv a c"
  by (simp add: same_recv_def)

lemma write_same_recv:
  "same_recv st (snd (write_frame f st))" "same_recv st (snd (write_ack st))" "same_recv st (snd (respond r st))"
  by (auto simp: same_recv_def write_ack_def write_frame_def respond_def write_response_def Let_def split: prod.splits sum.splits)

lemma send_messages_same_recv: "same_recv st (snd (send_messages header ms st))"
proof (induction ms arbitrary: st)
  case (Cons m ms)
  show ?case
  proof (cases "outgoing_message_write_into m []")
    case (Inr message)
    let ?r = "respond (RespMsg \<lparr>local_path_id = remote_path_id header, remote_path_id = local_path_id header\<rparr> message) st"
    obtain x st1 where r: "?r = (x, st1)" by (cases ?r)
    have "same_recv st st1" using write_same_recv(3)[of st] r by (metis snd_conv)
    then show ?thesis using Inr r Cons.IH[of st1] same_recv_trans by (cases x) auto
  qed (simp add: same_recv_def)
qed (simp add: same_recv_def)

lemma data_frame_same_recv: "same_recv st (snd (process_data_frame pl data st))"
proof -
  obtain s sh where st: "st = (s, sh)" by fastforce
  have on: "same_recv st (snd (sign_on ps st))" for ps
  proof -
    obtain r db where a: "authenticate ps (sh_db sh) = (r, db)" by fastforce
    then show ?thesis
      using write_same_recv(3)[of "(s', sh\<lparr>sh_db := db\<rparr>)" for s']
      by (cases r) (simp_all add: sign_on_def st Let_def same_recv_def)
  qed
  have msg: "same_recv st (snd (process_msg pl header payload st))" for header payload
    using send_messages_same_recv[of "(s', sh')" header ms for s' sh' ms]
    by (auto simp: process_msg_def st Let_def same_recv_def split: option.splits prod.splits sum.splits)
  show ?thesis
    using on msg write_same_recv(3)
    by (auto simp: process_data_frame_def connect_def disconnect_def sign_off_def Let_def same_recv_def
        split: sum.splits data_frame_request.splits prod.splits)
qed

text \<open>The handling of a data frame, by its sequence number.\<close>

lemma process_data:
  assumes "frame_try_from_raw raw = Inr f" "frame_body f = Data data"
  shows "process_frame pl raw st =
    (if frame_seq_number f = ss_recv_sequence (fst st) then (Inr Continue, st)
     else if frame_seq_number f \<noteq> ss_recv_sequence (fst st) + 1
     then (case write_ack st of (r, st') \<Rightarrow> (map_err io_kind_of_frame_error (and_then r (\<lambda>_. Inr Continue)), st'))
     else
       (case st_then (write_ack (set_recv (frame_seq_number f) st)) (\<lambda>_. process_data_frame pl data) of
          (r, st') \<Rightarrow> (map_err io_kind_of_frame_error (and_then r (\<lambda>_. Inr Continue)), st')))"
proof -
  have t: "st_then p (\<lambda>_ st. (Inr Continue, st)) = (case p of (r, st') \<Rightarrow> (and_then r (\<lambda>_. Inr Continue), st'))"
    for p :: "unit session_result"
    by (cases p; cases "fst p") auto
  have t': "st_then p (\<lambda>_ st. case g st of (r, st') \<Rightarrow> (and_then r (\<lambda>_. Inr Continue), st')) =
      (case st_then p (\<lambda>_. g) of (r, st') \<Rightarrow> (and_then r (\<lambda>_. Inr Continue), st'))"
    for p :: "unit session_result" and g :: "session_state \<Rightarrow> unit session_result"
    by (cases p; cases "fst p") auto
  show ?thesis
    by (simp add: process_frame_def process_frame_inner_def assms Let_def t t' split: prod.split)
qed

lemma process_data_recv:
  assumes "frame_try_from_raw raw = Inr f" "frame_body f = Data data"
    "frame_seq_number f = ss_recv_sequence (fst st) + 1" "process_frame pl raw st = (r, st')"
  shows "ss_recv_sequence (fst st') = frame_seq_number f"
proof -
  let ?p = "write_ack (set_recv (frame_seq_number f) st)"
  obtain x st1 where p: "?p = (x, st1)" by (cases ?p)
  have 1: "ss_recv_sequence (fst st1) = frame_seq_number f"
    using write_same_recv(2)[of "set_recv (frame_seq_number f) st"] p by (simp add: same_recv_def set_recv_def split: prod.splits)
  have "st' = snd (st_then ?p (\<lambda>_. process_data_frame pl data))"
    using assms(3,4) by (auto simp: process_data[OF assms(1,2)] split: prod.splits)
  then have "st' = st1 \<or> st' = snd (process_data_frame pl data st1)" using p by (cases x) auto
  then show ?thesis using 1 data_frame_same_recv[of st1 pl data] by (auto simp: same_recv_def)
qed

text \<open>A run of frames, up to the one that ends the session.\<close>

fun process_frames :: "platform \<Rightarrow> raw_frame list \<Rightarrow> session_state \<Rightarrow> (io_kind + process_frame_result) \<times> session_state" where
  "process_frames pl [] st = (Inr Continue, st)"
| "process_frames pl (raw # raws) st =
     (case process_frame pl raw st of
        (Inr Continue, st) \<Rightarrow> process_frames pl raws st
      | (r, st) \<Rightarrow> (r, st))"

text \<open>The frames a stream holds, up to the error that ends it.\<close>

function frames_of :: "in_stream \<Rightarrow> raw_frame list \<times> frame_error" where
  "frames_of client =
     (case read_from_io client of
        Inl e \<Rightarrow> ([], e)
      | Inr (raw, client) \<Rightarrow> (case frames_of client of (raws, e) \<Rightarrow> (raw # raws, e)))"
  by pat_completeness auto
termination
  by (relation "measure (\<lambda>client. length (in_bytes client))") (auto dest: read_from_io_shrinks)

declare frames_of.simps [simp del]

text \<open>How a session ends when its stream does.\<close>

definition stream_end :: "frame_error \<Rightarrow> io_kind + unit" where
  "stream_end e = (if e = UnexpectedEof then Inr () else Inl (io_kind_of_frame_error e))"

lemma session_loop_frames:
  "session_loop pl client st =
     (case frames_of client of (raws, e) \<Rightarrow>
        case process_frames pl raws st of
          (Inl k, st) \<Rightarrow> (Inl k, st)
        | (Inr Disconnect, st) \<Rightarrow> (Inr (), st)
        | (Inr Continue, st) \<Rightarrow> (stream_end e, st))"
proof (induction pl client st rule: session_loop.induct)
  case (1 pl client st)
  show ?case
  proof (cases "read_from_io client")
    case (Inl e)
    then show ?thesis
      by (subst session_loop.simps, subst frames_of.simps) (simp add: stream_end_def split: frame_error.split)
  next
    case (Inr p)
    obtain raw client' where p: "p = (raw, client')" by fastforce
    obtain r st' where f: "process_frame pl raw st = (r, st')" by (cases "process_frame pl raw st")
    obtain raws e where fr: "frames_of client' = (raws, e)" by fastforce
    show ?thesis
    proof (cases "r = Inr Continue")
      case True
      then show ?thesis
        using "1.IH"(1)[OF Inr[unfolded p] refl f[symmetric]] Inr p f fr
        by (subst session_loop.simps, subst frames_of.simps) simp
    next
      case False
      then show ?thesis
        using Inr p f fr
        by (subst session_loop.simps, subst frames_of.simps) (auto split: sum.splits process_frame_result.splits)
    qed
  qed
qed

lemma frames_of_bounded: "4 * length (fst (frames_of client)) \<le> length (in_bytes client)"
proof (induction client rule: frames_of.induct)
  case (1 client)
  show ?case
  proof (cases "read_from_io client")
    case (Inl e)
    then show ?thesis by (subst frames_of.simps) simp
  next
    case (Inr p)
    obtain raw client' where p: "p = (raw, client')" by fastforce
    have "4 * length (fst (frames_of client')) \<le> length (in_bytes client')" using 1 Inr p by blast
    then show ?thesis using read_from_io_takes[OF Inr[unfolded p]] Inr p
      by (subst frames_of.simps) (auto split: prod.split)
  qed
qed

lemma frames_of_written:
  assumes "list_all (\<lambda>data. length data \<le> MAX_FRAME_SIZE) datas"
  shows "frames_of \<lparr>in_bytes = concat (map frame_bytes datas), in_end = UnexpectedEofKind\<rparr> =
    (map (\<lambda>d. \<lparr>raw_data = d\<rparr>) datas, UnexpectedEof)"
  using assms
proof (induction datas)
  case Nil
  show ?case by (subst frames_of.simps) (simp add: read_from_io_def stream_read_u8_def, subst read_unstuffed.simps, simp add: result_simps stream_read_u8_def frame_error_from_io_def)
next
  case (Cons d ds)
  then show ?case by (subst frames_of.simps) (simp add: read_frame_bytes)
qed

text \<open>Data frames numbered one after the other, from the one after \<open>n\<close>.\<close>

fun numbered :: "byte \<Rightarrow> raw_frame list \<Rightarrow> bool" where
  "numbered n [] = True"
| "numbered n (raw # raws) =
     ((case frame_try_from_raw raw of
         Inr f \<Rightarrow> (case frame_body f of Data d \<Rightarrow> frame_seq_number f = n + 1 | _ \<Rightarrow> False)
       | Inl e \<Rightarrow> False) \<and> numbered (n + 1) raws)"

lemma numbered_Cons:
  assumes "numbered n (raw # raws)"
  obtains f d where "frame_try_from_raw raw = Inr f" "frame_body f = Data d" "frame_seq_number f = n + 1" "numbered (n + 1) raws"
  using assms by (auto split: sum.splits frame_body.splits)

lemma process_frames_dup:
  assumes "frame_try_from_raw raw = Inr f" "frame_body f = Data d" "frame_seq_number f = ss_recv_sequence (fst st)"
  shows "process_frames pl (replicate n raw @ raws) st = process_frames pl raws st"
  using assms by (induction n) (simp_all add: process_data[OF assms(1,2)])

lemma process_frames_stutter:
  "numbered (ss_recv_sequence (fst st)) (map snd nfs) \<Longrightarrow>
   process_frames pl (concat (map (\<lambda>(n, raw). replicate (Suc n) raw) nfs)) st = process_frames pl (map snd nfs) st"
proof (induction nfs arbitrary: st)
  case (Cons nf nfs)
  obtain n raw where nf: "nf = (n, raw)" by fastforce
  obtain f d where f: "frame_try_from_raw raw = Inr f" "frame_body f = Data d"
    "frame_seq_number f = ss_recv_sequence (fst st) + 1" "numbered (ss_recv_sequence (fst st) + 1) (map snd nfs)"
    using Cons.prems nf numbered_Cons[of "ss_recv_sequence (fst st)" raw "map snd nfs"] by auto
  obtain r st1 where p: "process_frame pl raw st = (r, st1)" by (cases "process_frame pl raw st")
  show ?case
  proof (cases "r = Inr Continue")
    case True
    note recv = process_data_recv[OF f(1-3) p]
    then have "process_frames pl (replicate n raw @ concat (map (\<lambda>(n, raw). replicate (Suc n) raw) nfs)) st1 =
        process_frames pl (map snd nfs) st1"
      using process_frames_dup[OF f(1,2)] Cons.IH[of st1] f(3,4) by simp
    then show ?thesis using p True nf by simp
  next
    case False
    then show ?thesis using p nf by (auto split: sum.splits process_frame_result.splits)
  qed
qed simp

lemma same_shared: "\<exists>fs. sh = sh\<lparr>sh_db := (sh_db sh)\<lparr>db_faults := fs\<rparr>\<rparr>"
  by (rule exI[of _ "db_faults (sh_db sh)"]) simp

lemma data_frame_gate:
  assumes "process_data_frame pl data st = (r, st')" "core st = (None, sh)"
  shows "(\<exists>fs. snd st' = sh\<lparr>sh_db := (sh_db sh)\<lparr>db_faults := fs\<rparr>\<rparr>) \<and>
    (\<forall>v. ss_vipc (fst st') = Some v \<longrightarrow>
       (\<exists>ps x. data_frame_request_try_from_slice data = Inr (ReqSignOn ps) \<and> [] \<notin> set (sign_on_names ps) \<and>
          x \<in> signing_users ps (sh_db sh) \<and> us_password (fst x) = property_of ps PROPERTY_PASSWORD \<and>
          v = vipc_new (user_account x) (snd st')))"
proof -
  obtain s where st: "st = (s, sh)" and none: "ss_vipc s = None" using assms(2) by (cases st) (auto simp: core_def)
  have quiet: ?thesis if "core st' = (None, sh)" using that same_shared by (auto simp: core_def)
  have resp: "core (snd (respond q (s1, sh1))) = (ss_vipc s1, sh1)" for q s1 sh1
    using respond_link[of "(s1, sh1)" q] by (simp add: link_only_def core_def)
  show ?thesis
  proof (cases "data_frame_request_try_from_slice data")
    case (Inl e)
    then show ?thesis using assms st quiet by (simp add: process_data_frame_def)
  next
    case (Inr req)
    show ?thesis
    proof (cases req)
      case (ReqSignOn ps)
      obtain q db where a: "authenticate ps (sh_db sh) = (q, db)" by fastforce
      obtain fs where fs: "db = (sh_db sh)\<lparr>db_faults := fs\<rparr>" using authenticate_sound[OF a] by blast
      have on: "sign_on ps st = (r, st')" using assms(1) Inr ReqSignOn by (simp add: process_data_frame_def)
      show ?thesis
      proof (cases q)
        case (Inl status)
        then have "core st' = (None, sh\<lparr>sh_db := db\<rparr>)"
          using on a none resp[of "RespSignOn status SERVER_NAME" s "sh\<lparr>sh_db := db\<rparr>"] by (simp add: sign_on_def st Let_def)
        then show ?thesis using fs by (auto simp: core_def)
      next
        case (Inr acc)
        let ?sh = "sh\<lparr>sh_db := db\<rparr>"
        have "core st' = (Some (vipc_new acc ?sh), ?sh)"
          using on a Inr resp[of "RespSignOn STATUS_OK SERVER_NAME" "s\<lparr>ss_vipc := Some (vipc_new acc ?sh)\<rparr>" ?sh]
          by (simp add: sign_on_def st Let_def)
        moreover obtain x where "[] \<notin> set (sign_on_names ps)" "x \<in> signing_users ps (sh_db sh)"
          "acc = user_account x" "us_password (fst x) = property_of ps PROPERTY_PASSWORD"
          using authenticate_sound[OF a] Inr by blast
        ultimately show ?thesis
          using fs ReqSignOn \<open>data_frame_request_try_from_slice data = Inr req\<close>
          by (intro conjI exI[of _ fs] allI impI exI[of _ ps] exI[of _ x]) (simp_all add: core_def)
      qed
    next
      case (ReqMsg header payload)
      then have "st' = st" using assms(1) Inr st none by (simp add: process_data_frame_def process_msg_def)
      then show ?thesis using quiet assms(2) by simp
    next
      case ReqSignOff
      then show ?thesis using assms(1) Inr st quiet by (auto simp: process_data_frame_def sign_off_def core_def)
    next
      case (ReqConnect header path)
      then show ?thesis
        using assms(1) Inr st none quiet resp[of _ s sh] by (simp add: process_data_frame_def connect_def Let_def) (metis snd_conv)
    next
      case (ReqDisconnect header reason)
      then show ?thesis
        using assms(1) Inr st none quiet resp[of _ s sh] by (simp add: process_data_frame_def disconnect_def) (metis snd_conv)
    qed
  qed
qed

text \<open>A frame either leaves the services and the shared state alone, or is a data frame in sequence
  whose request is processed.\<close>

lemma frame_cases:
  assumes "process_frame pl raw st = (r, st')"
  obtains (link) "link_only st st'"
  | (request) f data st1 r1 where "frame_try_from_raw raw = Inr f" "frame_body f = Data data"
      "frame_seq_number f = ss_recv_sequence (fst st) + 1" "link_only st st1" "process_data_frame pl data st1 = (r1, st')"
proof (cases "frame_try_from_raw raw")
  case (Inl e)
  then show thesis using assms link by (simp add: process_frame_def process_frame_inner_def)
next
  case (Inr f)
  have w: "link_only st (snd (st_then (write_frame g st1) (\<lambda>_ st. (Inr Continue, st))))"
    "link_only st (snd (st_then (write_ack st1) (\<lambda>_ st. (Inr Continue, st))))" if l: "link_only st st1" for g st1
  proof -
    show "link_only st (snd (st_then (write_frame g st1) (\<lambda>_ st. (Inr Continue, st))))"
      by (rule st_then_link) (use link_only_trans[OF l write_frame_link] in simp_all)
    show "link_only st (snd (st_then (write_ack st1) (\<lambda>_ st. (Inr Continue, st))))"
      by (rule st_then_link) (use link_only_trans[OF l write_ack_link] in simp_all)
  qed
  show thesis
  proof (cases "\<exists>data. frame_body f = Data data \<and> frame_seq_number f = ss_recv_sequence (fst st) + 1")
    case True
    then obtain data where d: "frame_body f = Data data" "frame_seq_number f = ss_recv_sequence (fst st) + 1" by blast
    let ?p = "write_ack (set_recv (frame_seq_number f) st)"
    obtain x st1 where p: "?p = (x, st1)" by (cases ?p)
    have l: "link_only st st1"
      using write_ack_link[of "set_recv (frame_seq_number f) st"] p link_only_trans[OF set_recv_link] by (metis snd_conv)
    have st': "st' = snd (st_then ?p (\<lambda>_. process_data_frame pl data))"
      using assms d(2) by (auto simp: process_data[OF Inr d(1)] split: prod.splits)
    show thesis
    proof (cases x)
      case (Inl e)
      then show thesis using link l st' p by simp
    next
      case (Inr u)
      then have "process_data_frame pl data st1 = (fst (process_data_frame pl data st1), st')" using st' p by simp
      then show thesis using request[OF \<open>frame_try_from_raw raw = Inr f\<close> d l] by blast
    qed
  next
    case False
    have "link_only st (snd (process_frame_inner pl raw st))"
      using Inr False w(1)[OF set_recv_link] w(2)[OF link_only_refl]
      by (auto simp: process_frame_inner_def Let_def split: frame_body.splits)
    then show thesis using assms link by (auto simp: process_frame_def split: prod.splits)
  qed
qed

lemma frame_keeps_id: "process_frame pl raw st = (r, st') \<Longrightarrow> ss_connection_id (fst st') = ss_connection_id (fst st)"
proof (erule frame_cases)
  fix f data st1 r1 assume "link_only st st1" "process_data_frame pl data st1 = (r1, st')"
  then show ?thesis using data_frame_same_recv[of st1 pl data] by (simp add: link_only_def same_recv_def)
qed (simp add: link_only_def)

section \<open>Lemmas: a request and its answer on the wire\<close>

definition message_bytes :: "message_type \<Rightarrow> u16 \<Rightarrow> bytes \<Rightarrow> bytes" where
  "message_bytes ty n payload = u16_to_le ty @ u16_to_le n @ u16_to_le (of_nat (length payload)) @ payload"

definition request_frame :: "byte \<Rightarrow> connect_header \<Rightarrow> bytes \<Rightarrow> raw_frame" where
  "request_frame seq header message =
     \<lparr>raw_data = frame_write_into (frame_data EOM_FLAG_ON seq (encode_request (ReqMsg header message))) []\<rparr>"

definition answer_frame :: "byte \<Rightarrow> connect_header \<Rightarrow> bytes \<Rightarrow> frame" where
  "answer_frame seq header message =
     frame_data EOM_FLAG_ON seq (u16_to_le 0 @ u16_to_le (remote_path_id header) @ u16_to_le (local_path_id header) @ message)"

lemma request_frame_parse:
  "frame_try_from_raw (request_frame seq header message) = Inr (frame_data EOM_FLAG_ON seq (encode_request (ReqMsg header message)))"
  by (simp add: request_frame_def frame_parse_write)

lemma request_msg_parse: "data_frame_request_try_from_slice (encode_request (ReqMsg header message)) = Inr (ReqMsg header message)"
  using request_parse_encode[of "ReqMsg header message" "[]"] by simp

lemma message_bytes_parse:
  "length payload < 65536 \<Longrightarrow>
     incoming_message_try_from_slice (message_bytes ty n payload) = Inr \<lparr>in_note = n, in_ty = ty, in_payload = payload\<rparr>"
  by (simp add: message_parse_iff message_bytes_def)

text \<open>On a link that takes everything, a frame written is one run of bytes more.\<close>

definition sent_more :: "bytes \<Rightarrow> session \<Rightarrow> session" where
  "sent_more bs s = s\<lparr>ss_client := (ss_client s)\<lparr>sent := sent (ss_client s) @ bs\<rparr>\<rparr>"

lemma sent_more_fields [simp]:
  "ss_vipc (sent_more bs s) = ss_vipc s" "ss_connection_id (sent_more bs s) = ss_connection_id s"
  "ss_last_seq_number (sent_more bs s) = ss_last_seq_number s" "ss_recv_sequence (sent_more bs s) = ss_recv_sequence s"
  "room (ss_client (sent_more bs s)) = room (ss_client s)" "sent (ss_client (sent_more bs s)) = sent (ss_client s) @ bs"
  by (simp_all add: sent_more_def)

lemma sent_more_sum [simp]: "sent_more bs (sent_more bs' s) = sent_more (bs' @ bs) s" "sent_more [] s = s"
  by (simp_all add: sent_more_def)

lemma write_frame_open:
  "room (ss_client s) = None \<Longrightarrow> write_frame f (s, sh) = (Inr (), sent_more (frame_bytes (frame_write_into f [])) s, sh)"
  by (simp add: write_frame_def write_data_to_io_unlimited sent_more_def)

lemma send_one_open:
  assumes "room (ss_client s) = None" "outgoing_message_write_into m [] = Inr message"
  shows "send_messages header [m] (s, sh) =
    (Inr (), sent_more (frame_bytes (frame_write_into (answer_frame (ss_last_seq_number s + 1) header message) []))
       (s\<lparr>ss_last_seq_number := ss_last_seq_number s + 1\<rparr>), sh)"
  using assms
  by (simp add: respond_def data_frame_response_write_into_def write_u16_def write_connect_header_def write_all_def
      write_response_def Let_def write_data_to_io_unlimited sent_more_def answer_frame_def)

lemma file_message:
  assumes "vfs_request_try_from_slice payload = Inr request" "length payload < 65536"
    "vipc_vfs_request pl request v sh = (response, v', sh')" "vfs_response_write_into response [] = Inr d"
  shows "vipc_process_message pl (message_bytes CLASS_VFS n payload) v sh =
    (Inr [\<lparr>out_note = n, out_ty = CLASS_VFS, out_payload = d\<rparr>], v', sh')"
  using assms by (simp add: vipc_process_message_def message_bytes_parse)

lemma set_recv_fields [simp]:
  "set_recv q (s, sh) = (s\<lparr>ss_recv_sequence := q\<rparr>, sh)"
  by (simp add: set_recv_def)

text \<open>A data frame out of sequence is answered with the last acknowledgement, each time it comes.\<close>

definition ack_bytes :: "session \<Rightarrow> bytes" where
  "ack_bytes s = frame_bytes (frame_write_into (frame_ack (ss_connection_id s) (ss_recv_sequence s)) [])"

lemma process_frames_stray:
  assumes "frame_try_from_raw raw = Inr f" "frame_body f = Data d"
    "frame_seq_number f \<noteq> ss_recv_sequence s" "frame_seq_number f \<noteq> ss_recv_sequence s + 1" "room (ss_client s) = None"
  shows "process_frames pl (replicate n raw) (s, sh) = (Inr Continue, sent_more (concat (replicate n (ack_bytes s))) s, sh)"
  using assms(3-5)
proof (induction n arbitrary: s)
  case (Suc n)
  have "process_frame pl raw (s, sh) = (Inr Continue, sent_more (ack_bytes s) s, sh)"
    using Suc.prems by (simp add: process_data[OF assms(1,2)] write_ack_def write_frame_open ack_bytes_def)
  moreover have "ack_bytes (sent_more (ack_bytes s) s) = ack_bytes s" by (simp add: ack_bytes_def)
  ultimately show ?case using Suc.IH[of "sent_more (ack_bytes s) s"] Suc.prems by simp
qed simp

section \<open>Properties\<close>

text \<open>C11: sign-on is exact: on a well-formed, readable directory, the names given sign on exactly the one
  account that carries them, up to case, and only with its exact password; a wrong password and an
  unknown account (which names that are not UTF-8 always are) are told apart, and an empty name never
  reaches the lookup.\<close>

theorem authenticate_exact:
  assumes "db_wf db" "db_faults db = []"
  shows "authenticate ps db =
      (if [] \<in> set (sign_on_names ps) then Inl STATUS_PROPERTY_MISSING
       else if signing_users ps db = {} \<or> \<not> list_all utf8_valid (sign_on_names ps) then Inl STATUS_UNKNOWN_USER
       else let x = the_elem (signing_users ps db) in
         if us_password (fst x) = property_of ps PROPERTY_PASSWORD then Inr (user_account x)
         else Inl STATUS_INVALID_PASSWORD, db) \<and>
    (\<forall>x \<in> signing_users ps db. \<forall>y \<in> signing_users ps db. x = y)"
proof -
  have unique: "\<forall>x \<in> signing_users ps db. \<forall>y \<in> signing_users ps db. x = y"
    using named_users_unique[OF assms(1)] by (auto simp: signing_users_def)
  show ?thesis
  proof (cases "list_all (\<lambda>n. n \<noteq> [] \<and> utf8_valid n) (sign_on_names ps)")
    case False
    then have "[] \<in> set (sign_on_names ps) \<or> \<not> list_all utf8_valid (sign_on_names ps)" by (auto simp: list_all_iff)
    with False unique show ?thesis by (auto simp: authenticate_other)
  next
    case names: True
    then have False: "[] \<notin> set (sign_on_names ps)" and utf8: "list_all utf8_valid (sign_on_names ps)"
      by (auto simp: list_all_iff)
    show ?thesis
    proof (cases "signing_users ps db = {}")
      case True
      then show ?thesis using False authenticate_unknown[OF assms(2) names] by simp
    next
      case nonempty: False
      then obtain x where x: "signing_users ps db = {x}" using unique by blast
      then have "authenticate ps db = (if us_password (fst x) = property_of ps PROPERTY_PASSWORD
          then Inr (user_account x) else Inl STATUS_INVALID_PASSWORD, db)"
        using authenticate_complete[OF assms(1,2) names, of x] by simp
      then show ?thesis using False x utf8 by simp
    qed
  qed
qed

definition sysuser_properties :: "sign_on_property list" where
  "sysuser_properties =
     [\<lparr>property_ty = PROPERTY_COMPANY, property_value = bstr ''grid systems''\<rparr>,
      \<lparr>property_ty = PROPERTY_GROUP, property_value = bstr ''Default Group''\<rparr>,
      \<lparr>property_ty = PROPERTY_USER, property_value = bstr ''SYSUSER''\<rparr>,
      \<lparr>property_ty = PROPERTY_PASSWORD, property_value = bstr ''Sysuser''\<rparr>]"

lemma sysuser_values:
  "property_of sysuser_properties PROPERTY_COMPANY = bstr ''grid systems''"
  "property_of sysuser_properties PROPERTY_GROUP = bstr ''Default Group''"
  "property_of sysuser_properties PROPERTY_USER = bstr ''SYSUSER''"
  "property_of sysuser_properties PROPERTY_PASSWORD = bstr ''Sysuser''"
  by (simp_all add: property_of_def sysuser_properties_def PROPERTY_COMPANY_def PROPERTY_GROUP_def
      PROPERTY_USER_def PROPERTY_PASSWORD_def)

lemma sysuser_signs:
  "signing_users sysuser_properties initial_database =
     {(hd (db_users initial_database), hd (db_groups initial_database), hd (db_companies initial_database))}"
  by (auto simp: signing_users_def sysuser_values set_named_users initial_database_def bstr_def nocase_def
      to_ascii_lowercase_def)

lemma sysuser_names:
  "[] \<notin> set (sign_on_names sysuser_properties)" "list_all utf8_valid (sign_on_names sysuser_properties)"
proof -
  have "is_ascii (bstr ''grid systems'')" "is_ascii (bstr ''Default Group'')" "is_ascii (bstr ''SYSUSER'')"
    by (simp_all add: is_ascii_def bstr_def)
  then show "[] \<notin> set (sign_on_names sysuser_properties)" "list_all utf8_valid (sign_on_names sysuser_properties)"
    by (simp_all add: sign_on_names_def sysuser_values ascii_utf8 bstr_def)
qed

theorem authenticate_exact_witness:
  "fst (authenticate sysuser_properties initial_database) =
     Inr (user_account (hd (db_users initial_database), hd (db_groups initial_database), hd (db_companies initial_database)))"
proof -
  have "db_faults initial_database = []" by (simp add: initial_database_def)
  from authenticate_exact[OF db_wf_initial this, of sysuser_properties] show ?thesis
    using sysuser_names by (simp add: sysuser_signs sysuser_values Let_def) (simp add: initial_database_def)
qed

text \<open>C3: nothing is reached before sign-on: while a session is not signed on, no frame it receives changes
  the accounts, the mail, the file ids or the host, and the services appear only through an in-sequence
  sign-on request that names an account and carries its password.\<close>

theorem sign_on_gate:
  assumes "process_frame pl raw (s, sh) = (r, s', sh')" "ss_vipc s = None"
  shows "(\<exists>fs. sh' = sh\<lparr>sh_db := (sh_db sh)\<lparr>db_faults := fs\<rparr>\<rparr>) \<and>
    (case ss_vipc s' of None \<Rightarrow> True
     | Some v \<Rightarrow> \<exists>f data ps x. frame_try_from_raw raw = Inr f \<and> frame_body f = Data data \<and>
         frame_seq_number f = ss_recv_sequence s + 1 \<and>
         data_frame_request_try_from_slice data = Inr (ReqSignOn ps) \<and> [] \<notin> set (sign_on_names ps) \<and>
         x \<in> signing_users ps (sh_db sh) \<and> us_password (fst x) = property_of ps PROPERTY_PASSWORD \<and>
         v = vipc_new (user_account x) sh')"
  using assms(1)
proof (cases rule: frame_cases)
  case link
  then have "ss_vipc s' = None" "sh' = sh" using assms(2) by (auto simp: link_only_def core_def)
  then show ?thesis using same_shared by simp
next
  case (request f data st1 r1)
  have "core st1 = (None, sh)" using request(4) assms(2) by (auto simp: link_only_def core_def)
  from data_frame_gate[OF request(5) this] request(1-3) show ?thesis by (auto split: option.split)
qed

text \<open>A first session on a fresh installation, and its sign-on as the seeded administrator.\<close>

definition sample_platform :: platform where
  "sample_platform = \<lparr>pl_ne = simd_ne_ref, pl_xattr = xattr_ref, pl_zone = (\<lambda>_. None)\<rparr>"

definition sample_shared :: shared where
  "sample_shared = \<lparr>sh_db = initial_database, sh_dirman = fp_dirman sample_proxy, sh_host = fp_host sample_proxy\<rparr>"

definition sample_session :: session where
  "sample_session = session_new \<lparr>sent = [], room = None\<rparr> 1 5"

definition sign_on_frame :: "byte \<Rightarrow> raw_frame" where
  "sign_on_frame seq =
     \<lparr>raw_data = frame_write_into (frame_data EOM_FLAG_ON seq (encode_request (ReqSignOn sysuser_properties))) []\<rparr>"

lemma sign_on_frame_parse:
  "frame_try_from_raw (sign_on_frame seq) = Inr (frame_data EOM_FLAG_ON seq (encode_request (ReqSignOn sysuser_properties)))"
  by (simp add: sign_on_frame_def frame_parse_write)

lemma sysuser_encodable: "request_encodable (ReqSignOn sysuser_properties)"
  by (simp add: sysuser_properties_def)

lemma sign_on_request_parse:
  "data_frame_request_try_from_slice (encode_request (ReqSignOn sysuser_properties)) = Inr (ReqSignOn sysuser_properties)"
  using request_parse_encode[OF sysuser_encodable, of "[]"] by simp

lemma frame_data_fields [simp]:
  "frame_body (frame_data fl q b) = Data b" "frame_seq_number (frame_data fl q b) = q"
  by (simp_all add: frame_data_def)

theorem sign_on_gate_witness:
  "\<exists>r s' sh'. process_frame sample_platform (sign_on_frame 6) (sample_session, sample_shared) = (r, s', sh') \<and>
     (\<exists>fs. sh' = sample_shared\<lparr>sh_db := (sh_db sample_shared)\<lparr>db_faults := fs\<rparr>\<rparr>)"
proof -
  obtain r s' sh' where p: "process_frame sample_platform (sign_on_frame 6) (sample_session, sample_shared) = (r, s', sh')"
    by (cases "process_frame sample_platform (sign_on_frame 6) (sample_session, sample_shared)") auto
  have "ss_vipc sample_session = None" by (simp add: sample_session_def session_new_def)
  from sign_on_gate[OF p this] p show ?thesis by blast
qed

text \<open>C10: a client that sends its data frames in sequence, each any number of times in a row because it
  missed the acknowledgement, brings the session, the shared state and everything the server sends to
  exactly the state that sending each of them once does. A data frame out of sequence, neither the last
  one taken nor the next, is never processed: on an open link every copy of it is answered with the
  acknowledgement of the last frame taken, and nothing else changes.\<close>

theorem retransmissions_have_no_effect:
  assumes "numbered (ss_recv_sequence s) (map snd nfs)"
    "frame_try_from_raw stray = Inr f" "frame_body f = Data d"
    "frame_seq_number f \<noteq> ss_recv_sequence s" "frame_seq_number f \<noteq> ss_recv_sequence s + 1" "room (ss_client s) = None"
  shows "process_frames pl (concat (map (\<lambda>(n, raw). replicate (Suc n) raw) nfs)) (s, sh) =
      process_frames pl (map snd nfs) (s, sh) \<and>
    process_frames pl (replicate n stray) (s, sh) = (Inr Continue, sent_more (concat (replicate n (ack_bytes s))) s, sh)"
  using process_frames_stutter[of "(s, sh)"] process_frames_stray[OF assms(2-6)] assms(1) by simp

theorem retransmissions_have_no_effect_witness:
  "numbered 5 [sign_on_frame 6, sign_on_frame 7] \<and>
   process_frames sample_platform (replicate 3 (sign_on_frame 6) @ replicate 2 (sign_on_frame 7)) (sample_session, sample_shared) =
   process_frames sample_platform [sign_on_frame 6, sign_on_frame 7] (sample_session, sample_shared) \<and>
   process_frames sample_platform [sign_on_frame 9, sign_on_frame 9] (sample_session, sample_shared) =
     (Inr Continue, sent_more (ack_bytes sample_session @ ack_bytes sample_session) sample_session, sample_shared)"
proof -
  have n: "numbered 5 [sign_on_frame 6, sign_on_frame 7]" by (simp add: sign_on_frame_parse)
  have r: "ss_recv_sequence sample_session = 5" "room (ss_client sample_session) = None"
    by (simp_all add: sample_session_def session_new_def)
  have "numbered (ss_recv_sequence sample_session) (map snd [(2, sign_on_frame 6), (1 :: nat, sign_on_frame 7)])"
    using n by (simp add: r)
  note both = retransmissions_have_no_effect[OF this sign_on_frame_parse[of 9] frame_data_fields(1)]
  have "(9 :: byte) \<noteq> 5" "(9 :: byte) \<noteq> 5 + 1" by simp_all
  then have "frame_seq_number (frame_data EOM_FLAG_ON 9 (encode_request (ReqSignOn sysuser_properties))) \<noteq> ss_recv_sequence sample_session"
    "frame_seq_number (frame_data EOM_FLAG_ON 9 (encode_request (ReqSignOn sysuser_properties))) \<noteq> ss_recv_sequence sample_session + 1"
    unfolding r frame_data_fields by blast+
  from both[OF this r(2), of sample_platform sample_shared 2] n show ?thesis by (simp add: numeral_eq_Suc del: process_frames.simps)
qed

text \<open>C16: the loop of a session always ends: whatever bytes arrive, it handles the frames they hold, at
  most one for every four bytes, in order and up to the first that ends the session; when no frame does,
  the session ends quietly at the end of the stream and with the error of the link otherwise.\<close>

theorem session_loop_ends:
  "session_loop pl client st =
     (case frames_of client of (raws, e) \<Rightarrow>
        case process_frames pl raws st of
          (Inl k, st) \<Rightarrow> (Inl k, st)
        | (Inr Disconnect, st) \<Rightarrow> (Inr (), st)
        | (Inr Continue, st) \<Rightarrow> (stream_end e, st)) \<and>
   4 * length (fst (frames_of client)) \<le> length (in_bytes client)"
  using session_loop_frames frames_of_bounded by blast

text \<open>C8: a file request of a signed-on session is carried out and answered: when it comes on an open link with
  the next sequence number, the session acknowledges it and sends one data frame, the next in its own numbering, with the encoding of the
  service's response under the note of the request; both frames are within the size the link's reader
  accepts, so the client reads back exactly these two.\<close>

theorem file_request_answered:
  assumes "xattr_keeps_nodes (pl_xattr pl)" "shared_ok root sh" "ss_vipc s = Some v" "acts_for root a v"
    "room (ss_client s) = None" "vfs_request_try_from_slice payload = Inr request" "length payload < 65536"
    "vipc_vfs_request pl request v sh = (response, v', sh')"
  shows "\<exists>s' new. process_frame pl (request_frame (ss_recv_sequence s + 1) header (message_bytes CLASS_VFS n payload)) (s, sh) =
      (Inr Continue, s', sh') \<and> ss_vipc s' = Some v' \<and> sent (ss_client s') = sent (ss_client s) @ new \<and>
    (\<forall>rest k. \<exists>ack src reply.
       read_from_io \<lparr>in_bytes = new @ rest, in_end = k\<rparr> = Inr (ack, src) \<and>
       read_from_io src = Inr (reply, \<lparr>in_bytes = rest, in_end = k\<rparr>) \<and>
       frame_try_from_raw ack = Inr (frame_ack (ss_connection_id s) (ss_recv_sequence s + 1)) \<and>
       frame_try_from_raw reply = Inr (answer_frame (ss_last_seq_number s + 1) header
         (message_bytes CLASS_VFS n (response_bytes response))))"
proof -
  let ?q = "ss_recv_sequence s + 1" and ?l = "ss_last_seq_number s + 1"
  let ?m = "message_bytes CLASS_VFS n payload"
  let ?raw = "request_frame ?q header ?m"
  let ?ack = "frame_write_into (frame_ack (ss_connection_id s) ?q) []"
  let ?answer = "answer_frame ?l header (message_bytes CLASS_VFS n (response_bytes response))"
  let ?reply = "frame_write_into ?answer []"
  have "is_ok (vfs_response_write_into response [])" using vfs_request_acts_for[OF assms(1,2,4,8)] by blast
  then have w: "vfs_response_write_into response [] = Inr (response_bytes response)"
    and len: "length (response_bytes response) \<le> 514"
    using vfs_response_write_eq[of response "[]"] by (auto simp: is_ok_iff)
  note msg = file_message[OF assms(6-8) w, of n]
  have out: "outgoing_message_write_into \<lparr>out_note = n, out_ty = CLASS_VFS, out_payload = response_bytes response\<rparr> [] =
      Inr (message_bytes CLASS_VFS n (response_bytes response))"
    using len by (simp add: message_write_Inr message_bytes_def)
  let ?s1 = "sent_more (frame_bytes ?ack) (s\<lparr>ss_recv_sequence := ?q\<rparr>)"
  let ?s2 = "?s1\<lparr>ss_vipc := Some v'\<rparr>"
  let ?s' = "sent_more (frame_bytes ?reply) (?s2\<lparr>ss_last_seq_number := ?l\<rparr>)"
  have ack: "write_ack (set_recv ?q (s, sh)) = (Inr (), ?s1, sh)"
    using write_frame_open[of "s\<lparr>ss_recv_sequence := ?q\<rparr>"] assms(5) by (simp add: write_ack_def)
  have "process_data_frame pl (encode_request (ReqMsg header ?m)) (?s1, sh) = (Inr (), ?s', sh')"
    using send_one_open[OF _ out, of ?s2 header sh'] assms(3,5) msg
    by (simp add: process_data_frame_def request_msg_parse process_msg_def Let_def del: encode_request.simps)
  then have "process_frame pl ?raw (s, sh) = (Inr Continue, ?s', sh')"
    using ack by (simp add: process_data[OF request_frame_parse frame_data_fields(1)] del: encode_request.simps set_recv_fields)
  moreover have "sent (ss_client ?s') = sent (ss_client s) @ frame_bytes ?ack @ frame_bytes ?reply"
    by (simp add: sent_more_def)
  moreover have "length ?ack \<le> MAX_FRAME_SIZE" "length ?reply \<le> MAX_FRAME_SIZE"
    using len by (simp_all add: frame_write_into_def frame_ack_def answer_frame_def frame_data_def message_bytes_def MAX_FRAME_SIZE_def)
  then have "read_from_io \<lparr>in_bytes = (frame_bytes ?ack @ frame_bytes ?reply) @ rest, in_end = k\<rparr> =
        Inr (\<lparr>raw_data = ?ack\<rparr>, \<lparr>in_bytes = frame_bytes ?reply @ rest, in_end = k\<rparr>)"
      "read_from_io \<lparr>in_bytes = frame_bytes ?reply @ rest, in_end = k\<rparr> =
        Inr (\<lparr>raw_data = ?reply\<rparr>, \<lparr>in_bytes = rest, in_end = k\<rparr>)" for rest k
    using read_frame_bytes by simp_all
  moreover have "frame_try_from_raw \<lparr>raw_data = ?ack\<rparr> = Inr (frame_ack (ss_connection_id s) ?q)"
    "frame_try_from_raw \<lparr>raw_data = ?reply\<rparr> = Inr ?answer"
    by (simp_all add: frame_parse_write answer_frame_def)
  ultimately show ?thesis by (intro exI[of _ ?s'] exI[of _ "frame_bytes ?ack @ frame_bytes ?reply"]) auto
qed

definition sysuser_account :: account where
  "sysuser_account = user_account (hd (db_users initial_database), hd (db_groups initial_database), hd (db_companies initial_database))"

definition signed_on_session :: session where
  "signed_on_session = sample_session\<lparr>ss_vipc := Some (vipc_new sysuser_account sample_shared)\<rparr>"

lemma sample_shared_ok: "shared_ok (bstr ''/r'') sample_shared"
proof -
  have "no_parent_dirs (bstr ''/r'')" by (simp add: no_parent_dirs_def bstr_def SLASH_def)
  then show ?thesis by (simp add: shared_ok_def sample_shared_def sample_proxy_def bstr_def)
qed

definition flush_request :: vfs_request where
  "flush_request = \<lparr>vr_header = \<lparr>vh_request = 14, vh_requestors_conn_id = 5, vh_servers_conn_id = 9\<rparr>, vr_body = BFlush\<rparr>"

lemma flush_request_parse: "vfs_request_try_from_slice (u16_to_le 14 @ u16_to_le 5 @ u16_to_le 9) = Inr flush_request"
  by code_simp

theorem file_request_answered_witness:
  "\<exists>v' sh' s' new. process_frame sample_platform
      (request_frame 6 \<lparr>local_path_id = 1, remote_path_id = 2\<rparr> (message_bytes CLASS_VFS 7 (u16_to_le 14 @ u16_to_le 5 @ u16_to_le 9)))
      (signed_on_session, sample_shared) = (Inr Continue, s', sh') \<and> ss_vipc s' = Some v' \<and> sent (ss_client s') = new"
proof -
  let ?v = "vipc_new sysuser_account sample_shared"
  obtain response v' sh' where r: "vipc_vfs_request sample_platform flush_request ?v sample_shared = (response, v', sh')"
    by (cases "vipc_vfs_request sample_platform flush_request ?v sample_shared") auto
  have x: "xattr_keeps_nodes (pl_xattr sample_platform)" by (simp add: sample_platform_def xattr_ref_keeps_nodes)
  have f: "ss_vipc signed_on_session = Some ?v" "room (ss_client signed_on_session) = None"
    "ss_recv_sequence signed_on_session = 5"
    by (simp_all add: signed_on_session_def sample_session_def session_new_def)
  have l: "length (u16_to_le 14 @ u16_to_le 5 @ u16_to_le 9) < 65536" by simp
  from file_request_answered[OF x sample_shared_ok f(1) acts_for_new f(2) flush_request_parse l r,
      of "\<lparr>local_path_id = 1, remote_path_id = 2\<rparr>" 7] f(3)
  show ?thesis by auto
qed

lemma sysuser_authenticates: "authenticate sysuser_properties initial_database = (Inr sysuser_account, initial_database)"
proof -
  have f: "db_faults initial_database = []" by (simp add: initial_database_def)
  let ?x = "(hd (db_users initial_database), hd (db_groups initial_database), hd (db_companies initial_database))"
  have p: "us_password (fst ?x) = bstr ''Sysuser''" by (simp add: initial_database_def)
  have n: "list_all (\<lambda>n. n \<noteq> [] \<and> utf8_valid n) (sign_on_names sysuser_properties)"
    using sysuser_names by (auto simp: list_all_iff)
  show ?thesis
    using authenticate_complete[OF db_wf_initial f n, of ?x] p by (simp add: sysuser_signs sysuser_values sysuser_account_def)
qed

lemma sign_on_frame_open:
  assumes "room (ss_client s) = None" "seq = ss_recv_sequence s + 1" "sh_db sh = initial_database"
  shows "\<exists>s'. process_frame pl (sign_on_frame seq) (s, sh) = (Inr Continue, s', sh) \<and>
     ss_vipc s' = Some (vipc_new sysuser_account sh)"
proof -
  let ?s1 = "sent_more (frame_bytes (frame_write_into (frame_ack (ss_connection_id s) seq) [])) (s\<lparr>ss_recv_sequence := seq\<rparr>)"
  have ack: "write_ack (set_recv seq (s, sh)) = (Inr (), ?s1, sh)"
    using write_frame_open[of "s\<lparr>ss_recv_sequence := seq\<rparr>"] assms(1) by (simp add: write_ack_def)
  have sh: "sh\<lparr>sh_db := initial_database\<rparr> = sh" using assms(3) by (cases sh) simp
  have "length SERVER_NAME = 16" by (simp add: SERVER_NAME_def bstr_def)
  then have name: "write_u8_slice SERVER_NAME dst = Inr (dst @ of_nat (length SERVER_NAME) # SERVER_NAME)" for dst
    by (simp add: write_u8_slice_Inr)
  have "\<exists>s'. respond (RespSignOn STATUS_OK SERVER_NAME) (s2, sh) = (Inr (), s', sh) \<and> ss_vipc s' = ss_vipc s2"
    if "room (ss_client s2) = None" for s2
    using that
    by (simp add: respond_def data_frame_response_write_into_def write_u16_def name write_response_def
        Let_def write_data_to_io_unlimited)
  from this[of "?s1\<lparr>ss_vipc := Some (vipc_new sysuser_account sh)\<rparr>"] obtain s' where
    "respond (RespSignOn STATUS_OK SERVER_NAME) (?s1\<lparr>ss_vipc := Some (vipc_new sysuser_account sh)\<rparr>, sh) = (Inr (), s', sh)"
    "ss_vipc s' = Some (vipc_new sysuser_account sh)"
    using assms(1) by auto
  then have "process_data_frame pl (encode_request (ReqSignOn sysuser_properties)) (?s1, sh) = (Inr (), s', sh) \<and>
      ss_vipc s' = Some (vipc_new sysuser_account sh)"
    using assms(3)
    by (simp add: process_data_frame_def sign_on_request_parse sign_on_def sysuser_authenticates sh Let_def del: encode_request.simps)
  then show ?thesis
    using ack assms(2)
    by (auto simp: process_data[OF sign_on_frame_parse frame_data_fields(1)] simp del: encode_request.simps set_recv_fields)
qed


end
