(* ===== verification/Web_Admin.thy ===== *)
theory Web_Admin
  imports Db_Mailbox Sentry
begin

text \<open>
  \<^verbatim>\<open>Server/src/web/mod.rs\<close>: the administration pages, which share the database with the sessions.
  The HTTP server, the template engine and the decoding of forms are other people's code: a request
  arrives with its method, URL and body, form decoding (\<open>serde_urlencoded\<close>) and rendering
  (\<open>minijinja\<close>) are the fields of \<open>web_api\<close>, and the image is a constant of it. The values a page is
  rendered from are built here, as the sources build them.
\<close>

section \<open>Data\<close>

record new_user =
  nu_company :: bytes
  nu_group :: bytes
  nu_user :: bytes
  nu_password :: bytes
  nu_authority :: u16

definition new_user_default :: new_user where
  "new_user_default = \<lparr>nu_company = [], nu_group = [], nu_user = [], nu_password = [], nu_authority = 0\<rparr>"

record account_query =
  aq_company :: bytes
  aq_group :: bytes
  aq_user :: bytes

definition account_query_default :: account_query where
  "account_query_default = \<lparr>aq_company = [], aq_group = [], aq_user = []\<rparr>"

record message_query =
  mq_account :: account_query
  mq_id :: u32

definition message_query_default :: message_query where
  "message_query_default = \<lparr>mq_account = account_query_default, mq_id = 0\<rparr>"

text \<open>The values of the template engine; a context is a map, here in the order it is written.\<close>

datatype web_value = VText bytes | VNum nat | VBool bool | VNone | VList "web_value list" | VMap "(string \<times> web_value) list"

type_synonym web_context = "(string \<times> web_value) list"

record web_api =
  wb_new_user :: "bytes \<Rightarrow> new_user option"
  wb_account_query :: "bytes \<Rightarrow> account_query option"
  wb_message_query :: "bytes \<Rightarrow> message_query option"
  wb_encode :: "account_query \<Rightarrow> bytes option"
  wb_render :: "string \<Rightarrow> web_context \<Rightarrow> bytes option"
  wb_logo :: bytes

record http_request =
  rq_post :: bool
  rq_url :: bytes
  rq_body :: "bytes option"

record http_response =
  rs_status :: nat
  rs_headers :: "(bytes \<times> bytes) list"
  rs_body :: bytes

datatype web_error = DbError string sql_error | MissingError string | RenderError

type_synonym 'a web_result = "(web_error + 'a) \<times> database"

text \<open>\<open>Result::context\<close> on a statement, and \<open>Option::context\<close> on what it found.\<close>

definition with_context :: "string \<Rightarrow> 'a sql_result \<Rightarrow> 'a web_result" where
  "with_context what r = (map_err (DbError what) (fst r), snd r)"

definition require :: "string \<Rightarrow> 'a option web_result \<Rightarrow> 'a web_result" where
  "require what p = st_then p (\<lambda>x db. case x of None \<Rightarrow> (Inl (MissingError what), db) | Some y \<Rightarrow> (Inr y, db))"

section \<open>Texts\<close>

definition yes_no :: "bool \<Rightarrow> bytes" where
  "yes_no v = (if v then bstr ''Yes'' else bstr ''No'')"

definition web_quota :: "u32 \<Rightarrow> bytes" where
  "web_quota v = (if v = 4294967295 then bstr ''Unlimited'' else digits (unat v))"

definition authority_name :: "authority \<Rightarrow> bytes" where
  "authority_name a =
     (if a = NORMAL then bstr ''normal user''
      else if a = GROUP_ADMIN then bstr ''group administrator''
      else if a = COMPANY_ADMIN then bstr ''company administrator''
      else if a = SYSTEM_ADMIN then bstr ''system administrator''
      else bstr ''unknown authority'')"

text \<open>\<open>{:02}\<close>, and the wall clock of the server, seconds since 1970 or nothing before it.\<close>

definition two_digits :: "nat \<Rightarrow> bytes" where
  "two_digits n = (if n < 10 then 0x30 # digits n else digits n)"

definition clock_time :: "nat option \<Rightarrow> bytes" where
  "clock_time now =
     (let secs = (case now of None \<Rightarrow> 0 | Some elapsed \<Rightarrow> elapsed); day = secs mod 86400 in
      two_digits (day div 3600) @ bstr '':'' @ two_digits (day mod 3600 div 60) @ bstr '':'' @
      two_digits (day mod 60) @ bstr '' UTC'')"

section \<open>Responses\<close>

definition html_response :: "nat \<Rightarrow> bytes \<Rightarrow> http_response" where
  "html_response status body =
     \<lparr>rs_status = status,
      rs_headers = [(bstr ''Content-Type'', bstr ''text/html; charset=iso-8859-1''), (bstr ''Cache-Control'', bstr ''no-cache'')],
      rs_body = body\<rparr>"

definition redirect :: "bytes \<Rightarrow> http_response" where
  "redirect target = \<lparr>rs_status = 302, rs_headers = [(bstr ''Location'', target)], rs_body = []\<rparr>"

definition not_found :: http_response where
  "not_found = html_response 404 (bstr ''<H1>404</H1><P>No such page.'')"

definition logo :: "web_api \<Rightarrow> http_response" where
  "logo w =
     \<lparr>rs_status = 200,
      rs_headers = [(bstr ''Content-Type'', bstr ''image/png''), (bstr ''Cache-Control'', bstr ''public, max-age=3600'')],
      rs_body = wb_logo w\<rparr>"

definition render_page :: "web_api \<Rightarrow> string \<Rightarrow> (database \<Rightarrow> web_context web_result) \<Rightarrow> database \<Rightarrow> bytes web_result" where
  "render_page w template build db =
     st_then (build db) (\<lambda>ctx db. (case wb_render w template ctx of None \<Rightarrow> Inl RenderError | Some html \<Rightarrow> Inr html, db))"

definition page :: "web_api \<Rightarrow> string \<Rightarrow> (database \<Rightarrow> web_context web_result) \<Rightarrow> database \<Rightarrow> http_response \<times> database" where
  "page w template build db =
     (case render_page w template build db of
        (Inr html, db) \<Rightarrow> (html_response 200 html, db)
      | (Inl e, db) \<Rightarrow> (html_response 500 (bstr ''<H1>500</H1><P>The page could not be rendered.''), db))"

section \<open>The account pages\<close>

definition account_row :: "account \<Rightarrow> web_value" where
  "account_row a =
     (let level = (if ac_level a = LEVEL_COMPANY then bstr ''company''
                   else if ac_level a = LEVEL_USER then bstr ''user'' else bstr ''group'');
          authority = (if ac_level a = LEVEL_USER then authority_name (ac_authority a) else [])
      in VMap [(''level'', VText level), (''company'', VText (ac_company a)), (''group'', VText (ac_group a)),
               (''user'', VText (ac_user a)), (''password'', VText (ac_password a)), (''authority'', VText authority),
               (''quota'', VText (web_quota (ac_quota a))), (''used'', VNum (unat (ac_used a)))])"

definition users_page :: "nat option \<Rightarrow> database \<Rightarrow> web_context web_result" where
  "users_page now db =
     st_then (with_context ''read the account directory'' (load_by_age db)) (\<lambda>accounts db.
       (Inr [(''title'', VText (bstr ''Users'')), (''nav'', VText (bstr ''users'')),
             (''refreshed_at'', VText (clock_time now)), (''accounts'', VList (map account_row accounts))], db))"

definition form_context :: "new_user \<Rightarrow> web_context \<Rightarrow> web_context" where
  "form_context form extra =
     [(''title'', VText (bstr ''New user'')), (''nav'', VText (bstr ''users'')),
      (''authorities'', VList (map (\<lambda>level. VMap [(''value'', VNum (unat level)), (''name'', VText (authority_name level))]) LEVELS)),
      (''company'', VText (nu_company form)), (''group'', VText (nu_group form)), (''user'', VText (nu_user form)),
      (''password'', VText (nu_password form)), (''authority'', VNum (unat (nu_authority form)))] @ extra"

definition new_user_form :: web_context where
  "new_user_form = form_context new_user_default []"

definition NEW_USER_QUOTA :: u32 where "NEW_USER_QUOTA = 4294967295"

definition validate_new_user :: "new_user \<Rightarrow> database \<Rightarrow> bytes option web_result" where
  "validate_new_user form db =
     (if nu_user form = [] then (Inr (Some (bstr ''The user name is empty.'')), db)
      else if nu_password form = [] then (Inr (Some (bstr ''The password is empty.'')), db)
      else if \<not> authority_is_defined (nu_authority form)
      then (Inr (Some (digits (unat (nu_authority form)) @ bstr '' is not an authority level.'')), db)
      else
        st_then (with_context ''read the directory'' (find_company (nu_company form) db)) (\<lambda>company db.
        if company = None then (Inr (Some (bstr ''No such company: '' @ nu_company form @ bstr ''.'')), db)
        else
        st_then (with_context ''read the directory'' (find_group (nu_company form) (nu_group form) db)) (\<lambda>grp db.
        if grp = None then (Inr (Some (bstr ''No such group: '' @ nu_group form @ bstr ''.'')), db)
        else
        st_then (with_context ''read the directory'' (find_user (nu_company form) (nu_group form) (nu_user form) db)) (\<lambda>user db.
        if user \<noteq> None then (Inr (Some (bstr ''The user '' @ nu_user form @ bstr '' already exists.'')), db)
        else (Inr None, db)))))"

definition created_alert :: "new_user \<Rightarrow> bytes" where
  "created_alert form =
     bstr ''Created the user '' @ nu_company form @ bstr ''/'' @ nu_group form @ bstr ''/'' @ nu_user form @ bstr ''.''"

definition create_user :: "new_user \<Rightarrow> database \<Rightarrow> web_context web_result" where
  "create_user form db =
     st_then (validate_new_user form db) (\<lambda>refusal db.
     case refusal of
       Some alert \<Rightarrow> (Inr (form_context form [(''alert'', VText alert)]), db)
     | None \<Rightarrow>
         st_then (require ''the group should still exist''
                    (with_context ''read the directory'' (find_group (nu_company form) (nu_group form) db))) (\<lambda>group_id db.
         st_then (with_context ''create the user''
                    (insert_user group_id (nu_user form) (nu_password form) (nu_authority form) NEW_USER_QUOTA db)) (\<lambda>_ db.
         (Inr (form_context new_user_default [(''alert'', VText (created_alert form))]), db))))"

section \<open>The mailbox pages\<close>

definition account_query_is_empty :: "account_query \<Rightarrow> bool" where
  "account_query_is_empty q \<longleftrightarrow> aq_company q = [] \<and> aq_group q = [] \<and> aq_user q = []"

definition mailbox_href :: "web_api \<Rightarrow> account_query \<Rightarrow> bytes" where
  "mailbox_href w q = bstr ''/mailbox?'' @ unwrap_or [] (wb_encode w q)"

definition message_href :: "web_api \<Rightarrow> account_query \<Rightarrow> u32 \<Rightarrow> bytes" where
  "message_href w q mail_id =
     bstr ''/mailbox/message?'' @ unwrap_or [] (wb_encode w q) @ bstr ''&id='' @ digits (unat mail_id)"

definition owner_query :: "message \<Rightarrow> account_query" where
  "owner_query m =
     \<lparr>aq_company = cr_company (me_recipient m), aq_group = cr_group (me_recipient m), aq_user = cr_name (me_recipient m)\<rparr>"

definition message_row_context :: "web_api \<Rightarrow> message \<Rightarrow> web_value" where
  "message_row_context w m =
     VMap [(''mail_id'', VNum (unat (me_mail_id m))), (''sender'', VText (correspondent_path (me_sender m))),
           (''recipient'', VText (correspondent_path (me_recipient m))), (''subject'', VText (me_subject m)),
           (''attachment'', VText (unwrap_or (bstr ''None'') (me_attachment_path m))),
           (''read'', VText (yes_no (me_is_read m))), (''href'', VText (message_href w (owner_query m) (me_mail_id m)))]"

definition mailbox_page :: "web_api \<Rightarrow> nat option \<Rightarrow> account_query \<Rightarrow> database \<Rightarrow> web_context web_result" where
  "mailbox_page w now q db =
     (let base = [(''title'', VText (bstr ''Mailbox'')), (''nav'', VText (bstr ''mailbox'')), (''company'', VText (aq_company q)),
                  (''group'', VText (aq_group q)), (''user'', VText (aq_user q))] in
      if account_query_is_empty q then (Inr base, db)
      else
        st_then (with_context ''read the mailbox''
          (mailbox_search \<lparr>mf_company = aq_company q, mf_group = aq_group q, mf_user = aq_user q\<rparr> db)) (\<lambda>messages db.
          (Inr ([(''searched'', VBool True), (''refreshed_at'', VText (clock_time now)),
                 (''messages'', VList (map (message_row_context w) messages))] @ base), db)))"

definition message_context :: "web_api \<Rightarrow> account_query \<Rightarrow> message \<Rightarrow> web_context" where
  "message_context w account m =
     [(''title'', VText (bstr ''Message'')), (''nav'', VText (bstr ''mailbox'')),
      (''mailbox_href'', VText (mailbox_href w account)),
      (''message'', VMap
         [(''mail_id'', VNum (unat (me_mail_id m))), (''sender'', VText (correspondent_path (me_sender m))),
          (''recipient'', VText (correspondent_path (me_recipient m))), (''subject'', VText (me_subject m)),
          (''body'', VText (me_body m)),
          (''attachment'', case me_attachment_path m of None \<Rightarrow> VNone | Some p \<Rightarrow> VText p),
          (''read'', VText (yes_no (me_is_read m)))])]"

definition message_page :: "web_api \<Rightarrow> message_query \<Rightarrow> database \<Rightarrow> web_context web_result" where
  "message_page w q db =
     (let account = mq_account q in
      st_then (require ''the named user should exist'' (with_context ''read the directory''
                 (find_user (aq_company account) (aq_group account) (aq_user account) db))) (\<lambda>owner db.
      st_then (require ''the named message should exist'' (with_context ''read the mailbox''
                 (mailbox_find (ac_id owner) (mq_id q) db))) (\<lambda>m db.
      (Inr (message_context w account m), db))))"

section \<open>Requests\<close>

text \<open>\<open>splitn(2, '?')\<close>: the part before the first question mark and the part after it.\<close>

fun split_query :: "bytes \<Rightarrow> bytes \<times> bytes" where
  "split_query [] = ([], [])"
| "split_query (b # bs) = (if b = 0x3F then ([], bs) else (case split_query bs of (p, q) \<Rightarrow> (b # p, q)))"

definition read_body :: "http_request \<Rightarrow> bytes" where
  "read_body request = (case rq_body request of None \<Rightarrow> [] | Some body \<Rightarrow> body)"

definition web_handle :: "web_api \<Rightarrow> nat option \<Rightarrow> http_request \<Rightarrow> database \<Rightarrow> http_response \<times> database" where
  "web_handle w now request db =
     (case split_query (rq_url request) of (path, raw_query) \<Rightarrow>
      if path = bstr ''/'' then (redirect (bstr ''/users''), db)
      else if path = bstr ''/users'' then page w ''users.html'' (users_page now) db
      else if path = bstr ''/users/new'' then
        if rq_post request
        then page w ''new_user.html'' (create_user (unwrap_or new_user_default (wb_new_user w (read_body request)))) db
        else page w ''new_user.html'' (\<lambda>db. (Inr new_user_form, db)) db
      else if path = bstr ''/mailbox''
      then page w ''mailbox.html'' (mailbox_page w now (unwrap_or account_query_default (wb_account_query w raw_query))) db
      else if path = bstr ''/mailbox/message''
      then page w ''message.html'' (message_page w (unwrap_or message_query_default (wb_message_query w raw_query))) db
      else if path = bstr ''/GRiD.png'' then (logo w, db)
      else (not_found, db))"

section \<open>Lemmas: what a request does to the database\<close>

text \<open>Statements that only read.\<close>

definition reads :: "(database \<Rightarrow> 'a web_result) \<Rightarrow> bool" where
  "reads p \<longleftrightarrow> (\<forall>db. \<exists>fs. snd (p db) = db\<lparr>db_faults := fs\<rparr>)"

lemma readsD: "reads p \<Longrightarrow> p db = (r, db') \<Longrightarrow> \<exists>fs. db' = db\<lparr>db_faults := fs\<rparr>"
  by (metis reads_def snd_conv)

lemma reads_return: "reads (\<lambda>db. (r, db))"
  unfolding reads_def
proof
  fix db :: database
  show "\<exists>fs. snd (r, db) = db\<lparr>db_faults := fs\<rparr>" by (rule exI[of _ "db_faults db"]) simp
qed

lemma reads_statement: "reads (\<lambda>db. with_context what (sql (\<lambda>db. (f db, db)) db))"
  unfolding reads_def
proof
  fix db
  have "\<exists>fs. snd (sql (\<lambda>db. (f db, db)) db) = db\<lparr>db_faults := fs\<rparr>" by (rule sql_snd) auto
  then show "\<exists>fs. snd (with_context what (sql (\<lambda>db. (f db, db)) db)) = db\<lparr>db_faults := fs\<rparr>"
    by (simp add: with_context_def)
qed

lemma reads_then:
  assumes "reads p" "\<And>x. reads (q x)"
  shows "reads (\<lambda>db. st_then (p db) q)"
  unfolding reads_def
proof
  fix db
  obtain r db1 where p: "p db = (r, db1)" by fastforce
  from readsD[OF assms(1) p] obtain fs where db1: "db1 = db\<lparr>db_faults := fs\<rparr>" by blast
  show "\<exists>fs. snd (st_then (p db) q) = db\<lparr>db_faults := fs\<rparr>"
  proof (cases r)
    case (Inl e)
    then show ?thesis using p db1 by auto
  next
    case (Inr x)
    have "\<exists>fs. snd (q x db1) = db1\<lparr>db_faults := fs\<rparr>" using assms(2)[of x] unfolding reads_def by blast
    then show ?thesis using Inr p db1 by simp
  qed
qed

lemma reads_require:
  fixes p :: "database \<Rightarrow> 'a option web_result"
  shows "reads p \<Longrightarrow> reads (\<lambda>db. require what (p db))"
proof -
  have "reads (\<lambda>db. case x of None \<Rightarrow> (Inl (MissingError what), db) | Some y \<Rightarrow> (Inr y, db))" for x :: "'a option"
    by (cases x) (simp_all add: reads_return)
  then show "reads p \<Longrightarrow> reads (\<lambda>db. require what (p db))" unfolding require_def by (rule reads_then[rotated])
qed

lemma reads_statements:
  "reads (\<lambda>db. with_context what (find_company c db))" "reads (\<lambda>db. with_context what (find_group c g db))"
  "reads (\<lambda>db. with_context what (find_user c g u db))" "reads (\<lambda>db. with_context what (load_by_age db))"
  "reads (\<lambda>db. with_context what (mailbox_search f db))" "reads (\<lambda>db. with_context what (mailbox_find i n db))"
  unfolding find_company_def find_group_def find_user_def load_by_age_def mailbox_search_def mailbox_find_def
  by (rule reads_statement)+

lemma reads_if: "reads p \<Longrightarrow> reads q \<Longrightarrow> reads (\<lambda>db. if b then p db else q db)"
  by (cases b) simp_all

lemmas reads_intros = reads_return reads_then reads_require reads_statements reads_if

lemma reads_validate: "reads (validate_new_user form)"
  unfolding validate_new_user_def by (intro reads_intros)

lemma reads_pages:
  "reads (users_page now)" "reads (mailbox_page w now q)" "reads (message_page w mq)"
  unfolding users_page_def mailbox_page_def message_page_def Let_def by (intro reads_intros)+

text \<open>The form that creates a user, on a database that answers.\<close>

definition new_user_row :: "int \<Rightarrow> new_user \<Rightarrow> database \<Rightarrow> user_row" where
  "new_user_row group_id form db =
     \<lparr>us_id = next_rowid (map us_id (db_users db)), us_group_id = group_id, us_name = nu_user form,
      us_password = nu_password form, us_authority = nu_authority form, us_quota = NEW_USER_QUOTA, us_used = 0\<rparr>"

text \<open>What the page demands of a form.\<close>

definition acceptable :: "new_user \<Rightarrow> database \<Rightarrow> bool" where
  "acceptable form db \<longleftrightarrow> nu_user form \<noteq> [] \<and> nu_password form \<noteq> [] \<and> authority_is_defined (nu_authority form) \<and>
     named_groups db (nu_company form) (nu_group form) \<noteq> [] \<and>
     named_users db (nu_company form) (nu_group form) (nu_user form) = []"

definition user_created :: "new_user \<Rightarrow> database \<Rightarrow> database \<Rightarrow> bool" where
  "user_created form db db' \<longleftrightarrow> acceptable form db \<and>
     (\<exists>fs g c. (g, c) \<in> set (named_groups db (nu_company form) (nu_group form)) \<and>
       db' = db\<lparr>db_faults := fs, db_users := db_users db @ [new_user_row (gr_id g) form db]\<rparr>)"

lemma with_statement:
  assumes "with_context what (sql (\<lambda>db. (f db, db)) db) = (Inr x, db')"
  shows "\<exists>fs. db' = db\<lparr>db_faults := fs\<rparr> \<and> f db' = Inr x"
proof -
  obtain r db1 where r: "sql (\<lambda>db. (f db, db)) db = (r, db1)" by fastforce
  then have "r = Inr x" "db1 = db'" using assms by (cases r; simp add: with_context_def)+
  with r show ?thesis by (auto elim!: sqlE)
qed

lemma validate_accepts:
  assumes "validate_new_user form db = (Inr None, db')"
  shows "acceptable form db \<and> (\<exists>fs. db' = db\<lparr>db_faults := fs\<rparr>)"
proof -
  let ?c = "nu_company form" and ?g = "nu_group form" and ?u = "nu_user form"
  have f: "nu_user form \<noteq> []" "nu_password form \<noteq> []" "authority_is_defined (nu_authority form)"
    using assms by (auto simp: validate_new_user_def split: if_splits)
  obtain rc db1 where c: "with_context ''read the directory'' (find_company ?c db) = (rc, db1)" by fastforce
  obtain rg db2 where g: "with_context ''read the directory'' (find_group ?c ?g db1) = (rg, db2)" by fastforce
  obtain ru db3 where u: "with_context ''read the directory'' (find_user ?c ?g ?u db2) = (ru, db3)" by fastforce
  have r: "is_ok rc" "\<exists>x. rg = Inr (Some x)" "ru = Inr None" "db' = db3"
    using assms f c g u
    by (cases rc; cases rg; cases ru; auto simp: validate_new_user_def split: if_splits)+
  obtain fs1 where db1: "db1 = db\<lparr>db_faults := fs1\<rparr>" using readsD[OF reads_statements(1) c] by blast
  obtain fs2 x where db2: "db2 = db1\<lparr>db_faults := fs2\<rparr>" "GROUP_ID db2 ?c ?g = Some x"
    using r(2) g with_statement[of "''read the directory''" "\<lambda>db. Inr (GROUP_ID db ?c ?g)" db1] by (auto simp: find_group_def)
  obtain fs3 where db3: "db3 = db2\<lparr>db_faults := fs3\<rparr>" "first_row (named_users db3 ?c ?g ?u) = None"
    using r(3) u with_statement[of "''read the directory''" "\<lambda>db. Inr (map_option user_account (first_row (named_users db ?c ?g ?u)))" db2]
    by (auto simp: find_user_def)
  have "named_groups db ?c ?g \<noteq> []" using db2 by (auto simp: db1 GROUP_ID_def first_row_def)
  moreover have "named_users db ?c ?g ?u = []" using db3 db2 db1 by simp
  ultimately show ?thesis using f r(4) db1 db2 db3 by (auto simp: acceptable_def)
qed

lemma then_return: "snd (st_then (with_context what p) (\<lambda>_ db. (x, db))) = snd p"
  by (cases "fst p") (simp_all add: with_context_def)

lemma create_user_effect:
  assumes "create_user form db = (r, db')"
  shows "(\<exists>fs. db' = db\<lparr>db_faults := fs\<rparr>) \<or> user_created form db db'"
proof -
  let ?c = "nu_company form" and ?g = "nu_group form" and ?u = "nu_user form"
  obtain rv db1 where v: "validate_new_user form db = (rv, db1)" by fastforce
  obtain fs1 where db1: "db1 = db\<lparr>db_faults := fs1\<rparr>" using readsD[OF reads_validate v] by blast
  show ?thesis
  proof (cases "rv = Inr None")
    case False
    then have "db' = db1" using assms v by (cases rv) (auto simp: create_user_def split: option.splits)
    with db1 show ?thesis by blast
  next
    case True
    obtain rg db2 where g: "require ''the group should still exist'' (with_context ''read the directory'' (find_group ?c ?g db1)) = (rg, db2)"
      by fastforce
    obtain fs2 where db2: "db2 = db1\<lparr>db_faults := fs2\<rparr>"
      using readsD[OF reads_require[OF reads_statements(2)] g] by blast
    show ?thesis
    proof (cases rg)
      case (Inl e)
      then have "db' = db2" using assms v True g by (simp add: create_user_def)
      with db1 db2 show ?thesis by auto
    next
      case (Inr i)
      obtain w db3 where w: "with_context ''read the directory'' (find_group ?c ?g db1) = (w, db3)" by fastforce
      have "w = Inr (Some i)" using g Inr w by (cases w) (auto simp: require_def split: option.splits)
      then have "GROUP_ID db ?c ?g = Some i"
        using w with_statement[of "''read the directory''" "\<lambda>db. Inr (GROUP_ID db ?c ?g)" db1] by (auto simp: find_group_def db1)
      then obtain gr co where gc: "(gr, co) \<in> set (named_groups db ?c ?g)" "gr_id gr = i"
        by (auto simp: GROUP_ID_def dest!: first_row_in)
      have s: "db' = snd (insert_user i ?u (nu_password form) (nu_authority form) NEW_USER_QUOTA db2)"
        using arg_cong[OF assms, of snd] v True g Inr by (simp add: create_user_def then_return)
      have ok: "acceptable form db" using validate_accepts v True by blast
      have "\<exists>fs. db' = db\<lparr>db_faults := fs\<rparr> \<or> db' = db\<lparr>db_faults := fs, db_users := db_users db @ [new_user_row i form db]\<rparr>"
        unfolding s insert_user_def
        by (rule sql_snd) (auto simp: db1 db2 new_user_row_def)
      then show ?thesis using ok gc by (auto simp: user_created_def)
    qed
  qed
qed

text \<open>On a database that answers, the form is exact.\<close>

lemma named_groups_company:
  assumes "db_faults db = []" "named_groups db c g \<noteq> []"
  shows "\<exists>i. find_company c db = (Inr (Some i), db)"
proof -
  obtain gr co where "(gr, co) \<in> set (named_groups db c g)" using assms(2) by (metis list.set_intros(1) neq_Nil_conv surj_pair)
  then have "filter (\<lambda>c'. nocase_eq (co_name c') c) (db_companies db) \<noteq> []"
    by (auto simp: set_named_groups filter_empty_conv)
  then show ?thesis using assms(1) by (cases "filter (\<lambda>c'. nocase_eq (co_name c') c) (db_companies db)") (auto simp: find_company_def first_row_def)
qed

lemma insert_accepted:
  assumes "db_faults db = []" "acceptable form db" "(g, c) \<in> set (named_groups db (nu_company form) (nu_group form))"
  shows "insert_user (gr_id g) (nu_user form) (nu_password form) (nu_authority form) NEW_USER_QUOTA db =
    (Inr (), db\<lparr>db_users := db_users db @ [new_user_row (gr_id g) form db]\<rparr>)"
proof -
  have "us_group_id u \<noteq> gr_id g" if "u \<in> set (db_users db)" "nocase_eq (us_name u) (nu_user form)" for u
  proof
    assume "us_group_id u = gr_id g"
    then have "(u, g, c) \<in> set (named_users db (nu_company form) (nu_group form) (nu_user form))"
      using assms(3) that by (auto simp: set_named_users set_named_groups)
    then show False using assms(2) by (simp add: acceptable_def)
  qed
  moreover have "gr_id g \<in> gr_id ` set (db_groups db)" using assms(3) by (auto simp: set_named_groups)
  ultimately show ?thesis using assms(1) by (auto simp: insert_user_def new_user_row_def)
qed

lemma create_user_accepted:
  assumes "db_wf db" "db_faults db = []" "acceptable form db"
    "(g, c) \<in> set (named_groups db (nu_company form) (nu_group form))"
  shows "create_user form db =
    (Inr (form_context new_user_default [(''alert'', VText (created_alert form))]),
     db\<lparr>db_users := db_users db @ [new_user_row (gr_id g) form db]\<rparr>)"
proof -
  have gi: "GROUP_ID db (nu_company form) (nu_group form) = Some (gr_id g)"
    using assms(4) by (auto simp: GROUP_ID_Some[OF assms(1)])
  obtain i where co: "find_company (nu_company form) db = (Inr (Some i), db)"
    using named_groups_company[OF assms(2)] assms(3) by (auto simp: acceptable_def)
  have v: "validate_new_user form db = (Inr None, db)"
    using assms(2,3) gi co by (simp add: validate_new_user_def acceptable_def with_context_def find_group_def find_user_def first_row_def)
  have "insert_user (gr_id g) (nu_user form) (nu_password form) (nu_authority form) NEW_USER_QUOTA db =
      (Inr (), db\<lparr>db_users := db_users db @ [new_user_row (gr_id g) form db]\<rparr>)"
    by (rule insert_accepted[OF assms(2-4)])
  then show ?thesis
    using v gi assms(2) by (simp add: create_user_def require_def with_context_def find_group_def)
qed

lemma create_user_refused:
  assumes "db_faults db = []" "\<not> acceptable form db"
  shows "\<exists>alert. create_user form db = (Inr (form_context form [(''alert'', VText alert)]), db)"
proof -
  have "\<exists>alert. validate_new_user form db = (Inr (Some alert), db)"
    using assms
    by (auto simp: validate_new_user_def acceptable_def with_context_def find_company_def find_group_def find_user_def
        GROUP_ID_def first_row_def split: list.splits)
  then show ?thesis by (auto simp: create_user_def)
qed

text \<open>Every page.\<close>

lemma page_db: "snd (page w template build db) = snd (build db)"
  by (cases "build db"; cases "fst (build db)") (auto simp: page_def render_page_def split: option.splits sum.splits)

lemma handle_effect:
  assumes "web_handle w now request db = (response, db')"
  shows "(\<exists>fs. db' = db\<lparr>db_faults := fs\<rparr>) \<or>
    rq_post request \<and> fst (split_query (rq_url request)) = bstr ''/users/new'' \<and>
    (\<exists>form. wb_new_user w (read_body request) = Some form \<and> user_created form db db')"
proof -
  have same: "\<exists>fs. db = db\<lparr>db_faults := fs\<rparr>" by (rule exI[of _ "db_faults db"]) simp
  have r: "\<exists>fs. snd (page w template build db) = db\<lparr>db_faults := fs\<rparr>" if "reads build" for template build
    using that unfolding page_db reads_def by blast
  have empty: "\<not> user_created new_user_default db db'" by (simp add: user_created_def acceptable_def new_user_default_def)
  let ?form = "unwrap_or new_user_default (wb_new_user w (read_body request))"
  obtain path q where s: "split_query (rq_url request) = (path, q)" by fastforce
  note h = assms[unfolded web_handle_def s prod.case]
  show ?thesis
  proof (cases "path = bstr ''/users/new'' \<and> rq_post request")
    case True
    then have "db' = snd (create_user ?form db)"
      using h page_db[of w "''new_user.html''" "create_user ?form" db] by (simp add: bstr_def)
    then have "(\<exists>fs. db' = db\<lparr>db_faults := fs\<rparr>) \<or> user_created ?form db db'"
      using create_user_effect[of ?form db "fst (create_user ?form db)"] by simp
    then show ?thesis using True s empty by (cases "wb_new_user w (read_body request)") auto
  next
    case False
    have "\<exists>fs. db' = db\<lparr>db_faults := fs\<rparr>"
      using h False same r[OF reads_pages(1)] r[OF reads_pages(2)] r[OF reads_pages(3)] r[OF reads_return]
      by (auto split: if_splits) (metis snd_conv)+
    then show ?thesis by blast
  qed
qed

lemma user_created_wf:
  assumes "user_created form db db'" "db_wf db"
  shows "db_wf db'"
proof -
  obtain fs g c where g: "(g, c) \<in> set (named_groups db (nu_company form) (nu_group form))"
    and db': "db' = db\<lparr>db_faults := fs, db_users := db_users db @ [new_user_row (gr_id g) form db]\<rparr>"
    using assms(1) by (auto simp: user_created_def)
  let ?db = "db\<lparr>db_faults := []\<rparr>"
  have "insert_user (gr_id g) (nu_user form) (nu_password form) (nu_authority form) NEW_USER_QUOTA ?db =
      (Inr (), ?db\<lparr>db_users := db_users ?db @ [new_user_row (gr_id g) form ?db]\<rparr>)"
    using insert_accepted[of ?db form g c] assms(1) g by (simp add: user_created_def acceptable_def)
  then have "db_wf (?db\<lparr>db_users := db_users ?db @ [new_user_row (gr_id g) form ?db]\<rparr>)"
    using insert_user_wf[of ?db] assms(2) by (metis db_wf_faults snd_conv)
  then show ?thesis by (simp add: db' db_wf_def new_user_row_def)
qed

lemma user_created_authorities:
  "user_created form db db' \<Longrightarrow> authorities_defined db \<Longrightarrow> authorities_defined db'"
  by (auto simp: user_created_def acceptable_def authorities_defined_def new_user_row_def)

section \<open>Properties\<close>

text \<open>C18: the administration pages change nothing but by creating a user: whatever request arrives, the
  database keeps its rows, except that a form posted to \<^verbatim>\<open>/users/new\<close> with a name, a password and a
  defined authority, for an existing group without a user of that name, adds this one user with an
  unlimited quota; the schema stays intact.\<close>

theorem web_only_creates_users:
  assumes "web_handle w now request db = (response, db')"
  shows "((\<exists>fs. db' = db\<lparr>db_faults := fs\<rparr>) \<or>
      rq_post request \<and> fst (split_query (rq_url request)) = bstr ''/users/new'' \<and>
      (\<exists>form. wb_new_user w (read_body request) = Some form \<and> user_created form db db')) \<and>
    (db_wf db \<longrightarrow> db_wf db') \<and> (authorities_defined db \<longrightarrow> authorities_defined db')"
  using handle_effect[OF assms] user_created_wf user_created_authorities by (auto simp: authorities_defined_def) 

text \<open>The form is exact: on a readable database it creates the user when the form is acceptable and says so,
  and otherwise answers with the form and an alert and changes nothing.\<close>

lemma create_user_exact:
  assumes "db_wf db" "db_faults db = []"
  shows "(\<exists>alert. create_user form db = (Inr (form_context form [(''alert'', VText alert)]), db)) \<and> \<not> acceptable form db \<or>
    acceptable form db \<and> (\<exists>g c. (g, c) \<in> set (named_groups db (nu_company form) (nu_group form)) \<and>
      create_user form db = (Inr (form_context new_user_default [(''alert'', VText (created_alert form))]),
        db\<lparr>db_users := db_users db @ [new_user_row (gr_id g) form db]\<rparr>))"
proof (cases "acceptable form db")
  case True
  then obtain g c where g: "(g, c) \<in> set (named_groups db (nu_company form) (nu_group form))"
    by (metis acceptable_def list.set_intros(1) neq_Nil_conv surj_pair)
  then show ?thesis using create_user_accepted[OF assms True g] True by blast
next
  case False
  then show ?thesis using create_user_refused[OF assms(2)] by blast
qed

lemma collect_results_mem: "collect_results rs = Inr xs \<Longrightarrow> x \<in> set xs \<Longrightarrow> Inr x \<in> set rs"
  by (induction rs arbitrary: xs rule: collect_results.induct) (auto simp: result_simps)

lemma search_result:
  assumes "db_wf db" "mail_ids_ok db" "db_faults db = []" "mailbox_search f db = (Inr ms, db1)" "m \<in> set ms"
  shows "\<exists>row \<in> set (db_messages db). m = message_view db row"
proof -
  have "Inr m \<in> read_message ` set (joined_messages db)"
    using assms(3-5) by (auto simp: mailbox_search_def simp del: split_paired_Ex dest!: collect_results_mem)
  then obtain row where "row \<in> set (db_messages db)" "Inr m = read_message (with_correspondents db row)"
    by (auto simp: joined_messages_map[OF assms(1)])
  then show ?thesis using read_message_view[OF assms(2)] by auto
qed

lemma owner_of_view:
  assumes "db_wf db" "db_faults db = []" "row \<in> set (db_messages db)"
  shows "\<exists>a. find_user (aq_company (owner_query (message_view db row))) (aq_group (owner_query (message_view db row)))
      (aq_user (owner_query (message_view db row))) db = (Inr (Some a), db) \<and> ac_id a = ms_recipient_id row"
proof -
  have "ms_recipient_id row \<in> us_id ` set (db_users db)" using assms(1,3) by (auto simp: wf_defs)
  note u = user_with_id(2,3)[OF assms(1) this]
  let ?x = "chain_of db (the_user db (ms_recipient_id row))"
  let ?o = "owner_query (message_view db row)"
  have "?x \<in> set (joined_users db)" using u by (simp add: joined_users_map[OF assms(1)])
  then have "?x \<in> set (named_users db (aq_company ?o) (aq_group ?o) (aq_user ?o))"
    by (simp add: named_users_def owner_query_def message_view_def correspondent_of_def chain_of_def)
  then have "first_row (named_users db (aq_company ?o) (aq_group ?o) (aq_user ?o)) = Some ?x"
    using first_row_unique[OF named_users_unique[OF assms(1), where company = "aq_company ?o" and grp = "aq_group ?o" and user = "aq_user ?o"]]
    by blast
  then show ?thesis using assms(2) u(2) by (simp add: find_user_def user_account_def chain_of_def)
qed

lemma found_view:
  assumes "db_wf db" "mail_ids_ok db" "db_faults db = []" "row \<in> set (db_messages db)"
  shows "mailbox_find (ms_recipient_id row) (me_mail_id (message_view db row)) db = (Inr (Some (message_view db row)), db)"
proof -
  let ?rows = "filter (\<lambda>m. ms_mail_id m = ms_mail_id row) (mailbox_rows db (ms_recipient_id row))"
  have id: "uint (me_mail_id (message_view db row)) = ms_mail_id row"
  proof -
    have "0 \<le> ms_mail_id row" "ms_mail_id row < 2 ^ 32" using assms(2,4) by (auto simp: mail_ids_ok_def)
    then have "take_bit 32 (ms_mail_id row) = ms_mail_id row" by (rule take_bit_int_eq_self)
    then show ?thesis by (simp add: message_view_def uint_word_of_int_eq)
  qed
  have uniq: "x = y" if "x \<in> set ?rows" "y \<in> set ?rows" for x y
    using that assms(1) distinct_map_unique[of "\<lambda>m. (ms_recipient_id m, ms_mail_id m)" "db_messages db" x y]
    by (simp add: set_mailbox_rows wf_defs)
  have "row \<in> set ?rows" using assms(4) by (simp add: set_mailbox_rows)
  then have "first_row ?rows = Some row" by (simp only: first_row_unique[OF uniq])
  then show ?thesis by (simp add: mailbox_find_spec[OF assms(1-3)] id)
qed

text \<open>C33: the links of the mailbox page lead to their messages: on a well-formed, readable database, when
  decoding a form gives back what was encoded, opening the link the page prints beside a message found by
  any search renders the page of exactly this message.\<close>

theorem mailbox_links_open:
  assumes "db_wf db" "mail_ids_ok db" "db_faults db = []" "mailbox_search f db = (Inr ms, db1)" "m \<in> set ms"
    "wb_encode w (owner_query m) = Some q"
    "wb_message_query w (q @ bstr ''&id='' @ digits (unat (me_mail_id m))) = Some \<lparr>mq_account = owner_query m, mq_id = me_mail_id m\<rparr>"
  shows "web_handle w now \<lparr>rq_post = p, rq_url = message_href w (owner_query m) (me_mail_id m), rq_body = b\<rparr> db =
    page w ''message.html'' (\<lambda>db. (Inr (message_context w (owner_query m) m), db)) db"
proof -
  obtain row where row: "row \<in> set (db_messages db)" "m = message_view db row"
    using search_result[OF assms(1-5)] by blast
  have s: "split_query (message_href w (owner_query m) (me_mail_id m)) = (bstr ''/mailbox/message'', q @ bstr ''&id='' @ digits (unat (me_mail_id m)))"
    using assms(6) by (simp add: message_href_def bstr_def)
  obtain a where a: "find_user (aq_company (owner_query m)) (aq_group (owner_query m)) (aq_user (owner_query m)) db = (Inr (Some a), db)"
    "ac_id a = ms_recipient_id row" using owner_of_view[OF assms(1,3) row(1)] row(2) by blast
  have "message_page w \<lparr>mq_account = owner_query m, mq_id = me_mail_id m\<rparr> db = (Inr (message_context w (owner_query m) m), db)"
    using a found_view[OF assms(1-3) row(1)] row(2) by (simp add: message_page_def require_def with_context_def)
  then show ?thesis
    using s assms(7) by (simp add: web_handle_def page_def render_page_def bstr_def)
qed

text \<open>A page request, a form and a stored message.\<close>

definition sample_form :: new_user where
  "sample_form = \<lparr>nu_company = bstr ''GRiD Systems'', nu_group = bstr ''Default Group'', nu_user = bstr ''Lenin'',
     nu_password = bstr ''secret'', nu_authority = 20\<rparr>"

definition sample_web :: web_api where
  "sample_web = \<lparr>wb_new_user = (\<lambda>_. Some sample_form), wb_account_query = (\<lambda>_. None),
     wb_message_query = (\<lambda>q. if q = bstr ''mine&id=1'' then
        Some \<lparr>mq_account = \<lparr>aq_company = bstr ''GRiD Systems'', aq_group = bstr ''Default Group'', aq_user = bstr ''Sysuser''\<rparr>, mq_id = 1\<rparr> else None),
     wb_encode = (\<lambda>_. Some (bstr ''mine'')), wb_render = (\<lambda>_ _. Some (bstr ''html'')), wb_logo = []\<rparr>"

definition sample_mail :: database where
  "sample_mail = initial_database\<lparr>db_messages := [\<lparr>ms_id = 1, ms_sender_id = 1, ms_recipient_id = 1, ms_mail_id = 1,
     ms_subject = bstr ''note'', ms_body = bstr ''text'', ms_attachment_path = None, ms_is_read = False\<rparr>]\<rparr>"

lemma sample_form_acceptable: "acceptable sample_form initial_database"
  by code_simp

lemma initial_answers: "db_faults initial_database = []"
  by (simp add: initial_database_def)

theorem web_only_creates_users_witness:
  "\<exists>response db'. web_handle sample_web None \<lparr>rq_post = True, rq_url = bstr ''/users/new'', rq_body = None\<rparr> initial_database = (response, db') \<and>
     db_wf db' \<and> authorities_defined db'"
proof -
  obtain response db' where h: "web_handle sample_web None \<lparr>rq_post = True, rq_url = bstr ''/users/new'', rq_body = None\<rparr> initial_database = (response, db')"
    by fastforce
  from web_only_creates_users[OF h] h show ?thesis using db_wf_initial authorities_defined_initial by blast
qed

lemma create_user_exact_witness:
  "acceptable sample_form initial_database \<and>
     us_name (last (db_users (snd (create_user sample_form initial_database)))) = bstr ''Lenin''"
  using create_user_exact[OF db_wf_initial initial_answers, of sample_form] sample_form_acceptable
  by (auto simp: new_user_row_def sample_form_def)

theorem mailbox_links_open_witness:
  "\<exists>m db1. mailbox_search \<lparr>mf_company = [], mf_group = [], mf_user = bstr ''sysuser''\<rparr> sample_mail = (Inr [m], db1) \<and>
     web_handle sample_web None \<lparr>rq_post = False, rq_url = message_href sample_web (owner_query m) (me_mail_id m), rq_body = None\<rparr> sample_mail =
       page sample_web ''message.html'' (\<lambda>db. (Inr (message_context sample_web (owner_query m) m), db)) sample_mail"
proof -
  let ?f = "\<lparr>mf_company = [], mf_group = [], mf_user = bstr ''sysuser''\<rparr>"
  have wf: "db_wf sample_mail" "mail_ids_ok sample_mail" "db_faults sample_mail = []"
    by (simp_all add: wf_defs mail_ids_ok_def sample_mail_def initial_database_def)
  obtain ms db1 where s: "mailbox_search ?f sample_mail = (Inr ms, db1)" and l: "length ms = 1"
  proof -
    have "case fst (mailbox_search ?f sample_mail) of Inl e \<Rightarrow> False | Inr ms \<Rightarrow> length ms = 1" by code_simp
    then show thesis using that by (cases "mailbox_search ?f sample_mail") (auto split: sum.splits)
  qed
  then obtain m where m: "ms = [m]" by (cases ms) auto
  obtain row where "row \<in> set (db_messages sample_mail)" "m = message_view sample_mail row"
    using search_result[OF wf s] m by auto
  then have "me_mail_id m = 1" "owner_query m = \<lparr>aq_company = bstr ''GRiD Systems'', aq_group = bstr ''Default Group'', aq_user = bstr ''Sysuser''\<rparr>"
    by (simp_all add: sample_mail_def initial_database_def message_view_def owner_query_def correspondent_of_def chain_of_def
        the_user_def the_group_def the_company_def)
  then have "wb_message_query sample_web (bstr ''mine'' @ bstr ''&id='' @ digits (unat (me_mail_id m))) =
      Some \<lparr>mq_account = owner_query m, mq_id = me_mail_id m\<rparr>"
    by (simp add: sample_web_def digits.simps bstr_def)
  from mailbox_links_open[OF wf s _ _ this] m s show ?thesis by (auto simp: sample_web_def)
qed

text \<open>A row the Sentry can write has a short name.\<close>

lemma row_response_bounds: "row_response d i = Inr p \<Longrightarrow> i < length d \<Longrightarrow> length (rw_user (d ! i)) < 256"
  by (auto simp: row_response_def directory_get_def result_simps write_tagged_def write_u8_slice_Inr Let_def)

text \<open>C37: a name the page accepts can be too long for the account directory: it stores a user name of 256 bytes
  or more, and the Sentry then fails to write the row of that user, which its sources take for impossible,
  so a listing that reaches it gets no answer.\<close>

theorem long_name_cannot_be_listed:
  assumes "db_wf db" "db_faults db = []" "acceptable form db" "256 \<le> length (nu_user form)"
  shows "\<exists>db' d i e. create_user form db = (Inr (form_context new_user_default [(''alert'', VText (created_alert form))]), db') \<and>
    directory_load db' = (Inr d, db') \<and> i < length d \<and> rw_user (d ! i) = nu_user form \<and> row_response d i = Inl e"
proof -
  obtain g c where g: "(g, c) \<in> set (named_groups db (nu_company form) (nu_group form))"
    using assms(3) by (metis acceptable_def list.set_intros(1) neq_Nil_conv surj_pair)
  let ?u = "new_user_row (gr_id g) form db"
  let ?db = "db\<lparr>db_users := db_users db @ [?u]\<rparr>"
  let ?d = "map row_from_account (sort_key load_order (all_accounts ?db))"
  have "(?u, g, c) \<in> set (joined_users ?db)" using g by (auto simp: set_joined_users set_named_groups new_user_row_def)
  then have "user_account (?u, g, c) \<in> set (all_accounts ?db)" unfolding all_accounts_def by simp
  then have "row_from_account (user_account (?u, g, c)) \<in> set ?d" by simp
  moreover have "rw_user (row_from_account (user_account (?u, g, c))) = nu_user form"
    by (simp add: row_from_account_def user_account_def new_user_row_def Let_def)
  ultimately obtain i where i: "i < length ?d" "rw_user (?d ! i) = nu_user form" by (metis in_set_conv_nth)
  then obtain e where "row_response ?d i = Inl e"
    using row_response_bounds[of ?d i] assms(4) by (cases "row_response ?d i") auto
  moreover have "directory_load ?db = (Inr ?d, ?db)" using assms(2) by (simp add: directory_load_def load_def)
  ultimately show ?thesis using create_user_accepted[OF assms(1-3) g] i by blast
qed

theorem long_name_cannot_be_listed_witness:
  "\<exists>db' d i e. create_user (sample_form\<lparr>nu_user := replicate 256 97\<rparr>) initial_database =
       (Inr (form_context new_user_default [(''alert'', VText (created_alert (sample_form\<lparr>nu_user := replicate 256 97\<rparr>)))]), db') \<and>
     directory_load db' = (Inr d, db') \<and> row_response d i = Inl e"
proof -
  let ?form = "sample_form\<lparr>nu_user := replicate 256 97\<rparr>"
  have "named_users initial_database (bstr ''GRiD Systems'') (bstr ''Default Group'') (replicate 256 97) = []"
    by (auto simp: named_users_def filter_empty_conv set_joined_users initial_database_def nocase_def dest: arg_cong[of _ _ length])
  then have "acceptable ?form initial_database"
    using sample_form_acceptable by (simp add: acceptable_def sample_form_def)
  from long_name_cannot_be_listed[OF db_wf_initial initial_answers this] show ?thesis by auto
qed

end
