(* ===== verification/Server_Run.thy ===== *)
theory Server_Run
  imports Session Web_Admin
begin

text \<open>
  The server as a whole (\<open>serve\<close> and \<open>worker\<close> of \<^verbatim>\<open>Server/src/server/mod.rs\<close>): it accepts clients
  while connection ids are free and runs one session per client. Its behaviour is a step relation in
  which the sessions take turns in any order, one frame at a time; a session ends when the client asks
  for it, when its link fails or when its thread panics, and in every case gives its connection id back.
  The administration pages are answered in between, on the same database.
  The sources run sessions in threads that share the database, the directory manager and the host; the
  steps of a request in one session may there fall between those of another, which the granularity of one
  frame leaves out.
\<close>

section \<open>State and steps\<close>

record server =
  sv_connection_ids :: id_map
  sv_seq_state :: u16
  sv_shared :: shared
  sv_sessions :: "session list"

definition server_new :: "shared \<Rightarrow> server" where
  "server_new sh = \<lparr>sv_connection_ids = id_map_new TYPE(8), sv_seq_state = INITIAL_SEQ_STATE, sv_shared = sh, sv_sessions = []\<rparr>"

text \<open>The start: the root directory is opened and locked, then the listener is bound.\<close>

datatype start_error = VfsRoot dir_manager_error | Bind io_kind

definition serve :: "platform \<Rightarrow> lock_answer \<Rightarrow> io_kind option \<Rightarrow> path_buf \<Rightarrow> database \<Rightarrow> host \<Rightarrow> start_error + server" where
  "serve pl lock bind_fails fs_root db h =
     (case dir_manager_new (pl_xattr pl) lock fs_root h of
        (Inl e, h) \<Rightarrow> Inl (VfsRoot e)
      | (Inr dirman, h) \<Rightarrow>
          (case bind_fails of
             Some k \<Rightarrow> Inl (Bind k)
           | None \<Rightarrow> Inr (server_new \<lparr>sh_db = db, sh_dirman = dirman, sh_host = h\<rparr>)))"

text \<open>
  \<^verbatim>\<open>Server/src/env.rs\<close> and \<^verbatim>\<open>Server/src/main.rs\<close>: the settings come from the environment of the process, the
  database is opened by \<open>rusqlite\<close>, and the process fails when the start does. A listener that runs
  never returns, so only failures have an exit code.
\<close>

record environment =
  env_listen_addr :: bytes
  env_db_path :: bytes
  env_fs_root :: bytes
  env_web_listen_addr :: "bytes option"

definition required :: "(string \<Rightarrow> bytes option) \<Rightarrow> string \<Rightarrow> string + bytes" where
  "required var name = ok_or name (var name)"

definition environment_read :: "(string \<Rightarrow> bytes option) \<Rightarrow> string + environment" where
  "environment_read var =
     and_then (required var ''LISTEN_ADDR'') (\<lambda>listen_addr.
     and_then (required var ''DB_PATH'') (\<lambda>db_path.
     and_then (required var ''FS_ROOT'') (\<lambda>fs_root.
     Inr \<lparr>env_listen_addr = listen_addr, env_db_path = db_path, env_fs_root = fs_root,
          env_web_listen_addr = var ''WEB_LISTEN_ADDR''\<rparr>)))"

datatype run_error = NotSet string | DatabaseError sql_error | ServeError start_error

definition main_run ::
  "platform \<Rightarrow> (string \<Rightarrow> bytes option) \<Rightarrow> (bytes \<Rightarrow> sql_error + database) \<Rightarrow> lock_answer \<Rightarrow> (bytes \<Rightarrow> io_kind option) \<Rightarrow> host \<Rightarrow>
   run_error + server" where
  "main_run pl var open_db lock bind_fails h =
     and_then (map_err NotSet (environment_read var)) (\<lambda>env.
     and_then (map_err DatabaseError (open_db (env_db_path env))) (\<lambda>db.
     map_err ServeError (serve pl lock (bind_fails (env_listen_addr env)) (env_fs_root env) db h)))"

text \<open>A run that starts serves the directory of \<^verbatim>\<open>FS_ROOT\<close> with the database of \<^verbatim>\<open>DB_PATH\<close>.\<close>

lemma run_serves:
  "main_run pl var open_db lock bind_fails h = Inr sv \<Longrightarrow>
     \<exists>db_path fs_root addr db. var ''DB_PATH'' = Some db_path \<and> var ''FS_ROOT'' = Some fs_root \<and> var ''LISTEN_ADDR'' = Some addr \<and>
       open_db db_path = Inr db \<and> serve pl lock (bind_fails addr) fs_root db h = Inr sv"
  by (auto simp: main_run_def environment_read_def required_def result_simps)

definition server_accept :: "simd_ne \<Rightarrow> out_stream \<Rightarrow> server \<Rightarrow> server" where
  "server_accept ne client sv =
     (case connection_id_acquire ne (sv_connection_ids sv) of
        None \<Rightarrow> sv
      | Some (i, pool) \<Rightarrow>
          (case next_initial_seq_number (sv_seq_state sv) of
             (n, seq_state) \<Rightarrow>
               sv\<lparr>sv_connection_ids := pool, sv_seq_state := seq_state,
                  sv_sessions := session_new client i n # sv_sessions sv\<rparr>))"

definition session_gone :: "session \<Rightarrow> session list \<Rightarrow> session list \<Rightarrow> server \<Rightarrow> server" where
  "session_gone s before after sv =
     sv\<lparr>sv_connection_ids := connection_id_drop (ss_connection_id s) (sv_connection_ids sv), sv_sessions := before @ after\<rparr>"

inductive server_step :: "platform \<Rightarrow> server \<Rightarrow> server \<Rightarrow> bool" for pl where
  accept: "server_step pl sv (server_accept (pl_ne pl) client sv)"
| frame: "\<lbrakk>sv_sessions sv = before @ s # after; process_frame pl raw (s, sv_shared sv) = (Inr Continue, s', sh')\<rbrakk> \<Longrightarrow>
    server_step pl sv (sv\<lparr>sv_sessions := before @ s' # after, sv_shared := sh'\<rparr>)"
| leave: "\<lbrakk>sv_sessions sv = before @ s # after; process_frame pl raw (s, sv_shared sv) = (r, s', sh'); r \<noteq> Inr Continue\<rbrakk> \<Longrightarrow>
    server_step pl sv (session_gone s' before after (sv\<lparr>sv_shared := sh'\<rparr>))"
| lost: "sv_sessions sv = before @ s # after \<Longrightarrow> server_step pl sv (session_gone s before after sv)"
| web: "web_handle w now request (sh_db (sv_shared sv)) = (response, db) \<Longrightarrow>
    server_step pl sv (sv\<lparr>sv_shared := (sv_shared sv)\<lparr>sh_db := db\<rparr>\<rparr>)"

text \<open>The states a server can be in, from the state shared by its threads at the start.\<close>

definition server_reachable :: "platform \<Rightarrow> shared \<Rightarrow> server \<Rightarrow> bool" where
  "server_reachable pl sh sv \<longleftrightarrow> (server_step pl)\<^sup>*\<^sup>* (server_new sh) sv"

section \<open>Initial sequence numbers\<close>

text \<open>The low byte of the generator is a generator of its own.\<close>

definition seq_low :: "byte \<Rightarrow> byte" where
  "seq_low x = x * 213 + 131"

abbreviation seq_draw :: "u16 \<Rightarrow> u16" where
  "seq_draw state \<equiv> snd (next_initial_seq_number state)"

lemma mod_256_65536: "(x :: int) mod 65536 mod 256 = x mod 256"
  by (rule mod_mod_cancel) simp

lemma ucast_u16_byte_add: "(ucast (x + y :: u16) :: byte) = ucast x + ucast y"
  by transfer (simp add: take_bit_eq_mod, metis mod_256_65536 mod_add_eq)

lemma ucast_u16_byte_mult: "(ucast (x * y :: u16) :: byte) = ucast x * ucast y"
  by transfer (simp add: take_bit_eq_mod, metis mod_256_65536 mod_mult_eq)

lemma seq_draw_low: "fst (next_initial_seq_number st) = seq_low (ucast st)" "ucast (seq_draw st) = seq_low (ucast st)"
proof -
  have c: "(ucast (2005 :: u16) :: byte) = 213" "(ucast (4227 :: u16) :: byte) = 131" by simp_all
  show "fst (next_initial_seq_number st) = seq_low (ucast st)" "ucast (seq_draw st) = seq_low (ucast st)"
    unfolding next_initial_seq_number_def Let_def fst_conv snd_conv seq_low_def
      ucast_u16_byte_add ucast_u16_byte_mult c by (rule refl)+
qed

lemma seq_draws_low: "ucast ((seq_draw ^^ k) st) = (seq_low ^^ k) (ucast st)"
  by (induction k) (simp_all add: seq_draw_low)

text \<open>Iterating an affine map by doubling.\<close>

definition affine :: "byte \<Rightarrow> byte \<Rightarrow> byte \<Rightarrow> byte" where "affine a c x = x * a + c"

lemma affine_square: "affine a c (affine a c x) = affine (a * a) (c * a + c) x"
  by (simp add: affine_def algebra_simps)

lemma double:
  "(\<And>x. (f ^^ n) x = affine a c x) \<Longrightarrow> n + n = m \<Longrightarrow> a * a = a' \<Longrightarrow> c * a + c = c' \<Longrightarrow> (f ^^ m) x = affine a' c' x"
  by (auto simp: funpow_add affine_square)

lemma seq_low_128: "(seq_low ^^ 128) x = x + 128"
proof -
  have 1: "(seq_low ^^ 1) x = affine 213 131 x" for x by (simp add: seq_low_def affine_def)
  have 2: "(seq_low ^^ 2) x = affine 57 130 x" for x by (rule double[OF 1]) simp_all
  have 3: "(seq_low ^^ 4) x = affine 177 116 x" for x by (rule double[OF 2]) simp_all
  have 4: "(seq_low ^^ 8) x = affine 97 168 x" for x by (rule double[OF 3]) simp_all
  have 5: "(seq_low ^^ 16) x = affine 193 80 x" for x by (rule double[OF 4]) simp_all
  have 6: "(seq_low ^^ 32) x = affine 129 160 x" for x by (rule double[OF 5]) simp_all
  have 7: "(seq_low ^^ 64) x = affine 1 64 x" for x by (rule double[OF 6]) simp_all
  have "(seq_low ^^ 128) x = affine 1 128 x" by (rule double[OF 7]) simp_all
  then show ?thesis by (simp add: affine_def)
qed

lemma seq_low_256: "(seq_low ^^ 256) x = x"
proof -
  have "(seq_low ^^ (128 + 128)) x = x" by (simp only: funpow_add comp_apply seq_low_128) simp
  then show ?thesis by simp
qed

lemma seq_low_inj: "seq_low x = seq_low y \<Longrightarrow> x = y"
  using seq_low_256 by (metis funpow_Suc_right comp_apply numeral_eq_Suc)

lemma seq_low_period:
  assumes "0 < d" "d < 256" shows "(seq_low ^^ d) x \<noteq> x"
proof
  assume fix0: "(seq_low ^^ d) x = x"
  have mult: "(seq_low ^^ (k * n)) x = x" if "(seq_low ^^ n) x = x" for k n
    using that by (induction k) (simp_all add: funpow_add)
  obtain a b where ab: "a * d = b * 256 + gcd d 256"
    using bezout_nat[of d 256] assms by (auto simp: mult.commute)
  have "(seq_low ^^ (gcd d 256 + b * 256)) x = x" using mult[OF fix0, of a] by (simp add: ab add.commute)
  then have g: "(seq_low ^^ gcd d 256) x = x" using mult[OF seq_low_256, of b] by (simp add: funpow_add)
  obtain k where k: "256 = gcd d 256 * k" using gcd_dvd2[of d 256] unfolding dvd_def by blast
  have "even k"
  proof (rule ccontr)
    assume "odd k"
    then have "coprime k (2 ^ 8)" using coprime_power_right_iff[of k 2 8] coprime_right_2_iff_odd by blast
    moreover have "k dvd 2 ^ 8" using dvd_triv_right[of k "gcd d 256"] k by simp
    ultimately have "k = 1" by (metis coprime_absorb_left nat_dvd_1_iff_1)
    then have "gcd d 256 = 256" using k by simp
    then show False using assms gcd_le1_nat[of d 256] by linarith
  qed
  then obtain m where "k = 2 * m" by blast
  with k have "128 = m * gcd d 256" by simp
  then have "(seq_low ^^ 128) x = x" using mult[OF g, of m] by simp
  then show False by (simp add: seq_low_128)
qed

lemma seq_low_distinct: "distinct (map (\<lambda>k. (seq_low ^^ k) x) [0..<256])"
proof -
  have ne: "(seq_low ^^ i) x \<noteq> (seq_low ^^ j) x" if "i < j" "j < 256" for i j
  proof -
    have "(seq_low ^^ j) x = (seq_low ^^ (j - i)) ((seq_low ^^ i) x)"
      using that funpow_add[of "j - i" i seq_low] by simp
    moreover have "0 < j - i" "j - i < 256" using that by auto
    ultimately show ?thesis using seq_low_period[of "j - i" "(seq_low ^^ i) x"] by metis
  qed
  have "inj_on (\<lambda>k. (seq_low ^^ k) x) {0..<256}"
  proof (rule inj_onI)
    fix i j assume "i \<in> {0..<256}" "j \<in> {0..<256}" "(seq_low ^^ i) x = (seq_low ^^ j) x"
    then show "i = j" using ne[of i j] ne[of j i] by (cases i j rule: linorder_cases) auto
  qed
  then show ?thesis by (simp add: distinct_map)
qed

text \<open>Initial sequence numbers do not repeat early: from any state of the generator, 256 sessions in a
  row start with 256 different numbers, so every value of the byte is used once before one comes back.\<close>

lemma initial_seq_numbers_cycle:
  "distinct (map (\<lambda>k. fst (next_initial_seq_number ((seq_draw ^^ k) state))) [0..<256])"
proof -
  have "fst (next_initial_seq_number ((seq_draw ^^ k) state)) = (seq_low ^^ k) (seq_low (ucast state))" for k
    by (simp add: seq_draw_low seq_draws_low funpow_swap1)
  then show ?thesis using seq_low_distinct by simp
qed

section \<open>Invariants\<close>

text \<open>What a session has built is built for the account it signed on with, and its messages keep it so.\<close>

definition services_ok :: "platform \<Rightarrow> path_buf \<Rightarrow> vipc option \<times> shared \<Rightarrow> bool" where
  "services_ok pl root x \<longleftrightarrow> xattr_keeps_nodes (pl_xattr pl) \<and> shared_ok root (snd x) \<and>
     pred_option (\<lambda>v. acts_for root (vc_sentry v) v) (fst x)"

interpretation services: session_effect pl "\<lambda>x y. services_ok pl root x \<longrightarrow> services_ok pl root y" for pl root
proof
  fix ps and sh :: shared and a db v
  assume "authenticate ps (sh_db sh) = (Inr a, db)"
  show "services_ok pl root (v, sh) \<longrightarrow> services_ok pl root (Some (vipc_new a (sh\<lparr>sh_db := db\<rparr>)), sh\<lparr>sh_db := db\<rparr>)"
    using acts_for_new[of root a "sh\<lparr>sh_db := db\<rparr>"]
    by (simp add: services_ok_def shared_ok_def acts_for_account[OF acts_for_new])
next
  fix payload w rm w' and sh sh' :: shared
  assume m: "vipc_process_message pl payload w sh = (rm, w', sh')"
  show "services_ok pl root (Some w, sh) \<longrightarrow> services_ok pl root (Some w', sh')"
  proof
    assume "services_ok pl root (Some w, sh)"
    then have ok: "acts_for root (vc_sentry w) w'" "shared_ok root sh'" "xattr_keeps_nodes (pl_xattr pl)"
      using message_acts_for[OF _ _ _ m, of root "vc_sentry w"] by (simp_all add: services_ok_def)
    then show "services_ok pl root (Some w', sh')" by (simp add: services_ok_def acts_for_account[OF ok(1)])
  qed
qed (auto simp: services_ok_def shared_ok_def)

interpretation directory: session_effect pl "\<lambda>x y. db_ok (sh_db (snd x)) \<longrightarrow> db_ok (sh_db (snd y))" for pl
proof
  have kept: "db_ok db' \<longleftrightarrow> db_ok db" if "authenticate ps db = (r, db')" for ps db r db'
    using authenticate_sound[OF that] by (auto simp: db_ok_def authorities_defined_def)
  show "db_ok (sh_db (snd (v, sh))) \<longrightarrow> db_ok (sh_db (snd (Some (vipc_new a (sh\<lparr>sh_db := db\<rparr>)), sh\<lparr>sh_db := db\<rparr>)))"
    if "authenticate ps (sh_db sh) = (Inr a, db)" for ps a db v and sh :: shared
    using kept[OF that] by simp
  show "db_ok (sh_db (snd (v, sh))) \<longrightarrow> db_ok (sh_db (snd (v, sh\<lparr>sh_db := db\<rparr>)))"
    if "authenticate ps (sh_db sh) = (Inl status, db)" for ps status db v and sh :: shared
    using kept[OF that] by simp
qed (auto dest: message_db_ok)

lemma card_nonzero_8: "card {i :: 8 word. i \<noteq> 0} = 255"
proof -
  have "{i :: 8 word. i \<noteq> 0} = UNIV - {0}" by auto
  then show ?thesis by (simp add: card_Diff_singleton card_word)
qed

context simd_compare
begin

text \<open>The ids in use are those of the live sessions, which differ from each other.\<close>

definition ids_held :: "server \<Rightarrow> bool" where
  "ids_held sv \<longleftrightarrow> id8.holds (sv_connection_ids sv) (map ss_connection_id (sv_sessions sv))"

lemma ids_held_new: "ids_held (server_new sh)"
  using wf_new[where 'a = 8] used_new[where 'a = 8] by (simp add: ids_held_def id8.holds_def server_new_def)

lemma ids_held_accept: "ids_held sv \<Longrightarrow> ids_held (server_accept ne client sv)"
  using id8.holds_acquire[of "sv_connection_ids sv" "map ss_connection_id (sv_sessions sv)"]
  by (auto simp: ids_held_def server_accept_def connection_id_acquire_def session_new_def split: option.splits prod.splits)

lemma ids_held_gone:
  assumes "ids_held sv" "sv_sessions sv = before @ s # after" "ss_connection_id s' = ss_connection_id s"
  shows "ids_held (session_gone s' before after (sv\<lparr>sv_shared := sh\<rparr>))"
proof -
  let ?ids = "map ss_connection_id (sv_sessions sv)"
  have d: "distinct ?ids" using assms(1) by (simp add: ids_held_def id8.holds_def)
  have "remove1 (ss_connection_id s) ?ids = map ss_connection_id (before @ after)"
    using d assms(2) by (simp add: remove1_append)
  then show ?thesis
    using id8.holds_release[of "sv_connection_ids sv" ?ids "ss_connection_id s"] assms
    by (simp add: ids_held_def session_gone_def connection_id_drop_def)
qed

lemma ids_held_step:
  assumes "server_step pl sv sv'" "pl_ne pl = ne" "ids_held sv"
  shows "ids_held sv'"
  using assms(1)
proof cases
  case (frame before s after raw s' sh')
  then show ?thesis using assms(3) frame_keeps_id[OF frame(3)] by (simp add: ids_held_def)
next
  case (leave before s after raw r s' sh')
  then show ?thesis using ids_held_gone[OF assms(3) leave(2)] frame_keeps_id[OF leave(3)] by simp
next
  case (lost before s after)
  then show ?thesis using ids_held_gone[OF assms(3) lost(2) refl, of "sv_shared sv"] by simp
next
  case (web w now request response db)
  then show ?thesis using assms(3) by (simp add: ids_held_def)
qed (use assms(2,3) ids_held_accept in auto)

lemma ids_held_reachable:
  assumes "server_reachable pl sh sv" "pl_ne pl = ne"
  shows "ids_held sv"
  using assms(1) unfolding server_reachable_def
proof (induction rule: rtranclp_induct)
  case base
  show ?case by (rule ids_held_new)
next
  case (step sv1 sv2)
  then show ?case using ids_held_step assms(2) by blast
qed

lemma connection_ids:
  assumes "server_reachable pl sh sv" "pl_ne pl = ne"
  shows "distinct (map ss_connection_id (sv_sessions sv)) \<and> 0 \<notin> ss_connection_id ` set (sv_sessions sv) \<and>
    id_map_used (sv_connection_ids sv) = ss_connection_id ` set (sv_sessions sv) \<and>
    (server_accept ne client sv = sv \<longleftrightarrow> length (sv_sessions sv) = 255)"
proof -
  let ?ids = "map ss_connection_id (sv_sessions sv)"
  have h: "id_map_wf TYPE(8) (sv_connection_ids sv)" "distinct ?ids" "set ?ids = id_map_used (sv_connection_ids sv)"
    "set ?ids \<subseteq> {i. i \<noteq> 0}"
    using ids_held_reachable[OF assms] unfolding ids_held_def id8.holds_def by blast+
  have "length (sv_sessions sv) = card (set ?ids)" using distinct_card[OF h(2)] by simp
  also have "\<dots> = 255 \<longleftrightarrow> set ?ids = {i. i \<noteq> 0}"
    using card_subset_eq[OF _ h(4)] card_nonzero_8 by auto
  finally have full: "length (sv_sessions sv) = 255 \<longleftrightarrow> id_map_find_free ne (sv_connection_ids sv) = (None :: 8 word option)"
    using id8.full[OF h(1)] h(3) by simp
  have "server_accept ne client sv = sv \<longleftrightarrow> id_map_find_free ne (sv_connection_ids sv) = (None :: 8 word option)"
  proof (cases "id_map_find_free ne (sv_connection_ids sv) :: 8 word option")
    case None
    then show ?thesis by (simp add: server_accept_def connection_id_acquire_def)
  next
    case (Some i)
    obtain n q where "next_initial_seq_number (sv_seq_state sv) = (n, q)" by fastforce
    with Some have "length (sv_sessions (server_accept ne client sv)) = Suc (length (sv_sessions sv))"
      by (simp add: server_accept_def connection_id_acquire_def)
    then show ?thesis using Some by auto
  qed
  then show ?thesis using h full by auto
qed

end

definition server_ok :: "platform \<Rightarrow> path_buf \<Rightarrow> server \<Rightarrow> bool" where
  "server_ok pl root sv \<longleftrightarrow> db_ok (sh_db (sv_shared sv)) \<and> shared_ok root (sv_shared sv) \<and>
     (\<forall>s \<in> set (sv_sessions sv). services_ok pl root (ss_vipc s, sv_shared sv))"

lemma web_keeps_db_ok:
  assumes "web_handle w now request db = (response, db')" "db_ok db"
  shows "db_ok db'"
  using handle_effect[OF assms(1)] assms(2) user_created_wf user_created_authorities
  by (auto simp: db_ok_def authorities_defined_def)

lemma services_ok_shared: "services_ok pl root (v, sh) \<Longrightarrow> shared_ok root sh' \<Longrightarrow> services_ok pl root (v, sh')"
  by (simp add: services_ok_def)

lemma server_ok_frame:
  assumes "server_ok pl root sv" "s \<in> set (sv_sessions sv)" "process_frame pl raw (s, sv_shared sv) = (r, s', sh')"
  shows "services_ok pl root (ss_vipc s', sh') \<and> shared_ok root sh' \<and> db_ok (sh_db sh')"
proof -
  have "services_ok pl root (ss_vipc s', sh')"
    using services.frame_effect[OF assms(3), of root] assms(1,2) by (simp add: core_def server_ok_def)
  moreover have "db_ok (sh_db sh')"
    using directory.frame_effect[OF assms(3)] assms(1) by (simp add: core_def server_ok_def)
  ultimately show ?thesis by (simp add: services_ok_def)
qed

lemma server_ok_step:
  assumes "server_step pl sv sv'" "server_ok pl root sv" "xattr_keeps_nodes (pl_xattr pl)"
  shows "server_ok pl root sv'"
  using assms(1)
proof cases
  case (accept client)
  then show ?thesis
    using assms(2,3)
    by (auto simp: server_accept_def server_ok_def services_ok_def session_new_def split: option.splits prod.splits)
next
  case (frame before s after raw s' sh')
  have "services_ok pl root (ss_vipc s', sh') \<and> shared_ok root sh' \<and> db_ok (sh_db sh')"
    using server_ok_frame[OF assms(2) _ frame(3)] frame(2) by simp
  then show ?thesis
    using assms(2) frame services_ok_shared[of pl root _ "sv_shared sv" sh'] by (auto simp: server_ok_def)
next
  case (leave before s after raw r s' sh')
  have "shared_ok root sh' \<and> db_ok (sh_db sh')"
    using server_ok_frame[OF assms(2) _ leave(3)] leave(2) by simp
  then show ?thesis
    using assms(2) leave services_ok_shared[of pl root _ "sv_shared sv" sh'] by (auto simp: server_ok_def session_gone_def)
next
  case (lost before s after)
  then show ?thesis using assms(2) by (auto simp: server_ok_def session_gone_def)
next
  case (web w now request response db)
  have "db_ok db" using web_keeps_db_ok[OF web(2)] assms(2) by (simp add: server_ok_def)
  moreover have "shared_ok root ((sv_shared sv)\<lparr>sh_db := db\<rparr>)" using assms(2) by (simp add: server_ok_def shared_ok_def)
  ultimately show ?thesis
    using assms(2) web(1) services_ok_shared[of pl root _ "sv_shared sv"] by (auto simp: server_ok_def)
qed

lemma server_ok_reachable:
  assumes "server_reachable pl sh sv" "xattr_keeps_nodes (pl_xattr pl)" "shared_ok root sh" "db_ok (sh_db sh)"
  shows "server_ok pl root sv"
  using assms(1) unfolding server_reachable_def
proof (induction rule: rtranclp_induct)
  case base
  then show ?case using assms(3,4) by (simp add: server_ok_def server_new_def)
next
  case (step sv1 sv2)
  then show ?case using server_ok_step assms(2) by blast
qed

section \<open>The host\<close>

lemma not_reach_user_disk:
  assumes "UserDisk c g u \<notin> disks_of c' g' u'"
  shows "\<not> reach c' g' u' root (resolve root @ disk_components (UserDisk c g u) @ xs)"
proof
  assume "reach c' g' u' root (resolve root @ disk_components (UserDisk c g u) @ xs)"
  then obtain d ys where d: "d \<in> disks_of c' g' u'"
    and "disk_components (UserDisk c g u) @ xs @ ys = disk_components d \<or> disk_components (UserDisk c g u) @ xs = disk_components d @ ys"
    by (auto simp: reach_def)
  then have "UserDisk c g u = d" by (metis disk_components_prefix_free append_Nil2)
  with d assms show False by simp
qed

lemma sign_on_host: "sh_host (snd (snd (sign_on ps st))) = sh_host (snd st)"
proof -
  have l: "snd (snd (respond r st1)) = snd st1" for r st1 using respond_link[of st1 r] by (simp add: link_only_def core_def)
  show ?thesis by (auto simp: sign_on_def Let_def l split: prod.splits sum.splits)
qed

lemma process_msg_host:
  assumes "services_ok pl root (core st)" "pred_option (\<lambda>v. \<not> account_reach root (vc_sentry v) q) (fst (core st))"
  shows "host_node (sh_host (snd (snd (process_msg pl header payload st)))) q = host_node (sh_host (snd st)) q"
proof -
  obtain s sh where st: "st = (s, sh)" by fastforce
  have l: "snd (snd (send_messages header ms st1)) = snd st1" for ms st1
    using send_messages_link[of st1 header ms] by (simp add: link_only_def core_def)
  show ?thesis
  proof (cases "ss_vipc s")
    case None
    then show ?thesis by (simp add: process_msg_def st)
  next
    case (Some v)
    obtain r v' sh' where m: "vipc_process_message pl payload v sh = (r, v', sh')"
      by (cases "vipc_process_message pl payload v sh") auto
    have "host_node (sh_host sh') q = host_node (sh_host sh) q"
      using message_acts_for[OF _ _ _ m, of root "vc_sentry v"] assms Some by (simp add: services_ok_def core_def st)
    then show ?thesis using Some m by (cases r) (simp_all add: process_msg_def st l)
  qed
qed

lemma frame_host_changes:
  assumes "process_frame pl raw st = (r, st')" "services_ok pl root (core st)"
    "pred_option (\<lambda>v. \<not> account_reach root (vc_sentry v) q) (fst (core st))"
  shows "host_node (sh_host (snd st')) q = host_node (sh_host (snd st)) q"
  using assms(1)
proof (cases rule: frame_cases)
  case link
  then show ?thesis by (simp add: link_only_def core_def)
next
  case (request f data st1 r1)
  have c: "core st1 = core st" using request(4) by (simp add: link_only_def)
  then have st1: "snd st1 = snd st" by (simp add: core_def)
  have l: "snd (snd (respond r st1)) = snd st1" for r using respond_link[of st1 r] by (simp add: link_only_def core_def)
  have off: "snd (snd (sign_off st1)) = snd st1" by (simp add: sign_off_def split: prod.split)
  have "host_node (sh_host (snd (snd (process_data_frame pl data st1)))) q = host_node (sh_host (snd st)) q"
    using sign_on_host[of _ st1] process_msg_host[of pl root st1 q] assms(2,3)
    by (simp add: process_data_frame_def connect_def disconnect_def Let_def l off c st1
        split: sum.splits data_frame_request.splits)
  then show ?thesis using request(5) by simp
qed

section \<open>Stored mail\<close>

text \<open>No statement a client can reach stores a message: the ids of the stored messages only become fewer.\<close>

definition no_new_mail :: "database \<Rightarrow> database \<Rightarrow> bool" where
  "no_new_mail db db' \<longleftrightarrow> ms_id ` set (db_messages db') \<subseteq> ms_id ` set (db_messages db)"

lemma no_new_mail_refl [simp]: "no_new_mail db db"
  by (simp add: no_new_mail_def)

lemma no_new_mail_trans: "no_new_mail a b \<Longrightarrow> no_new_mail b c \<Longrightarrow> no_new_mail a c"
  by (auto simp: no_new_mail_def)

lemma no_new_mail_statement:
  assumes "\<And>db. no_new_mail db (snd (run db))"
  shows "no_new_mail db (snd (sql run db))"
proof (rule sql_snd)
  show "no_new_mail db (snd (run (db\<lparr>db_faults := fs\<rparr>)))" for fs
    using assms[of "db\<lparr>db_faults := fs\<rparr>"] by (simp add: no_new_mail_def)
qed (simp add: no_new_mail_def)

lemma no_new_mail_then:
  "no_new_mail db (snd p) \<Longrightarrow> (\<And>x db. no_new_mail db (snd (f x db))) \<Longrightarrow> no_new_mail db (snd (st_then p f))"
  by (cases p; cases "fst p") (auto intro: no_new_mail_trans)

lemma no_new_mail_drops:
  "no_new_mail db (drop_users P db)" "no_new_mail db (drop_groups Q db)" "no_new_mail db (drop_companies C db)"
  by (auto simp: no_new_mail_def drop_users_def drop_groups_def drop_companies_def Let_def)

lemma no_new_mail_deletes:
  "no_new_mail db (snd (delete_users_where P db))" "no_new_mail db (snd (delete_groups_where Q db))"
  "no_new_mail db (snd (delete_companies_where C db))"
  unfolding delete_users_where_def delete_groups_where_def delete_companies_where_def
  by (rule no_new_mail_statement, simp add: no_new_mail_drops)+

lemma no_new_mail_edits:
  "no_new_mail db (snd (update_company c q db))" "no_new_mail db (snd (update_group c g q db))"
  "no_new_mail db (snd (update_user c g u a q db))" "no_new_mail db (snd (set_password c g u pw db))"
  "no_new_mail db (snd (insert_company c q db))" "no_new_mail db (snd (insert_group i g q db))"
  "no_new_mail db (snd (insert_user i u pw a q db))"
  unfolding update_company_def update_group_def update_user_def set_password_def update_named_user_def
    insert_company_def insert_group_def insert_user_def
  by (rule no_new_mail_statement, simp add: no_new_mail_def)+

lemma no_new_mail_removals:
  "no_new_mail db (snd (delete_company c db))" "no_new_mail db (snd (delete_group c g db))" "no_new_mail db (snd (delete_user c g u db))"
  unfolding delete_company_def delete_group_def delete_user_def
  by (intro no_new_mail_then no_new_mail_deletes)+

lemma no_new_mail_faults: "no_new_mail (db\<lparr>db_faults := fs\<rparr>) db' \<Longrightarrow> no_new_mail db db'"
  by (simp add: no_new_mail_def)

lemmas no_new_mail_statements = no_new_mail_faults[OF no_new_mail_edits(1)] no_new_mail_faults[OF no_new_mail_edits(2)]
  no_new_mail_faults[OF no_new_mail_edits(3)] no_new_mail_faults[OF no_new_mail_edits(4)] no_new_mail_faults[OF no_new_mail_edits(5)]
  no_new_mail_faults[OF no_new_mail_edits(6)] no_new_mail_faults[OF no_new_mail_edits(7)]
  no_new_mail_faults[OF no_new_mail_removals(1)] no_new_mail_faults[OF no_new_mail_removals(2)] no_new_mail_faults[OF no_new_mail_removals(3)]

lemma no_new_mail_sentry: "no_new_mail db (snd (sentry_process actor payload db))"
proof (cases "is_add_command payload")
  case True
  then have "sentry_add actor db (snd (sentry_process actor payload db))" by (simp add: sentry_process_add)
  then show ?thesis by cases (auto intro: no_new_mail_statements simp: no_new_mail_def[of db "db\<lparr>db_faults := fs\<rparr>" for fs])
next
  case False
  then have "sentry_edit actor db (snd (sentry_process actor payload db))" by (simp add: sentry_process_edit)
  then show ?thesis by cases (auto intro: no_new_mail_statements simp: no_new_mail_def[of db "db\<lparr>db_faults := fs\<rparr>" for fs])
qed

lemma no_new_mail_marks: "marks_only db db' \<Longrightarrow> no_new_mail db db'"
  by (auto simp: marks_only_def no_new_mail_def mark_db_def)

lemma no_new_mail_message:
  assumes "vipc_process_message pl payload v sh = (r, v', sh')"
  shows "no_new_mail (sh_db sh) (sh_db sh')"
  using assms
proof (cases rule: message_cases)
  case (fileservice request response)
  then have "sh_db sh' = sh_db sh" by (auto simp: vipc_vfs_request_def split: prod.splits)
  then show ?thesis by simp
next
  case (mail n body x m db)
  then show ?thesis using no_new_mail_marks[OF mail_process_marks[OF mail(1)]] by simp
qed (simp_all add: no_new_mail_sentry)

interpretation stored_mail: session_effect pl "\<lambda>x y. no_new_mail (sh_db (snd x)) (sh_db (snd y))" for pl
proof
  show "no_new_mail (sh_db (snd (v, sh))) (sh_db (snd (Some (vipc_new a (sh\<lparr>sh_db := db\<rparr>)), sh\<lparr>sh_db := db\<rparr>)))"
    if "authenticate ps (sh_db sh) = (Inr a, db)" for ps a db v and sh :: shared
    using authenticate_sound[OF that] by (auto simp: no_new_mail_def)
  show "no_new_mail (sh_db (snd (v, sh))) (sh_db (snd (v, sh\<lparr>sh_db := db\<rparr>)))"
    if "authenticate ps (sh_db sh) = (Inl status, db)" for ps status db v and sh :: shared
    using authenticate_sound[OF that] by (auto simp: no_new_mail_def)
qed (auto intro: no_new_mail_trans dest: no_new_mail_message)

lemma no_new_mail_step:
  assumes "server_step pl sv sv'"
  shows "no_new_mail (sh_db (sv_shared sv)) (sh_db (sv_shared sv'))"
  using assms
proof cases
  case (accept client)
  then show ?thesis by (auto simp: server_accept_def split: option.splits prod.splits)
next
  case (frame before s after raw s' sh')
  then show ?thesis using stored_mail.frame_effect[OF frame(3)] by (simp add: core_def)
next
  case (leave before s after raw r s' sh')
  then show ?thesis using stored_mail.frame_effect[OF leave(3)] by (simp add: core_def session_gone_def)
next
  case (lost before s after)
  then show ?thesis by (simp add: session_gone_def)
next
  case (web w now request response db)
  have "no_new_mail (sh_db (sv_shared sv)) db"
    using handle_effect[OF web(2)] by (auto simp: no_new_mail_def user_created_def)
  then show ?thesis using web(1) by simp
qed


lemma no_new_mail_reachable:
  assumes "server_reachable pl sh sv"
  shows "no_new_mail (sh_db sh) (sh_db (sv_shared sv))"
  using assms unfolding server_reachable_def
  by (induction rule: rtranclp_induct) (auto simp: server_new_def intro: no_new_mail_trans no_new_mail_step)

section \<open>Properties\<close>

text \<open>A server with one signed-on client.\<close>

definition sample_client :: out_stream where "sample_client = \<lparr>sent = [], room = None\<rparr>"

lemma first_client:
  "server_accept simd_ne_ref sample_client (server_new sh) =
    (server_new sh)\<lparr>sv_connection_ids := id_map_set (id_map_new TYPE(8)) (1 :: byte), sv_seq_state := 14252,
       sv_sessions := [session_new sample_client 1 172]\<rparr>"
proof -
  have f: "id_map_find_free simd_ne_ref (id_map_new TYPE(8)) = Some (1 :: byte)" by code_simp
  have n: "next_initial_seq_number 5 = (172, 14252)" by (simp add: next_initial_seq_number_def Let_def)
  show ?thesis by (simp add: server_accept_def server_new_def connection_id_acquire_def f INITIAL_SEQ_STATE_def n)
qed

lemma server_signed_on:
  assumes "sh_db sh = initial_database"
  shows "\<exists>sv s. server_reachable sample_platform sh sv \<and> sv_sessions sv = [s] \<and>
    sv_shared sv = sh \<and> ss_vipc s = Some (vipc_new sysuser_account sh)"
proof -
  let ?sv = "server_accept simd_ne_ref sample_client (server_new sh)"
  let ?s = "session_new sample_client 1 172"
  obtain s' where p: "process_frame sample_platform (sign_on_frame 173) (?s, sh) = (Inr Continue, s', sh)"
    "ss_vipc s' = Some (vipc_new sysuser_account sh)"
    using sign_on_frame_open[of ?s 173 sh sample_platform] assms by (auto simp: session_new_def sample_client_def)
  have a: "server_step sample_platform (server_new sh) ?sv"
    using server_step.accept[of sample_platform "server_new sh" sample_client] by (simp add: sample_platform_def)
  have f: "sv_sessions ?sv = [] @ ?s # []" "sv_shared ?sv = sh" by (simp_all add: first_client) (simp add: server_new_def)
  let ?sv' = "?sv\<lparr>sv_sessions := [] @ s' # [], sv_shared := sh\<rparr>"
  have "server_step sample_platform ?sv ?sv'" by (rule server_step.frame[OF f(1)]) (use p(1) f(2) in simp)
  with a have "server_reachable sample_platform sh ?sv'"
    unfolding server_reachable_def by (meson converse_rtranclp_into_rtranclp rtranclp.rtrancl_refl)
  then show ?thesis using p(2) by (intro exI[of _ ?sv'] exI[of _ s']) simp
qed

lemma sample_server_signed_on:
  "\<exists>sv s. server_reachable sample_platform sample_shared sv \<and> sv_sessions sv = [s] \<and>
     sv_shared sv = sample_shared \<and> ss_vipc s = Some (vipc_new sysuser_account sample_shared)"
  by (rule server_signed_on) (simp add: sample_shared_def)

lemma serve_Inr:
  assumes "serve pl lock bind_fails fs_root db h = Inr sv"
  shows "sv = server_new (sv_shared sv) \<and> sh_db (sv_shared sv) = db \<and>
    shared_ok (dm_root_path (sh_dirman (sv_shared sv))) (sv_shared sv) \<and>
    resolve (dm_root_path (sh_dirman (sv_shared sv))) = resolve fs_root"
proof -
  obtain dirman h' where d: "dir_manager_new (pl_xattr pl) lock fs_root h = (Inr dirman, h')"
    and sv: "sv = server_new \<lparr>sh_db = db, sh_dirman = dirman, sh_host = h'\<rparr>"
    using assms by (auto simp: serve_def split: prod.splits sum.splits option.splits)
  then show ?thesis using dir_manager_new_facts[OF d] by (simp add: server_new_def shared_ok_def)
qed

lemma sample_serve: "\<exists>sv. serve sample_platform Locked None (bstr ''/r'') initial_database (fp_host sample_proxy) = Inr sv"
proof -
  have "is_ok (fst (dir_manager_new xattr_ref Locked (bstr ''/r'') (fp_host sample_proxy)))" by code_simp
  then show ?thesis by (auto simp: serve_def sample_platform_def is_ok_iff split: prod.splits sum.splits)
qed

lemma sample_platform_ok: "xattr_keeps_nodes (pl_xattr sample_platform)" "simd_ne_spec (pl_ne sample_platform)"
  by (simp_all add: sample_platform_def xattr_ref_keeps_nodes simd_ne_ref_spec)

text \<open>C12: connection ids are never shared: in every state the server can reach, the live sessions have
  different ids, none of them zero, the pool holds exactly these ids, so none is lost when a session ends,
  and a client is turned away exactly when 255 sessions are live.\<close>

theorem connection_ids_unique:
  assumes "simd_ne_spec (pl_ne pl)" "server_reachable pl sh sv"
  shows "distinct (map ss_connection_id (sv_sessions sv)) \<and> 0 \<notin> ss_connection_id ` set (sv_sessions sv) \<and>
    id_map_used (sv_connection_ids sv) = ss_connection_id ` set (sv_sessions sv) \<and>
    (server_accept (pl_ne pl) client sv = sv \<longleftrightarrow> length (sv_sessions sv) = 255)"
  by (rule simd_compare.connection_ids[OF simd_compare.intro[OF assms(1)] assms(2) refl])

theorem connection_ids_unique_witness:
  "\<exists>sv s. server_reachable sample_platform sample_shared sv \<and> sv_sessions sv = [s] \<and> ss_connection_id s \<noteq> 0 \<and>
     server_accept simd_ne_ref sample_client sv \<noteq> sv"
proof -
  obtain sv s where sv: "server_reachable sample_platform sample_shared sv" "sv_sessions sv = [s]"
    using sample_server_signed_on by blast
  from connection_ids_unique[OF sample_platform_ok(2) sv(1), of sample_client] sv show ?thesis
    by (auto simp: sample_platform_def)
qed

text \<open>C1: a session cannot touch another user's files: from any reachable state, whatever frame arrives in
  whatever session, nothing on the user disk of an account changes on the host unless the session was
  signed on as that account when the frame arrived.\<close>

theorem other_users_files_untouched:
  assumes "xattr_keeps_nodes (pl_xattr pl)" "db_ok db" "serve pl lock bind_fails fs_root db h = Inr sv0"
    "(server_step pl)\<^sup>*\<^sup>* sv0 sv"
    "s \<in> set (sv_sessions sv)" "process_frame pl raw (s, sv_shared sv) = (r, s', sh')"
    "pred_option (\<lambda>v. (ac_company_id (vc_sentry v), ac_group_id (vc_sentry v), ac_id (vc_sentry v)) \<noteq> (c, g, u)) (ss_vipc s)"
  shows "host_node (sh_host sh') (resolve fs_root @ disk_components (UserDisk c g u) @ xs) =
    host_node (sh_host (sv_shared sv)) (resolve fs_root @ disk_components (UserDisk c g u) @ xs)"
proof -
  let ?q = "resolve fs_root @ disk_components (UserDisk c g u) @ xs"
  let ?root = "dm_root_path (sh_dirman (sv_shared sv0))"
  note start = serve_Inr[OF assms(3)]
  have "server_reachable pl (sv_shared sv0) sv" unfolding server_reachable_def using assms(4) start by metis
  then have "services_ok pl ?root (core (s, sv_shared sv))"
    using server_ok_reachable[OF _ assms(1)] start assms(2,5) by (auto simp: server_ok_def core_def)
  moreover have "pred_option (\<lambda>v. \<not> account_reach ?root (vc_sentry v) ?q) (fst (core (s, sv_shared sv)))"
    using assms(7) not_reach_user_disk[of c g u _ _ _ ?root xs] start
    by (cases "ss_vipc s") (auto simp: core_def disks_of_def)
  ultimately show ?thesis using frame_host_changes[OF assms(6)] by simp
qed

theorem other_users_files_untouched_witness:
  "\<exists>sv0 sv s. serve sample_platform Locked None (bstr ''/r'') initial_database (fp_host sample_proxy) = Inr sv0 \<and>
     (server_step sample_platform)\<^sup>*\<^sup>* sv0 sv \<and> sv_sessions sv = [s] \<and> ss_vipc s \<noteq> None \<and>
     host_node (sh_host (snd (snd (process_frame sample_platform (sign_on_frame 9) (s, sv_shared sv)))))
         (resolve (bstr ''/r'') @ disk_components (UserDisk 1 1 2) @ [bstr ''x'']) =
       host_node (sh_host (sv_shared sv)) (resolve (bstr ''/r'') @ disk_components (UserDisk 1 1 2) @ [bstr ''x''])"
proof -
  obtain sv0 where sv0: "serve sample_platform Locked None (bstr ''/r'') initial_database (fp_host sample_proxy) = Inr sv0"
    using sample_serve by blast
  note start = serve_Inr[OF sv0]
  obtain sv s where sv: "server_reachable sample_platform (sv_shared sv0) sv" "sv_sessions sv = [s]"
    "ss_vipc s = Some (vipc_new sysuser_account (sv_shared sv0))"
    using server_signed_on[of "sv_shared sv0"] start by blast
  then have run: "(server_step sample_platform)\<^sup>*\<^sup>* sv0 sv" using start unfolding server_reachable_def by metis
  obtain r s' sh' where p: "process_frame sample_platform (sign_on_frame 9) (s, sv_shared sv) = (r, s', sh')"
    by (cases "process_frame sample_platform (sign_on_frame 9) (s, sv_shared sv)") auto
  have d: "db_ok initial_database" using db_ok_initial[of "[]"] by (simp add: initial_database_def)
  have m: "s \<in> set (sv_sessions sv)" using sv(2) by simp
  have o: "pred_option (\<lambda>v. (ac_company_id (vc_sentry v), ac_group_id (vc_sentry v), ac_id (vc_sentry v)) \<noteq> (1, 1, 2)) (ss_vipc s)"
    by (simp add: sv(3) vipc_new_def sysuser_account_def user_account_def initial_database_def)
  from other_users_files_untouched[OF sample_platform_ok(1) d sv0 run m p o, of "[bstr ''x'']"]
  show ?thesis using sv sv0 run p by (intro exI[of _ sv0] exI[of _ sv] exI[of _ s]) simp
qed

text \<open>C2: every state of a running server is well formed: the directory stays consistent with only defined
  authorities, the disks stay under the root, and all services of a signed-on session act for one
  account: its mailbox, its authority, and attachments and open files on its own disks only.\<close>

theorem sessions_act_for_their_account:
  assumes "xattr_keeps_nodes (pl_xattr pl)"
    "serve pl lock bind_fails fs_root (initial_database\<lparr>db_faults := fs\<rparr>) h = Inr sv0" "(server_step pl)\<^sup>*\<^sup>* sv0 sv"
  shows "db_wf (sh_db (sv_shared sv)) \<and> authorities_defined (sh_db (sv_shared sv)) \<and>
    resolve (dm_root_path (sh_dirman (sv_shared sv))) = resolve fs_root \<and>
    (\<forall>s \<in> set (sv_sessions sv). case ss_vipc s of None \<Rightarrow> True
       | Some v \<Rightarrow> acts_for (dm_root_path (sh_dirman (sv_shared sv))) (vc_sentry v) v)"
proof -
  let ?root = "dm_root_path (sh_dirman (sv_shared sv0))"
  note start = serve_Inr[OF assms(2)]
  have "server_reachable pl (sv_shared sv0) sv" unfolding server_reachable_def using assms(3) start by metis
  then have ok: "server_ok pl ?root sv"
    using server_ok_reachable[OF _ assms(1)] start db_ok_initial[of fs] by auto
  then have "dm_root_path (sh_dirman (sv_shared sv)) = ?root" by (simp add: server_ok_def shared_ok_def)
  then show ?thesis
    using ok start by (auto simp: server_ok_def db_ok_def services_ok_def split: option.split)
qed

theorem sessions_act_for_their_account_witness:
  "\<exists>sv0 sv s v. serve sample_platform Locked None (bstr ''/r'') (initial_database\<lparr>db_faults := []\<rparr>) (fp_host sample_proxy) = Inr sv0 \<and>
     (server_step sample_platform)\<^sup>*\<^sup>* sv0 sv \<and> sv_sessions sv = [s] \<and> ss_vipc s = Some v \<and>
     acts_for (dm_root_path (sh_dirman (sv_shared sv))) (vc_sentry v) v \<and> db_wf (sh_db (sv_shared sv))"
proof -
  have i: "initial_database\<lparr>db_faults := []\<rparr> = initial_database" by (simp add: initial_database_def)
  obtain sv0 where sv0: "serve sample_platform Locked None (bstr ''/r'') (initial_database\<lparr>db_faults := []\<rparr>) (fp_host sample_proxy) = Inr sv0"
    using sample_serve unfolding i by blast
  note start = serve_Inr[OF sv0]
  obtain sv s where sv: "server_reachable sample_platform (sv_shared sv0) sv" "sv_sessions sv = [s]"
    "ss_vipc s = Some (vipc_new sysuser_account (sv_shared sv0))"
    using server_signed_on[of "sv_shared sv0"] start i by metis
  then have run: "(server_step sample_platform)\<^sup>*\<^sup>* sv0 sv" using start unfolding server_reachable_def by metis
  from sessions_act_for_their_account[OF sample_platform_ok(1) sv0 run] sv
  have "acts_for (dm_root_path (sh_dirman (sv_shared sv))) (vc_sentry (vipc_new sysuser_account (sv_shared sv0))) (vipc_new sysuser_account (sv_shared sv0))"
    "db_wf (sh_db (sv_shared sv))" by auto
  then show ?thesis using sv0 run sv by blast
qed

text \<open>C36: mail a client sends is acknowledged and lost: the mail service answers every well-formed tagged
  request, the one that carries an outgoing message, with \<open>request accepted\<close> and leaves the database as it
  is, and whatever the clients of a running server and its pages do, no message is ever added to the
  stored ones.\<close>

theorem sent_mail_is_lost:
  assumes "server_reachable pl sh sv" "tlv_all_records_valid (tlv_marker_u16 data RECORD_MARKER)"
  shows "channel_answer CHANNEL_TAGGED_REQUEST data s db =
      (Some [final_message (app_frame RECORD_MARKER [TAG_REQUEST_ACCEPTED])], db) \<and>
    ms_id ` set (db_messages (sh_db (sv_shared sv))) \<subseteq> ms_id ` set (db_messages (sh_db sh))"
  using no_new_mail_reachable[OF assms(1)] assms(2)
  by (simp add: no_new_mail_def channel_answer_def CHANNEL_TAGGED_REQUEST_def CHANNEL_SESSION_def CHANNEL_CLOSE_def)

theorem sent_mail_is_lost_witness:
  "\<exists>sv s. server_reachable sample_platform sample_shared sv \<and> sv_sessions sv = [s] \<and>
     channel_answer CHANNEL_TAGGED_REQUEST hello_bob sysuser_mail two_accounts =
       (Some [final_message (app_frame RECORD_MARKER [TAG_REQUEST_ACCEPTED])], two_accounts) \<and>
     db_messages (sh_db (sv_shared sv)) = []"
proof -
  obtain sv s where sv: "server_reachable sample_platform sample_shared sv" "sv_sessions sv = [s]"
    using sample_server_signed_on by blast
  have "tlv_all_records_valid (tlv_marker_u16 hello_bob RECORD_MARKER)" by (simp add: tlv_all_records_valid_def hello_bob_items)
  note lost = sent_mail_is_lost[OF sv(1) this, of sysuser_mail two_accounts]
  have "db_messages (sh_db sample_shared) = []" by (simp add: sample_shared_def initial_database_def)
  then show ?thesis using lost sv by (intro exI[of _ sv] exI[of _ s]) simp
qed

end
