(* ===== verification/Test_Support.thy ===== *)
theory Test_Support
  imports Prelude
begin

text \<open>
  The unit tests of the sources are translated as well: a test function is a definition of type
  \<^typ>\<open>bool\<close> over the model, the conjunction of its assertions along the states it passes through, and a
  lemma says that it holds. A panic of a test (a failed \<open>unwrap\<close> or \<open>expect\<close>) makes it false. So every
  behaviour the authors pin down by a test is checked of the definitions the theorems are about.
  This theory holds what the translated tests share.
\<close>

abbreviation expect :: "'a option \<Rightarrow> ('a \<Rightarrow> bool) \<Rightarrow> bool" where
  "expect v k \<equiv> (case v of None \<Rightarrow> False | Some x \<Rightarrow> k x)"

abbreviation expect_ok :: "'e + 'a \<Rightarrow> ('a \<Rightarrow> bool) \<Rightarrow> bool" where
  "expect_ok r k \<equiv> (case r of Inl e \<Rightarrow> False | Inr x \<Rightarrow> k x)"

section \<open>Evaluation\<close>

text \<open>
  A test has no variables, so it is decided by rewriting. The collection \<open>eval\<close> holds the equations that
  compute: of the list, option and arithmetic functions the model uses, and, added by each test theory,
  of the model itself. Words are literals and are compared as integers, and \<open>eval_cong\<close> keeps the
  simplifier out of branches that have not been decided.
\<close>

named_theorems eval

lemma uint_numeral_small:
  assumes "numeral a < (2 ^ LENGTH('a) :: int)"
  shows "uint (numeral a :: 'a::len word) = numeral a"
  using assms mod_pos_pos_trivial[of "numeral a :: int" "2 ^ LENGTH('a)"]
  by (simp only: uint_word_of_int_eq[of "numeral a", unfolded of_int_numeral] take_bit_eq_mod) simp

lemma uint_byte [eval]:
  "numeral a < (256 :: int) \<Longrightarrow> uint (numeral a :: byte) = numeral a" "uint (0 :: byte) = 0" "uint (1 :: byte) = 1"
  using uint_numeral_small[of a, where 'a = 8] by simp_all

lemma uint_u16 [eval]:
  "numeral a < (65536 :: int) \<Longrightarrow> uint (numeral a :: u16) = numeral a" "uint (0 :: u16) = 0" "uint (1 :: u16) = 1"
  using uint_numeral_small[of a, where 'a = 16] by simp_all

lemma uint_u32 [eval]:
  "numeral a < (4294967296 :: int) \<Longrightarrow> uint (numeral a :: u32) = numeral a" "uint (0 :: u32) = 0" "uint (1 :: u32) = 1"
  using uint_numeral_small[of a, where 'a = 32] by simp_all

text \<open>Comparisons of words are comparisons of integers.\<close>

lemma byte_compare [eval]:
  "(x :: byte) = y \<longleftrightarrow> uint x = uint y" "(x :: byte) \<le> y \<longleftrightarrow> uint x \<le> uint y" "(x :: byte) < y \<longleftrightarrow> uint x < uint y"
  by (simp_all add: word_uint_eq_iff word_le_def word_less_def)

lemma u16_compare [eval]:
  "(x :: u16) = y \<longleftrightarrow> uint x = uint y" "(x :: u16) \<le> y \<longleftrightarrow> uint x \<le> uint y" "(x :: u16) < y \<longleftrightarrow> uint x < uint y"
  by (simp_all add: word_uint_eq_iff word_le_def word_less_def)

lemma u32_compare [eval]:
  "(x :: u32) = y \<longleftrightarrow> uint x = uint y" "(x :: u32) \<le> y \<longleftrightarrow> uint x \<le> uint y" "(x :: u32) < y \<longleftrightarrow> uint x < uint y"
  by (simp_all add: word_uint_eq_iff word_le_def word_less_def)

lemma unat_eval [eval]: "unat (x :: byte) = nat (uint x)" "unat (y :: u16) = nat (uint y)" "unat (z :: u32) = nat (uint z)"
  by simp_all

lemma of_nat_eval [eval]: "of_nat (numeral k) = numeral k" "of_nat 0 = 0" "of_nat 1 = 1"
  by simp_all

lemma of_int_eval [eval]: "of_int (numeral k) = numeral k" "of_int 0 = 0" "of_int 1 = 1"
  by simp_all

lemma ucast_byte: "(ucast w :: byte) = of_int (uint w mod 256)"
proof -
  have "uint (of_int (uint w mod 256) :: byte) = uint (of_int (uint w) :: byte)"
    by (simp only: uint_word_of_int len_num0 len_bit0 len_num1) (simp add: mod_mod_trivial)
  then show ?thesis by (simp add: word_uint_eq_iff)
qed

lemma uint_drop_bit_word: "uint (drop_bit n w) = uint w div 2 ^ n"
  by (subst unsigned_drop_bit_eq) (simp add: drop_bit_eq_div bintr_uint)

lemma u16_to_le_eval [eval]: "u16_to_le w = [of_int (uint w mod 256), of_int (uint w div 256 mod 256)]"
  by (simp add: u16_to_le_def ucast_byte uint_drop_bit_word)

lemma u32_to_le_eval [eval]:
  "u32_to_le w = [of_int (uint w mod 256), of_int (uint w div 256 mod 256), of_int (uint w div 65536 mod 256), of_int (uint w div 16777216 mod 256)]"
  by (simp add: u32_to_le_def ucast_byte uint_drop_bit_word)

lemma u16_of_le_eval [eval]: "u16_of_le a b = of_int (uint a + 256 * uint b)"
proof -
  have "u16_of_le a b = ucast a + push_bit 8 (ucast b)"
    unfolding u16_of_le_def by (rule disjunctive_add[symmetric]) (auto simp: bit_simps dest: bit_imp_le_length)
  then show ?thesis by (simp add: push_bit_eq_mult mult.commute)
qed

lemma u32_of_le_eval [eval]: "u32_of_le a b c d = of_int (uint a + 256 * uint b + 65536 * uint c + 16777216 * uint d)"
proof -
  have "u32_of_le a b c d = ((ucast a + push_bit 8 (ucast b)) + push_bit 16 (ucast c)) + push_bit 24 (ucast d)"
    unfolding u32_of_le_def
    by (subst disjunctive_add, (auto simp: bit_simps dest: bit_imp_le_length)[1])+ (simp add: or.assoc)
  then show ?thesis by (simp add: push_bit_eq_mult mult.commute)
qed

lemma bstr_eval [eval]:
  "bstr [] = []"
  "bstr (Char b0 b1 b2 b3 b4 b5 b6 b7 # s) =
     of_int (of_bool b0 + 2 * (of_bool b1 + 2 * (of_bool b2 + 2 * (of_bool b3 + 2 * (of_bool b4 + 2 * (of_bool b5 +
       2 * (of_bool b6 + 2 * of_bool b7))))))) # bstr s"
  by (simp_all add: bstr_def)

lemma list_eval [eval]:
  "length [] = 0" "length (x # xs) = length xs + 1"
  "take (numeral k) (x # xs) = x # take (pred_numeral k) xs" "take 1 (x # xs) = [x]"
  "replicate (numeral k) y = y # replicate (pred_numeral k) y" "replicate 1 y = [y]" "replicate 0 y = []"
  "drop 1 (x # xs) = xs" "drop (numeral k) (x # xs) = drop (pred_numeral k) xs"
  "(x # xs) ! 1 = xs ! 0" "(x # xs) ! numeral k = xs ! pred_numeral k"
  by (simp_all add: numeral_eq_Suc)

lemma upt_eval [eval]: "[i..<j] = (if i < j then i # [i + 1..<j] else [])"
  by (simp add: upt_conv_Cons)

lemma set_eval [eval]:
  "(\<exists>x \<in> set []. P x) = False" "(\<exists>x \<in> set (y # ys). P x) \<longleftrightarrow> P y \<or> (\<exists>x \<in> set ys. P x)"
  "(\<forall>x \<in> set []. P x) = True" "(\<forall>x \<in> set (y # ys). P x) \<longleftrightarrow> P y \<and> (\<forall>x \<in> set ys. P x)"
  "z \<in> set [] \<longleftrightarrow> False" "z \<in> set (y # ys) \<longleftrightarrow> z = y \<or> z \<in> set ys" "f ` set xs = set (map f xs)"
  by simp_all

lemma nat_eval [eval]: "nat (numeral k) = numeral k" "nat 0 = 0" "nat 1 = 1" "nat (- numeral k) = 0" "nat (- 1) = 0"
  "(2 :: nat) ^ 64 = 18446744073709551616"
  by simp_all

lemma divmod_eval [eval]:
  "(numeral m :: int) div numeral n = fst (divmod m n)" "(numeral m :: int) mod numeral n = snd (divmod m n)"
  "(numeral m :: nat) div numeral n = fst (divmod m n)" "(numeral m :: nat) mod numeral n = snd (divmod m n)"
  by (rule fst_divmod[symmetric] snd_divmod[symmetric])+

lemma nat_diff_one: "(numeral k :: nat) - 1 = pred_numeral k" "(1 :: nat) - numeral k = 0" "(1 :: nat) - 1 = 0" "(0 :: nat) - n = 0"
  by (simp_all add: numeral_eq_Suc)

lemmas eval_cong = if_weak_cong option.case_cong_weak sum.case_cong_weak prod.case_cong_weak list.case_cong_weak let_weak_cong

lemmas arith_eval [eval] = simp_thms max_def min_def pred_numeral_simps arith_simps rel_simps num.inject num.distinct
  diff_nat_numeral of_bool_eq divmod_algorithm_code divmod_step_def div_0 mod_0 one_div_numeral one_mod_numeral
  numeral_One one_plus_numeral numeral_plus_one one_add_one mult_1 mult_1_right mult_zero_left mult_zero_right
  add_0 add_0_right diff_0 diff_zero diff_self_eq_0 nat_diff_one

lemmas data_eval [eval] = if_True if_False Let_def fst_conv snd_conv prod.case option.case sum.case list.case
  option.inject option.distinct sum.inject sum.distinct prod.inject list.inject list.distinct option.map Option.bind.simps

lemmas list_fun_eval [eval] = append_Nil append_Cons list.map filter.simps concat.simps take_Nil drop_Nil take_0 drop_0
  nth_Cons_0 fold_simps rev.simps foldr.simps foldl.simps find.simps zip_Cons_Cons zip_Nil zip.simps(1) list_ex_iff
  those.simps list.pred_inject sort_key_simps insort_key.simps last.simps

lemmas result_eval [eval] = and_then.simps ok.simps ok_or.simps map_err.simps is_ok.simps unwrap_or.simps
  collect_results.simps st_then.simps frame_error_from_io_def u8_try_from_def u16_try_from_def u32_try_from_def
  io_kind.distinct frame_error.inject frame_error.distinct

end
