(* ===== verification/Wire_Tests.thy ===== *)
theory Wire_Tests
  imports Tlv_Records Id_Map Data_Frame Link_Frame Vipc_Message Test_Support
begin

text \<open>
  The tests of shared/bitmap.rs, shared/tlv.rs, server/raw_frame.rs and vipc/message.rs, translated over
  the model. The tests of the bitmap work on maps of 8192 bytes, so they are shown from the lemmas on
  the ids in use, for every vector comparison \<open>ne\<close> that keeps to its specification.
\<close>

section \<open>The bitmap\<close>

definition sets_and_clears_bits_in_the_first_byte :: bool where
  "sets_and_clears_bits_in_the_first_byte =
     (let m = id_map_new TYPE(16); m = id_map_set m (1 :: u16); m = id_map_set m (8 :: u16) in
      m ! 0 = 0x81 \<and>
      (let m = id_map_clear m (1 :: u16) in m ! 0 = 0x80 \<and>
      (let m = id_map_clear m (8 :: u16) in m ! 0 = 0)))"

definition sets_and_clears_bits_in_the_second_byte :: bool where
  "sets_and_clears_bits_in_the_second_byte =
     (let m = id_map_new TYPE(16); m = id_map_set m (9 :: u16); m = id_map_set m (16 :: u16) in
      m ! 1 = 0x81 \<and>
      (let m = id_map_clear m (9 :: u16) in m ! 1 = 0x80 \<and>
      (let m = id_map_clear m (16 :: u16) in m ! 1 = 0)))"

definition sets_and_clears_bits_in_another_chunk :: bool where
  "sets_and_clears_bits_in_another_chunk =
     (let m = id_map_new TYPE(16); m = id_map_set m (129 :: u16); m = id_map_set m (136 :: u16) in
      m ! 16 = 0x81 \<and>
      (let m = id_map_clear m (129 :: u16) in m ! 16 = 0x80 \<and>
      (let m = id_map_clear m (136 :: u16) in m ! 16 = 0)))"

definition set_all :: "id_map \<Rightarrow> 'a::len word list \<Rightarrow> id_map" where
  "set_all m ids = foldl id_map_set m ids"

definition finds_the_first_free_id_in_the_first_byte :: "simd_ne \<Rightarrow> bool" where
  "finds_the_first_free_id_in_the_first_byte ne =
     (let m = id_map_new TYPE(16) in id_map_find_free ne m = Some (1 :: u16) \<and>
      (let m = id_map_set m (1 :: u16) in id_map_find_free ne m = Some (2 :: u16) \<and>
      (let m = set_all m [2 :: u16, 3, 4, 5, 6, 7] in id_map_find_free ne m = Some (8 :: u16) \<and>
      (let m = id_map_set m (8 :: u16) in id_map_find_free ne m = Some (9 :: u16)))))"

definition setting_and_clearing_a_bit_in_the_first_byte_changes_find_free :: "simd_ne \<Rightarrow> bool" where
  "setting_and_clearing_a_bit_in_the_first_byte_changes_find_free ne =
     (let m = id_map_new TYPE(16); m = id_map_set m (1 :: u16) in id_map_find_free ne m = Some (2 :: u16) \<and>
      (let m = id_map_clear m (1 :: u16) in id_map_find_free ne m = Some (1 :: u16)))"

definition setting_and_clearing_a_bit_in_the_second_byte_changes_find_free :: "simd_ne \<Rightarrow> bool" where
  "setting_and_clearing_a_bit_in_the_second_byte_changes_find_free ne =
     (let m = id_map_new TYPE(16); m = set_all m [1 :: u16, 2, 3, 4, 5, 6, 7, 8, 9] in
      id_map_find_free ne m = Some (10 :: u16) \<and>
      (let m = id_map_clear m (9 :: u16) in id_map_find_free ne m = Some (9 :: u16) \<and>
      (let m = id_map_set m (9 :: u16) in id_map_find_free ne m = Some (10 :: u16))))"

definition setting_and_clearing_a_bit_in_another_chunk_changes_find_free :: "simd_ne \<Rightarrow> bool" where
  "setting_and_clearing_a_bit_in_another_chunk_changes_find_free ne =
     (let m = id_map_new TYPE(16); m = set_all m (map of_nat [1..<129] :: u16 list) in
      id_map_find_free ne m = Some (129 :: u16) \<and>
      (let m = id_map_clear m (128 :: u16) in id_map_find_free ne m = Some (128 :: u16) \<and>
      (let m = id_map_set m (128 :: u16) in id_map_find_free ne m = Some (129 :: u16))))"

definition setting_an_already_set_bit_and_clearing_an_already_clear_bit_are_idempotent :: "simd_ne \<Rightarrow> bool" where
  "setting_an_already_set_bit_and_clearing_an_already_clear_bit_are_idempotent ne =
     (let m = id_map_new TYPE(16); m = id_map_set m (17 :: u16); m = id_map_set m (17 :: u16) in
      id_map_find_free ne m = Some (1 :: u16) \<and>
      (let m = id_map_clear m (17 :: u16); m = id_map_clear m (17 :: u16) in
      id_map_find_free ne m = Some (1 :: u16)))"

definition a_full_map_has_no_free_id_and_clearing_the_last_id_makes_it_free :: "simd_ne \<Rightarrow> bool" where
  "a_full_map_has_no_free_id_and_clearing_the_last_id_makes_it_free ne =
     (let m = id_map_new TYPE(16); m = set_all m (map of_nat [1..<65536] :: u16 list) in
      (id_map_find_free ne m :: u16 option) = None \<and>
      (let m = id_map_clear m (65535 :: u16) in id_map_find_free ne m = Some (65535 :: u16)))"

definition the_eight_bit_map_sets_and_clears_bits :: bool where
  "the_eight_bit_map_sets_and_clears_bits =
     (let m = id_map_new TYPE(8); m = id_map_set m (1 :: byte); m = id_map_set m (8 :: byte) in
      m ! 0 = 0x81 \<and> id_map_is_set m (1 :: byte) \<and>
      (let m = id_map_clear m (1 :: byte) in m ! 0 = 0x80 \<and> \<not> id_map_is_set m (1 :: byte) \<and>
      (let m = id_map_clear m (8 :: byte) in m ! 0 = 0)))"

definition the_eight_bit_map_sets_and_clears_bits_in_its_last_chunk :: bool where
  "the_eight_bit_map_sets_and_clears_bits_in_its_last_chunk =
     (let m = id_map_new TYPE(8); m = id_map_set m (129 :: byte); m = id_map_set m (255 :: byte) in
      m ! 16 = 0x01 \<and> m ! 31 = 0x40 \<and>
      (let m = id_map_clear m (129 :: byte); m = id_map_clear m (255 :: byte) in
      m ! 16 = 0 \<and> m ! 31 = 0))"

definition the_eight_bit_map_finds_the_first_free_id :: "simd_ne \<Rightarrow> bool" where
  "the_eight_bit_map_finds_the_first_free_id ne =
     (let m = id_map_new TYPE(8) in id_map_find_free ne m = Some (1 :: byte) \<and>
      (let m = set_all m [1 :: byte, 2, 3, 4, 5, 6, 7, 8] in id_map_find_free ne m = Some (9 :: byte) \<and>
      (let m = id_map_clear m (4 :: byte) in id_map_find_free ne m = Some (4 :: byte))))"

definition a_full_eight_bit_map_has_no_free_id_and_clearing_the_last_id_makes_it_free :: "simd_ne \<Rightarrow> bool" where
  "a_full_eight_bit_map_has_no_free_id_and_clearing_the_last_id_makes_it_free ne =
     (let m = id_map_new TYPE(8); m = set_all m (map of_nat [1..<256] :: byte list) in
      (id_map_find_free ne m :: byte option) = None \<and>
      (let m = id_map_clear m (255 :: byte) in id_map_find_free ne m = Some (255 :: byte)))"

section \<open>Tagged records\<close>

definition walks_tag_u8_records :: bool where
  "walks_tag_u8_records =
     (tlv_collect_all (tlv_tag_u8 ([0x07, 0x02] @ bstr ''hi'' @ [0x09, 0x00])) =
        Inr [\<lparr>entry_tag = 0x07, entry_value = bstr ''hi''\<rparr>, \<lparr>entry_tag = 0x09, entry_value = []\<rparr>])"

definition walks_marker_u16_records :: bool where
  "walks_marker_u16_records =
     (tlv_collect_all (tlv_marker_u16 ([0xFD, 3, 0] @ bstr ''tab'' @ [0xFD, 1, 0] @ bstr ''z'') 0xFD) =
        Inr [\<lparr>entry_tag = 0x74, entry_value = bstr ''ab''\<rparr>, \<lparr>entry_tag = 0x7A, entry_value = []\<rparr>])"

definition tlv_rejects_truncated_records :: bool where
  "tlv_rejects_truncated_records =
     (\<not> is_ok (tlv_collect_all (tlv_tag_u8 ([0x09, 0x07] @ bstr ''Z''))) \<and>
      \<not> is_ok (tlv_collect_all (tlv_tag_u8 [0x09])) \<and>
      \<not> is_ok (tlv_collect_all (tlv_marker_u16 ([0xFD, 9, 0] @ bstr ''t'') 0xFD)))"

definition rejects_a_wrong_marker :: bool where
  "rejects_a_wrong_marker = (\<not> is_ok (tlv_collect_all (tlv_marker_u16 ([0xFE, 1, 0] @ bstr ''z'') 0xFD)))"

definition rejects_a_record_that_cannot_hold_a_tag :: bool where
  "rejects_a_record_that_cannot_hold_a_tag = (\<not> is_ok (tlv_collect_all (tlv_marker_u16 [0xFD, 0, 0] 0xFD)))"

definition stops_after_the_first_malformed_record :: bool where
  "stops_after_the_first_malformed_record =
     (case tlv_next (tlv_tag_u8 ([0x07, 0x01] @ bstr ''a'' @ [0x09, 0x07] @ bstr ''Z'')) of (first, tlv) \<Rightarrow>
      case tlv_next tlv of (second, tlv) \<Rightarrow>
        expect first (\<lambda>r. is_ok r) \<and> expect second (\<lambda>r. \<not> is_ok r) \<and> fst (tlv_next tlv) = None)"

definition keeps_the_records_before_a_trailing_tail :: bool where
  "keeps_the_records_before_a_trailing_tail =
     (tlv_well_formed_prefix (tlv_marker_u16 ([0xFD, 2, 0] @ bstr ''ta'' @ [0xFD, 1, 0] @ bstr ''z'' @ bstr ''junk'') 0xFD) =
        [\<lparr>entry_tag = 0x74, entry_value = bstr ''a''\<rparr>, \<lparr>entry_tag = 0x7A, entry_value = []\<rparr>])"

definition finds_a_tag_without_collecting :: bool where
  "finds_a_tag_without_collecting =
     (let data = [0xFD, 5, 0] @ bstr ''tUser'' @ [0xFD, 1, 0] @ bstr ''z'' in
      tlv_find_tag (tlv_marker_u16 data 0xFD) 0x74 = Some (bstr ''User'') \<and>
      tlv_find_tag (tlv_marker_u16 data 0xFD) 0x71 = None)"

section \<open>Messages\<close>

definition parses_generic_message :: bool where
  "parses_generic_message =
     expect_ok (incoming_message_try_from_slice [83, 0, 7, 0, 3, 0, 1, 2, 3]) (\<lambda>message.
       in_note message = 7 \<and> in_ty message = 83 \<and> in_payload message = [1, 2, 3])"

definition serializes_generic_message :: bool where
  "serializes_generic_message =
     (outgoing_message_write_into \<lparr>out_note = 7, out_ty = 83, out_payload = [1, 2, 3]\<rparr> [] =
        Inr [83, 0, 7, 0, 3, 0, 1, 2, 3])"

definition rejects_trailing_bytes :: bool where
  "rejects_trailing_bytes = (\<not> is_ok (incoming_message_try_from_slice [83, 0, 7, 0, 1, 0, 1, 2]))"

section \<open>Frames\<close>

text \<open>A slice as a reader and a growing vector as a writer.\<close>

abbreviation slice_stream :: "bytes \<Rightarrow> in_stream" where
  "slice_stream bs \<equiv> \<lparr>in_bytes = bs, in_end = UnexpectedEofKind\<rparr>"

abbreviation vec_stream :: out_stream where
  "vec_stream \<equiv> \<lparr>sent = [], room = None\<rparr>"

definition accepts_maximum_unstuffed_frame :: bool where
  "accepts_maximum_unstuffed_frame =
     (let data = replicate MAX_FRAME_SIZE DLE in
      case write_data_to_io data vec_stream of (written, encoded) \<Rightarrow>
        is_ok written \<and>
        expect_ok (read_from_io (slice_stream (sent encoded))) (\<lambda>(decoded, rest). raw_data decoded = data))"

definition rejects_frame_one_byte_over_maximum :: bool where
  "rejects_frame_one_byte_over_maximum =
     (read_from_io (slice_stream ([DLE, STX] @ replicate (MAX_FRAME_SIZE + 1) 0x55)) = Inl (FrameTooLarge MAX_FRAME_SIZE))"

definition accepts_maximum_vipc_payload :: bool where
  "accepts_maximum_vipc_payload =
     (let vipc = u16_to_le 83 @ u16_to_le 3 @ u16_to_le 512 @ replicate 512 DLE;
          data_frame = u16_to_le 0 @ u16_to_le 0x6542 @ u16_to_le 1 @ vipc;
          frame = frame_write_into (frame_data 1 54 data_frame) []
      in length frame = 528 \<and>
        (case write_data_to_io frame vec_stream of (written, encoded) \<Rightarrow>
          is_ok written \<and>
          expect_ok (read_from_io (slice_stream (sent encoded))) (\<lambda>(decoded, rest).
          expect_ok (frame_try_from_raw decoded) (\<lambda>parsed.
            case frame_body parsed of
              Data data \<Rightarrow>
                expect_ok (data_frame_request_try_from_slice data) (\<lambda>request.
                  case request of ReqMsg header body \<Rightarrow> True | _ \<Rightarrow> False)
            | _ \<Rightarrow> False))))"

section \<open>The tests hold\<close>

lemma find_free_least:
  assumes "simd_ne_spec ne" "id_map_wf TYPE('a::len) m" "i \<noteq> 0" "i \<notin> id_map_used m"
    "\<And>j. j \<noteq> 0 \<Longrightarrow> j < i \<Longrightarrow> j \<in> id_map_used m"
  shows "id_map_find_free ne m = Some (i :: 'a word)"
proof (cases "id_map_find_free ne m :: 'a word option")
  case None
  then show ?thesis using find_free_None_iff[OF assms(1,2)] assms(3,4) by blast
next
  case (Some k)
  note k = find_free_Some[OF assms(1,2) Some]
  then show ?thesis using assms(3-5) Some by (metis linorder_neq_iff)
qed

lemma used_set_all:
  assumes "id_map_wf TYPE('a::len) m" "0 \<notin> set ids"
  shows "id_map_wf TYPE('a) (set_all m ids)" "id_map_used (set_all m ids) = id_map_used m \<union> set (ids :: 'a word list)"
  using assms by (induction ids arbitrary: m) (auto simp: set_all_def used_set)

lemma unat_of_nat_small: "n < 2 ^ LENGTH('a::len) \<Longrightarrow> unat (of_nat n :: 'a word) = n"
  by (simp add: unat_of_nat take_bit_nat_eq_self)

lemma set_ids:
  assumes "n < 2 ^ LENGTH('a::len)"
  shows "set (map of_nat [1..<Suc n] :: 'a word list) = {i. i \<noteq> 0 \<and> i \<le> of_nat n}"
proof -
  have n: "unat (of_nat n :: 'a word) = n" using assms by (simp add: unat_of_nat_small)
  have "of_nat ` {1..<Suc n} = {i :: 'a word. i \<noteq> 0 \<and> i \<le> of_nat n}"
  proof (intro set_eqI iffI)
    fix i :: "'a word" assume "i \<in> of_nat ` {1..<Suc n}"
    then obtain k where k: "i = of_nat k" "1 \<le> k" "k \<le> n" by auto
    then have "unat i = k" using assms by (simp add: unat_of_nat_small)
    then show "i \<in> {i. i \<noteq> 0 \<and> i \<le> of_nat n}" using k n by (auto simp: word_le_nat_alt)
  next
    fix i :: "'a word" assume "i \<in> {i. i \<noteq> 0 \<and> i \<le> of_nat n}"
    then have "unat i \<in> {1..<Suc n}" using n by (auto simp: word_le_nat_alt Suc_le_eq unat_gt_0)
    then show "i \<in> of_nat ` {1..<Suc n}" by (intro image_eqI[of _ _ "unat i"]) simp_all
  qed
  then show ?thesis by (simp only: set_map set_upt)
qed

text \<open>The ids up to \<open>n\<close> are in use, except those of \<open>E\<close>.\<close>

definition uses_up_to :: "'a::len itself \<Rightarrow> id_map \<Rightarrow> nat \<Rightarrow> 'a word set \<Rightarrow> bool" where
  "uses_up_to T m n E \<longleftrightarrow> id_map_wf T m \<and> id_map_used m = {i :: 'a word. i \<noteq> 0 \<and> i \<le> of_nat n \<and> i \<notin> E}"

lemma uses_new: "7 \<le> LENGTH('a::len) \<Longrightarrow> uses_up_to TYPE('a) (id_map_new TYPE('a)) 0 {}"
  by (auto simp: uses_up_to_def wf_new used_new)

lemma uses_set_all:
  assumes "uses_up_to TYPE('a::len) m k {}" "n < 2 ^ LENGTH('a)" "k \<le> n" "ids = map of_nat [Suc k..<Suc n]"
  shows "uses_up_to TYPE('a) (set_all m (ids :: 'a word list)) n {}"
proof -
  have z: "0 \<notin> set ids"
  proof
    assume "0 \<in> set ids"
    then obtain j where "0 = (of_nat j :: 'a word)" "Suc k \<le> j" "j \<le> n" using assms(4) by auto
    then show False using assms(2) unat_of_nat_small[of j, where 'a = 'a] by (metis Suc_le_D le_less_trans nat.distinct(1) unat_0)
  qed
  have "{i :: 'a word. i \<noteq> 0 \<and> i \<le> of_nat k} \<union> set ids = {i. i \<noteq> 0 \<and> i \<le> of_nat n}"
  proof -
    have "[1..<Suc n] = [1..<Suc k] @ [Suc k..<Suc n]" using assms(3) by (metis Suc_le_mono le_add1 plus_1_eq_Suc upt_add_eq_append le_Suc_ex add_Suc)
    then have "set (map of_nat [1..<Suc n] :: 'a word list) = set (map of_nat [1..<Suc k]) \<union> set ids"
      using assms(4) by (metis map_append set_append)
    then show ?thesis using set_ids[of n, where 'a = 'a] set_ids[of k, where 'a = 'a] assms(2,3) by simp
  qed
  then show ?thesis using assms(1) used_set_all[OF _ z, of m] by (simp add: uses_up_to_def)
qed

lemma uses_clear:
  assumes "uses_up_to TYPE('a::len) m n {}" "i \<noteq> 0"
  shows "uses_up_to TYPE('a) (id_map_clear m i) n {i :: 'a word}"
  using assms by (auto simp: uses_up_to_def used_clear)

lemma uses_set_again:
  assumes "uses_up_to TYPE('a::len) m n {i}" "i \<noteq> 0" "i \<le> of_nat n"
  shows "uses_up_to TYPE('a) (id_map_set m i) n ({} :: 'a word set)"
  using assms by (auto simp: uses_up_to_def used_set)

lemma uses_find_next:
  assumes "simd_ne_spec ne" "uses_up_to TYPE('a::len) m n {}" "Suc n < 2 ^ LENGTH('a)"
  shows "id_map_find_free ne m = Some (of_nat (Suc n) :: 'a word)"
proof (rule find_free_least[OF assms(1)])
  have u: "unat (of_nat (Suc n) :: 'a word) = Suc n" "unat (of_nat n :: 'a word) = n"
    using assms(3) by (simp_all only: unat_of_nat_small)
  show "id_map_wf TYPE('a) m" using assms(2) by (simp add: uses_up_to_def)
  show "(of_nat (Suc n) :: 'a word) \<noteq> 0" using u(1) by (metis nat.distinct(1) unat_0)
  show "(of_nat (Suc n) :: 'a word) \<notin> id_map_used m" using assms(2) u by (simp only: uses_up_to_def word_le_nat_alt) simp
  fix j :: "'a word" assume "j \<noteq> 0" "j < of_nat (Suc n)"
  then show "j \<in> id_map_used m" using assms(2) u by (simp only: uses_up_to_def word_le_nat_alt word_less_nat_alt) simp
qed

lemma uses_find_cleared:
  assumes "simd_ne_spec ne" "uses_up_to TYPE('a::len) m n {i}" "i \<noteq> 0" "i \<le> of_nat n"
  shows "id_map_find_free ne m = Some (i :: 'a word)"
proof (rule find_free_least[OF assms(1) _ assms(3)])
  show "id_map_wf TYPE('a) m" "i \<notin> id_map_used m" using assms(2) by (simp_all add: uses_up_to_def)
  fix j :: "'a word" assume "j \<noteq> 0" "j < i"
  then show "j \<in> id_map_used m" using assms(2) order.strict_implies_order[OF less_le_trans[OF _ assms(4)], of j]
    by (auto simp: uses_up_to_def)
qed

lemma bitmap_byte_tests:
  "sets_and_clears_bits_in_the_first_byte \<and> sets_and_clears_bits_in_the_second_byte \<and>
   sets_and_clears_bits_in_another_chunk \<and> the_eight_bit_map_sets_and_clears_bits \<and>
   the_eight_bit_map_sets_and_clears_bits_in_its_last_chunk"
  by (simp add: sets_and_clears_bits_in_the_first_byte_def sets_and_clears_bits_in_the_second_byte_def
    sets_and_clears_bits_in_another_chunk_def the_eight_bit_map_sets_and_clears_bits_def
    the_eight_bit_map_sets_and_clears_bits_in_its_last_chunk_def id_map_set_def id_map_clear_def id_map_is_set_def
    id_map_new_def id_map_ALLOC_SIZE_def id_map_SIZE_def)

text \<open>The tests that ask for free ids, at both widths.\<close>

lemma finds_the_first_free_id_in_the_first_byte:
  assumes "simd_ne_spec ne"
  shows "finds_the_first_free_id_in_the_first_byte ne"
proof -
  let ?m0 = "id_map_new TYPE(16)"
  let ?m1 = "id_map_set ?m0 (1 :: u16)"
  let ?m7 = "set_all ?m1 [2 :: u16, 3, 4, 5, 6, 7]"
  let ?m8 = "id_map_set ?m7 (8 :: u16)"
  have 0: "uses_up_to TYPE(16) ?m0 0 {}" by (rule uses_new) simp
  have 1: "uses_up_to TYPE(16) ?m1 1 {}" using uses_set_all[OF 0, of 1 "[1]"] by (simp add: set_all_def)
  have 7: "uses_up_to TYPE(16) ?m7 7 {}" using uses_set_all[OF 1, of 7 "[2, 3, 4, 5, 6, 7]"] by (simp add: upt_rec)
  have 8: "uses_up_to TYPE(16) ?m8 8 {}" using uses_set_all[OF 7, of 8 "[8]"] by (simp add: set_all_def)
  show ?thesis
    using uses_find_next[OF assms 0] uses_find_next[OF assms 1] uses_find_next[OF assms 7] uses_find_next[OF assms 8]
    by (simp add: finds_the_first_free_id_in_the_first_byte_def)
qed

lemma setting_and_clearing_a_bit_in_the_first_byte_changes_find_free:
  assumes "simd_ne_spec ne"
  shows "setting_and_clearing_a_bit_in_the_first_byte_changes_find_free ne"
proof -
  let ?m1 = "id_map_set (id_map_new TYPE(16)) (1 :: u16)"
  have 0: "uses_up_to TYPE(16) (id_map_new TYPE(16)) 0 {}" by (rule uses_new) simp
  have 1: "uses_up_to TYPE(16) ?m1 1 {}" using uses_set_all[OF 0, of 1 "[1]"] by (simp add: set_all_def)
  show ?thesis
    using uses_find_next[OF assms 1] uses_find_cleared[OF assms uses_clear[OF 1, of 1]]
    by (simp add: setting_and_clearing_a_bit_in_the_first_byte_changes_find_free_def)
qed

text \<open>Ids up to \<open>n\<close> are set; one of them is cleared and set again.\<close>

lemma set_clear_set:
  assumes "simd_ne_spec ne" "7 \<le> LENGTH('a::len)" "Suc n < 2 ^ LENGTH('a)" "ids = map of_nat [1..<Suc n]"
    "i \<noteq> 0" "i \<le> of_nat n"
  defines "m \<equiv> set_all (id_map_new TYPE('a)) (ids :: 'a word list)"
  shows "id_map_find_free ne m = Some (of_nat (Suc n) :: 'a word)"
    "id_map_find_free ne (id_map_clear m i) = Some (i :: 'a word)"
    "id_map_find_free ne (id_map_set (id_map_clear m i) i) = Some (of_nat (Suc n) :: 'a word)"
proof -
  have m: "uses_up_to TYPE('a) m n {}"
    unfolding m_def by (rule uses_set_all[OF uses_new[OF assms(2)]]) (use assms(3,4) in simp_all)
  note c = uses_clear[OF m assms(5)]
  show "id_map_find_free ne m = Some (of_nat (Suc n) :: 'a word)"
    "id_map_find_free ne (id_map_clear m i) = Some (i :: 'a word)"
    "id_map_find_free ne (id_map_set (id_map_clear m i) i) = Some (of_nat (Suc n) :: 'a word)"
    using uses_find_next[OF assms(1) m assms(3)] uses_find_cleared[OF assms(1) c assms(5,6)]
      uses_find_next[OF assms(1) uses_set_again[OF c assms(5,6)] assms(3)] by simp_all
qed

lemma full_then_cleared:
  assumes "simd_ne_spec ne" "7 \<le> LENGTH('a::len)" "ids = map of_nat [1..<2 ^ LENGTH('a)]" "i = - 1"
  defines "m \<equiv> set_all (id_map_new TYPE('a)) (ids :: 'a word list)"
  shows "(id_map_find_free ne m :: 'a word option) = None" "id_map_find_free ne (id_map_clear m i) = Some (i :: 'a word)"
proof -
  obtain n where n: "Suc n = 2 ^ LENGTH('a)" by (metis gr0_implies_Suc zero_less_numeral zero_less_power)
  then have "of_nat (Suc n) = (0 :: 'a word)" by (simp only: of_nat_power) simp
  then have top: "(of_nat n :: 'a word) = - 1" by (simp add: eq_neg_iff_add_eq_0 add.commute)
  have m: "uses_up_to TYPE('a) m n {}"
    unfolding m_def by (rule uses_set_all[OF uses_new[OF assms(2)]]) (use n assms(3) in simp_all)
  have "{i :: 'a word. i \<noteq> 0 \<and> i \<le> of_nat n} = {i. i \<noteq> 0}" using top by simp
  then show "(id_map_find_free ne m :: 'a word option) = None"
    using find_free_None_iff[OF assms(1), where 'a = 'a, of m] m by (simp add: uses_up_to_def)
  have "i \<noteq> 0" "i \<le> of_nat n" using assms(4) top by simp_all
  then show "id_map_find_free ne (id_map_clear m i) = Some (i :: 'a word)"
    using uses_find_cleared[OF assms(1) uses_clear[OF m]] by blast
qed

lemma bitmap_search_tests:
  assumes "simd_ne_spec ne"
  shows "setting_and_clearing_a_bit_in_the_second_byte_changes_find_free ne"
    "setting_and_clearing_a_bit_in_another_chunk_changes_find_free ne"
    "the_eight_bit_map_finds_the_first_free_id ne"
    "a_full_map_has_no_free_id_and_clearing_the_last_id_makes_it_free ne"
    "a_full_eight_bit_map_has_no_free_id_and_clearing_the_last_id_makes_it_free ne"
proof -
  show "setting_and_clearing_a_bit_in_the_second_byte_changes_find_free ne"
    unfolding setting_and_clearing_a_bit_in_the_second_byte_changes_find_free_def Let_def
    using set_clear_set[OF assms, where 'a = 16 and n = 9 and i = 9 and ids = "[1, 2, 3, 4, 5, 6, 7, 8, 9]"]
    by (simp add: upt_rec)
  show "setting_and_clearing_a_bit_in_another_chunk_changes_find_free ne"
    unfolding setting_and_clearing_a_bit_in_another_chunk_changes_find_free_def Let_def
    using set_clear_set[OF assms, where 'a = 16 and n = 128 and i = 128] by simp
  show "the_eight_bit_map_finds_the_first_free_id ne"
    unfolding the_eight_bit_map_finds_the_first_free_id_def Let_def
    using set_clear_set[OF assms, where 'a = 8 and n = 8 and i = 4 and ids = "[1, 2, 3, 4, 5, 6, 7, 8]"]
      uses_find_next[OF assms uses_new, where 'a = 8]
    by (simp add: upt_rec)
  show "a_full_map_has_no_free_id_and_clearing_the_last_id_makes_it_free ne"
    unfolding a_full_map_has_no_free_id_and_clearing_the_last_id_makes_it_free_def Let_def
    using full_then_cleared[OF assms, where 'a = 16 and i = 65535] by simp
  show "a_full_eight_bit_map_has_no_free_id_and_clearing_the_last_id_makes_it_free ne"
    unfolding a_full_eight_bit_map_has_no_free_id_and_clearing_the_last_id_makes_it_free_def Let_def
    using full_then_cleared[OF assms, where 'a = 8 and i = 255] by simp
qed

lemma setting_an_already_set_bit_and_clearing_an_already_clear_bit_are_idempotent:
  assumes "simd_ne_spec ne"
  shows "setting_an_already_set_bit_and_clearing_an_already_clear_bit_are_idempotent ne"
proof -
  let ?m = "id_map_set (id_map_set (id_map_new TYPE(16)) (17 :: u16)) (17 :: u16)"
  let ?c = "id_map_clear (id_map_clear ?m (17 :: u16)) (17 :: u16)"
  have wf: "id_map_wf TYPE(16) (id_map_new TYPE(16))" by (rule wf_new) simp
  have "id_map_used ?m = {17 :: u16}" "id_map_used ?c = ({} :: u16 set)"
    using wf by (simp_all add: used_set used_clear used_new)
  then have "id_map_find_free ne ?m = Some (1 :: u16)" "id_map_find_free ne ?c = Some (1 :: u16)"
    using wf by (auto intro!: find_free_least[OF assms])
  then show ?thesis by (simp add: setting_an_already_set_bit_and_clearing_an_already_clear_bit_are_idempotent_def)
qed

section \<open>The tests of records, messages and frames hold\<close>

lemmas wire_eval [eval] = tlv_entry.simps tlv.simps tlv_kind.distinct tlv_new_def tlv_tag_u8_def tlv_marker_u16_def
  tlv_read_entry.simps tlv_next_def tlv_items.simps map_while_ok.simps tlv_collect_all_def tlv_well_formed_prefix_def
  tlv_find_tag_def read_array_def read_u8_def read_u16_def read_u32_def read_slice_def read_remainder_def
  read_small_slice_def write_u8_def write_u16_def write_all_def write_u8_slice_def incoming_message.simps
  outgoing_message.simps incoming_message_try_from_slice_def outgoing_message_write_into_def List.map_filter_simps

lemmas wire_test_eval [eval] = walks_tag_u8_records_def walks_marker_u16_records_def tlv_rejects_truncated_records_def
  rejects_a_wrong_marker_def rejects_a_record_that_cannot_hold_a_tag_def stops_after_the_first_malformed_record_def
  keeps_the_records_before_a_trailing_tail_def finds_a_tag_without_collecting_def parses_generic_message_def
  serializes_generic_message_def rejects_trailing_bytes_def

lemma record_tests:
  "walks_tag_u8_records \<and> walks_marker_u16_records \<and> tlv_rejects_truncated_records \<and> rejects_a_wrong_marker \<and>
   rejects_a_record_that_cannot_hold_a_tag \<and> stops_after_the_first_malformed_record \<and>
   keeps_the_records_before_a_trailing_tail \<and> finds_a_tag_without_collecting"
  by (simp only: eval cong: eval_cong)

lemma message_tests: "parses_generic_message \<and> serializes_generic_message \<and> rejects_trailing_bytes"
  by (simp only: eval cong: eval_cong)

lemma written_frame_read_back:
  assumes "length data \<le> MAX_FRAME_SIZE"
  shows "fst (write_data_to_io data vec_stream) = Inr ()"
    "read_from_io (slice_stream (sent (snd (write_data_to_io data vec_stream)))) = Inr (\<lparr>raw_data = data\<rparr>, slice_stream [])"
  using assms read_frame_bytes[of data "[]"] by (simp_all add: write_data_to_io_unlimited)

lemma accepts_maximum_unstuffed_frame: accepts_maximum_unstuffed_frame
  using written_frame_read_back[of "replicate MAX_FRAME_SIZE DLE"]
  by (simp add: accepts_maximum_unstuffed_frame_def case_prod_unfold)

lemma rejects_frame_one_byte_over_maximum: rejects_frame_one_byte_over_maximum
proof -
  have "stuff (replicate (MAX_FRAME_SIZE + 1) 0x55) = replicate (MAX_FRAME_SIZE + 1) 0x55"
    by (rule stuff_no_dle) (simp add: DLE_def)
  then show ?thesis
    using read_unstuffed_stuff[of "[]" "replicate (MAX_FRAME_SIZE + 1) 0x55" "[]" UnexpectedEofKind]
    by (simp add: rejects_frame_one_byte_over_maximum_def read_from_io_def read_unstuffed_stx)
qed

lemma accepts_maximum_vipc_payload: accepts_maximum_vipc_payload
proof -
  let ?body = "u16_to_le 83 @ u16_to_le 3 @ u16_to_le 512 @ replicate 512 DLE"
  let ?request = "ReqMsg \<lparr>local_path_id = 0x6542, remote_path_id = 1\<rparr> ?body"
  let ?data = "u16_to_le 0 @ u16_to_le 0x6542 @ u16_to_le 1 @ ?body"
  let ?frame = "frame_write_into (frame_data 1 54 ?data) []"
  have l: "length ?frame = 528" by (simp add: frame_write_into_def frame_data_def)
  have "data_frame_request_try_from_slice ?data = Inr ?request"
    using request_parse_encode[of ?request "[]"] by (simp add: connect_header_bytes_def)
  moreover have "frame_try_from_raw \<lparr>raw_data = ?frame\<rparr> = Inr (frame_data 1 54 ?data)"
    using frame_parse_write[of "frame_data 1 54 ?data"] by simp
  ultimately show ?thesis
    using written_frame_read_back[of ?frame] l
    by (simp add: accepts_maximum_vipc_payload_def case_prod_unfold MAX_FRAME_SIZE_def frame_data_def)
qed

end
