(* ===== verification/File_Tests.thy ===== *)
theory File_Tests
  imports Grid_File Grid_Descriptor Rust_Text Wire_Tests
begin

text \<open>
  The tests of vfs/file: paths, names, dates, descriptors and files, translated over the model. The
  temporary file of a test is the one node of \<open>test_host\<close>, and its clone is the same descriptor; what the
  test reads of the physical file is the data of the node.
\<close>

unbundle bit_operations_syntax

section \<open>Paths\<close>

definition find_byte :: "byte \<Rightarrow> bytes \<Rightarrow> nat option" where
  "find_byte b bs = find (\<lambda>i. bs ! i = b) [0..<length bs]"

definition grid_path_server :: "grid_path \<Rightarrow> bytes option" where
  "grid_path_server p =
     (case p of
        [] \<Rightarrow> None
      | b # path \<Rightarrow>
          if b \<noteq> COMPONENT_SEPARATOR then None
          else (case find_byte SERVER_SEPARATOR path of None \<Rightarrow> None | Some separator \<Rightarrow> Some (take separator path)))"

definition grid_path_password :: "grid_path \<Rightarrow> bytes option" where
  "grid_path_password p =
     (case find_byte PASSWORD_SEPARATOR p of None \<Rightarrow> None | Some separator \<Rightarrow> Some (drop (separator + 1) p))"

definition path_case :: "bytes \<Rightarrow> bytes option \<Rightarrow> bytes option \<Rightarrow> bytes option \<Rightarrow> bool" where
  "path_case raw folder file_name password =
     expect_ok (grid_path_try_from raw) (\<lambda>path.
       path = raw \<and>
       (let components = grid_path_components path in
        grid_path_server path = Some (bstr ''server'') \<and>
        gp_device components = Some (bstr ''Device'') \<and>
        gp_folder components = folder \<and>
        gp_file components = file_name \<and>
        grid_path_password path = password))"

definition parses_grid_paths :: bool where
  "parses_grid_paths =
     (path_case (bstr ''`server:Device'') None None None \<and>
      path_case (bstr ''`server:Device`Mail'') (Some (bstr ''Mail'')) None None \<and>
      path_case (bstr ''`server:Device`Mail`'') (Some (bstr ''Mail'')) None None \<and>
      path_case (bstr ''`server:Device`Mail`File~Text~'') (Some (bstr ''Mail'')) (Some (bstr ''File~Text~'')) None \<and>
      path_case (bstr ''`server:Device`Folder~Subject~`File~Text~'')
        (Some (bstr ''Folder~Subject~'')) (Some (bstr ''File~Text~'')) None \<and>
      path_case (bstr ''`server:Device`Folder~Subject~`File~Text~|Password'')
        (Some (bstr ''Folder~Subject~'')) (Some (bstr ''File~Text~'')) (Some (bstr ''Password'')) \<and>
      path_case (bstr ''`server:Device`Folder`File~Text~`Version'')
        (Some (bstr ''Folder'')) (Some (bstr ''File~Text~'')) None)"

definition accepts_non_utf8_names :: bool where
  "accepts_non_utf8_names =
     expect_ok (grid_path_try_from (bstr ''`server:Device`'' @ [0xFF] @ bstr ''older`file~Data~'')) (\<lambda>path.
       gp_folder (grid_path_components path) = Some ([0xFF] @ bstr ''older''))"

definition rejects_malformed_grid_paths :: bool where
  "rejects_malformed_grid_paths =
     list_all (\<lambda>raw. \<not> is_ok (grid_path_try_from raw))
       [bstr '''', bstr ''server:Device'', bstr ''`:Device'', bstr ''`server:'', bstr ''`server:Device``Mail'',
        bstr ''`server:Device|'', bstr ''`server:Device|Password|Extra'', bstr ''`server:Dev:ice'', bstr ''`ser`ver:Device'']"

section \<open>Names\<close>

definition decode_name :: "byte \<Rightarrow> bytes \<Rightarrow> grid_file_name" where
  "decode_name len v = \<lparr>name_length = len, name_bytes = v @ replicate (STORAGE_LENGTH - 1 - length v) 0xAA\<rparr>"

definition creates_and_dereferences_a_valid_name :: bool where
  "creates_and_dereferences_a_valid_name =
     expect_ok (grid_file_name_new (bstr ''Report~Text~'')) (\<lambda>name. grid_file_name_as_bytes name = bstr ''Report~Text~'')"

definition the_length_prefix_bounds_the_name_within_its_storage :: bool where
  "the_length_prefix_bounds_the_name_within_its_storage =
     (grid_file_name_as_bytes (decode_name 12 (bstr ''Report~Text~'')) = bstr ''Report~Text~'')"

definition validate_rejects_a_decoded_name_the_constructor_would_refuse :: bool where
  "validate_rejects_a_decoded_name_the_constructor_would_refuse =
     (grid_file_name_validate (decode_name 81 []) = Inl TooLong \<and>
      grid_file_name_validate (decode_name 5 (bstr ''title'')) = Inl InvalidFormat)"

definition accepts_a_name_of_exactly_eighty_bytes :: bool where
  "accepts_a_name_of_exactly_eighty_bytes =
     (let v = replicate 78 0x61 @ bstr ''~~'' in
      expect_ok (grid_file_name_new v) (\<lambda>name. grid_file_name_as_bytes name = v))"

definition rejects_an_overlong_name :: bool where
  "rejects_an_overlong_name = (grid_file_name_new (replicate 79 0x61 @ bstr ''~~'') = Inl TooLong)"

definition rejects_names_outside_the_title_kind_template :: bool where
  "rejects_names_outside_the_title_kind_template =
     list_all (\<lambda>v. grid_file_name_new v = Inl InvalidFormat) [bstr ''title'', bstr ''title~kind'']"

definition rejects_forbidden_component_characters :: bool where
  "rejects_forbidden_component_characters =
     list_all (\<lambda>(v, chr). grid_file_name_new v = Inl (ForbiddenCharacter chr))
       [(bstr ''ti|tle~kind~'', 0x7C), (bstr ''title~ki`nd~'', 0x60), (bstr ''title~~kind~'', 0x7E)]"

definition validates_without_constructing_a_name :: bool where
  "validates_without_constructing_a_name =
     (is_valid_name (bstr ''Report~Text~'') = Inr () \<and>
      is_valid_name (bstr ''Report|Draft~Text~'') = Inl (ForbiddenCharacter 0x7C))"

section \<open>Dates and descriptors\<close>

definition DATE_LENGTH :: nat where "DATE_LENGTH = 11"

definition ARBITRARY_DATE :: grid_date where
  "ARBITRARY_DATE =
     \<lparr>gd_year = 2024, gd_month = 2, gd_day = 29, gd_hour = 21, gd_minute = 30, gd_second = 5,
      gd_tenth_of_second = 1, gd_day_of_week = 5, gd_day_of_year = 60\<rparr>"

definition never_encodes_as_all_zeroes :: bool where
  "never_encodes_as_all_zeroes =
     (grid_date_bytes grid_date_never = replicate DATE_LENGTH 0 \<and>
      read_grid_date (replicate DATE_LENGTH 0) = Inr (grid_date_never, []))"

definition encodes_each_numeric_field_in_the_grid_layout :: bool where
  "encodes_each_numeric_field_in_the_grid_layout =
     (grid_date_bytes ARBITRARY_DATE = [0xE8, 0x07, 2, 29, 21, 30, 5, 1, 5, 60, 0])"

text \<open>\<open>GRiDDate::today\<close>, of the time \<open>now\<close> the date library reports.\<close>

definition grid_date_today :: "zoned \<Rightarrow> grid_date" where
  "grid_date_today now = grid_date_from_zoned now"

definition today_produces_a_populated_date :: "zoned \<Rightarrow> bool" where
  "today_produces_a_populated_date now =
     (let date = grid_date_today now in
      2026 \<le> gd_year date \<and> 1 \<le> gd_month date \<and> gd_month date \<le> 12 \<and> 1 \<le> gd_day date \<and> gd_day date \<le> 31 \<and>
      1 \<le> gd_day_of_week date \<and> gd_day_of_week date \<le> 7 \<and> 1 \<le> gd_day_of_year date \<and> gd_day_of_year date \<le> 366)"

text \<open>The debug format: \<open>debug_struct\<close> prints the name and the fields in braces.\<close>

definition grid_date_debug :: "grid_date \<Rightarrow> bytes" where
  "grid_date_debug d =
     (if d = grid_date_never then bstr ''GRiDDate::never()''
      else
        bstr ''GRiDDate { year: '' @ digits (unat (gd_year d)) @ bstr '', month: '' @ digits (unat (gd_month d))
        @ bstr '', day: '' @ digits (unat (gd_day d)) @ bstr '', hour: '' @ digits (unat (gd_hour d))
        @ bstr '', minute: '' @ digits (unat (gd_minute d)) @ bstr '', second: '' @ digits (unat (gd_second d))
        @ bstr '', tenth_of_second: '' @ digits (unat (gd_tenth_of_second d))
        @ bstr '', day_of_week: '' @ digits (unat (gd_day_of_week d))
        @ bstr '', day_of_year: '' @ digits (unat (gd_day_of_year d)) @ bstr '' }'')"

definition text_contains :: "bytes \<Rightarrow> bytes \<Rightarrow> bool" where
  "text_contains t part \<longleftrightarrow> find (\<lambda>i. take (length part) (drop i t) = part) [0..<length t] \<noteq> None"

definition debug_distinguishes_never_and_populated_dates :: bool where
  "debug_distinguishes_never_and_populated_dates =
     (grid_date_debug grid_date_never = bstr ''GRiDDate::never()'' \<and>
      (let debug = grid_date_debug ARBITRARY_DATE in
       text_contains debug (bstr ''GRiDDate'') \<and> text_contains debug (bstr ''year: 2024'')))"

definition encoded_descriptor :: "bytes option" where
  "encoded_descriptor =
     (case grid_file_name_new (bstr ''Name~Data~'') of
        Inl e \<Rightarrow> None
      | Inr name \<Rightarrow>
          Some (descriptor_to_bytes (descriptor_default\<lparr>ds_file_length := 0x01020304, ds_file_name := name\<rparr>)))"

definition the_name_follows_the_file_length_on_the_wire :: bool where
  "the_name_follows_the_file_length_on_the_wire =
     expect encoded_descriptor (\<lambda>bs.
       take 4 bs = u32_to_le 0x01020304 \<and> bs ! 4 = 10 \<and> take 10 (drop 5 bs) = bstr ''Name~Data~'')"

definition a_name_length_over_the_maximum_is_rejected :: bool where
  "a_name_length_over_the_maximum_is_rejected =
     expect encoded_descriptor (\<lambda>bs. \<not> is_ok (descriptor_from_bytes (take 4 bs @ [81] @ drop 5 bs)))"

section \<open>Files\<close>

definition test_host :: host where
  "test_host =
     \<lparr>host_nodes = [([bstr ''tmp''], \<lparr>nd_kind = FileNode, nd_data = [], nd_created = None, nd_modified = 0\<rparr>)],
      host_script = [], host_now = 0, host_xattrs = []\<rparr>"

definition tempfile :: fd where
  "tempfile = \<lparr>fd_path = [bstr ''tmp''], fd_pos = 0\<rparr>"

definition read_physical_file :: "host \<Rightarrow> bytes" where
  "read_physical_file h = nd_data (fd_node h tempfile)"

definition test_name :: "grid_file_name option" where
  "test_name = (case grid_file_name_new (bstr ''test~Data~'') of Inl e \<Rightarrow> None | Inr name \<Rightarrow> Some name)"

definition test_header :: "u32 \<Rightarrow> grid_file_header" where
  "test_header property_length = grid_file_header_new\<lparr>hd_property_length := property_length\<rparr>"

text \<open>\<open>GRiDFile::create\<close> on a temporary file, with the name of the tests.\<close>

definition test_create :: "grid_file_header \<Rightarrow> bytes \<Rightarrow> (grid_file_error + grid_file) \<times> host" where
  "test_create header body =
     (case test_name of None \<Rightarrow> (Inl InvalidHeaderMagic, test_host)
      | Some name \<Rightarrow> gf_create tempfile name header body test_host)"

text \<open>\<open>Write::write_all\<close> on the temporary file, and the file opened from its start.\<close>

definition test_open :: "bytes \<Rightarrow> grid_file_error + grid_file" where
  "test_open contents =
     (case (test_name, write_all_fd contents tempfile test_host) of
        (Some name, Inr _, d, h) \<Rightarrow>
          (case fd_seek_start 0 d h of
             (Inl k, d, h) \<Rightarrow> Inl (GIo k)
           | (Inr _, d, h) \<Rightarrow> fst (from_file d name h))
      | _ \<Rightarrow> Inl (GIo OtherKind))"

text \<open>\<open>Read::read_to_end\<close>: reads until one gives nothing.\<close>

fun gf_read_to_end :: "nat \<Rightarrow> grid_file \<Rightarrow> host \<Rightarrow> (bytes \<times> grid_file \<times> host) option" where
  "gf_read_to_end 0 f h = None"
| "gf_read_to_end (Suc fuel) f h =
     (case gf_read 32 f h of
        (Inl k, f, h) \<Rightarrow> None
      | (Inr got, f, h) \<Rightarrow>
          if got = [] then Some ([], f, h)
          else map_option (\<lambda>(rest, f, h). (got @ rest, f, h)) (gf_read_to_end fuel f h))"

definition header_starts_with_the_magic_and_the_format_version :: bool where
  "header_starts_with_the_magic_and_the_format_version =
     expect_ok (header_to_bytes (test_header 0x01020304)) (\<lambda>bs.
       take 8 bs = bstr ''GRiDiRG'' @ [0x01] \<and> drop 12 bs = u32_to_le 0x01020304)"

definition open_rejects_invalid_magic_and_format_version :: bool where
  "open_rejects_invalid_magic_and_format_version =
     list_all (\<lambda>offset.
       expect_ok (header_to_bytes (test_header 0)) (\<lambda>bs.
         case test_open (take offset bs @ [bs ! offset XOR 0xFF] @ drop (offset + 1) bs) of
           Inl InvalidHeaderMagic \<Rightarrow> True | Inl (UnsupportedHeaderVersion v) \<Rightarrow> True | _ \<Rightarrow> False))
       [0, length HEADER_MAGIC]"

definition create_writes_header_and_complete_body :: bool where
  "create_writes_header_and_complete_body =
     (let header = test_header 3 in
      case test_create header (bstr ''propbody'') of (created, h) \<Rightarrow>
      expect_ok created (\<lambda>f.
        gf_header f = header \<and> Some (gf_name f) = test_name \<and> gf_body_pos f = 0 \<and>
        (let bs = read_physical_file h in
         length bs = 24 \<and> header_to_bytes header = Inr (take HEADER_LENGTH bs) \<and>
         drop HEADER_LENGTH bs = bstr ''propbody'')))"

definition open_rejects_a_physically_short_property_section :: bool where
  "open_rejects_a_physically_short_property_section =
     expect_ok (header_to_bytes (test_header 5)) (\<lambda>bs.
       case test_open (bs @ bstr ''abc'') of Inl (DataTooShort a m) \<Rightarrow> True | _ \<Rightarrow> False)"

definition open_rejects_a_truncated_header :: bool where
  "open_rejects_a_truncated_header = (test_open (replicate 10 0) = Inl (GIo UnexpectedEofKind))"

definition create_rejects_a_body_shorter_than_properties :: bool where
  "create_rejects_a_body_shorter_than_properties =
     (case fst (test_create (test_header 3) (bstr ''ab'')) of Inl (DataTooShort a m) \<Rightarrow> True | _ \<Rightarrow> False)"

definition properties_are_the_start_of_the_logical_body :: bool where
  "properties_are_the_start_of_the_logical_body =
     (case test_create (test_header 4) (bstr ''metaabc'') of (created, h) \<Rightarrow>
      expect_ok created (\<lambda>f.
      expect (gf_read_to_end 8 f h) (\<lambda>(body, f, h).
        body = bstr ''metaabc'' \<and>
        (case gf_seek (Start 0) f h of (sought, f, h) \<Rightarrow>
         case gf_write_all (bstr ''META'') f h of (written, f, h) \<Rightarrow>
           is_ok sought \<and> is_ok written \<and> take 4 (drop HEADER_LENGTH (read_physical_file h)) = bstr ''META''))))"

definition body_write_grows_the_physical_file_without_changing_the_header :: bool where
  "body_write_grows_the_physical_file_without_changing_the_header =
     (let header = test_header 2 in
      case test_create header (bstr ''xy'' @ [0]) of (created, h) \<Rightarrow>
      expect_ok created (\<lambda>f.
        case gf_seek (End 0) f h of (sought, f, h) \<Rightarrow>
        case gf_write_all (bstr ''new'') f h of (written, f, h) \<Rightarrow>
          is_ok sought \<and> is_ok written \<and> gf_header f = header \<and> gf_body_pos f = 6 \<and>
          (let bs = read_physical_file h in
           header_from_bytes (take HEADER_LENGTH bs) = Inr header \<and>
           take 2 (drop HEADER_LENGTH bs) = bstr ''xy'' \<and> length bs = 22)))"

definition header_update_may_redistribute_the_body_length :: bool where
  "header_update_may_redistribute_the_body_length =
     (case test_create (test_header 3) (bstr ''content'') of (created, h) \<Rightarrow>
      expect_ok created (\<lambda>f.
        let replacement = (gf_header f)\<lparr>hd_property_length := 5, hd_flags := 42\<rparr> in
        case set_header replacement f h of (updated, f, h) \<Rightarrow>
          is_ok updated \<and>
          (let bs = read_physical_file h in
           header_from_bytes (take HEADER_LENGTH bs) = Inr replacement \<and> drop HEADER_LENGTH bs = bstr ''content'')))"

definition header_update_rejects_properties_longer_than_the_body :: bool where
  "header_update_rejects_properties_longer_than_the_body =
     (case test_create (test_header 5) (replicate 11 0) of (created, h) \<Rightarrow>
      expect_ok created (\<lambda>f.
        case gf_seek (Start 5) f h of (sought, f, h) \<Rightarrow>
        let original = gf_header f in
        case set_header (original\<lparr>hd_property_length := 12\<rparr>) f h of (updated, f, h) \<Rightarrow>
          is_ok sought \<and> (case updated of Inl (DataTooShort a m) \<Rightarrow> True | _ \<Rightarrow> False) \<and>
          gf_body_pos f = 5 \<and> gf_header f = original))"

definition truncate_cannot_remove_properties :: bool where
  "truncate_cannot_remove_properties =
     (case test_create (test_header 2) (bstr ''xybody'') of (created, h) \<Rightarrow>
      expect_ok created (\<lambda>f.
        case gf_seek (Start 1) f h of (s1, f, h) \<Rightarrow>
        case gf_truncate f h of (refused, f, h) \<Rightarrow>
        case gf_seek (Start 4) f h of (s2, f, h) \<Rightarrow>
        case gf_truncate f h of (done, f, h) \<Rightarrow>
          is_ok s1 \<and> (case refused of Inl (DataTooShort a m) \<Rightarrow> True | _ \<Rightarrow> False) \<and> is_ok s2 \<and> is_ok done \<and>
          fst (fd_len (gf_fd f) h) = Inr (HEADER_LENGTH + 4)))"

definition seek_is_relative_to_the_logical_body :: bool where
  "seek_is_relative_to_the_logical_body =
     (case test_create (test_header 2) (replicate 4 0) of (created, h) \<Rightarrow>
      expect_ok created (\<lambda>f.
        case gf_seek (Start 1) f h of (s1, f, h) \<Rightarrow>
        case gf_seek (Current 1) f h of (s2, f, h) \<Rightarrow>
        case gf_seek (End (- 1)) f h of (s3, f, h) \<Rightarrow>
        case gf_seek (End 4) f h of (s4, f, h) \<Rightarrow>
        case gf_seek (Current (- 9)) f h of (s5, f, h) \<Rightarrow>
          s1 = Inr 1 \<and> s2 = Inr 2 \<and> s3 = Inr 3 \<and> s4 = Inr 8 \<and> \<not> is_ok s5 \<and> gf_body_pos f = 8))"

definition empty_properties_and_body_are_supported :: bool where
  "empty_properties_and_body_are_supported =
     (case test_create (test_header 0) [] of (created, h) \<Rightarrow>
      expect_ok created (\<lambda>f.
      expect (gf_read_to_end 8 f h) (\<lambda>(body, f, h).
        body = [] \<and> length (read_physical_file h) = HEADER_LENGTH)))"

section \<open>The tests hold\<close>

lemma byte_complement [eval]: "(x XOR 255 :: byte) = of_int (255 - uint x)"
proof -
  have minus: "(255 :: byte) = - 1" by simp
  have "x XOR 255 = NOT x"
    unfolding minus by (rule bit_word_eqI) (simp add: bit_xor_iff bit_not_iff)
  also have "\<dots> = 255 - x" by (simp add: not_eq_complement)
  finally show ?thesis by simp
qed

text \<open>Splitting with the passed prefix as an accumulator.\<close>

definition splitn2_from :: "bytes \<Rightarrow> byte \<Rightarrow> bytes \<Rightarrow> bytes \<times> bytes option" where
  "splitn2_from acc s bs = (rev acc @ fst (splitn2 s bs), snd (splitn2 s bs))"

lemma splitn2_from_eval [eval]:
  "splitn2 s bs = splitn2_from [] s bs" "splitn2_from acc s [] = (rev acc, None)"
  "splitn2_from acc s (c # cs) = (if c = s then (rev acc, Some cs) else splitn2_from (c # acc) s cs)"
  by (auto simp: splitn2_from_def split: prod.split)

definition split_on_from :: "bytes \<Rightarrow> byte \<Rightarrow> bytes \<Rightarrow> bytes list" where
  "split_on_from acc s bs = (rev acc @ hd (split_on s bs)) # tl (split_on s bs)"

lemma split_on_from_eval [eval]:
  "split_on s bs = split_on_from [] s bs" "split_on_from acc s [] = [rev acc]"
  "split_on_from acc s (c # cs) = (if c = s then rev acc # split_on_from [] s cs else split_on_from (c # acc) s cs)"
  using split_on_nonempty by (auto simp: split_on_from_def split: list.split)

lemma offset_eval [eval]: "(2 :: nat) ^ 63 = 9223372036854775808" "(2 :: nat) ^ 32 = 4294967296"
  by simp_all

lemma gf_read_to_end_fuel [eval]:
  "gf_read_to_end (numeral k) = gf_read_to_end (Suc (pred_numeral k))" "gf_read_to_end 1 = gf_read_to_end (Suc 0)"
  by (simp_all add: numeral_eq_Suc)

lemmas date_text_eval [eval] = digits.simps euclidean_size_nat_def id_apply grid_date.ext_inject

lemmas int_eval [eval] = diff_numeral_special minus_minus num.simps BitM.simps

lemmas host_eval_cong = eval_cong host_event.case_cong_weak grid_file_error.case_cong_weak seek_from.case_cong_weak

lemmas host_eval [eval] = fun_upd_apply map_of.simps butlast.simps SLASH_def path_push_def split_slash.simps
  resolve_step_def resolve_def node_kind.distinct node_kind.case node.simps host_event.distinct
  host_event.inject host_event.case host.simps next_event_def host_node_def set_node.simps put_node_def syscall_def
  new_node_def is_dir_def fs_metadata_def mkdir_def unless_dir_def mkdir_all.simps create_dir_all_def fs_read_dir_def fd.simps open_create_def
  fd_node_def fd_put_def fd_len_def fd_metadata_def short_of_def fd_seek_start_def fd_read_def splice_at_def
  fd_write_def fd_set_len_def

lemmas name_eval [eval] = strip_suffix_def grid_path_parts.simps COMPONENT_SEPARATOR_def SERVER_SEPARATOR_def
  PASSWORD_SEPARATOR_def grid_path_validate_def grid_path_try_from_def grid_path_components_def MAX_LENGTH_def
  STORAGE_LENGTH_def SEP_KIND_def SEP_PASS_def SEP_PATH_def grid_file_name.simps grid_file_name_error.distinct
  grid_file_name_error.inject grid_file_name_error.case check_head.simps is_valid_name_def grid_file_name_as_bytes_def
  grid_file_name_new_def grid_file_name_validate_def

lemmas descriptor_eval [eval] = grid_date.simps zoned.simps grid_date_never_def grid_date_from_zoned_def
  grid_date_from_system_time_def grid_date_bytes_def read_grid_date_def DESCRIPTOR_LENGTH_def
  grid_file_descriptor.simps descriptor_default_def file_name_storage_def descriptor_to_bytes_def
  read_file_name_storage_def read_descriptor_def descriptor_error.distinct descriptor_error.inject
  descriptor_error.case descriptor_from_bytes_def

lemmas grid_file_eval [eval] = grid_file_header.simps grid_file_error.distinct grid_file_error.inject
  grid_file_error.case io_error_from_grid.simps HEADER_MAGIC_def HEADER_FORMAT_VERSION_def HEADER_LENGTH_def
  grid_file_header_new_def header_validate_def header_as_bytes_def header_transmute_def header_from_bytes_def
  header_to_bytes_def read_exact.simps write_all_fd.simps grid_file.simps body_offset_def seek_body_def
  body_length_def validate_body_length_def from_file_def gf_truncate_def sync_header_def set_header_def
  write_layout_def gf_create_def gf_read_def gf_write_def gf_write_all.simps seek_from.distinct seek_from.inject
  seek_from.case seek_target_def gf_seek_def

lemmas file_test_client_eval [eval] = find_byte_def grid_path_server_def grid_path_password_def path_case_def
  decode_name_def DATE_LENGTH_def ARBITRARY_DATE_def grid_date_today_def grid_date_debug_def text_contains_def
  encoded_descriptor_def test_host_def tempfile_def read_physical_file_def test_name_def test_header_def
  test_create_def test_open_def gf_read_to_end.simps

lemmas file_test_eval [eval] = parses_grid_paths_def accepts_non_utf8_names_def rejects_malformed_grid_paths_def
  creates_and_dereferences_a_valid_name_def the_length_prefix_bounds_the_name_within_its_storage_def
  validate_rejects_a_decoded_name_the_constructor_would_refuse_def accepts_a_name_of_exactly_eighty_bytes_def
  rejects_an_overlong_name_def rejects_names_outside_the_title_kind_template_def
  rejects_forbidden_component_characters_def validates_without_constructing_a_name_def never_encodes_as_all_zeroes_def
  encodes_each_numeric_field_in_the_grid_layout_def debug_distinguishes_never_and_populated_dates_def
  the_name_follows_the_file_length_on_the_wire_def a_name_length_over_the_maximum_is_rejected_def
  header_starts_with_the_magic_and_the_format_version_def open_rejects_invalid_magic_and_format_version_def
  create_writes_header_and_complete_body_def open_rejects_a_physically_short_property_section_def
  open_rejects_a_truncated_header_def create_rejects_a_body_shorter_than_properties_def
  properties_are_the_start_of_the_logical_body_def body_write_grows_the_physical_file_without_changing_the_header_def
  header_update_may_redistribute_the_body_length_def header_update_rejects_properties_longer_than_the_body_def
  truncate_cannot_remove_properties_def seek_is_relative_to_the_logical_body_def
  empty_properties_and_body_are_supported_def

lemma path_tests:
  "parses_grid_paths \<and> accepts_non_utf8_names \<and> rejects_malformed_grid_paths"
  by (simp only: eval cong: host_eval_cong)

lemma name_tests:
  "creates_and_dereferences_a_valid_name \<and> the_length_prefix_bounds_the_name_within_its_storage \<and>
   validate_rejects_a_decoded_name_the_constructor_would_refuse \<and>
   accepts_a_name_of_exactly_eighty_bytes \<and> rejects_an_overlong_name \<and>
   rejects_names_outside_the_title_kind_template \<and> rejects_forbidden_component_characters"
  by (simp only: eval cong: host_eval_cong)

lemma name_tests_2:
  "validates_without_constructing_a_name"
  by (simp only: eval cong: host_eval_cong)

lemma descriptor_tests:
  "never_encodes_as_all_zeroes \<and> encodes_each_numeric_field_in_the_grid_layout \<and>
   debug_distinguishes_never_and_populated_dates \<and> the_name_follows_the_file_length_on_the_wire \<and>
   a_name_length_over_the_maximum_is_rejected"
  by (simp only: eval cong: host_eval_cong)

lemma grid_file_tests:
  "header_starts_with_the_magic_and_the_format_version \<and> open_rejects_invalid_magic_and_format_version \<and>
   create_writes_header_and_complete_body \<and> open_rejects_a_physically_short_property_section \<and>
   open_rejects_a_truncated_header \<and> create_rejects_a_body_shorter_than_properties \<and>
   properties_are_the_start_of_the_logical_body"
  by (simp only: eval cong: host_eval_cong)

lemma grid_file_tests_2:
  "body_write_grows_the_physical_file_without_changing_the_header \<and>
   header_update_may_redistribute_the_body_length \<and>
   header_update_rejects_properties_longer_than_the_body \<and> truncate_cannot_remove_properties \<and>
   seek_is_relative_to_the_logical_body \<and> empty_properties_and_body_are_supported"
  by (simp only: eval cong: host_eval_cong)

text \<open>The date library gives years up to 9999 and fields within their calendar ranges.\<close>

lemma today_test:
  assumes "zn_year now \<in> {2026..9999}" "zn_month now \<in> {1..12}" "zn_day now \<in> {1..31}"
    "zn_sunday_one_offset now \<in> {1..7}" "zn_day_of_year now \<in> {1..366}"
  shows "today_produces_a_populated_date now"
  using assms
  by (simp add: today_produces_a_populated_date_def grid_date_today_def grid_date_from_zoned_def word_le_def
      uint_word_of_int mod_pos_pos_trivial)

end
