(* ===== verification/Vfs_Tests.thy ===== *)
theory Vfs_Tests
  imports Vfs_Server File_Tests
begin

text \<open>
  The tests of vipc/vfs/mod.rs, translated over the model. Their mock backend is an instance of the record
  of backend functions, with its counters as its state. The ids come from a bitmap of 8192 bytes, so the
  tests are shown for every vector comparison \<open>ne\<close> that keeps to its specification, from the lemmas on
  the ids in use.
\<close>

section \<open>The mock backend\<close>

record mock_backend =
  mb_descriptor_reads :: nat
  mb_descriptor_writes :: nat
  mb_status_sets :: nat
  mb_directory_reads :: nat
  mb_closes :: nat

record mock_attachment =
  ma_directory :: bool

record mock_handle =
  mh_physical_open :: bool

definition mock_backend_default :: mock_backend where
  "mock_backend_default = \<lparr>mb_descriptor_reads = 0, mb_descriptor_writes = 0, mb_status_sets = 0, mb_directory_reads = 0, mb_closes = 0\<rparr>"

type_synonym mock_vfs = "(mock_backend, mock_attachment, mock_handle) vfs"

definition mock :: "(mock_backend, mock_attachment, mock_handle) backend" where
  "mock =
     \<lparr>be_is_attachable = (\<lambda>b path mode access. (Inr \<lparr>ma_directory = False\<rparr>, b)),
      be_open = (\<lambda>b a. (if ma_directory a then Inl VNotSupported else Inr \<lparr>mh_physical_open = True\<rparr>, a, b)),
      be_close = (\<lambda>b h. (Inr (), h\<lparr>mh_physical_open := False\<rparr>, b\<lparr>mb_closes := mb_closes b + 1\<rparr>)),
      be_read = (\<lambda>b h len. (Inr [], h, b)),
      be_write = (\<lambda>b h data. (Inr (), h, b)),
      be_seek = (\<lambda>b h mode position. (Inr (), h, b)),
      be_truncate = (\<lambda>b h. (Inr (), h, b)),
      be_flush = (\<lambda>b h. (Inr (), h, b)),
      be_read_desc = (\<lambda>b h len. (Inr (replicate len 0), h, b\<lparr>mb_descriptor_reads := mb_descriptor_reads b + 1\<rparr>)),
      be_write_desc = (\<lambda>b h desc. (Inr (), h, b\<lparr>mb_descriptor_writes := mb_descriptor_writes b + 1\<rparr>)),
      be_get_status = (\<lambda>b a h.
        (Inr \<lparr>fs_access = AccessUpdate, fs_seek = True, fs_file_position = 0, fs_file_length = 0, fs_num_pages = 0,
              fs_num_pages_alloc = 0\<rparr>, h, b)),
      be_set_status = (\<lambda>b a h actions. (Inr (), a, h, b\<lparr>mb_status_sets := mb_status_sets b + 1\<rparr>)),
      be_read_dir = (\<lambda>b a max_entries max_bytes.
        (Inr [\<lparr>dir_entry_name = bstr ''entry''\<rparr>], a, b\<lparr>mb_directory_reads := mb_directory_reads b + 1\<rparr>))\<rparr>"

section \<open>Requests\<close>

definition request_header :: "vfs_request_code \<Rightarrow> u16 \<Rightarrow> vfs_request_header" where
  "request_header code connection_id =
     \<lparr>vh_request = vfs_request_code_repr code, vh_requestors_conn_id = 7, vh_servers_conn_id = connection_id\<rparr>"

definition mock_request :: "simd_ne \<Rightarrow> vfs_request_code \<Rightarrow> u16 \<Rightarrow> vfs_request_body \<Rightarrow> mock_vfs \<Rightarrow> vfs_response \<times> mock_vfs" where
  "mock_request ne code connection_id body s =
     vfs_process_request ne mock s \<lparr>vr_header = request_header code connection_id, vr_body = body\<rparr>"

definition test_attach :: "simd_ne \<Rightarrow> mock_vfs \<Rightarrow> (u16 \<times> mock_vfs) option" where
  "test_attach ne s =
     (case grid_path_try_from (bstr (''`server:Mail`test'')) of
        Inl e \<Rightarrow> None
      | Inr path \<Rightarrow>
          (case mock_request ne CAttach 0 (BAttach UpdateFile AccessUpdate (replicate VFS_PASSWORD_SPACE 0) path) s of
             (RSimple response, s) \<Rightarrow> if rh_status response = 0 then Some (rh_servers_conn_id response, s) else None
           | _ \<Rightarrow> None))"

definition test_vfs_open :: "simd_ne \<Rightarrow> u16 \<Rightarrow> mock_vfs \<Rightarrow> mock_vfs option" where
  "test_vfs_open ne connection_id s =
     (case mock_request ne COpen connection_id (BOpen 1) s of
        (RSimple response, s) \<Rightarrow> if rh_status response = 0 then Some s else None
      | _ \<Rightarrow> None)"

section \<open>Connections\<close>

definition attach_allocates_a_closed_handle :: "simd_ne \<Rightarrow> bool" where
  "attach_allocates_a_closed_handle ne =
     expect (test_attach ne (vfs_new mock_backend_default)) (\<lambda>(connection_id, s).
     expect (vfs_files s connection_id) (\<lambda>file.
       vf_handle file = None \<and> id_map_is_set (vfs_connection_ids s) connection_id))"

definition detached_connection_id_is_reused :: "simd_ne \<Rightarrow> bool" where
  "detached_connection_id_is_reused ne =
     expect (test_attach ne (vfs_new mock_backend_default)) (\<lambda>(first_connection_id, s).
     expect (test_attach ne s) (\<lambda>(second_connection_id, s).
       let s = snd (mock_request ne CDetach first_connection_id BDetach s) in
     expect (test_attach ne s) (\<lambda>(connection_id, s).
       connection_id = first_connection_id \<and> second_connection_id \<noteq> first_connection_id)))"

definition open_changes_logical_and_physical_state :: "simd_ne \<Rightarrow> bool" where
  "open_changes_logical_and_physical_state ne =
     expect (test_attach ne (vfs_new mock_backend_default)) (\<lambda>(connection_id, s).
     expect (test_vfs_open ne connection_id s) (\<lambda>s.
     expect (vfs_files s connection_id) (\<lambda>file.
     expect (vf_handle file) (\<lambda>handle. mh_physical_open handle))))"

definition close_releases_the_file_but_keeps_the_handle :: "simd_ne \<Rightarrow> bool" where
  "close_releases_the_file_but_keeps_the_handle ne =
     expect (test_attach ne (vfs_new mock_backend_default)) (\<lambda>(connection_id, s).
     expect (test_vfs_open ne connection_id s) (\<lambda>s.
       let s = snd (mock_request ne CClose connection_id BClose s) in
     expect (vfs_files s connection_id) (\<lambda>file. vf_handle file = None)))"

definition detach_removes_the_handle :: "simd_ne \<Rightarrow> bool" where
  "detach_removes_the_handle ne =
     expect (test_attach ne (vfs_new mock_backend_default)) (\<lambda>(connection_id, s).
       let s = snd (mock_request ne CDetach connection_id BDetach s) in
       vfs_files s connection_id = None \<and> \<not> id_map_is_set (vfs_connection_ids s) connection_id)"

definition detach_closes_an_open_handle :: "simd_ne \<Rightarrow> bool" where
  "detach_closes_an_open_handle ne =
     expect (test_attach ne (vfs_new mock_backend_default)) (\<lambda>(connection_id, s).
     expect (test_vfs_open ne connection_id s) (\<lambda>s.
       let s = snd (mock_request ne CDetach connection_id BDetach s) in
       mb_closes (vfs_backend s) = 1 \<and> vfs_files s connection_id = None))"

definition descriptor_operations_require_an_open_handle :: "simd_ne \<Rightarrow> bool" where
  "descriptor_operations_require_an_open_handle ne =
     (let read_desc = BReadDesc (of_nat VFS_DESCRIPTOR_LENGTH);
          write_desc = BWriteDesc (replicate VFS_DESCRIPTOR_LENGTH 0) in
      expect (test_attach ne (vfs_new mock_backend_default)) (\<lambda>(connection_id, s).
      case mock_request ne CReadDesc connection_id read_desc s of (response, s) \<Rightarrow>
        (case response of RRead header data \<Rightarrow> rh_status header = 205 | _ \<Rightarrow> False) \<and>
        mb_descriptor_reads (vfs_backend s) = 0 \<and>
      (case mock_request ne CWriteDesc connection_id write_desc s of (response, s) \<Rightarrow>
        (case response of RSimple header \<Rightarrow> rh_status header = 205 | _ \<Rightarrow> False) \<and>
        mb_descriptor_writes (vfs_backend s) = 0 \<and>
      expect (test_vfs_open ne connection_id s) (\<lambda>s.
        let s = snd (mock_request ne CReadDesc connection_id read_desc s);
            s = snd (mock_request ne CWriteDesc connection_id write_desc s) in
        mb_descriptor_reads (vfs_backend s) = 1 \<and> mb_descriptor_writes (vfs_backend s) = 1))))"

definition directory_operations_work_immediately_after_attach :: "simd_ne \<Rightarrow> bool" where
  "directory_operations_work_immediately_after_attach ne =
     expect (test_attach ne (vfs_new mock_backend_default)) (\<lambda>(connection_id, s).
     expect (vfs_files s connection_id) (\<lambda>file.
       let file = file\<lparr>vf_attachment := (vf_attachment file)\<lparr>ma_directory := True\<rparr>\<rparr>;
           s = s\<lparr>vfs_files := (vfs_files s)(connection_id \<mapsto> file)\<rparr> in
     (case mock_request ne CSetStatus connection_id (BSetStatus [SetObjectMode ObjectDirectory]) s of (response, s) \<Rightarrow>
        (case response of RSimple header \<Rightarrow> rh_status header = 0 | _ \<Rightarrow> False) \<and>
     (case mock_request ne CGetStatus connection_id (BGetStatus 23) s of (response, s) \<Rightarrow>
        (case response of RGetStatus header body \<Rightarrow> rh_status header = 0 \<and> gs_open body = 0 | _ \<Rightarrow> False) \<and>
     (case mock_request ne CReadDirPage connection_id (BReadDirPage 1) s of (response, s) \<Rightarrow>
        (case response of RReadDirPage header entries \<Rightarrow> rh_status header = 0 \<and> length entries = 1 | _ \<Rightarrow> False) \<and>
        mb_status_sets (vfs_backend s) = 1 \<and> mb_directory_reads (vfs_backend s) = 1)))))"

section \<open>The tests hold\<close>

lemma mock_ids:
  assumes "simd_ne_spec ne"
  shows "id_map_find_free ne (id_map_new TYPE(16)) = Some (1 :: u16)"
    and "id_map_find_free ne (id_map_set (id_map_new TYPE(16)) (1 :: u16)) = Some (2 :: u16)"
    and "id_map_find_free ne (id_map_clear (id_map_set (id_map_set (id_map_new TYPE(16)) (1 :: u16)) (2 :: u16)) (1 :: u16)) = Some (1 :: u16)"
    and "id_map_is_set (id_map_set (id_map_new TYPE(16)) (1 :: u16)) (1 :: u16) = True"
    and "id_map_is_set (id_map_clear (id_map_set (id_map_new TYPE(16)) (1 :: u16)) (1 :: u16)) (1 :: u16) = False"
proof -
  let ?m1 = "id_map_set (id_map_new TYPE(16)) (1 :: u16)" and ?m2 = "id_map_set (id_map_set (id_map_new TYPE(16)) (1 :: u16)) (2 :: u16)"
  have wf: "id_map_wf TYPE(16) (id_map_new TYPE(16))" by (rule wf_new) simp
  have used: "id_map_used (id_map_new TYPE(16)) = ({} :: u16 set)" "id_map_used ?m1 = {1 :: u16}"
    "id_map_used ?m2 = {2, 1 :: u16}" "id_map_used (id_map_clear ?m1 (1 :: u16)) = ({} :: u16 set)"
    "id_map_used (id_map_clear ?m2 (1 :: u16)) = {2 :: u16}"
    using wf by (simp_all add: used_new used_set used_clear insert_Diff_if)
  have below: "j = 1" if "j \<noteq> 0" "j < 2" for j :: u16
  proof -
    have "unat j \<noteq> 0" "unat j < 2" using that by (simp_all add: word_less_nat_alt unat_eq_0)
    then show ?thesis by (simp add: word_unat_eq_iff)
  qed
  show "id_map_find_free ne (id_map_new TYPE(16)) = Some (1 :: u16)"
    using used(1) by (intro find_free_least[OF assms wf]) simp_all
  show "id_map_find_free ne ?m1 = Some (2 :: u16)"
    using used(2) wf below by (intro find_free_least[OF assms]) simp_all
  show "id_map_find_free ne (id_map_clear ?m2 (1 :: u16)) = Some (1 :: u16)"
    using used(5) wf by (intro find_free_least[OF assms]) simp_all
  show "id_map_is_set ?m1 (1 :: u16) = True" "id_map_is_set (id_map_clear ?m1 (1 :: u16)) (1 :: u16) = False"
    using used(2,4) wf by (simp_all add: is_set_iff)
qed

lemmas vfs_eval_cong = host_eval_cong vfs_response.case_cong_weak vfs_request_body.case_cong_weak vfs_error.case_cong_weak

lemmas vfs_type_eval [eval] = DIRECTORY_ENTRY_PREAMBLE_LEN_def attach_mode.simps access_mode.simps seek_mode.simps
  read_direction.simps object_mode.simps dir_entry.simps file_status.simps status_action.simps vfs_error.simps
  vfs_error_from_io.simps vfs_error_code.simps vfs_result_code.simps

lemmas vfs_protocol_eval [eval] = VFS_RESPONSE_BIT_def VFS_MAX_MESSAGE_LENGTH_def VFS_PAGE_SIZE_def
  VFS_MAX_DIRECTORY_OBJECTS_PER_PAGE_def VFS_MAX_FILE_NAME_LENGTH_def VFS_PASSWORD_SPACE_def VFS_DESCRIPTOR_LENGTH_def
  VFS_MAX_READ_LENGTH_def VFS_MAX_WRITE_LENGTH_def vfs_request_header.simps vfs_request_code.simps
  vfs_request_code_repr.simps vfs_request_codes_def vfs_request_code_from_u16_def attach_mode_from_u8_def
  access_mode_from_u8_def seek_mode_from_u8_def read_direction_from_u8_def object_mode_from_u8_def
  vfs_set_status_action.simps read_single_byte_def vfs_set_status_action_from_raw_def vfs_request_body.simps
  vfs_request.simps bounded_length_def ensure_empty_def read_request_def read_write_request_def
  read_vfs_request_header_def read_attach_header_def read_attach_request_def read_seek_request_def
  read_set_status_request_def read_vfs_request_body_def vfs_request_try_from_slice_def vfs_response_header.simps
  vfs_get_status_body.simps vfs_response.simps response_header_def simple_response_def vfs_response_header_bytes_def
  vfs_get_status_body_bytes_def vfs_dir_entry_header_bytes_def write_dir_entries.simps vfs_response_write_into_def
  action_record_def read_direction_repr.simps object_mode_repr.simps attach_mode_repr.simps seek_mode_repr.simps
  access_mode_repr.simps encode_action.simps action_encodable.simps body_code.simps served_codes_def sized_block_def
  encode_body.simps body_encodable.simps encode_vfs_request_def code_matches_def

lemmas vfs_server_eval [eval] = backend.simps same_option.simps vfs_file_descriptor.simps vfs.simps vfs_new_def
  get_file_def put_file_def on_handle_def vfs_do_get_status_def u8_of_bool_def vfs_get_status_def vfs_do_open_def
  vfs_do_read_def vfs_do_read_desc_def vfs_do_read_dir_page_def vfs_do_write_def vfs_do_write_desc_def
  status_action_from.simps vfs_do_set_status_def vfs_do_seek_def vfs_do_attach_def vfs_attach_def vfs_do_detach_def
  vfs_do_close_def vfs_do_flush_def vfs_do_truncate_def vfs_unknown_def respond_simple_def respond_data_def
  respond_page_def vfs_process_request_def

lemmas vfs_test_client_eval [eval] = mock_backend.simps mock_attachment.simps mock_handle.simps
  mock_backend_default_def mock_def request_header_def mock_request_def test_attach_def test_vfs_open_def

lemmas vfs_test_eval [eval] = attach_allocates_a_closed_handle_def detached_connection_id_is_reused_def
  open_changes_logical_and_physical_state_def close_releases_the_file_but_keeps_the_handle_def
  detach_removes_the_handle_def detach_closes_an_open_handle_def descriptor_operations_require_an_open_handle_def
  directory_operations_work_immediately_after_attach_def

lemma vfs_tests:
  assumes "simd_ne_spec ne"
  shows "attach_allocates_a_closed_handle ne"
    "detached_connection_id_is_reused ne"
    "open_changes_logical_and_physical_state ne"
    "close_releases_the_file_but_keeps_the_handle ne"
    "detach_removes_the_handle ne"
    "detach_closes_an_open_handle ne"
    "descriptor_operations_require_an_open_handle ne"
    "directory_operations_work_immediately_after_attach ne"
  by (simp_all only: eval mock_ids[OF assms] cong: vfs_eval_cong)

end
