(* ===== verification/Sentry_Tests.thy ===== *)
theory Sentry_Tests
  imports Session Wire_Tests
begin

text \<open>
  The tests of vipc/sentry.rs and db/users.rs, translated over the model of the Sentry and of the
  user tables. The demo directory every one of them starts from is \<open>demo_database\<close>; a Sentry server is
  its actor, and the database is passed on from request to request. The loop \<open>names\<close>, by which a client walks
  the listing, has fuel for 32 rows; running out of it fails the test.
\<close>

section \<open>The demo directory\<close>

definition demo_database :: database where
  "demo_database = initial_database\<lparr>
     db_companies := [\<lparr>co_id = 1, co_name = bstr ''GRiD'', co_quota = 4294967295, co_used = 0\<rparr>],
     db_groups := [\<lparr>gr_id = 1, gr_company_id = 1, gr_name = bstr ''Demo'', gr_quota = 4294967295, gr_used = 0\<rparr>,
                   \<lparr>gr_id = 2, gr_company_id = 1, gr_name = bstr ''Systems'', gr_quota = 4294967295, gr_used = 0\<rparr>],
     db_users := [\<lparr>us_id = 1, us_group_id = 1, us_name = bstr ''GUEST'', us_password = bstr ''GUEST'',
                   us_authority = 0, us_quota = 1048576, us_used = 262144\<rparr>,
                  \<lparr>us_id = 2, us_group_id = 1, us_name = bstr ''OPERATOR'', us_password = bstr ''OPERATOR'',
                   us_authority = 20, us_quota = 4294967295, us_used = 1048576\<rparr>,
                  \<lparr>us_id = 3, us_group_id = 2, us_name = bstr ''MANAGER'', us_password = bstr ''MANAGER'',
                   us_authority = 40, us_quota = 4294967295, us_used = 4194304\<rparr>]\<rparr>"

definition signed_on :: "database \<Rightarrow> authority \<Rightarrow> account option" where
  "signed_on db auth =
     (case (if auth = NORMAL then Some (bstr ''Demo'', bstr ''GUEST'')
            else if auth = GROUP_ADMIN then Some (bstr ''Demo'', bstr ''OPERATOR'')
            else if auth = SYSTEM_ADMIN then Some (bstr ''Systems'', bstr ''MANAGER'')
            else None) of
        None \<Rightarrow> None
      | Some (grp, user) \<Rightarrow>
          (case fst (find_user (bstr ''GRiD'') grp user db) of Inl e \<Rightarrow> None | Inr found \<Rightarrow> found))"

definition sentry_as :: "authority \<Rightarrow> (account \<times> database) option" where
  "sentry_as auth = (let conn = demo_database in
     case signed_on conn auth of None \<Rightarrow> None | Some actor \<Rightarrow> Some (actor, conn))"

definition test_sentry :: "(account \<times> database) option" where
  "test_sentry = sentry_as SYSTEM_ADMIN"

definition MEGABYTE :: u32 where "MEGABYTE = 1024 * 1024"

definition QUOTA_UNLIMITED :: u32 where "QUOTA_UNLIMITED = 4294967295"

section \<open>Requests of a client\<close>

definition tagged :: "byte \<Rightarrow> bytes \<Rightarrow> bytes" where
  "tagged tag v = (case write_tagged [] tag v of Inr r \<Rightarrow> r | Inl e \<Rightarrow> [])"

definition add_company :: "account \<Rightarrow> bytes \<Rightarrow> database \<Rightarrow> bytes option \<times> database" where
  "add_company actor company db = sentry_process actor
     ([COMMAND_ADD_COMPANY] @ tagged PROPERTY_COMPANY company @ tagged TAG_QUOTA (u32_to_le QUOTA_UNLIMITED)) db"

definition add_group :: "account \<Rightarrow> bytes \<Rightarrow> bytes \<Rightarrow> database \<Rightarrow> bytes option \<times> database" where
  "add_group actor company grp db = sentry_process actor
     ([COMMAND_ADD_GROUP] @ tagged PROPERTY_COMPANY company @ tagged PROPERTY_GROUP grp @
      tagged TAG_QUOTA (u32_to_le QUOTA_UNLIMITED)) db"

definition add_user ::
  "account \<Rightarrow> bytes \<Rightarrow> bytes \<Rightarrow> bytes \<Rightarrow> bytes \<Rightarrow> authority \<Rightarrow> database \<Rightarrow> bytes option \<times> database" where
  "add_user actor company grp user password auth db = sentry_process actor
     ([COMMAND_ADD_USER] @ tagged PROPERTY_COMPANY company @ tagged PROPERTY_GROUP grp @
      tagged PROPERTY_USER user @ tagged PROPERTY_PASSWORD password @
      tagged TAG_AUTHORITY (rev (u16_to_le auth)) @ tagged TAG_QUOTA (u32_to_le MEGABYTE)) db"

definition list_filter :: "byte \<Rightarrow> bytes \<Rightarrow> bytes" where
  "list_filter tag name = tagged tag (take 20 name @ replicate (20 - length name) 0)"

definition list_first :: "bytes \<Rightarrow> bytes \<Rightarrow> bytes \<Rightarrow> bytes" where
  "list_first company grp user =
     [COMMAND_LIST_FIRST] @ list_filter PROPERTY_COMPANY company @ list_filter PROPERTY_GROUP grp @
     list_filter PROPERTY_USER user"

definition query :: "byte \<Rightarrow> (byte \<times> bytes) list \<Rightarrow> bytes" where
  "query level names =
     [COMMAND_QUERY] @ tagged TAG_QUERY_LEVEL [level] @ concat (map (\<lambda>(tag, name). tagged tag name) names)"

definition cursor_of :: "account \<Rightarrow> byte \<Rightarrow> (byte \<times> bytes) list \<Rightarrow> database \<Rightarrow> (bytes \<times> database) option" where
  "cursor_of actor level names db =
     (case sentry_process actor (query level names) db of
        (None, db) \<Rightarrow> None
      | (Some response, db) \<Rightarrow>
          if response ! 0 \<noteq> COMMAND_REPLY then None
          else (case Option.bind (sentry_records (drop 1 response)) (\<lambda>recs. record_value recs TAG_CURSOR) of
                  None \<Rightarrow> None | Some c \<Rightarrow> Some (c, db)))"

definition update :: "bytes \<Rightarrow> authority \<Rightarrow> u32 \<Rightarrow> bytes" where
  "update cur auth quota =
     [COMMAND_UPDATE] @ tagged TAG_CURSOR cur @ tagged TAG_AUTHORITY (rev (u16_to_le auth)) @
     tagged TAG_QUOTA (u32_to_le quota)"

definition delete :: "bytes \<Rightarrow> bytes" where
  "delete cur = [COMMAND_DELETE] @ tagged TAG_CURSOR cur"

definition change_password :: "(byte \<times> bytes) list \<Rightarrow> bytes \<Rightarrow> bytes" where
  "change_password names password =
     [COMMAND_CHANGE_PASSWORD] @ concat (map (\<lambda>(tag, name). tagged tag name) names) @
     tagged PROPERTY_PASSWORD password"

text \<open>The walk over the listing: each row is asked for with the names of the one before.\<close>

fun names_from :: "nat \<Rightarrow> account \<Rightarrow> bytes \<Rightarrow> database \<Rightarrow> (bytes \<times> bytes \<times> bytes) list option \<times> database" where
  "names_from 0 actor request db = (None, db)"
| "names_from (Suc fuel) actor request db =
     (case sentry_process actor request db of
        (None, db) \<Rightarrow> (Some [], db)
      | (Some response, db) \<Rightarrow>
          if response ! 0 = COMMAND_STATUS then (Some [], db)
          else
            (case sentry_records (drop 1 response) of
               None \<Rightarrow> (None, db)
             | Some recs \<Rightarrow>
                 (case (record_value recs PROPERTY_COMPANY, record_value recs PROPERTY_GROUP, record_value recs PROPERTY_USER) of
                    (Some company, Some grp, Some user) \<Rightarrow>
                      (case names_from fuel actor (list_first company grp user) db of
                         (rows, db) \<Rightarrow> (map_option (\<lambda>rows. (company, grp, user) # rows) rows, db))
                  | _ \<Rightarrow> (None, db))))"

definition names :: "account \<Rightarrow> database \<Rightarrow> ((bytes \<times> bytes \<times> bytes) list \<times> database) option" where
  "names actor db =
     (case names_from 32 actor (list_first [] [] []) db of (rows, db) \<Rightarrow> map_option (\<lambda>rows. (rows, db)) rows)"

definition stored_user :: "bytes \<Rightarrow> bytes \<Rightarrow> bytes \<Rightarrow> database \<Rightarrow> account option" where
  "stored_user company grp user db = (case fst (find_user company grp user db) of Inl e \<Rightarrow> None | Inr found \<Rightarrow> found)"

abbreviation GRiD :: bytes where "GRiD \<equiv> bstr ''GRiD''"
abbreviation Demo :: bytes where "Demo \<equiv> bstr ''Demo''"
abbreviation Systems :: bytes where "Systems \<equiv> bstr ''Systems''"
abbreviation Lenin :: bytes where "Lenin \<equiv> bstr ''Lenin''"
abbreviation SECRET :: bytes where "SECRET \<equiv> bstr ''SECRET''"

abbreviation guest :: "(byte \<times> bytes) list" where
  "guest \<equiv> [(PROPERTY_COMPANY, GRiD), (PROPERTY_GROUP, Demo), (PROPERTY_USER, bstr ''GUEST'')]"

abbreviation demo_group :: "(byte \<times> bytes) list" where
  "demo_group \<equiv> [(PROPERTY_COMPANY, GRiD), (PROPERTY_GROUP, Demo)]"

section \<open>Adding companies, groups and users\<close>

definition answers_variant_query :: bool where
  "answers_variant_query = expect test_sentry (\<lambda>(actor, db).
     fst (sentry_process actor [COMMAND_VARIANT_QUERY] db) = Some [0x03, 0x25, 0x01, 0x33])"

definition answers_add_user_with_success_status :: bool where
  "answers_add_user_with_success_status = expect test_sentry (\<lambda>(actor, db).
     let request = [0x06] @ [0x07, 0x04] @ bstr ''GRiD'' @ [0x08, 0x04] @ bstr ''Demo'' @ [0x09, 0x07] @ bstr ''ZZCAP01'' @
           [0x0A, 0x05] @ bstr ''TEST1'' @ [0x1A, 0x02, 0x00, 0x00] @ [0x26, 0x04, 0x00, 0x04, 0x00, 0x00] @
           [0x1B, 0x01] @ bstr ''1''
     in fst (sentry_process actor request db) = Some [0x02, 0x00, 0x00])"

definition created_company_appears_in_the_listing :: bool where
  "created_company_appears_in_the_listing = expect test_sentry (\<lambda>(actor, db).
     let (response, db) = add_company actor (bstr ''Test Company'') db in
     response = Some (status_response STATUS_OK) \<and>
     expect (names actor db) (\<lambda>(rows, db). rows \<noteq> [] \<and> fst (last rows) = bstr ''Test Company'' \<and>
     expect_ok (fst (sentry_directory db)) (\<lambda>d. d \<noteq> [] \<and> row_level (last d) = LCompany)))"

definition created_group_lands_inside_its_company :: bool where
  "created_group_lands_inside_its_company = expect test_sentry (\<lambda>(actor, db).
     let (response, db) = add_group actor GRiD (bstr ''Demo Group'') db in
     response = Some (status_response STATUS_OK) \<and>
     expect (names actor db) (\<lambda>(rows, db).
       map (\<lambda>(company, grp, user). grp) (filter (\<lambda>(company, grp, user). grp = user \<and> company \<noteq> grp) rows) =
         [Demo, bstr ''Demo Group'', Systems] \<and>
       list_all (\<lambda>(company, grp, user). company = GRiD) rows))"

definition created_user_lands_inside_its_group :: bool where
  "created_user_lands_inside_its_group = expect test_sentry (\<lambda>(actor, db).
     let (response, db) = add_user actor GRiD Demo Lenin SECRET NORMAL db in
     response = Some (status_response STATUS_OK) \<and>
     expect (names actor db) (\<lambda>(rows, db).
       map (\<lambda>(company, grp, user). user) (filter (\<lambda>(company, grp, user). grp = Demo) rows) =
         [Demo, bstr ''GUEST'', Lenin, bstr ''OPERATOR'']))"

definition refuses_an_administrative_command_from_a_normal_user :: bool where
  "refuses_an_administrative_command_from_a_normal_user = expect (sentry_as NORMAL) (\<lambda>(actor, db).
     let (response, db) = add_company actor (bstr ''Test Company'') db in
     response = Some (status_response STATUS_INSUFFICIENT_AUTHORITY) \<and>
     fst (add_group actor GRiD (bstr ''Demo Group'') db) = Some (status_response STATUS_INSUFFICIENT_AUTHORITY))"

definition allows_only_what_the_authority_covers :: bool where
  "allows_only_what_the_authority_covers = expect (sentry_as GROUP_ADMIN) (\<lambda>(actor, db).
     let (response, db) = add_user actor GRiD Demo Lenin SECRET NORMAL db in
     response = Some (status_response STATUS_OK) \<and>
     fst (add_group actor GRiD (bstr ''Demo Group'') db) = Some (status_response STATUS_INSUFFICIENT_AUTHORITY))"

definition tells_a_normal_user_the_variant_is_unsupported :: bool where
  "tells_a_normal_user_the_variant_is_unsupported = expect (sentry_as NORMAL) (\<lambda>(actor, db).
     fst (sentry_process actor [COMMAND_VARIANT_QUERY] db) = Some [COMMAND_REPLY, TAG_VARIANT, 0x01, 0x31])"

definition refuses_to_create_a_user_from_a_normal_account :: bool where
  "refuses_to_create_a_user_from_a_normal_account = expect (sentry_as NORMAL) (\<lambda>(actor, db).
     let (response, db) = add_user actor GRiD Demo Lenin SECRET NORMAL db in
     response = Some (status_response STATUS_INSUFFICIENT_AUTHORITY) \<and>
     expect_ok (fst (find_user GRiD Demo Lenin db)) (\<lambda>found. found = None))"

definition refuses_to_grant_an_authority_above_the_creators_own :: bool where
  "refuses_to_grant_an_authority_above_the_creators_own = expect (sentry_as GROUP_ADMIN) (\<lambda>(actor, db).
     fst (add_user actor GRiD Demo Lenin SECRET SYSTEM_ADMIN db) = Some (status_response STATUS_INSUFFICIENT_AUTHORITY))"

definition refuses_an_authority_outside_the_defined_levels :: bool where
  "refuses_an_authority_outside_the_defined_levels = expect test_sentry (\<lambda>(actor, db).
     fst (add_user actor GRiD Demo Lenin SECRET 25 db) = Some (status_response STATUS_INVALID_AUTHORITY))"

definition refuses_the_mandatory_fields_when_empty :: bool where
  "refuses_the_mandatory_fields_when_empty = expect test_sentry (\<lambda>(actor, db).
     let (r1, db) = add_company actor [] db;
         (r2, db) = add_group actor GRiD [] db;
         (r3, db) = add_user actor GRiD Demo [] SECRET NORMAL db;
         (r4, db) = add_user actor GRiD Demo Lenin [] NORMAL db
     in r1 = Some (status_response STATUS_PROPERTY_MISSING) \<and> r2 = r1 \<and> r3 = r1 \<and> r4 = r1)"

definition stores_the_parent_spelling_the_directory_already_uses :: bool where
  "stores_the_parent_spelling_the_directory_already_uses = expect test_sentry (\<lambda>(actor, db).
     let (response, db) = add_user actor (bstr ''grid'') (bstr ''demo'') Lenin SECRET NORMAL db in
     response = Some (status_response STATUS_OK) \<and>
     expect (stored_user GRiD Demo Lenin db) (\<lambda>account. ac_company account = GRiD \<and> ac_group account = Demo) \<and>
     expect (names actor db) (\<lambda>(rows, db). list_all (\<lambda>(company, grp, user). company = GRiD) rows))"

text \<open>The name of this test has an \<open>e\<close> with an acute accent, which UTF-8 writes in two bytes.\<close>

definition refuses_a_name_that_is_not_ascii :: bool where
  "refuses_a_name_that_is_not_ascii = expect test_sentry (\<lambda>(actor, db).
     fst (add_user actor GRiD Demo (bstr ''L'' @ [0xC3, 0xA9] @ bstr ''nin'') SECRET NORMAL db) =
       Some (status_response STATUS_INVALID_NAME))"

definition reports_a_missing_group_apart_from_a_missing_company :: bool where
  "reports_a_missing_group_apart_from_a_missing_company = expect test_sentry (\<lambda>(actor, db).
     let (response, db) = add_user actor GRiD (bstr ''Nowhere'') Lenin SECRET NORMAL db in
     response = Some (status_response STATUS_ACCOUNT_NOT_DEFINED) \<and>
     fst (add_group actor (bstr ''Nowhere'') (bstr ''Demo Group'') db) = Some (status_response STATUS_COMPANY_NOT_DEFINED))"

definition sign_on_properties :: "bytes \<Rightarrow> bytes \<Rightarrow> bytes \<Rightarrow> bytes \<Rightarrow> sign_on_property list" where
  "sign_on_properties company grp user password =
     [\<lparr>property_ty = PROPERTY_COMPANY, property_value = company\<rparr>, \<lparr>property_ty = PROPERTY_GROUP, property_value = grp\<rparr>,
      \<lparr>property_ty = PROPERTY_USER, property_value = user\<rparr>, \<lparr>property_ty = PROPERTY_PASSWORD, property_value = password\<rparr>]"

definition a_created_user_can_sign_on :: bool where
  "a_created_user_can_sign_on = expect (signed_on demo_database SYSTEM_ADMIN) (\<lambda>actor.
     let (response, db) = add_user actor GRiD Demo Lenin SECRET GROUP_ADMIN demo_database in
     response = Some (status_response STATUS_OK) \<and>
     expect_ok (fst (authenticate (sign_on_properties GRiD Demo Lenin SECRET) db)) (\<lambda>account. ac_authority account = GROUP_ADMIN))"

definition stores_the_password_of_a_created_user :: bool where
  "stores_the_password_of_a_created_user = expect test_sentry (\<lambda>(actor, db).
     let (response, db) = add_user actor GRiD Demo Lenin SECRET NORMAL db in
     response \<noteq> None \<and> expect (stored_user GRiD Demo Lenin db) (\<lambda>account. ac_password account = SECRET))"

definition rejects_a_duplicate_company :: bool where
  "rejects_a_duplicate_company = expect test_sentry (\<lambda>(actor, db).
     fst (add_company actor GRiD db) = Some (status_response STATUS_ALREADY_DEFINED))"

definition rejects_a_group_without_its_company :: bool where
  "rejects_a_group_without_its_company = expect test_sentry (\<lambda>(actor, db).
     fst (add_group actor (bstr ''MISSING'') (bstr ''Demo Group'') db) = Some (status_response STATUS_COMPANY_NOT_DEFINED))"

definition a_created_company_accepts_groups :: bool where
  "a_created_company_accepts_groups = expect test_sentry (\<lambda>(actor, db).
     let (created, db) = add_company actor (bstr ''Test Company'') db;
         (response, db) = add_group actor (bstr ''test company'') (bstr ''Demo Group'') db
     in created \<noteq> None \<and> response = Some (status_response STATUS_OK) \<and>
        expect_ok (fst (sentry_directory db)) (\<lambda>d.
        expect (directory_find d [bstr ''Test Company'', bstr ''Demo Group'']) (\<lambda>i. row_level (d ! i) = LGroup)))"

definition parses_add_user_fields :: bool where
  "parses_add_user_fields =
     expect (sentry_records ([0x07, 0x0C] @ bstr ''Test Company'' @ [0x09, 0x05] @ bstr ''Lenin'' @
       [0x1A, 0x02, 0x00, 0x28] @ [0x26, 0x04, 0xFF, 0xFF, 0xFF, 0xFF])) (\<lambda>recs.
     record_value recs PROPERTY_COMPANY = Some (bstr ''Test Company'') \<and>
     record_value recs PROPERTY_USER = Some (bstr ''Lenin'') \<and>
     record_value recs PROPERTY_GROUP = None \<and>
     record_value recs TAG_AUTHORITY = Some [0x00, 0x28] \<and>
     record_value recs TAG_QUOTA = Some (replicate 4 0xFF))"

definition rejects_truncated_records :: bool where
  "rejects_truncated_records =
     (sentry_records ([0x09, 0x07] @ bstr ''Z'') = None \<and> sentry_records [0x09] = None)"

definition ignores_unsupported_commands :: bool where
  "ignores_unsupported_commands = expect test_sentry (\<lambda>(actor, db).
     let (r1, db) = sentry_process actor [0x7F] db; (r2, db) = sentry_process actor [] db
     in r1 = None \<and> r2 = None)"

section \<open>Listing\<close>

definition answers_first_listing_request_with_the_first_row :: bool where
  "answers_first_listing_request_with_the_first_row = expect test_sentry (\<lambda>(actor, db).
     fst (sentry_process actor (list_first [] [] []) db) =
       Some ([0x03] @ [0x27, 0x01] @ bstr ''0'' @ [0x07, 0x04] @ bstr ''GRiD'' @ [0x08, 0x04] @ bstr ''GRiD'' @
         [0x09, 0x04] @ bstr ''GRiD'' @ [0x1A, 0x02, 0x1E, 0x00] @ [0x28, 0x09] @ bstr ''Hard Disk'' @
         [0x26, 0x04, 0xFF, 0xFF, 0xFF, 0xFF] @ [0x29, 0x04, 0x00, 0x00, 0x00, 0x00] @
         [0x2A, 0x11] @ bstr ''82/03/28 09:00:00'' @ [0x2B, 0x11] @ bstr ''86/03/01 09:15:00'' @
         [0x2C, 0x02, 0x00, 0x00]))"

text \<open>The loop of this test is the one of \<^const>\<open>names_from\<close>, which also wants the last answer to be the end of the listing.\<close>

fun walk_from :: "nat \<Rightarrow> account \<Rightarrow> bytes \<Rightarrow> database \<Rightarrow> (bytes \<times> bytes \<times> bytes) list option" where
  "walk_from 0 actor request db = None"
| "walk_from (Suc fuel) actor request db =
     (case sentry_process actor request db of
        (None, db) \<Rightarrow> Some []
      | (Some response, db) \<Rightarrow>
          if response ! 0 = COMMAND_STATUS
          then (if response = status_response STATUS_END_OF_LISTING then Some [] else None)
          else
            (case sentry_records (drop 1 response) of
               None \<Rightarrow> None
             | Some recs \<Rightarrow>
                 (case (record_value recs PROPERTY_COMPANY, record_value recs PROPERTY_GROUP, record_value recs PROPERTY_USER) of
                    (Some company, Some grp, Some user) \<Rightarrow>
                      map_option (\<lambda>rows. (company, grp, user) # rows)
                        (walk_from fuel actor (list_first company grp user) db)
                  | _ \<Rightarrow> None)))"

definition walks_the_directory_row_by_row :: bool where
  "walks_the_directory_row_by_row = expect test_sentry (\<lambda>(actor, db).
     walk_from 32 actor (list_first [] [] []) db =
       Some [(GRiD, GRiD, GRiD), (GRiD, Demo, Demo), (GRiD, Demo, bstr ''GUEST''), (GRiD, Demo, bstr ''OPERATOR''),
             (GRiD, Systems, Systems), (GRiD, Systems, bstr ''MANAGER'')])"

definition skips_the_rest_of_a_subtree :: bool where
  "skips_the_rest_of_a_subtree = expect test_sentry (\<lambda>(actor, db).
     let request = [COMMAND_LIST_FIRST] @ list_filter PROPERTY_COMPANY GRiD @ list_filter PROPERTY_GROUP Demo @
           tagged PROPERTY_USER (replicate 20 FILTER_SKIP) in
     expect (fst (sentry_process actor request db)) (\<lambda>response.
     expect (sentry_records (drop 1 response)) (\<lambda>recs.
       record_value recs PROPERTY_GROUP = Some Systems \<and> record_value recs PROPERTY_USER = Some Systems)))"

definition continues_a_user_listing_from_the_cursor :: bool where
  "continues_a_user_listing_from_the_cursor = expect test_sentry (\<lambda>(actor, db).
     expect (fst (sentry_process actor ([COMMAND_LIST_NEXT] @ tagged TAG_CURSOR (bstr ''2'')) db)) (\<lambda>response.
     expect (sentry_records (drop 1 response)) (\<lambda>recs.
       record_value recs TAG_CURSOR = Some (bstr ''3'') \<and> record_value recs PROPERTY_USER = Some (bstr ''OPERATOR''))))"

definition ends_the_listing_after_the_last_row :: bool where
  "ends_the_listing_after_the_last_row = expect test_sentry (\<lambda>(actor, db).
     fst (sentry_process actor (list_first GRiD Systems (bstr ''MANAGER'')) db) = Some [0x02, 0xED, 0x03])"

definition ends_the_listing_when_the_whole_company_is_skipped :: bool where
  "ends_the_listing_when_the_whole_company_is_skipped = expect test_sentry (\<lambda>(actor, db).
     let request = [COMMAND_LIST_FIRST] @ tagged PROPERTY_COMPANY (replicate 20 FILTER_SKIP) @
           tagged PROPERTY_GROUP (replicate 20 FILTER_SKIP) @ tagged PROPERTY_USER (replicate 20 FILTER_SKIP)
     in fst (sentry_process actor request db) = Some (status_response STATUS_END_OF_LISTING))"

definition ends_the_listing_for_an_unknown_filter :: bool where
  "ends_the_listing_for_an_unknown_filter = expect test_sentry (\<lambda>(actor, db).
     fst (sentry_process actor (list_first (bstr ''MISSING'') [] []) db) = Some (status_response STATUS_END_OF_LISTING))"

section \<open>Queries\<close>

definition answers_a_query_without_names_with_the_signed_on_account :: bool where
  "answers_a_query_without_names_with_the_signed_on_account = expect test_sentry (\<lambda>(actor, db).
     expect (fst (sentry_process actor (query QUERY_USER []) db)) (\<lambda>response.
     expect (sentry_records (drop 1 response)) (\<lambda>recs.
       response ! 0 = COMMAND_REPLY \<and>
       record_value recs PROPERTY_COMPANY = Some GRiD \<and> record_value recs PROPERTY_GROUP = Some Systems \<and>
       record_value recs PROPERTY_USER = Some (bstr ''MANAGER'') \<and> record_value recs TAG_AUTHORITY = Some [40, 0])))"

definition answers_a_query_for_each_level :: bool where
  "answers_a_query_for_each_level = expect test_sentry (\<lambda>(actor, db).
     case sentry_process actor (query QUERY_GROUP guest) db of (grp, db) \<Rightarrow>
     expect grp (\<lambda>grp. expect (sentry_records (drop 1 grp)) (\<lambda>grp.
       record_value grp PROPERTY_GROUP = Some Demo \<and> record_value grp PROPERTY_USER = Some Demo \<and>
     expect (fst (sentry_process actor (query QUERY_COMPANY [(PROPERTY_COMPANY, bstr ''grid'')]) db)) (\<lambda>company.
     expect (sentry_records (drop 1 company)) (\<lambda>company.
       record_value company PROPERTY_COMPANY = Some GRiD \<and> record_value company PROPERTY_USER = Some GRiD)))))"

definition reports_a_queried_record_that_is_not_defined :: bool where
  "reports_a_queried_record_that_is_not_defined = expect test_sentry (\<lambda>(actor, db).
     case sentry_process actor (query QUERY_COMPANY [(PROPERTY_COMPANY, bstr ''MISSING'')]) db of (response, db) \<Rightarrow>
     response = Some (status_response STATUS_COMPANY_NOT_DEFINED) \<and>
     fst (sentry_process actor (query QUERY_USER [(PROPERTY_COMPANY, GRiD), (PROPERTY_GROUP, Demo), (PROPERTY_USER, bstr ''NOBODY'')]) db) =
       Some (status_response STATUS_ACCOUNT_NOT_DEFINED))"

definition a_query_answers_with_the_records_of_a_listing_row :: bool where
  "a_query_answers_with_the_records_of_a_listing_row = expect test_sentry (\<lambda>(actor, db).
     case sentry_process actor (query QUERY_USER []) db of (queried, db) \<Rightarrow>
     expect queried (\<lambda>queried.
     expect (fst (sentry_process actor (list_first GRiD Systems Systems) db)) (\<lambda>listed.
     expect (sentry_records (drop 1 queried)) (\<lambda>q. expect (sentry_records (drop 1 listed)) (\<lambda>l.
       map entry_tag q = map entry_tag l)))))"

section \<open>Updating and deleting\<close>

definition updates_the_record_the_cursor_addresses :: bool where
  "updates_the_record_the_cursor_addresses = expect test_sentry (\<lambda>(actor, db).
     expect (cursor_of actor QUERY_USER guest db) (\<lambda>(cur, db).
     case sentry_process actor (update cur GROUP_ADMIN MEGABYTE) db of (response, db) \<Rightarrow>
       response = Some [COMMAND_ACK] \<and>
       expect (stored_user GRiD Demo (bstr ''GUEST'') db) (\<lambda>account.
         ac_authority account = GROUP_ADMIN \<and> ac_quota account = MEGABYTE)))"

definition updates_the_quota_of_a_group :: bool where
  "updates_the_quota_of_a_group = expect test_sentry (\<lambda>(actor, db).
     expect (cursor_of actor QUERY_GROUP demo_group db) (\<lambda>(cur, db).
     case sentry_process actor (update cur GROUP_ADMIN MEGABYTE) db of (response, db) \<Rightarrow>
       response = Some [COMMAND_ACK] \<and>
       expect_ok (fst (sentry_directory db)) (\<lambda>d.
       expect (directory_find d [GRiD, Demo, Demo]) (\<lambda>i.
       expect (directory_get d i) (\<lambda>r. rw_quota r = MEGABYTE)))))"

definition deletes_the_record_the_cursor_addresses :: bool where
  "deletes_the_record_the_cursor_addresses = expect test_sentry (\<lambda>(actor, db).
     expect (cursor_of actor QUERY_USER guest db) (\<lambda>(cur, db).
     case sentry_process actor (delete cur) db of (response, db) \<Rightarrow>
       response = Some [COMMAND_ACK] \<and>
       expect_ok (fst (find_user GRiD Demo (bstr ''GUEST'') db)) (\<lambda>found. found = None)))"

definition deleting_a_group_takes_its_users_with_it :: bool where
  "deleting_a_group_takes_its_users_with_it = expect test_sentry (\<lambda>(actor, db).
     expect (cursor_of actor QUERY_GROUP demo_group db) (\<lambda>(cur, db).
     case sentry_process actor (delete cur) db of (response, db) \<Rightarrow>
       response = Some [COMMAND_ACK] \<and>
       expect (names actor db) (\<lambda>(rows, db). list_all (\<lambda>(company, grp, user). grp \<noteq> Demo) rows)))"

definition refuses_to_delete_the_signed_on_account :: bool where
  "refuses_to_delete_the_signed_on_account = expect test_sentry (\<lambda>(actor, db).
     expect (cursor_of actor QUERY_USER [] db) (\<lambda>(cur, db).
     case sentry_process actor (delete cur) db of (response, db) \<Rightarrow>
       response = Some (status_response STATUS_INSUFFICIENT_AUTHORITY) \<and>
       expect_ok (fst (find_user GRiD Systems (bstr ''MANAGER'') db)) (\<lambda>found. found \<noteq> None)))"

definition refuses_an_update_or_delete_without_a_valid_cursor :: bool where
  "refuses_an_update_or_delete_without_a_valid_cursor = expect test_sentry (\<lambda>(actor, db).
     case sentry_process actor (update (bstr ''99'') NORMAL MEGABYTE) db of (response, db) \<Rightarrow>
       response = Some (status_response STATUS_ACCOUNT_NOT_DEFINED) \<and>
       fst (sentry_process actor [COMMAND_DELETE] db) = Some (status_response STATUS_ACCOUNT_NOT_DEFINED))"

section \<open>Scope\<close>

definition a_group_administrator_may_edit_only_its_own_group :: bool where
  "a_group_administrator_may_edit_only_its_own_group = expect (sentry_as GROUP_ADMIN) (\<lambda>(admin, db).
     expect (cursor_of admin QUERY_USER guest db) (\<lambda>(cur, db).
     case sentry_process admin (update cur NORMAL MEGABYTE) db of (response, db) \<Rightarrow>
       response = Some [COMMAND_ACK] \<and>
     expect (cursor_of admin QUERY_GROUP demo_group db) (\<lambda>(grp, db).
       fst (sentry_process admin (update grp NORMAL MEGABYTE) db) = Some (status_response STATUS_INSUFFICIENT_AUTHORITY))))"

definition refuses_to_read_or_write_outside_the_own_subtree :: bool where
  "refuses_to_read_or_write_outside_the_own_subtree = expect test_sentry (\<lambda>(actor, db).
     case add_group actor GRiD (bstr ''Demo Group'') db of (r1, db) \<Rightarrow>
     case add_user actor GRiD (bstr ''Demo Group'') Lenin SECRET GROUP_ADMIN db of (r2, db) \<Rightarrow>
     r1 \<noteq> None \<and> r2 \<noteq> None \<and>
     expect (stored_user GRiD (bstr ''Demo Group'') Lenin db) (\<lambda>admin.
       fst (sentry_process admin (query QUERY_USER guest) db) = Some (status_response STATUS_INSUFFICIENT_AUTHORITY)))"

definition a_normal_user_may_query_only_its_own_record :: bool where
  "a_normal_user_may_query_only_its_own_record = expect (sentry_as NORMAL) (\<lambda>(actor, db).
     case sentry_process actor (query QUERY_USER []) db of (response, db) \<Rightarrow>
     expect response (\<lambda>response. response ! 0 = COMMAND_REPLY \<and>
     expect (sentry_records (drop 1 response)) (\<lambda>recs.
       record_value recs PROPERTY_COMPANY = Some GRiD \<and> record_value recs PROPERTY_GROUP = Some Demo \<and>
     (case sentry_process actor (query QUERY_COMPANY [(PROPERTY_COMPANY, GRiD)]) db of (r1, db) \<Rightarrow>
      case sentry_process actor (query QUERY_GROUP demo_group) db of (r2, db) \<Rightarrow>
        r1 = Some (status_response STATUS_INSUFFICIENT_AUTHORITY) \<and>
        r2 = Some (status_response STATUS_INSUFFICIENT_AUTHORITY) \<and>
        fst (sentry_process actor (query QUERY_USER
            [(PROPERTY_COMPANY, GRiD), (PROPERTY_GROUP, Systems), (PROPERTY_USER, bstr ''MANAGER'')]) db) =
          Some (status_response STATUS_INSUFFICIENT_AUTHORITY)))))"

definition refuses_the_listing_to_an_account_that_administers_nothing :: bool where
  "refuses_the_listing_to_an_account_that_administers_nothing = expect (sentry_as NORMAL) (\<lambda>(actor, db).
     case sentry_process actor (list_first [] [] []) db of (response, db) \<Rightarrow>
       response = Some (status_response STATUS_INSUFFICIENT_AUTHORITY) \<and>
       fst (sentry_process actor [COMMAND_LIST_NEXT] db) = Some (status_response STATUS_INSUFFICIENT_AUTHORITY))"

definition the_listing_shows_an_administrator_only_its_own_subtree :: bool where
  "the_listing_shows_an_administrator_only_its_own_subtree = expect test_sentry (\<lambda>(actor, db).
     case add_company actor (bstr ''Test Company'') db of (r1, db) \<Rightarrow>
     case add_group actor (bstr ''Test Company'') (bstr ''Demo Group'') db of (r2, db) \<Rightarrow>
     case add_user actor (bstr ''Test Company'') (bstr ''Demo Group'') Lenin SECRET GROUP_ADMIN db of (r3, db) \<Rightarrow>
     r1 \<noteq> None \<and> r2 \<noteq> None \<and> r3 \<noteq> None \<and>
     expect (stored_user (bstr ''Test Company'') (bstr ''Demo Group'') Lenin db) (\<lambda>admin.
     expect (names admin db) (\<lambda>(rows, db).
       list_all (\<lambda>(company, grp, user). company = bstr ''Test Company'') rows \<and>
       list_all (\<lambda>(company, grp, user). grp = bstr ''Test Company'' \<or> grp = bstr ''Demo Group'') rows \<and>
       list_ex (\<lambda>(company, grp, user). user = Lenin) rows)))"

definition refuses_an_update_that_grants_more_than_the_actor_holds :: bool where
  "refuses_an_update_that_grants_more_than_the_actor_holds = expect (sentry_as GROUP_ADMIN) (\<lambda>(admin, db).
     expect (cursor_of admin QUERY_USER guest db) (\<lambda>(cur, db).
       fst (sentry_process admin (update cur SYSTEM_ADMIN MEGABYTE) db) = Some (status_response STATUS_INSUFFICIENT_AUTHORITY)))"

section \<open>Passwords\<close>

definition every_account_may_change_its_own_password :: bool where
  "every_account_may_change_its_own_password = expect (sentry_as NORMAL) (\<lambda>(actor, db).
     case sentry_process actor (change_password [] (bstr ''NEW'')) db of (response, db) \<Rightarrow>
       response = Some (status_response STATUS_OK) \<and>
       expect (stored_user GRiD Demo (bstr ''GUEST'') db) (\<lambda>account. ac_password account = bstr ''NEW''))"

definition an_administrator_may_change_the_password_of_another_account :: bool where
  "an_administrator_may_change_the_password_of_another_account = expect test_sentry (\<lambda>(actor, db).
     case sentry_process actor (change_password guest (bstr ''NEW'')) db of (response, db) \<Rightarrow>
       response = Some (status_response STATUS_OK) \<and>
       expect (stored_user GRiD Demo (bstr ''GUEST'') db) (\<lambda>account. ac_password account = bstr ''NEW''))"

definition refuses_to_change_the_password_of_another_account_without_the_authority :: bool where
  "refuses_to_change_the_password_of_another_account_without_the_authority = expect (sentry_as NORMAL) (\<lambda>(actor, db).
     case sentry_process actor (change_password
         [(PROPERTY_COMPANY, GRiD), (PROPERTY_GROUP, Systems), (PROPERTY_USER, bstr ''MANAGER'')] (bstr ''NEW'')) db of (response, db) \<Rightarrow>
       response = Some (status_response STATUS_INSUFFICIENT_AUTHORITY) \<and>
       expect (stored_user GRiD Systems (bstr ''MANAGER'') db) (\<lambda>account. ac_password account = bstr ''MANAGER''))"

definition reports_a_password_change_for_an_account_that_is_not_defined :: bool where
  "reports_a_password_change_for_an_account_that_is_not_defined = expect test_sentry (\<lambda>(actor, db).
     fst (sentry_process actor (change_password
         [(PROPERTY_COMPANY, GRiD), (PROPERTY_GROUP, Demo), (PROPERTY_USER, bstr ''NOBODY'')] (bstr ''NEW'')) db) =
       Some (status_response STATUS_ACCOUNT_NOT_DEFINED))"

definition refuses_a_password_change_with_an_empty_password :: bool where
  "refuses_a_password_change_with_an_empty_password = expect test_sentry (\<lambda>(actor, db).
     fst (sentry_process actor (change_password [] []) db) = Some (status_response STATUS_PROPERTY_MISSING))"

definition a_changed_password_is_the_one_sign_on_accepts :: bool where
  "a_changed_password_is_the_one_sign_on_accepts = expect (signed_on demo_database SYSTEM_ADMIN) (\<lambda>actor.
     case sentry_process actor (change_password guest (bstr ''NEW'')) demo_database of (response, db) \<Rightarrow>
       response \<noteq> None \<and>
       (case authenticate (sign_on_properties GRiD Demo (bstr ''GUEST'') (bstr ''GUEST'')) db of (r, db) \<Rightarrow>
          \<not> is_ok r \<and> is_ok (fst (authenticate (sign_on_properties GRiD Demo (bstr ''GUEST'') (bstr ''NEW'')) db))))"

definition listing_records_fit_the_client_buffers :: bool where
  "listing_records_fit_the_client_buffers = expect test_sentry (\<lambda>(actor, db).
     expect (fst (sentry_process actor (list_first [] [] []) db)) (\<lambda>response.
     expect (sentry_records (drop 1 response)) (\<lambda>recs.
       list_all (\<lambda>(tag, capacity). expect (record_value recs tag) (\<lambda>v. length v \<le> capacity))
         [(TAG_CURSOR, 100), (PROPERTY_COMPANY, 20), (PROPERTY_GROUP, 20), (PROPERTY_USER, 20), (TAG_AUTHORITY, 2),
          (TAG_DEVICE, 40), (TAG_QUOTA, 4), (TAG_DISK_USED, 4), (TAG_CREATED, 18), (TAG_MODIFIED, 18), (TAG_LOCKED, 2)])))"

section \<open>The tables of users\<close>

definition a_fresh_database_holds_only_the_seeded_administrator :: bool where
  "a_fresh_database_holds_only_the_seeded_administrator =
     (case load initial_database of (loaded, db) \<Rightarrow>
      expect_ok loaded (\<lambda>accounts.
        map (\<lambda>a. (ac_level a, ac_company a, ac_group a, ac_user a)) accounts =
          [(LEVEL_COMPANY, bstr ''GRiD Systems'', [], []),
           (LEVEL_GROUP, bstr ''GRiD Systems'', bstr ''Default Group'', []),
           (LEVEL_USER, bstr ''GRiD Systems'', bstr ''Default Group'', bstr ''Sysuser'')] \<and>
        expect (stored_user (bstr ''GRiD Systems'') (bstr ''Default Group'') (bstr ''Sysuser'') db) (\<lambda>sysuser.
          ac_password sysuser = bstr ''Sysuser'' \<and> ac_authority sysuser = 40)))"

definition loads_the_demo_directory_in_client_order :: bool where
  "loads_the_demo_directory_in_client_order =
     expect_ok (fst (load demo_database)) (\<lambda>accounts.
       map (\<lambda>a. (ac_level a, ac_group a, ac_user a)) accounts =
         [(LEVEL_COMPANY, [], []), (LEVEL_GROUP, Demo, []), (LEVEL_USER, Demo, bstr ''GUEST''),
          (LEVEL_USER, Demo, bstr ''OPERATOR''), (LEVEL_GROUP, Systems, []), (LEVEL_USER, Systems, bstr ''MANAGER'')])"

definition finds_a_user_ignoring_case :: bool where
  "finds_a_user_ignoring_case =
     expect (stored_user (bstr ''grid'') (bstr ''DEMO'') (bstr ''guest'') demo_database) (\<lambda>account.
       ac_password account = bstr ''GUEST'' \<and> ac_authority account = 0)"

definition does_not_find_an_unknown_user :: bool where
  "does_not_find_an_unknown_user =
     expect_ok (fst (find_user GRiD Demo (bstr ''NOBODY'') demo_database)) (\<lambda>found. found = None)"

definition inserted_rows_appear_in_order :: bool where
  "inserted_rows_appear_in_order =
     (case find_group (bstr ''grid'') (bstr ''demo'') demo_database of (grp, db) \<Rightarrow>
      expect_ok grp (\<lambda>grp. expect grp (\<lambda>grp.
        case insert_user grp (bstr ''BOB'') (bstr ''PW'') 0 1024 db of (inserted, db) \<Rightarrow>
        is_ok inserted \<and>
        expect_ok (fst (load db)) (\<lambda>accounts.
          map ac_user (filter (\<lambda>a. ac_group a = Demo \<and> ac_level a = LEVEL_USER) accounts) =
            [bstr ''BOB'', bstr ''GUEST'', bstr ''OPERATOR'']))))"

definition refuses_a_duplicate_whatever_the_case :: bool where
  "refuses_a_duplicate_whatever_the_case =
     (case insert_company (bstr ''grid'') 1024 demo_database of (r1, db) \<Rightarrow>
      case insert_group 1 (bstr ''DEMO'') 1024 db of (r2, db) \<Rightarrow>
      case insert_user 1 (bstr ''guest'') (bstr ''PW'') 0 1024 db of (r3, db) \<Rightarrow>
        \<not> is_ok r1 \<and> \<not> is_ok r2 \<and> \<not> is_ok r3)"

section \<open>The tests hold\<close>

lemma next_rowid_eval [eval]: "next_rowid [] = 1" "next_rowid (x # xs) = fold max xs x + 1"
  by (simp_all add: next_rowid_def Max.set_eq_fold del: list.set)

lemma names_from_fuel [eval]:
  "names_from (numeral k) = names_from (Suc (pred_numeral k))" "names_from 1 = names_from (Suc 0)"
  "walk_from (numeral k) = walk_from (Suc (pred_numeral k))" "walk_from 1 = walk_from (Suc 0)"
  by (simp_all add: numeral_eq_Suc)

lemmas order_eval [eval] = sql_error.distinct level.distinct level.case name_filter.inject name_filter.distinct name_filter.case
  tlv_kind.distinct Cons_less_Cons Cons_le_Cons Nil_less_Cons Nil_le_Cons not_less_Nil le_Nil less_eq_prod_simp
  less_prod_simp

lemmas text_eval [eval] = utf8_cont_def utf8_valid.simps from_utf8_def is_ascii_def to_ascii_lowercase_def
  eq_ignore_ascii_case_def digits.simps i64_to_string_def parse_digits.simps parse_usize_def

lemmas user_table_eval [eval] = company_row.simps group_row.simps user_row.simps message_row.simps database.simps initial_database_def
  nocase_def sql_def first_row_def account.simps LEVEL_COMPANY_def LEVEL_GROUP_def LEVEL_USER_def joined_groups_def
  joined_users_def company_account_def group_account_def user_account_def all_accounts_def load_order_def
  age_order_def load_def load_by_age_def named_groups_def named_users_def find_user_def find_company_def GROUP_ID_def
  USER_ID_def find_group_def insert_company_def insert_group_def insert_user_def update_company_def update_group_def
  update_named_user_def update_user_def set_password_def drop_users_def drop_groups_def drop_companies_def
  delete_users_where_def delete_groups_where_def delete_companies_where_def delete_company_def delete_group_def
  delete_user_def

lemmas sentry_eval [eval] = COMMAND_ACK_def COMMAND_STATUS_def COMMAND_REPLY_def COMMAND_VARIANT_QUERY_def
  COMMAND_CHANGE_PASSWORD_def COMMAND_ADD_USER_def COMMAND_QUERY_def COMMAND_DELETE_def COMMAND_UPDATE_def
  COMMAND_ADD_GROUP_def COMMAND_ADD_COMPANY_def COMMAND_LIST_FIRST_def COMMAND_LIST_NEXT_def TAG_AUTHORITY_def
  TAG_VARIANT_def TAG_QUOTA_def TAG_CURSOR_def TAG_DEVICE_def TAG_DISK_USED_def TAG_CREATED_def TAG_MODIFIED_def
  TAG_LOCKED_def TAG_QUERY_LEVEL_def QUERY_COMPANY_def QUERY_GROUP_def QUERY_USER_def PROPERTY_COMPANY_def
  PROPERTY_GROUP_def PROPERTY_USER_def PROPERTY_PASSWORD_def STATUS_OK_def STATUS_PROPERTY_MISSING_def
  STATUS_AUTHORIZATION_FILE_def STATUS_END_OF_LISTING_def STATUS_INVALID_AUTHORITY_def STATUS_COMPANY_NOT_DEFINED_def
  STATUS_ACCOUNT_NOT_DEFINED_def STATUS_ALREADY_DEFINED_def STATUS_INSUFFICIENT_AUTHORITY_def STATUS_INVALID_NAME_def
  VARIANT_def VARIANT_UNSUPPORTED_def FILTER_SKIP_def DEVICE_def CREATED_def MODIFIED_def UNLOCKED_def NORMAL_def
  GROUP_ADMIN_def COMPANY_ADMIN_def SYSTEM_ADMIN_def LEVELS_def authority_is_defined_def authority_read_def
  authority_write_def row.simps level_required.simps row_from_account_def row_names_def row_matches_def row_level_def
  directory_load_def rposition_def directory_find_def directory_get_def sentry_records_def record_value_def
  write_tagged_def ascii_name_def ascii_names_def stored_names_def status_response_def variant_response_def
  names_depth_def cursor_field_def name_filter_of_def quota_field_def quota_or_zero_def resume_def seek_def
  row_response_def listing_response_def actor_names_def outside_def deny_outside_def deny_below_def deny_write_def
  name_or_own_def sentry_directory_def sentry_write_def is_constraint_violation_def sentry_store_def read_failed_def
  sentry_query_def find_in_scope_def sentry_list_def sentry_update_def sentry_delete_def sentry_change_password_def
  sentry_add_company_def sentry_add_group_def sentry_add_user_def sentry_try_process_def sentry_process_def
  connection_id_acquire_def connection_id_drop_def INITIAL_SEQ_STATE_def next_initial_seq_number_def
  STATUS_INVALID_PASSWORD_def STATUS_UNKNOWN_USER_def STATUS_NOT_SIGNED_ON_def session.simps write_frame_def
  write_response_def respond_def property_of_def authenticate_def sign_on_property.simps

lemmas test_client_eval [eval] = demo_database_def signed_on_def sentry_as_def test_sentry_def MEGABYTE_def QUOTA_UNLIMITED_def
  tagged_def add_company_def add_group_def add_user_def list_filter_def list_first_def query_def cursor_of_def
  update_def delete_def change_password_def names_from.simps names_def stored_user_def walk_from.simps
  sign_on_properties_def

lemmas sentry_test_eval [eval] = answers_variant_query_def answers_add_user_with_success_status_def
  created_company_appears_in_the_listing_def created_group_lands_inside_its_company_def
  created_user_lands_inside_its_group_def refuses_an_administrative_command_from_a_normal_user_def
  allows_only_what_the_authority_covers_def tells_a_normal_user_the_variant_is_unsupported_def
  refuses_to_create_a_user_from_a_normal_account_def refuses_to_grant_an_authority_above_the_creators_own_def
  refuses_an_authority_outside_the_defined_levels_def refuses_the_mandatory_fields_when_empty_def
  stores_the_parent_spelling_the_directory_already_uses_def refuses_a_name_that_is_not_ascii_def
  reports_a_missing_group_apart_from_a_missing_company_def a_created_user_can_sign_on_def
  stores_the_password_of_a_created_user_def rejects_a_duplicate_company_def rejects_a_group_without_its_company_def
  a_created_company_accepts_groups_def parses_add_user_fields_def rejects_truncated_records_def
  ignores_unsupported_commands_def answers_first_listing_request_with_the_first_row_def
  walks_the_directory_row_by_row_def skips_the_rest_of_a_subtree_def continues_a_user_listing_from_the_cursor_def
  ends_the_listing_after_the_last_row_def ends_the_listing_when_the_whole_company_is_skipped_def
  ends_the_listing_for_an_unknown_filter_def answers_a_query_without_names_with_the_signed_on_account_def
  answers_a_query_for_each_level_def reports_a_queried_record_that_is_not_defined_def
  a_query_answers_with_the_records_of_a_listing_row_def updates_the_record_the_cursor_addresses_def
  updates_the_quota_of_a_group_def deletes_the_record_the_cursor_addresses_def
  deleting_a_group_takes_its_users_with_it_def refuses_to_delete_the_signed_on_account_def
  refuses_an_update_or_delete_without_a_valid_cursor_def a_group_administrator_may_edit_only_its_own_group_def
  refuses_to_read_or_write_outside_the_own_subtree_def a_normal_user_may_query_only_its_own_record_def
  refuses_the_listing_to_an_account_that_administers_nothing_def
  the_listing_shows_an_administrator_only_its_own_subtree_def
  refuses_an_update_that_grants_more_than_the_actor_holds_def every_account_may_change_its_own_password_def
  an_administrator_may_change_the_password_of_another_account_def
  refuses_to_change_the_password_of_another_account_without_the_authority_def
  reports_a_password_change_for_an_account_that_is_not_defined_def
  refuses_a_password_change_with_an_empty_password_def a_changed_password_is_the_one_sign_on_accepts_def
  listing_records_fit_the_client_buffers_def a_fresh_database_holds_only_the_seeded_administrator_def
  loads_the_demo_directory_in_client_order_def finds_a_user_ignoring_case_def does_not_find_an_unknown_user_def
  inserted_rows_appear_in_order_def refuses_a_duplicate_whatever_the_case_def

lemma adding_tests:
  "answers_variant_query \<and> answers_add_user_with_success_status \<and>
   created_company_appears_in_the_listing \<and> created_group_lands_inside_its_company \<and>
   created_user_lands_inside_its_group \<and> refuses_an_administrative_command_from_a_normal_user \<and>
   allows_only_what_the_authority_covers \<and> tells_a_normal_user_the_variant_is_unsupported"
  by (simp only: eval cong: eval_cong)

lemma adding_tests_2:
  "refuses_to_create_a_user_from_a_normal_account \<and>
   refuses_to_grant_an_authority_above_the_creators_own \<and>
   refuses_an_authority_outside_the_defined_levels \<and> refuses_the_mandatory_fields_when_empty \<and>
   stores_the_parent_spelling_the_directory_already_uses \<and> refuses_a_name_that_is_not_ascii \<and>
   reports_a_missing_group_apart_from_a_missing_company \<and> a_created_user_can_sign_on"
  by (simp only: eval cong: eval_cong)

lemma adding_tests_3:
  "stores_the_password_of_a_created_user \<and> rejects_a_duplicate_company \<and>
   rejects_a_group_without_its_company \<and> a_created_company_accepts_groups \<and> parses_add_user_fields \<and>
   rejects_truncated_records \<and> ignores_unsupported_commands"
  by (simp only: eval cong: eval_cong)

lemma listing_tests:
  "answers_first_listing_request_with_the_first_row \<and> walks_the_directory_row_by_row \<and>
   skips_the_rest_of_a_subtree \<and> continues_a_user_listing_from_the_cursor \<and>
   ends_the_listing_after_the_last_row \<and> ends_the_listing_when_the_whole_company_is_skipped \<and>
   ends_the_listing_for_an_unknown_filter"
  by (simp only: eval cong: eval_cong)

lemma query_tests:
  "answers_a_query_without_names_with_the_signed_on_account \<and> answers_a_query_for_each_level \<and>
   reports_a_queried_record_that_is_not_defined \<and> a_query_answers_with_the_records_of_a_listing_row"
  by (simp only: eval cong: eval_cong)

lemma editing_tests:
  "updates_the_record_the_cursor_addresses \<and> updates_the_quota_of_a_group \<and>
   deletes_the_record_the_cursor_addresses \<and> deleting_a_group_takes_its_users_with_it \<and>
   refuses_to_delete_the_signed_on_account \<and> refuses_an_update_or_delete_without_a_valid_cursor"
  by (simp only: eval cong: eval_cong)

lemma scope_tests:
  "a_group_administrator_may_edit_only_its_own_group \<and> refuses_to_read_or_write_outside_the_own_subtree \<and>
   a_normal_user_may_query_only_its_own_record \<and>
   refuses_the_listing_to_an_account_that_administers_nothing \<and>
   the_listing_shows_an_administrator_only_its_own_subtree \<and>
   refuses_an_update_that_grants_more_than_the_actor_holds"
  by (simp only: eval cong: eval_cong)

lemma password_tests:
  "every_account_may_change_its_own_password \<and>
   an_administrator_may_change_the_password_of_another_account \<and>
   refuses_to_change_the_password_of_another_account_without_the_authority \<and>
   reports_a_password_change_for_an_account_that_is_not_defined \<and>
   refuses_a_password_change_with_an_empty_password \<and> a_changed_password_is_the_one_sign_on_accepts \<and>
   listing_records_fit_the_client_buffers"
  by (simp only: eval cong: eval_cong)

lemma user_table_tests:
  "a_fresh_database_holds_only_the_seeded_administrator \<and> loads_the_demo_directory_in_client_order \<and>
   finds_a_user_ignoring_case \<and> does_not_find_an_unknown_user \<and> inserted_rows_appear_in_order \<and>
   refuses_a_duplicate_whatever_the_case"
  by (simp only: eval cong: eval_cong)

end
