(* ===== verification/Mail_Tests.thy ===== *)
theory Mail_Tests
  imports Vipc Sentry_Tests
begin

text \<open>
  The tests of vipc/mail/tests.rs and vipc/mod.rs, translated over the model. The server of a test and the
  database it shares are a pair. A large message is the one input that is not evaluated: it is read by the
  lemmas on records. The tests of the dispatch hold on every platform and for every directory the directory
  manager opens: no request of theirs is for the file service.
\<close>

unbundle bit_operations_syntax

section \<open>The mail client\<close>

definition STORED_BODY :: bytes where "STORED_BODY = bstr ''Stored body''"

definition test_mail_server :: "(mail_server \<times> database) option" where
  "test_mail_server =
     (case find_user (bstr ''GRiD'') (bstr ''Demo'') (bstr ''GUEST'') demo_database of
        (Inr (Some owner), conn) \<Rightarrow> Some (mail_server_new (ac_id owner) (ac_user owner), conn)
      | _ \<Rightarrow> None)"

definition test_outgoing :: "bytes \<Rightarrow> bytes \<Rightarrow> bytes" where
  "test_outgoing subject body =
     app_frame RECORD_MARKER (bstr ''tGUEST'') @ tagged_record 0x73 subject @ tagged_record 0x6E body
     @ app_frame RECORD_MARKER [TAG_TERMINATOR]"

definition with_one_message :: "(mail_server \<times> database) option" where
  "with_one_message =
     (case test_mail_server of
        None \<Rightarrow> None
      | Some (mail, conn) \<Rightarrow>
          (case accept_outgoing (test_outgoing (bstr ''Stored subject'') STORED_BODY) mail conn of
             (accepted, conn) \<Rightarrow> if accepted then Some (mail, conn) else None))"

definition stored_message :: "mail_server \<Rightarrow> u32 \<Rightarrow> database \<Rightarrow> message option" where
  "stored_message mail mail_id conn =
     (case fst (mailbox_find (mv_owner_id mail) mail_id conn) of Inl e \<Rightarrow> None | Inr m \<Rightarrow> m)"

definition ALL_TAGS :: bytes where "ALL_TAGS = bstr ''kuvspoftcandgbzxy''"

definition detail_query :: "u32 \<Rightarrow> bytes" where
  "detail_query mail_id = [0xFD, 27, 0, 0x53, 7, 0, 0] @ mail_id_from_u32 mail_id @ ALL_TAGS"

definition mail_request :: "bool \<Rightarrow> bytes \<Rightarrow> bytes" where
  "mail_request has_more data = [if has_more then 1 else 0, 5, 0, 0] @ data"

definition mail_answer :: "u16 \<Rightarrow> byte \<Rightarrow> bytes \<Rightarrow> mail_response list" where
  "mail_answer note marker data = [\<lparr>mr_note = note, mr_payload = transport 0 5 (app_frame marker data)\<rparr>]"

text \<open>\<open>SessionInitialize::encode\<close>.\<close>

definition session_initialize_encode :: "u16 \<Rightarrow> byte \<Rightarrow> bytes" where
  "session_initialize_encode service_id protocol_version =
     app_frame SESSION_MARKER ([SESSION_COMMAND] @ u16_to_le service_id @ [protocol_version])"

section \<open>Mail sessions\<close>

definition initializes_session_from_observed_payload :: bool where
  "initializes_session_from_observed_payload =
     expect test_mail_server (\<lambda>(mail, conn).
       let request = [0, 5, 0, 0] @ session_initialize_encode MAIL_SERVICE_ID PROTOCOL_VERSION in
       fst (mail_process 0 request mail conn) = Some (mail_answer 0 0xFE [0x7A]))"

definition assembles_transport_fragments :: bool where
  "assembles_transport_fragments =
     expect test_mail_server (\<lambda>(mail, conn).
     case mail_process 6 (mail_request True [0xFD, 2, 0, 0x74, 0x78]) mail conn of (r, mail, conn) \<Rightarrow>
       r = None \<and> fst (mail_process 6 (mail_request False []) mail conn) = Some (mail_answer 6 0xFD [0x54]))"

definition drops_interleaved_connection :: bool where
  "drops_interleaved_connection =
     expect test_mail_server (\<lambda>(mail, conn).
     case mail_process 6 (mail_request True [0xFD, 2, 0, 0x74, 0x78]) mail conn of (r, mail, conn) \<Rightarrow>
       r = None \<and> fst (mail_process 6 [0, 6, 0, 0] mail conn) = None)"

definition rejects_malformed_commands :: bool where
  "rejects_malformed_commands =
     expect test_mail_server (\<lambda>(mail, conn).
     case mail_process 7 (mail_request False []) mail conn of (r, mail, conn) \<Rightarrow> r = None \<and>
     (case mail_process 8 (mail_request False [0x78]) mail conn of (r, mail, conn) \<Rightarrow> r = None \<and>
       fst (mail_process 0x0D (mail_request False [0xFD, 3, 0, 0x49]) mail conn) = None))"

definition completes_initial_server_message_drain :: bool where
  "completes_initial_server_message_drain =
     expect test_mail_server (\<lambda>(mail, conn).
       fst (mail_process 0x10 [0, 1, 0, 0] mail conn) =
         Some [\<lparr>mr_note = 0x10, mr_payload = transport 0 1 (app_frame RECORD_MARKER [TAG_TERMINATOR])\<rparr>])"

definition rejects_transport_error :: bool where
  "rejects_transport_error =
     expect test_mail_server (\<lambda>(mail, conn). fst (mail_process 0 [0, 5, 1, 0] mail conn) = None)"

section \<open>Stored mail\<close>

definition LIST_QUERY :: bytes where "LIST_QUERY = [0xFD, 10, 0, 0x53, 7, 0, 1, 0, 0, 0, 0, 0, 0]"

text \<open>The one response a query gets, with the given data.\<close>

definition answers_with :: "bytes \<Rightarrow> bytes \<Rightarrow> mail_server \<Rightarrow> database \<Rightarrow> bool" where
  "answers_with q data mail conn \<longleftrightarrow>
     fst (mail_process 7 (mail_request False q) mail conn) = Some [\<lparr>mr_note = 7, mr_payload = transport 0 5 data\<rparr>]"

definition an_empty_mailbox_lists_nothing :: bool where
  "an_empty_mailbox_lists_nothing =
     expect test_mail_server (\<lambda>(mail, conn). answers_with LIST_QUERY empty_mail_result mail conn)"

definition returns_the_stored_mail_list :: bool where
  "returns_the_stored_mail_list =
     expect with_one_message (\<lambda>(mail, conn).
     expect (stored_message mail 1 conn) (\<lambda>m.
       case mailbox_list [m] of
         [response] \<Rightarrow>
           fst (mail_process 7 (mail_request False LIST_QUERY) mail conn) =
             Some [\<lparr>mr_note = 7, mr_payload = transport (cn_flags response) 5 (cn_data response)\<rparr>]
       | _ \<Rightarrow> False))"

definition returns_complete_mail_for_detail_query :: bool where
  "returns_complete_mail_for_detail_query =
     expect with_one_message (\<lambda>(mail, conn).
     expect (stored_message mail 1 conn) (\<lambda>m.
       case fst (mail_process 7 (mail_request False (detail_query 1)) mail conn) of
         Some [response] \<Rightarrow>
           mr_note response = 7 \<and> mr_payload response = transport 0 5 (mail_detail m) \<and>
           expect (find (\<lambda>i. take 4 (drop i (mr_payload response)) = [0xFD, 1, 0, 0x7A]) [0..<length (mr_payload response)])
             (\<lambda>position. drop (position + 4) (mr_payload response) = STORED_BODY) \<and>
           mr_payload response ! 0 AND MORE = 0
       | _ \<Rightarrow> False))"

definition a_detail_query_for_an_unknown_id_returns_nothing :: bool where
  "a_detail_query_for_an_unknown_id_returns_nothing =
     expect with_one_message (\<lambda>(mail, conn).
       answers_with ([0xFD, 27, 0, 0x53, 7, 0, 0] @ [1, 0, 0, 0, 1, 0] @ ALL_TAGS) empty_mail_result mail conn)"

definition read_new_query :: bytes where
  "read_new_query = [0xFD, 27, 0, 0x53, 1, 0, 1] @ replicate 6 0 @ ALL_TAGS"

definition returns_stored_mail_once_for_read_new_query :: bool where
  "returns_stored_mail_once_for_read_new_query =
     expect with_one_message (\<lambda>(mail, conn).
     expect (stored_message mail 1 conn) (\<lambda>m.
     case mail_process 7 (mail_request False read_new_query) mail conn of (r, mail, conn) \<Rightarrow>
       r = Some [\<lparr>mr_note = 7, mr_payload = transport 0 5 (mail_detail m)\<rparr>] \<and>
       answers_with read_new_query empty_mail_result mail conn))"

definition read_new_state_does_not_hide_mail_from_normal_detail_query :: bool where
  "read_new_state_does_not_hide_mail_from_normal_detail_query =
     expect with_one_message (\<lambda>(mail, conn).
     expect (stored_message mail 1 conn) (\<lambda>m.
     case mail_process 7 (mail_request False read_new_query) mail conn of (r, mail, conn) \<Rightarrow>
       r \<noteq> None \<and> answers_with (detail_query 1) (mail_detail m) mail conn))"

text \<open>The tags of the records of a payload; \<open>None\<close> when a record has another marker or is cut short. The
  fuel bounds the records; running out of it fails the test.\<close>

fun record_tags :: "nat \<Rightarrow> bytes \<Rightarrow> bytes option" where
  "record_tags 0 data = None"
| "record_tags (Suc fuel) data =
     (case data of
        [] \<Rightarrow> Some []
      | marker # l0 # l1 # tag # rest \<Rightarrow>
          if marker = 0xFD
          then map_option (Cons tag) (record_tags fuel (drop (unat (u16_of_le l0 l1)) (tag # rest)))
          else None
      | _ \<Rightarrow> None)"

definition returns_each_mailbox_item_in_its_own_response :: bool where
  "returns_each_mailbox_item_in_its_own_response =
     expect with_one_message (\<lambda>(mail, conn).
     case accept_outgoing (test_outgoing (bstr ''Second'') (bstr ''Second body'')) mail conn of (accepted, conn) \<Rightarrow>
       accepted \<and>
     (case fst (mail_process 7 (mail_request False LIST_QUERY) mail conn) of
        Some [first, second] \<Rightarrow>
          mr_payload first ! 0 AND MORE = MORE \<and> mr_payload second ! 0 AND MORE = 0 \<and>
          list_all (\<lambda>r. record_tags 8 (drop 4 (mr_payload r)) = Some [0x62, 0x6B, 0x73, 0x7A]) [first, second] \<and>
          take 6 (drop 8 (mr_payload first)) \<noteq> take 6 (drop 8 (mr_payload second))
      | _ \<Rightarrow> False))"

definition accepts_outgoing_mail_and_selects_it_by_id :: bool where
  "accepts_outgoing_mail_and_selects_it_by_id =
     (let data = app_frame RECORD_MARKER (bstr ''tGUEST'') @ app_frame RECORD_MARKER (bstr ''sSent subject'')
            @ app_frame RECORD_MARKER (bstr ''DDemo attachment nnoise'') @ app_frame RECORD_MARKER (bstr ''nSent body'')
            @ app_frame RECORD_MARKER [TAG_TERMINATOR] in
      expect with_one_message (\<lambda>(mail, conn).
      case accept_outgoing data mail conn of (accepted, conn) \<Rightarrow> accepted \<and>
      expect (stored_message mail 2 conn) (\<lambda>stored.
        me_subject stored = bstr ''Sent subject'' \<and> me_body stored = bstr ''Sent body'') \<and>
      (case fst (mail_process 7 (mail_request False (detail_query 2)) mail conn) of
         Some [response] \<Rightarrow>
           find (\<lambda>i. take 12 (drop i (mr_payload response)) = bstr ''Sent subject'') [0..<length (mr_payload response)] \<noteq> None \<and>
           strip_suffix (bstr ''Sent body'') (mr_payload response) \<noteq> None
       | _ \<Rightarrow> False)))"

definition accepts_outgoing_mail_with_a_stale_tail :: bool where
  "accepts_outgoing_mail_with_a_stale_tail =
     (let data = test_outgoing (bstr ''Short'') (bstr ''Short body'') @ bstr '' leftovers of a longer object'' in
      expect test_mail_server (\<lambda>(mail, conn).
      case accept_outgoing data mail conn of (accepted, conn) \<Rightarrow> accepted \<and>
      expect (stored_message mail 1 conn) (\<lambda>stored.
        me_subject stored = bstr ''Short'' \<and> me_body stored = bstr ''Short body'')))"

definition read_new_iterates_all_mail_then_terminates :: bool where
  "read_new_iterates_all_mail_then_terminates =
     expect with_one_message (\<lambda>(mail, conn).
     case accept_outgoing (test_outgoing (bstr ''Second'') (bstr ''Second body'')) mail conn of (accepted, conn) \<Rightarrow>
       accepted \<and>
     (case mail_process 7 (mail_request False read_new_query) mail conn of (first, mail, conn) \<Rightarrow>
     (case mail_process 7 (mail_request False read_new_query) mail conn of (second, mail, conn) \<Rightarrow>
     (case mail_process 7 (mail_request False read_new_query) mail conn of (third, mail, conn) \<Rightarrow>
       expect first (\<lambda>rs. strip_suffix STORED_BODY (mr_payload (rs ! 0)) \<noteq> None) \<and>
       expect second (\<lambda>rs. strip_suffix (bstr ''Second body'') (mr_payload (rs ! 0)) \<noteq> None) \<and>
       expect third (\<lambda>rs. mr_payload (rs ! 0) = transport 0 5 empty_mail_result)))))"

definition a_mailbox_is_not_shared_between_accounts :: bool where
  "a_mailbox_is_not_shared_between_accounts =
     expect with_one_message (\<lambda>(mail, conn).
     case find_user (bstr ''GRiD'') (bstr ''Systems'') (bstr ''MANAGER'') conn of
       (Inr (Some other), conn) \<Rightarrow>
         (let other_mail = mail_server_new (ac_id other) (ac_user other) in
          expect_ok (fst (list_mail (ac_id other) conn)) (\<lambda>ms. ms = []) \<and>
          answers_with (detail_query 1) empty_mail_result other_mail conn)
     | _ \<Rightarrow> False)"

definition rejects_mail_that_cannot_fit_in_one_vipc_response :: bool where
  "rejects_mail_that_cannot_fit_in_one_vipc_response =
     expect test_mail_server (\<lambda>(mail, conn).
     case accept_outgoing (test_outgoing (bstr ''Large'') (replicate 40000 0x78)) mail conn of (accepted, conn) \<Rightarrow>
       \<not> accepted \<and> expect_ok (fst (list_mail (mv_owner_id mail) conn)) (\<lambda>ms. ms = []))"

section \<open>The broadcast service\<close>

definition broadcast_request :: "byte \<Rightarrow> bytes \<Rightarrow> bytes" where
  "broadcast_request flags data = [flags, 1, 0, 0] @ data"

definition answers_initialization :: bool where
  "answers_initialization =
     (broadcast_process (broadcast_request 0 (session_initialize_encode BROADCAST_SERVICE_ID PROTOCOL_VERSION)) =
        Some [0, 1, 0, 0, 0xFE, 1, 0, 0x7A])"

definition keeps_the_connection_id_of_the_request :: bool where
  "keeps_the_connection_id_of_the_request =
     expect (broadcast_process ([0, 7, 0, 0] @ session_initialize_encode BROADCAST_SERVICE_ID PROTOCOL_VERSION))
       (\<lambda>response. response ! 1 = 7)"

definition ignores_continuation_fragments :: bool where
  "ignores_continuation_fragments =
     (broadcast_process (broadcast_request MORE (session_initialize_encode BROADCAST_SERVICE_ID PROTOCOL_VERSION)) = None)"

definition ignores_frames_reporting_an_error :: bool where
  "ignores_frames_reporting_an_error =
     (broadcast_process ([0, 1, 5, 0] @ session_initialize_encode BROADCAST_SERVICE_ID PROTOCOL_VERSION) = None)"

definition ignores_unknown_frames :: bool where
  "ignores_unknown_frames =
     (broadcast_process (broadcast_request 0 [0xFD, 1, 0, 0x7A]) = None \<and>
      broadcast_process (broadcast_request 0 []) = None \<and> broadcast_process [] = None)"

section \<open>The dispatch\<close>

text \<open>The fixture: the manager's services over the directory manager opened on \<open>root\<close>.\<close>

definition test_vipc :: "platform \<Rightarrow> path_buf \<Rightarrow> host \<Rightarrow> (vipc \<times> shared) option" where
  "test_vipc pl root h =
     (case fst (find_user (bstr ''GRiD'') (bstr ''Systems'') (bstr ''MANAGER'') demo_database) of
        Inr (Some actor) \<Rightarrow>
          (case dir_manager_new (pl_xattr pl) Locked root h of
             (Inl e, h) \<Rightarrow> None
           | (Inr vfs_root, h) \<Rightarrow>
               let sh = \<lparr>sh_db = demo_database, sh_dirman = vfs_root, sh_host = h\<rparr> in
               Some (vipc_new actor sh, sh))
      | _ \<Rightarrow> None)"

text \<open>\<open>OutgoingMessage::to_bytes\<close>, and the bytes of the responses to one message.\<close>

definition outgoing_message_to_bytes :: "outgoing_message \<Rightarrow> bytes option" where
  "outgoing_message_to_bytes m = ok (outgoing_message_write_into m [])"

definition response_bytes :: "platform \<Rightarrow> path_buf \<Rightarrow> host \<Rightarrow> bytes \<Rightarrow> bytes list option" where
  "response_bytes pl root h request =
     (case test_vipc pl root h of
        None \<Rightarrow> None
      | Some (v, sh) \<Rightarrow> 
          Option.bind (ok (fst (vipc_process_message pl request v sh))) (\<lambda>rs. those (map outgoing_message_to_bytes rs)))"

definition serializes_mail_initialization_response :: "platform \<Rightarrow> path_buf \<Rightarrow> host \<Rightarrow> bool" where
  "serializes_mail_initialization_response pl root h =
     (response_bytes pl root h [0x44, 0x74, 0, 0, 11, 0, 0, 5, 0, 0, 0xFE, 4, 0, 0x61, 0x88, 0x2C, 1] =
        Some [[0x44, 0x74, 0, 0x80, 8, 0, 0, 5, 0, 0, 0xFE, 1, 0, 0x7A]])"

definition serializes_broadcast_initialization_response :: "platform \<Rightarrow> path_buf \<Rightarrow> host \<Rightarrow> bool" where
  "serializes_broadcast_initialization_response pl root h =
     (response_bytes pl root h [0x00, 0x70, 0, 0, 11, 0, 0, 1, 0, 0, 0xFE, 4, 0, 0x61, 0xEC, 0x2C, 1] =
        Some [[0x00, 0x70, 0, 0x80, 8, 0, 0, 1, 0, 0, 0xFE, 1, 0, 0x7A]])"

definition ignores_unknown_broadcast_frames :: "platform \<Rightarrow> path_buf \<Rightarrow> host \<Rightarrow> bool" where
  "ignores_unknown_broadcast_frames pl root h =
     (response_bytes pl root h [0x00, 0x70, 0, 0, 4, 0, 0, 1, 0, 0] = Some [])"

definition serializes_initial_message_drain_response :: "platform \<Rightarrow> path_buf \<Rightarrow> host \<Rightarrow> bool" where
  "serializes_initial_message_drain_response pl root h =
     (response_bytes pl root h [0x44, 0x74, 0x10, 0, 4, 0, 0, 1, 0, 0] =
        Some [[0x44, 0x74, 0x10, 0x80, 8, 0, 0, 1, 0, 0, 0xFD, 1, 0, 0x7A]])"

definition serializes_sentry_variant_response :: "platform \<Rightarrow> path_buf \<Rightarrow> host \<Rightarrow> bool" where
  "serializes_sentry_variant_response pl root h =
     (response_bytes pl root h [0xFF, 0xFF, 0xFF, 0xFF, 1, 0, 4] =
        Some [[0xFF, 0xFF, 0xFF, 0xFF, 4, 0, 3, 0x25, 1, 0x33]])"

definition serializes_sentry_add_user_response :: "platform \<Rightarrow> path_buf \<Rightarrow> host \<Rightarrow> bool" where
  "serializes_sentry_add_user_response pl root h =
     (let payload = [6, 7, 4] @ bstr ''GRiD'' @ [8, 4] @ bstr ''Demo'' @ [9, 3] @ bstr ''BOB'' @ [0x0A, 2] @ bstr ''PW''
            @ [0x1A, 2, 0, 0, 0x26, 4, 0, 4, 0, 0] in
      response_bytes pl root h ([0xFF, 0xFF, 0xFF, 0xFF] @ u16_to_le (of_nat (length payload)) @ payload) =
        Some [[0xFF, 0xFF, 0xFF, 0xFF, 3, 0, 2, 0, 0]])"

definition serializes_empty_mail_list_response :: "platform \<Rightarrow> path_buf \<Rightarrow> host \<Rightarrow> bool" where
  "serializes_empty_mail_list_response pl root h =
     (response_bytes pl root h
        [0x44, 0x74, 7, 0, 17, 0, 0, 5, 0, 0, 0xFD, 10, 0, 0x53, 1, 0, 1, 0, 0, 0, 0, 0, 0] =
        Some [[0x44, 0x74, 7, 0x80, 8, 0, 0, 5, 0, 0, 0xFD, 1, 0, 0x7A]])"

section \<open>The tests hold\<close>

lemma update_eval [eval]:
  "(x # xs)[0 := v] = v # xs" "(x # xs)[1 := v] = x # xs[0 := v]" "(x # xs)[numeral k := v] = x # xs[pred_numeral k := v]"
  by (simp_all add: numeral_eq_Suc)

lemma enumerate_eval [eval]: "enumerate n [] = []" "enumerate n (x # xs) = (n, x) # enumerate (n + 1) xs"
  by simp_all

lemma next_mail_id_eval [eval]:
  "next_mail_id db recipient =
     (case map ms_mail_id (filter (\<lambda>m. ms_recipient_id m = recipient) (db_messages db)) of
        [] \<Rightarrow> 1 | i # ids \<Rightarrow> fold max ids i + 1)"
  unfolding next_mail_id_def Let_def
  by (cases "map ms_mail_id (filter (\<lambda>m. ms_recipient_id m = recipient) (db_messages db))")
    (simp_all only: Max.set_eq_fold list.case list.distinct if_True if_False simp_thms add_0)

lemma u32_limit_eval [eval]: "(2 :: int) ^ 32 = 4294967296"
  by simp

lemma more_eval [eval]: "(x AND 1 :: byte) = of_int (uint x mod 2)"
proof -
  have "uint (x AND 1) = uint x mod 2" by (simp add: and_one_eq uint_mod)
  then have "of_int (uint (x AND 1)) = (of_int (uint x mod 2) :: byte)" by (rule arg_cong)
  then show ?thesis by simp
qed

lemma note_eval [eval]: "(0x8000 OR 0 :: u16) = 0x8000" "(0x8000 OR 7 :: u16) = 0x8007" "(0x8000 OR 16 :: u16) = 0x8010"
  by simp_all

lemma filter_eval [eval]: "NEW_MAIL_FILTER = 1" "ALL_MAIL_FILTER = 7"
  by (simp_all add: NEW_MAIL_FILTER_def ALL_MAIL_FILTER_def push_bit_eq_mult)

lemma record_tags_fuel [eval]: "record_tags (numeral k) = record_tags (Suc (pred_numeral k))" "record_tags 1 = record_tags (Suc 0)"
  by (simp_all add: numeral_eq_Suc)

lemmas mailbox_eval [eval] = correspondent.simps correspondent_path_def message.simps mailbox_filter.simps
  new_message.simps joined_messages_def correspondent_of_def read_message_def optional_row_def find_recipient_def
  mailbox_insert_def list_mail_def mailbox_search_def mailbox_find_def first_unread_def mark_read_def

lemmas mail_protocol_eval [eval] = RECORD_MARKER_def SESSION_MARKER_def TAG_TERMINATOR_def SESSION_COMMAND_def
  MAIL_SERVICE_ID_def BROADCAST_SERVICE_ID_def PROTOCOL_VERSION_def MORE_def TRANSPORT_HEADER_LEN_def
  TRANSPORT_SUCCESS_def RECORD_HEADER_LEN_def MAIL_ID_LEN_def single_record_def app_frame_def transport_def
  session_initialize.simps session_initialize_parse_def transport_fragment.simps transport_fragment_parse_def
  mail_id_from_u32_def mail_id_value_def broadcast_process_def

lemmas post_office_eval [eval] = TAG_HEADER_def TAG_RECIPIENT_def TAG_SENDER_def TAG_DISPLAY_SENDER_def
  TAG_SUBJECT_def TAG_BODY_def TAG_SELECT_def TAG_INITIALIZE_def TAG_REQUEST_ACCEPTED_def CHANNEL_SESSION_def
  CHANNEL_CLOSE_def CHANNEL_TAGGED_REQUEST_def CHANNEL_SELECT_def CHANNEL_FLUSH_def CHANNEL_INITIALIZE_def
  CHANNEL_FINALIZE_def CHANNEL_DRAIN_def CHANNEL_COUNT_def SESSION_INITIALIZE_RESPONSE_def
  MAIL_HEADER_RESERVED_LEN_def TAG_LEN_def STATUS_WIRE_LEN_def MAIL_HEADER_VALUE_LEN_def MAX_REQUEST_def
  MAX_TAG_VALUE_def INITIALIZE_VALUE_LEN_def pending.simps pending_default_def mail_server.simps mail_response.simps
  channel_response.simps final_message_def mail_status.simps mail_status_repr.simps READ_NEW_OPERATION_def
  mail_status_filter.simps mail_order.simps select_control.simps s_request.simps outgoing.simps mail_header_rec.simps
  mail_server_new_def select_control_parse_def reads_new_mail_def s_request_parse_def valid_i_request_def
  mail_text_def body_before_terminator.simps outgoing_body_def outgoing_parse_def as_new_message_def
  fits_vipc_payload_def mail_header_encode_def mail_header_def tagged_record_def empty_mail_result_def list_line_def
  mailbox_list_def mail_detail_def accept_outgoing_def mail_read_def detail_or_empty_def mail_select.simps
  channel_answer_def set_pending_def mail_process_def

lemmas vipc_eval [eval] = strip_suffix_def tlv_all_records_valid_def count_valid.simps CLASS_VFS_def CLASS_MAIL_def
  CLASS_BROADCAST_def CLASS_SENTRY_def platform.simps shared.simps vipc.simps fs_proxy_new_def vipc_new_def
  pl_backend_def sync_backend_def vipc_vfs_request_def vipc_process_message_def

lemmas mail_test_client_eval [eval] = STORED_BODY_def test_mail_server_def test_outgoing_def with_one_message_def
  stored_message_def ALL_TAGS_def detail_query_def mail_request_def mail_answer_def session_initialize_encode_def
  LIST_QUERY_def answers_with_def read_new_query_def record_tags.simps broadcast_request_def test_vipc_def
  outgoing_message_to_bytes_def response_bytes_def

lemmas mail_test_eval [eval] = initializes_session_from_observed_payload_def assembles_transport_fragments_def
  drops_interleaved_connection_def rejects_malformed_commands_def completes_initial_server_message_drain_def
  rejects_transport_error_def an_empty_mailbox_lists_nothing_def returns_the_stored_mail_list_def
  returns_complete_mail_for_detail_query_def a_detail_query_for_an_unknown_id_returns_nothing_def
  returns_stored_mail_once_for_read_new_query_def read_new_state_does_not_hide_mail_from_normal_detail_query_def
  returns_each_mailbox_item_in_its_own_response_def accepts_outgoing_mail_and_selects_it_by_id_def
  accepts_outgoing_mail_with_a_stale_tail_def read_new_iterates_all_mail_then_terminates_def
  a_mailbox_is_not_shared_between_accounts_def answers_initialization_def keeps_the_connection_id_of_the_request_def
  ignores_continuation_fragments_def ignores_frames_reporting_an_error_def ignores_unknown_frames_def

lemma mail_session_tests:
  "initializes_session_from_observed_payload \<and> assembles_transport_fragments \<and>
   drops_interleaved_connection \<and> rejects_malformed_commands \<and>
   completes_initial_server_message_drain \<and> rejects_transport_error"
  by (simp only: eval cong: eval_cong)

lemma stored_mail_tests:
  "an_empty_mailbox_lists_nothing \<and> returns_the_stored_mail_list \<and>
   returns_complete_mail_for_detail_query \<and> a_detail_query_for_an_unknown_id_returns_nothing \<and>
   returns_stored_mail_once_for_read_new_query \<and> read_new_state_does_not_hide_mail_from_normal_detail_query"
  by (simp only: eval cong: eval_cong)

lemma stored_mail_tests_2:
  "returns_each_mailbox_item_in_its_own_response \<and> accepts_outgoing_mail_and_selects_it_by_id \<and>
   accepts_outgoing_mail_with_a_stale_tail \<and> read_new_iterates_all_mail_then_terminates \<and>
   a_mailbox_is_not_shared_between_accounts"
  by (simp only: eval cong: eval_cong)

lemma broadcast_tests:
  "answers_initialization \<and> keeps_the_connection_id_of_the_request \<and>
   ignores_continuation_fragments \<and> ignores_frames_reporting_an_error \<and> ignores_unknown_frames"
  by (simp only: eval cong: eval_cong)

text \<open>The message that is too large.\<close>

lemma large_mail_parse:
  "outgoing_parse (test_outgoing (bstr ''Large'') (replicate 40000 0x78)) =
     Some \<lparr>og_recipient = bstr ''GUEST'', og_subject = bstr ''Large'', og_body = replicate 40000 0x78\<rparr>"
proof -
  have tags: "TAG_RECIPIENT \<noteq> TAG_SUBJECT" "TAG_RECIPIENT \<noteq> TAG_BODY" "TAG_SUBJECT \<noteq> TAG_BODY" "TAG_BODY \<noteq> TAG_RECIPIENT"
    by (simp_all add: TAG_RECIPIENT_def TAG_SUBJECT_def TAG_BODY_def)
  have plain: "mail_text v = Some v" if "is_ascii v" for v
    using that ascii_utf8 by (simp add: mail_text_def from_utf8_def)
  have ascii: "is_ascii (bstr ''GUEST'')" "is_ascii (bstr ''Large'')" "is_ascii (replicate 40000 (0x78 :: byte))"
    by (simp_all add: is_ascii_def bstr_def list_all_iff)
  have data: "test_outgoing (bstr ''Large'') (replicate 40000 0x78) =
      marker_u16_record RECORD_MARKER TAG_RECIPIENT (bstr ''GUEST'') @ marker_u16_record RECORD_MARKER TAG_SUBJECT (bstr ''Large'')
      @ marker_u16_record RECORD_MARKER TAG_BODY (replicate 40000 0x78) @ marker_u16_record RECORD_MARKER TAG_TERMINATOR []"
    by (simp add: test_outgoing_def tagged_record_def app_frame_record[symmetric] TAG_RECIPIENT_def TAG_SUBJECT_def
        TAG_BODY_def bstr_def)
  have items: "tlv_items (tlv_marker_u16 (test_outgoing (bstr ''Large'') (replicate 40000 0x78)) RECORD_MARKER) =
      [Inr \<lparr>entry_tag = TAG_RECIPIENT, entry_value = bstr ''GUEST''\<rparr>, Inr \<lparr>entry_tag = TAG_SUBJECT, entry_value = bstr ''Large''\<rparr>,
       Inr \<lparr>entry_tag = TAG_BODY, entry_value = replicate 40000 0x78\<rparr>, Inr \<lparr>entry_tag = TAG_TERMINATOR, entry_value = []\<rparr>]"
    using marker_u16_items[of "[]" RECORD_MARKER TAG_TERMINATOR "[]"]
    by (simp add: data tlv_marker_u16_def marker_u16_items)
  show ?thesis
    using plain[OF ascii(1)] plain[OF ascii(2)] plain[OF ascii(3)] tags
    by (simp add: outgoing_parse_def tlv_find_tag_def outgoing_body_def tlv_well_formed_prefix_def items
        List.map_filter_simps(1))
qed

lemma large_mail_test: "rejects_mail_that_cannot_fit_in_one_vipc_response"
proof -
  let ?d = "test_outgoing (bstr ''Large'') (replicate 40000 0x78)"
  have refused: "accept_outgoing ?d mail conn = (False, conn)" for mail conn
    by (simp add: accept_outgoing_def large_mail_parse fits_vipc_payload_iff detail_length_def)
  have "rejects_mail_that_cannot_fit_in_one_vipc_response =
      expect test_mail_server (\<lambda>(mail, conn). expect_ok (fst (list_mail (mv_owner_id mail) conn)) (\<lambda>ms. ms = []))"
    unfolding rejects_mail_that_cannot_fit_in_one_vipc_response_def by (simp only: refused prod.case simp_thms)
  also have "\<dots>" by (simp only: eval cong: eval_cong)
  finally show ?thesis .
qed

lemmas dispatch_test_eval [eval] = serializes_mail_initialization_response_def
  serializes_broadcast_initialization_response_def ignores_unknown_broadcast_frames_def
  serializes_initial_message_drain_response_def serializes_sentry_variant_response_def
  serializes_sentry_add_user_response_def serializes_empty_mail_list_response_def

lemma dispatch_tests:
  assumes "dir_manager_new (pl_xattr pl) Locked root h = (Inr dm, h')"
  shows "serializes_mail_initialization_response pl root h"
    "serializes_broadcast_initialization_response pl root h"
    "ignores_unknown_broadcast_frames pl root h"
    "serializes_initial_message_drain_response pl root h"
    "serializes_sentry_variant_response pl root h"
    "serializes_sentry_add_user_response pl root h"
    "serializes_empty_mail_list_response pl root h"
  by (simp_all only: eval assms cong: eval_cong)

end
