(* ===== verification/Session_Tests.thy ===== *)
theory Session_Tests
  imports Session Sentry_Tests
begin

text \<open>
  The tests of server/mod.rs, translated over the model. The loopback pair is the socket of the session: what the
  session wrote and the peer has not read yet are the bytes of its half. The fixture opens a directory
  manager, so the tests on a session hold for every directory it opens.
\<close>

section \<open>The loopback\<close>

definition loopback :: "platform \<Rightarrow> path_buf \<Rightarrow> host \<Rightarrow> u16 \<Rightarrow> session_state option" where
  "loopback pl root h seq_state =
     (case next_initial_seq_number seq_state of (initial_seq_number, seq_state) \<Rightarrow>
        (case dir_manager_new (pl_xattr pl) Locked root h of
           (Inl e, h) \<Rightarrow> None
         | (Inr vfs_root, h) \<Rightarrow>
             (case connection_id_acquire (pl_ne pl) (id_map_new TYPE(8)) of
                None \<Rightarrow> None
              | Some (connection_id, pool) \<Rightarrow>
                  Some (\<lparr>ss_client = vec_stream, ss_connection_id = connection_id,
                         ss_last_seq_number = initial_seq_number, ss_recv_sequence = initial_seq_number, ss_vipc = None\<rparr>,
                        \<lparr>sh_db = demo_database, sh_dirman = vfs_root, sh_host = h\<rparr>))))"

definition read_response :: "session_state \<Rightarrow> (bytes \<times> session_state) option" where
  "read_response st =
     (case st of (s, sh) \<Rightarrow>
        (case read_from_io (slice_stream (sent (ss_client s))) of
           Inl e \<Rightarrow> None
         | Inr (raw, peer) \<Rightarrow>
             (case frame_try_from_raw raw of
                Inl e \<Rightarrow> None
              | Inr f \<Rightarrow>
                  (case frame_body f of
                     Data data \<Rightarrow> Some (data, s\<lparr>ss_client := (ss_client s)\<lparr>sent := in_bytes peer\<rparr>\<rparr>, sh)
                   | _ \<Rightarrow> None))))"

definition connect_status :: "session_state \<Rightarrow> (u16 \<times> session_state) option" where
  "connect_status st =
     (case connect 1 (bstr ''Sentry'') st of
        (Inl e, st) \<Rightarrow> None
      | (Inr _, st) \<Rightarrow> map_option (\<lambda>(body, st). (u16_of_le (body ! 6) (body ! 7), st)) (read_response st))"

definition sign_on_status :: "bytes \<Rightarrow> session_state \<Rightarrow> (u16 \<times> session_state) option" where
  "sign_on_status password st =
     (case sign_on (sign_on_properties (bstr ''GRiD'') (bstr ''Systems'') (bstr ''MANAGER'') password) st of
        (Inl e, st) \<Rightarrow> None
      | (Inr _, st) \<Rightarrow> map_option (\<lambda>(body, st). (u16_of_le (body ! 2) (body ! 3), st)) (read_response st))"

text \<open>A read that would block: nothing is on its way.\<close>

definition assert_silent :: "session_state \<Rightarrow> bool" where
  "assert_silent st \<longleftrightarrow> sent (ss_client (fst st)) = []"

section \<open>The gate\<close>

definition refuses_a_connect_before_sign_on :: "platform \<Rightarrow> path_buf \<Rightarrow> host \<Rightarrow> u16 \<Rightarrow> bool" where
  "refuses_a_connect_before_sign_on pl root h seq_state =
     expect (loopback pl root h seq_state) (\<lambda>st.
     expect (connect_status st) (\<lambda>(status, st). status = STATUS_NOT_SIGNED_ON))"

definition refuses_a_connect_after_a_failed_sign_on :: "platform \<Rightarrow> path_buf \<Rightarrow> host \<Rightarrow> u16 \<Rightarrow> bool" where
  "refuses_a_connect_after_a_failed_sign_on pl root h seq_state =
     expect (loopback pl root h seq_state) (\<lambda>st.
     expect (sign_on_status (bstr ''WRONG'') st) (\<lambda>(status, st). status = STATUS_INVALID_PASSWORD \<and>
     expect (connect_status st) (\<lambda>(status, st). status = STATUS_NOT_SIGNED_ON)))"

definition accepts_a_connect_once_signed_on :: "platform \<Rightarrow> path_buf \<Rightarrow> host \<Rightarrow> u16 \<Rightarrow> bool" where
  "accepts_a_connect_once_signed_on pl root h seq_state =
     expect (loopback pl root h seq_state) (\<lambda>st.
     expect (sign_on_status (bstr ''MANAGER'') st) (\<lambda>(status, st). status = STATUS_OK \<and>
     expect (connect_status st) (\<lambda>(status, st). status = STATUS_OK)))"

definition signing_off_closes_the_gate_again :: "platform \<Rightarrow> path_buf \<Rightarrow> host \<Rightarrow> u16 \<Rightarrow> bool" where
  "signing_off_closes_the_gate_again pl root h seq_state =
     expect (loopback pl root h seq_state) (\<lambda>st.
     expect (sign_on_status (bstr ''MANAGER'') st) (\<lambda>(status, st). status = STATUS_OK \<and>
     (case sign_off st of (r, st) \<Rightarrow> is_ok r \<and>
     expect (connect_status st) (\<lambda>(status, st). status = STATUS_NOT_SIGNED_ON))))"

definition drops_a_message_before_sign_on :: "platform \<Rightarrow> path_buf \<Rightarrow> host \<Rightarrow> u16 \<Rightarrow> bool" where
  "drops_a_message_before_sign_on pl root h seq_state =
     expect (loopback pl root h seq_state) (\<lambda>st.
     case process_msg pl \<lparr>local_path_id = 1, remote_path_id = 1\<rparr> [0xFF, 0xFF, 0, 0, 0, 0] st of (r, st) \<Rightarrow>
       is_ok r \<and> assert_silent st)"

section \<open>Sign-on\<close>

definition accepts_a_known_user_and_reports_their_authority :: bool where
  "accepts_a_known_user_and_reports_their_authority =
     expect_ok (fst (authenticate (sign_on_properties (bstr ''GRiD'') (bstr ''Systems'') (bstr ''MANAGER'') (bstr ''MANAGER''))
                       demo_database)) (\<lambda>account. ac_authority account = SYSTEM_ADMIN)"

definition accepts_a_known_user_whatever_the_case_of_the_names :: bool where
  "accepts_a_known_user_whatever_the_case_of_the_names =
     expect_ok (fst (authenticate (sign_on_properties (bstr ''grid'') (bstr ''demo'') (bstr ''guest'') (bstr ''GUEST''))
                       demo_database)) (\<lambda>account. ac_user account = bstr ''GUEST'' \<and> ac_authority account = NORMAL)"

definition rejects_a_wrong_password :: bool where
  "rejects_a_wrong_password =
     (fst (authenticate (sign_on_properties (bstr ''GRiD'') (bstr ''Systems'') (bstr ''MANAGER'') (bstr ''WRONG'')) demo_database) =
        Inl STATUS_INVALID_PASSWORD)"

definition rejects_an_unknown_user :: bool where
  "rejects_an_unknown_user =
     (fst (authenticate (sign_on_properties (bstr ''GRiD'') (bstr ''Demo'') (bstr ''NOBODY'') []) demo_database) =
        Inl STATUS_UNKNOWN_USER)"

definition refuses_to_sign_on_as_a_group :: bool where
  "refuses_to_sign_on_as_a_group =
     (fst (authenticate (sign_on_properties (bstr ''GRiD'') (bstr ''Systems'') [] []) initial_database) =
        Inl STATUS_PROPERTY_MISSING)"

section \<open>The tests hold\<close>

lemmas session_test_eval [eval] = accepts_a_known_user_and_reports_their_authority_def
  accepts_a_known_user_whatever_the_case_of_the_names_def rejects_a_wrong_password_def rejects_an_unknown_user_def
  refuses_to_sign_on_as_a_group_def

lemma authenticate_tests:
  "accepts_a_known_user_and_reports_their_authority \<and> accepts_a_known_user_whatever_the_case_of_the_names \<and>
   rejects_a_wrong_password \<and> rejects_an_unknown_user \<and> refuses_to_sign_on_as_a_group"
  by (simp only: eval cong: eval_cong)

text \<open>The peer reads back the body the session answers with.\<close>

lemma respond_read_back:
  assumes "ss_client s = vec_stream" "data_frame_response_write_into r [] = Inr body" "length body \<le> 512"
  shows "\<exists>st'. respond r (s, sh) = (Inr (), st') \<and>
    read_response st' = Some (body, s\<lparr>ss_last_seq_number := ss_last_seq_number s + 1\<rparr>, sh)"
proof -
  let ?f = "frame_data EOM_FLAG_ON (ss_last_seq_number s + 1) body"
  have l: "length (frame_write_into ?f []) \<le> MAX_FRAME_SIZE"
    using assms(3) by (simp add: frame_write_into_def frame_data_def MAX_FRAME_SIZE_def)
  have "frame_try_from_raw \<lparr>raw_data = frame_write_into ?f []\<rparr> = Inr ?f" by (rule frame_parse_write) simp
  moreover have "frame_body ?f = Data body" by (simp add: frame_data_def)
  moreover have "s\<lparr>ss_client := vec_stream, ss_last_seq_number := n\<rparr> = s\<lparr>ss_last_seq_number := n\<rparr>" for n
    using assms(1) by (cases s) simp
  ultimately show ?thesis
    using assms(1,2) read_frame_bytes[OF l, of "[]" UnexpectedEofKind]
    by (simp add: respond_def write_response_def write_data_to_io_unlimited read_response_def Let_def)
qed

lemma connect_status_eq:
  assumes "ss_client s = vec_stream"
  shows "connect_status (s, sh) =
    Some (if ss_vipc s \<noteq> None then STATUS_OK else STATUS_NOT_SIGNED_ON, s\<lparr>ss_last_seq_number := ss_last_seq_number s + 1\<rparr>, sh)"
proof -
  let ?status = "if ss_vipc s \<noteq> None then STATUS_OK else STATUS_NOT_SIGNED_ON"
  let ?r = "RespConnect \<lparr>local_path_id = 1, remote_path_id = 1\<rparr> ?status"
  define body where "body = u16_to_le (data_frame_response_repr ?r) @ u16_to_le 1 @ u16_to_le 1 @ u16_to_le ?status"
  have "data_frame_response_write_into ?r [] = Inr body" "length body \<le> 512"
    by (simp_all add: data_frame_response_write_into_def write_connect_header_def write_u16_def body_def Let_def)
  moreover have "u16_of_le (body ! 6) (body ! 7) = ?status"
    by (simp add: body_def u16_to_le_def nth_Cons')
  ultimately show ?thesis
    using respond_read_back[OF assms, of ?r body sh] by (auto simp: connect_status_def connect_def Let_def)
qed

lemma sign_on_status_eq:
  assumes "ss_client s = vec_stream" "sh_db sh = demo_database"
    "authenticate (sign_on_properties (bstr ''GRiD'') (bstr ''Systems'') (bstr ''MANAGER'') password) demo_database = (r, db)"
  shows "\<exists>s' sh'. sign_on_status password (s, sh) = Some (case r of Inl status \<Rightarrow> status | Inr account \<Rightarrow> STATUS_OK, s', sh') \<and>
    ss_client s' = vec_stream \<and> (ss_vipc s' = None \<longleftrightarrow> \<not> is_ok r \<and> ss_vipc s = None)"
proof -
  let ?status = "case r of Inl status \<Rightarrow> status | Inr account \<Rightarrow> STATUS_OK"
  let ?s = "case r of Inl status \<Rightarrow> s | Inr account \<Rightarrow> s\<lparr>ss_vipc := Some (vipc_new account (sh\<lparr>sh_db := db\<rparr>))\<rparr>"
  let ?r = "RespSignOn ?status SERVER_NAME"
  define body where "body = u16_to_le (data_frame_response_repr ?r) @ u16_to_le ?status @ [16] @ SERVER_NAME"
  have "sign_on (sign_on_properties (bstr ''GRiD'') (bstr ''Systems'') (bstr ''MANAGER'') password) (s, sh) =
      respond ?r (?s, sh\<lparr>sh_db := db\<rparr>)"
    using assms(2,3) by (cases r) (simp_all add: sign_on_def Let_def)
  moreover have "data_frame_response_write_into ?r [] = Inr body" "length body \<le> 512"
    by (simp_all add: data_frame_response_write_into_def write_u8_slice_Inr write_u16_def body_def SERVER_NAME_def Let_def)
  moreover have "u16_of_le (body ! 2) (body ! 3) = ?status"
    by (simp add: body_def u16_to_le_def nth_Cons')
  moreover have "ss_client ?s = vec_stream" using assms(1) by (cases r) simp_all
  moreover have "ss_vipc ?s = None \<longleftrightarrow> \<not> is_ok r \<and> ss_vipc s = None" by (cases r) simp_all
  ultimately show ?thesis
    using respond_read_back[of ?s ?r body "sh\<lparr>sh_db := db\<rparr>"] by (auto simp: sign_on_status_def)
qed

lemma loopback_opens:
  assumes "simd_ne_spec (pl_ne pl)" "dir_manager_new (pl_xattr pl) Locked root h = (Inr dm, h')"
  shows "\<exists>s sh. loopback pl root h seq_state = Some (s, sh) \<and> ss_client s = vec_stream \<and> ss_vipc s = None \<and> sh_db sh = demo_database"
proof -
  have "id_map_find_free (pl_ne pl) (id_map_new TYPE(8)) = Some (1 :: byte)"
    by (rule find_free_least[OF assms(1) wf_new]) (simp_all add: used_new)
  then show ?thesis
    using assms(2) by (simp add: loopback_def connection_id_acquire_def next_initial_seq_number_def Let_def)
qed

text \<open>The two sign-ons of the tests.\<close>

lemma manager_signs_on:
  "\<exists>account db. authenticate (sign_on_properties (bstr ''GRiD'') (bstr ''Systems'') (bstr ''MANAGER'') (bstr ''MANAGER'')) demo_database =
     (Inr account, db)"
  using authenticate_tests
  by (cases "authenticate (sign_on_properties (bstr ''GRiD'') (bstr ''Systems'') (bstr ''MANAGER'') (bstr ''MANAGER'')) demo_database")
    (auto simp: accepts_a_known_user_and_reports_their_authority_def split: sum.splits)

lemma wrong_password_refused:
  "\<exists>db. authenticate (sign_on_properties (bstr ''GRiD'') (bstr ''Systems'') (bstr ''MANAGER'') (bstr ''WRONG'')) demo_database =
     (Inl STATUS_INVALID_PASSWORD, db)"
  using authenticate_tests
  by (cases "authenticate (sign_on_properties (bstr ''GRiD'') (bstr ''Systems'') (bstr ''MANAGER'') (bstr ''WRONG'')) demo_database")
    (auto simp: rejects_a_wrong_password_def)

lemma session_tests:
  assumes "simd_ne_spec (pl_ne pl)" "dir_manager_new (pl_xattr pl) Locked root h = (Inr dm, h')"
  shows "refuses_a_connect_before_sign_on pl root h seq_state"
    "refuses_a_connect_after_a_failed_sign_on pl root h seq_state"
    "accepts_a_connect_once_signed_on pl root h seq_state"
    "signing_off_closes_the_gate_again pl root h seq_state"
    "drops_a_message_before_sign_on pl root h seq_state"
proof -
  obtain s sh where lb: "loopback pl root h seq_state = Some (s, sh)"
    and s: "ss_client s = vec_stream" "ss_vipc s = None" "sh_db sh = demo_database"
    using loopback_opens[OF assms] by blast
  obtain s1 sh1 where wrong: "sign_on_status (bstr ''WRONG'') (s, sh) = Some (STATUS_INVALID_PASSWORD, s1, sh1)"
    "ss_client s1 = vec_stream" "ss_vipc s1 = None"
    using wrong_password_refused sign_on_status_eq[OF s(1,3)] s(2) by fastforce
  obtain s2 sh2 where right: "sign_on_status (bstr ''MANAGER'') (s, sh) = Some (STATUS_OK, s2, sh2)"
    "ss_client s2 = vec_stream" "ss_vipc s2 \<noteq> None"
    using manager_signs_on sign_on_status_eq[OF s(1,3)] by fastforce
  show "refuses_a_connect_before_sign_on pl root h seq_state"
    using lb s by (simp add: refuses_a_connect_before_sign_on_def connect_status_eq)
  show "refuses_a_connect_after_a_failed_sign_on pl root h seq_state"
    using lb wrong by (simp add: refuses_a_connect_after_a_failed_sign_on_def connect_status_eq)
  show "accepts_a_connect_once_signed_on pl root h seq_state"
    using lb right by (auto simp: accepts_a_connect_once_signed_on_def connect_status_eq)
  show "signing_off_closes_the_gate_again pl root h seq_state"
    using lb right by (simp add: signing_off_closes_the_gate_again_def sign_off_def connect_status_eq)
  show "drops_a_message_before_sign_on pl root h seq_state"
    using lb s by (simp add: drops_a_message_before_sign_on_def process_msg_def assert_silent_def)
qed

end
