(* ===== verification/Spec2Isabelle.thy ===== *)
theory Spec2Isabelle
  imports Tlv_Records Link_Frame Data_Frame Vipc_Message File_Ids Server_Run Vfs_Tests Mail_Tests Session_Tests
begin

text \<open>
  A verification development for the GRiD Compass network server (\<^verbatim>\<open>src/Server/src\<close>), a server written in Rust for
  the GRiD Compass computers of 1982: over TCP it speaks their data link, signs users on, and offers them
  files, mail and account administration; a few web pages administer it from a browser.

  \<^bold>\<open>Parts and theories.\<close> Paths are relative to \<^verbatim>\<open>src/Server/src\<close>; each theory opens with what it holds.

  \<^item> Prelude, Wire_IO, Rust_Text, Tlv_Records, Id_Map (\<^verbatim>\<open>shared/\<close>): results and sequencing, byte cursors and streams that
    end or fill up, text of the standard library, tagged records, and the bitmap that hands out ids.
  \<^item> Raw_Frame, Link_Frame, Data_Frame (\<^verbatim>\<open>server/raw_frame.rs\<close>, \<^verbatim>\<open>frame.rs\<close>, \<^verbatim>\<open>data_frame.rs\<close>): framing with byte stuffing and
    a checksum, the frames of the link, and the requests a data frame carries.
  \<^item> Session, Server_Run (\<^verbatim>\<open>server/mod.rs\<close>, \<^verbatim>\<open>main.rs\<close>, \<^verbatim>\<open>env.rs\<close>): the record \<open>session\<close> with its sequence numbers and, once signed on,
    its services; \<open>process_frame\<close> and the loop of a worker; the whole server as the step relation \<open>server_step\<close> over
    the record \<open>server\<close>, and its start \<open>serve\<close>.
  \<^item> Vipc_Message, Vipc (\<^verbatim>\<open>vipc/message.rs\<close>, \<^verbatim>\<open>vipc/mod.rs\<close>): messages and their dispatch to the services of an account; the
    state all sessions share (database, directory manager, host) is the record \<open>shared\<close>.
  \<^item> Vfs_Types, Vfs_Protocol, Vfs_Server (\<^verbatim>\<open>vfs/backend.rs\<close>, \<^verbatim>\<open>vfs/error.rs\<close>, \<^verbatim>\<open>vipc/vfs/\<close>): the file service, its wire protocol and its table
    of connections, over any backend.
  \<^item> Grid_Names, Grid_Descriptor, Grid_File (\<^verbatim>\<open>vfs/file/\<close>): GRiD paths and names, dates, descriptors, and files with a
    header and properties in front of their contents.
  \<^item> Host_Fs, Dir_Manager, Fs_Proxy, Fs_Confinement, File_Ids (\<^verbatim>\<open>vfs/dirmanager.rs\<close>, \<^verbatim>\<open>vfs/fsproxy.rs\<close>): the host, the virtual disks on it with their
    file ids, the backend on these disks, what a request on it may change, and that no two objects of a disk share an id.
  \<^item> Db_Users, Db_Mailbox (\<^verbatim>\<open>db/\<close>): the four tables as lists of rows, one function per SQL statement.
  \<^item> Mail_Protocol, Post_Office (\<^verbatim>\<open>vipc/mail/\<close>): the mail and broadcast services.
  \<^item> Sentry (\<^verbatim>\<open>vipc/sentry.rs\<close>): account administration and its permission checks.
  \<^item> Web_Admin (\<^verbatim>\<open>web/mod.rs\<close>): the administration pages.
  \<^item> Test_Support, Wire_Tests, File_Tests, Vfs_Tests, Sentry_Tests, Mail_Tests, Session_Tests (the \<open>tests\<close> modules and \<^verbatim>\<open>vipc/mail/tests.rs\<close>):
    the unit tests of the sources over the model.

  \<^bold>\<open>How the code is modelled.\<close> A struct is a record, an enum a datatype, an operation one definition with the same
  branches in the same order; operations on shared state take it as their last argument and return it. Errors are the
  left side of a sum. Machine integers are words of their width, except lengths and positions, which are naturals with
  the limits of the sources written out. Text and byte strings are lists of bytes.

  \<^bold>\<open>Interfaces.\<close> \<open>id_pool\<close> and \<open>simd_compare\<close> (Id_Map) say what an id allocator promises, for both widths of the bitmap. \<open>record_dialect\<close>
  (Tlv_Records) is shared by both encodings of tagged records. \<open>bounded_backend\<close> (Vfs_Server) bounds what a backend answers, and
  \<open>confined_backend\<close> (Fs_Confinement) says that it keeps to its own places; the backend on the host discharges both. \<open>session_effect\<close> (Session) lifts a relation kept by sign-ons and messages
  to frames and whole sessions; Server_Run interprets it for the invariant of the services, for the schema of the
  database and for the stored mail.

  \<^bold>\<open>What is shown.\<close> On the wire: what is written is read back, encodings are accepted exactly, two corrupted neighbouring
  bytes that involve no DLE are refused.
  In a session: nothing is reached before sign-on, sign-on is exact, repeating the frames of a numbered sequence has no effect, a file
  request is answered, the loop ends. In the server: connection ids are never shared nor lost; in every reachable state all services of a
  session act for one account, and no session touches the user disk of another. In the file service: it refines a table
  of connections, connections do not interfere, connection ids do not leak and file ids stay unique, responses fit, directory pages are complete, file
  headers survive every sequence of operations and properties every one that writes behind them. In the directory: the Sentry refines a permission policy and never
  raises authority, listings give exactly the rows of the scope, web requests only add users. In the mail: fragments reassemble, mailboxes are
  private, delivery and reading are exact. The last properties of the list show where the code does not do what it means
  to: mail that is acknowledged and dropped, ids of deleted users that come back with
  the disk they name, names the listing cannot write, accounts created outside the own scope, passwords of higher
  accounts that a group administrator may replace, files that opening creates and then refuses.

  \<^bold>\<open>The unit tests.\<close> Every test of the sources except the validation of the database migrations is a definition of
  type \<open>bool\<close> over the same definitions the theorems are about, under the name of the test function, and a lemma says that it
  holds. A test is the conjunction of its assertions along the states it passes through, and a panic makes it false. The
  tests without variables are decided by rewriting with the collection \<open>eval\<close>; the tests that need a directory on the host, the
  time or the vector comparison hold for every one that keeps to its specification. So what the authors pin down by example is
  checked of the model: a definition that departs from the code where a test looks makes a lemma fail.

  \<^bold>\<open>Parameters.\<close> Code outside the repository is an argument: the vector comparison of \<^verbatim>\<open>wide\<close> (\<open>simd_ne\<close>, with \<open>simd_ne_spec\<close>),
  extended attributes of \<^verbatim>\<open>xattr\<close> (\<open>xattr_api\<close>, with \<open>xattr_keeps_nodes\<close> and \<open>xattr_spec\<close>), the time zone of \<^verbatim>\<open>jiff\<close> (\<open>pl_zone\<close>), form decoding and templates
  (\<open>web_api\<close>). SQLite and the host may fail at any statement and any call: the scripts \<open>db_faults\<close> and \<open>host_script\<close> decide
  when, and the properties hold for all scripts unless they say that everything answers.

  \<^bold>\<open>Bounds.\<close> Loops over streams terminate because every round consumes input, so no fuel is involved. The walk over
  the tree of a disk recurses to the depth \<open>walk_fuel\<close>, one more than the longest path of the host, which no
  directory exceeds. Of the tests, the clients that walk a listing take at most 32 steps, the one that reads a file to its
  end 8 reads and the one that reads the records of a response 8 records; with less than they need the test would be false, and it is shown to hold.

  \<^bold>\<open>Not modelled.\<close> Sessions interleave frame by frame: the interleaving of single statements inside two requests, and what the mutexes
  of the sources do about it, is left out. Log texts, the scratch buffers of a session, module declarations, opening of
  the SQLite file and the HTTP server itself have no definitions. Symbolic links and changes made to the host behind
  the server are excluded. Reading a directory is one call of the host, so that a failure at any of its entries is the failure
  of the whole, as it is for the caller. Row ids are integers without the bound of SQLite, which no table reaches;
  names are compared without case over all their bytes, where SQLite stops comparing at a NUL byte; the target of a seek
  from the start of a file is a natural number, as no request carries one beyond 32 bits. Sign-on properties are lists of
  values in memory: that the wire carries at most 255 bytes of each is in the parser of Data_Frame and not in
  \<open>authenticate\<close>. The test of the migrations is a call of the migration library on SQL text, which has no
  model. The historical sources and the modem driver of the client that the repository also holds are not modelled.
\<close>

text \<open>Properties that span the web pages, the database and sign-on follow.\<close>

section \<open>Users created, deleted and signed on\<close>

definition sign_on_as :: "bytes \<Rightarrow> bytes \<Rightarrow> bytes \<Rightarrow> bytes \<Rightarrow> sign_on_property list" where
  "sign_on_as company grp user password =
     [\<lparr>property_ty = PROPERTY_COMPANY, property_value = company\<rparr>, \<lparr>property_ty = PROPERTY_GROUP, property_value = grp\<rparr>,
      \<lparr>property_ty = PROPERTY_USER, property_value = user\<rparr>, \<lparr>property_ty = PROPERTY_PASSWORD, property_value = password\<rparr>]"

lemma sign_on_as_values:
  "property_of (sign_on_as c g u p) PROPERTY_COMPANY = c" "property_of (sign_on_as c g u p) PROPERTY_GROUP = g"
  "property_of (sign_on_as c g u p) PROPERTY_USER = u" "property_of (sign_on_as c g u p) PROPERTY_PASSWORD = p"
  by (simp_all add: property_of_def sign_on_as_def PROPERTY_COMPANY_def PROPERTY_GROUP_def PROPERTY_USER_def PROPERTY_PASSWORD_def)

abbreviation form_sign_on :: "new_user \<Rightarrow> sign_on_property list" where
  "form_sign_on form \<equiv> sign_on_as (nu_company form) (nu_group form) (nu_user form) (nu_password form)"

text \<open>What a browser and a client can both spell: names that are there, and text.\<close>

definition spelled :: "new_user \<Rightarrow> bool" where
  "spelled form \<longleftrightarrow> list_all (\<lambda>n. n \<noteq> [] \<and> utf8_valid n) [nu_company form, nu_group form, nu_user form]"

lemma created_user_authenticates:
  assumes "db_wf db" "db_faults db = []" "acceptable form db" "spelled form"
    "(g, c) \<in> set (named_groups db (nu_company form) (nu_group form))"
  shows "authenticate (sign_on_as (nu_company form) (nu_group form) (nu_user form) p) (snd (create_user form db)) =
    (if p = nu_password form then Inr (user_account (new_user_row (gr_id g) form db, g, c)) else Inl STATUS_INVALID_PASSWORD,
     snd (create_user form db))"
proof -
  let ?ps = "sign_on_as (nu_company form) (nu_group form) (nu_user form) p"
  let ?x = "(new_user_row (gr_id g) form db, g, c)"
  let ?db = "db\<lparr>db_users := db_users db @ [new_user_row (gr_id g) form db]\<rparr>"
  have cr: "snd (create_user form db) = ?db" using create_user_accepted[OF assms(1-3,5)] by simp
  have "db = db\<lparr>db_faults := []\<rparr>" using assms(2) by simp
  then have "user_created form db ?db" using assms(3,5) unfolding user_created_def by metis
  then have wf: "db_wf ?db" using user_created_wf assms(1) by blast
  have x: "?x \<in> signing_users ?ps ?db"
    using assms(5) by (auto simp: signing_users_def sign_on_as_values set_named_users set_named_groups new_user_row_def)
  have n: "list_all (\<lambda>n. n \<noteq> [] \<and> utf8_valid n) (sign_on_names ?ps)"
    using assms(4) by (simp add: sign_on_names_def sign_on_as_values spelled_def)
  show ?thesis
    using authenticate_complete[OF wf _ n x] assms(2) by (auto simp: cr sign_on_as_values new_user_row_def)
qed





lemma sample_form_spelled: "spelled sample_form"
  by code_simp

text \<open>C19: a user created on the administration page can sign on at once: with the names and the password of the
  form \<open>authenticate\<close> gives a new account that has the authority the form gave it, an unlimited quota
  and an id no account had before; with any other password it does not. The wire carries at most 255 bytes of each value.\<close>

theorem created_user_signs_on:
  assumes "db_wf db" "db_faults db = []" "acceptable form db" "spelled form"
  shows "\<exists>a. authenticate (form_sign_on form) (snd (create_user form db)) = (Inr a, snd (create_user form db)) \<and>
    ac_user a = nu_user form \<and> ac_authority a = nu_authority form \<and> ac_quota a = NEW_USER_QUOTA \<and>
    ac_id a \<notin> us_id ` set (db_users db) \<and>
    (\<forall>p. p \<noteq> nu_password form \<longrightarrow>
      fst (authenticate (sign_on_as (nu_company form) (nu_group form) (nu_user form) p) (snd (create_user form db))) =
        Inl STATUS_INVALID_PASSWORD)"
proof -
  obtain g c where g: "(g, c) \<in> set (named_groups db (nu_company form) (nu_group form))"
    using assms(3) by (metis acceptable_def list.set_intros(1) neq_Nil_conv surj_pair)
  let ?a = "user_account (new_user_row (gr_id g) form db, g, c)"
  have "ac_user ?a = nu_user form \<and> ac_authority ?a = nu_authority form \<and> ac_quota ?a = NEW_USER_QUOTA \<and>
      ac_id ?a \<notin> us_id ` set (db_users db)"
    using next_rowid_fresh[of "map us_id (db_users db)"] by (simp add: user_account_def new_user_row_def)
  then show ?thesis
    using created_user_authenticates[OF assms g] by (intro exI[of _ ?a]) simp
qed

theorem created_user_signs_on_witness:
  "\<exists>a. fst (authenticate (form_sign_on sample_form) (snd (create_user sample_form initial_database))) = Inr a \<and>
     ac_user a = bstr ''Lenin'' \<and> ac_authority a = 20"
  using created_user_signs_on[OF db_wf_initial initial_answers sample_form_acceptable sample_form_spelled]
  by (auto simp: sample_form_def)



end
